(* ===== verification/Prelude.thy ===== *)
theory Prelude
  imports Main "HOL-Library.Word" "HOL-Library.Monad_Syntax"
begin

text \<open>
  Shared vocabulary of the development: the machine integers of the 32-bit target, byte
  memories with bounds-checked access (a failed access is \<^const>\<open>None\<close>, so that an
  out-of-bounds read or write of the C++ code is a visible result of the model), the byte
  strings of C literals, and the generic facts on lists, options and words the component
  theories share.
\<close>

unbundle bit_operations_syntax

section \<open>Types\<close>

type_synonym u8 = "8 word"
type_synonym u16 = "16 word"
type_synonym u32 = "32 word"
type_synonym u64 = "64 word"
type_synonym bytes = "8 word list"

named_theorems mem_simps \<open>unfolding of successful memory accesses\<close>

section \<open>Byte memories\<close>

text \<open>\<open>m[i]\<close> as an r-value, \<open>m[i] = v\<close>, and \<open>memcpy(&m[at], src, n)\<close>
  with \<open>src\<close> the \<open>n\<close> bytes copied.\<close>

definition mem_read :: "bytes \<Rightarrow> nat \<Rightarrow> u8 option" where
  "mem_read m i = (if i < length m then Some (m ! i) else None)"

definition mem_write :: "bytes \<Rightarrow> nat \<Rightarrow> u8 \<Rightarrow> bytes option" where
  "mem_write m i v = (if i < length m then Some (m[i := v]) else None)"

definition blit :: "bytes \<Rightarrow> nat \<Rightarrow> bytes \<Rightarrow> bytes" where
  "blit m at src = take at m @ src @ drop (at + length src) m"

definition mem_copy :: "bytes \<Rightarrow> nat \<Rightarrow> bytes \<Rightarrow> bytes option" where
  "mem_copy m at src = (if at + length src \<le> length m then Some (blit m at src) else None)"

definition mem_slice :: "bytes \<Rightarrow> nat \<Rightarrow> nat \<Rightarrow> bytes option" where
  "mem_slice m off n = (if off + n \<le> length m then Some (take n (drop off m)) else None)"

text \<open>The bytes of a C literal, and the C string that starts at an offset of a memory.\<close>

definition ascii :: "string \<Rightarrow> bytes" where
  "ascii s = map of_char s"

definition c_string :: "bytes \<Rightarrow> nat \<Rightarrow> bytes" where
  "c_string m off = takeWhile (\<lambda>b. b \<noteq> 0) (drop off m)"

lemma mem_read_Some [mem_simps]: "i < length m \<Longrightarrow> mem_read m i = Some (m ! i)"
  by (simp add: mem_read_def)

lemma mem_write_Some [mem_simps]: "i < length m \<Longrightarrow> mem_write m i v = Some (m[i := v])"
  by (simp add: mem_write_def)

lemma mem_copy_Some [mem_simps]:
  "at + length src \<le> length m \<Longrightarrow> mem_copy m at src = Some (blit m at src)"
  by (simp add: mem_copy_def)

lemma mem_slice_Some [mem_simps]:
  "off + n \<le> length m \<Longrightarrow> mem_slice m off n = Some (take n (drop off m))"
  by (simp add: mem_slice_def)

lemma length_blit [simp]: "at + length src \<le> length m \<Longrightarrow> length (blit m at src) = length m"
  by (simp add: blit_def)

lemma take_blit [simp]:
  "at + length src \<le> length m \<Longrightarrow> take (at + length src) (blit m at src) = take at m @ src"
  by (simp add: blit_def)

lemma blit_Nil [simp]: "blit m at [] = m"
  by (simp add: blit_def)

lemma ascii_simps [simp]: "ascii [] = []" "ascii (c # s) = of_char c # ascii s"
  by (simp_all add: ascii_def)

lemma ascii_append: "ascii (s @ t) = ascii s @ ascii t"
  by (simp add: ascii_def)

lemma length_ascii [simp]: "length (ascii s) = length s"
  by (simp add: ascii_def)

lemma takeWhile_zero: "0 \<notin> set a \<Longrightarrow> takeWhile (\<lambda>b. b \<noteq> 0) (a @ 0 # xs) = (a :: bytes)"
  by (induction a) auto

lemma c_string_prefix: "0 \<notin> set s \<Longrightarrow> take (length s + 1) m = s @ [0] \<Longrightarrow> c_string m 0 = s"
  using append_take_drop_id [of "length s + 1" m] takeWhile_zero [of s "drop (length s + 1) m"]
  by (simp add: c_string_def)

lemma three_updates:
  assumes "n + 2 < length m"
  shows "m[n := a, n + 1 := b, n + 2 := c] = take n m @ [a, b, c] @ drop (n + 3) m"
proof -
  have "m = take n m @ [m ! n, m ! (n + 1), m ! (n + 2)] @ drop (n + 3) m"
    using assms append_take_drop_id [of n m] Cons_nth_drop_Suc [of n m] Cons_nth_drop_Suc [of "n + 1" m]
      Cons_nth_drop_Suc [of "n + 2" m] by (simp add: eval_nat_numeral)
  moreover have "length (take n m) = n" using assms by simp
  ultimately obtain p x y z q where e: "p @ [x, y, z] @ q = m" "length p = n" "drop (n + 3) m = q" "take n m = p" by metis
  have "(p @ [x, y, z] @ q)[length p := a, length p + 1 := b, length p + 2 := c] = p @ [a, b, c] @ q"
    by (simp add: list_update_append)
  then show ?thesis unfolding e(1,2) e(3,4) .
qed

lemma ex_bool [simp]: "\<exists>b. b" "\<exists>b. \<not> b"
  by blast+

section \<open>Machine words\<close>

lemma unat_ucast_8_16 [simp]: "unat (ucast (b :: u8) :: u16) = unat b"
  by (simp add: unsigned_ucast_eq take_bit_nat_eq_self_iff order_less_le_trans [OF unsigned_less])

lemma unat_ucast_8_32 [simp]: "unat (ucast (b :: u8) :: u32) = unat b"
  by (simp add: unsigned_ucast_eq take_bit_nat_eq_self_iff order_less_le_trans [OF unsigned_less])

lemma unat_ucast_16_32 [simp]: "unat (ucast (b :: u16) :: u32) = unat b"
  by (simp add: unsigned_ucast_eq take_bit_nat_eq_self_iff order_less_le_trans [OF unsigned_less])

lemma unat_ucast_16_8 [simp]: "unat (ucast (b :: u16) :: u8) = unat b mod 256"
  by (simp add: unsigned_ucast_eq take_bit_eq_mod)

lemma unat_u8_less: "unat (b :: u8) < 256"
  using unsigned_less [of b, where ?'a = nat] by simp

lemma unat_u16_less: "unat (b :: u16) < 65536"
  using unsigned_less [of b, where ?'a = nat] by simp

lemma unat_u32_less: "unat (b :: u32) < 4294967296"
  using unsigned_less [of b, where ?'a = nat] by simp

lemma len_byte_7:
  fixes b :: u8
  assumes "b < 0x80"
  shows "b AND 0x7f = b" and "(b OR 0x80) AND 0x7f = b" and "b AND 0x80 = 0" and "(b OR 0x80) AND 0x80 \<noteq> 0"
proof -
  have "take_bit 7 b = b" using assms
    by (simp only: word_unat_eq_iff unsigned_take_bit_eq) (simp add: take_bit_nat_eq_self word_less_nat_alt)
  then show 1: "b AND 0x7f = b" by (simp add: take_bit_eq_mask mask_eq_exp_minus_1)
  then show "(b OR 0x80) AND 0x7f = b" by (simp add: bit.conj_disj_distrib2)
  have "b AND 0x80 = (b AND 0x7f) AND 0x80" using 1 by simp
  then show 2: "b AND 0x80 = 0" by (simp add: and.assoc)
  show "(b OR 0x80) AND 0x80 \<noteq> 0" by (simp add: bit.conj_disj_distrib2 2)
qed

lemma and_0x80_iff: "(b :: u8) AND 0x80 \<noteq> 0 \<longleftrightarrow> 128 \<le> unat b"
proof -
  have "b AND 0x80 \<noteq> 0 \<longleftrightarrow> bit b 7"
    using and_exp_eq_0_iff_not_bit [of b 7] by simp
  also have "\<dots> \<longleftrightarrow> bit (unat b) 7" by (simp add: bit_unsigned_iff)
  also have "\<dots> \<longleftrightarrow> 128 \<le> unat b"
  proof -
    have "unat b div 128 = (if 128 \<le> unat b then 1 else 0)"
      using unat_u8_less [of b] by (auto simp: div_nat_eqI)
    then show ?thesis by (simp add: bit_iff_odd)
  qed
  finally show ?thesis .
qed

lemma unat_and_0x7F: "unat ((b :: u8) AND 0x7F) = unat b mod 128"
proof -
  have "b AND 0x7F = take_bit 7 b" by (simp add: take_bit_eq_mask mask_eq_exp_minus_1)
  then show ?thesis by (simp only: unsigned_take_bit_eq) (simp add: take_bit_eq_mod)
qed

lemma u8_and_0xFF: "(x :: u8) AND 0xFF = x"
proof -
  have "x AND 0xFF = take_bit 8 x" by (simp add: take_bit_eq_mask mask_eq_exp_minus_1)
  moreover have "take_bit 8 x = x"
    by (rule word_unat_eq_iff [THEN iffD2])
      (simp only: unsigned_take_bit_eq, use unat_u8_less [of x] in \<open>simp add: take_bit_nat_eq_self\<close>)
  ultimately show ?thesis by simp
qed

text \<open>The 16-bit number of two bytes, most significant first: \<open>(hi << 8) + lo\<close>.\<close>

definition be16 :: "u8 \<Rightarrow> u8 \<Rightarrow> u16" where
  "be16 hi lo = push_bit 8 (ucast hi) + ucast lo"

lemma unat_be16: "unat (be16 hi lo) = 256 * unat hi + unat lo"
proof -
  have "unat (push_bit 8 (ucast hi :: u16)) = unat hi * 256"
    using unat_u8_less [of hi]
    by (simp only: unsigned_push_bit_eq) (simp add: push_bit_eq_mult take_bit_eq_mod)
  then show ?thesis
    using unat_u8_less [of hi] unat_u8_less [of lo]
    by (simp add: be16_def unat_word_ariths)
qed

text \<open>The two bytes of a 16-bit number: \<open>x >> 8\<close> and \<open>x & 0xff\<close>.\<close>

definition hi8 :: "u16 \<Rightarrow> u8" where
  "hi8 x = ucast (drop_bit 8 x)"

definition lo8 :: "u16 \<Rightarrow> u8" where
  "lo8 x = ucast (x AND 0xFF)"

lemma unat_hi8: "unat (hi8 x) = unat x div 256"
  using unat_u16_less [of x]
  by (simp only: hi8_def unat_ucast_16_8 unat_drop_bit_eq) (simp add: drop_bit_eq_div)

lemma unat_lo8: "unat (lo8 x) = unat x mod 256"
proof -
  have "x AND 0xFF = take_bit 8 x"
    by (simp add: take_bit_eq_mask mask_eq_exp_minus_1)
  then show ?thesis
    by (simp only: lo8_def unat_ucast_16_8 unsigned_take_bit_eq) (simp add: take_bit_eq_mod)
qed

lemma be16_hi8_lo8 [simp]: "be16 (hi8 x) (lo8 x) = x"
  by (rule word_unat_eq_iff [THEN iffD2]) (simp add: unat_be16 unat_hi8 unat_lo8)

end
