(* ===== verification/Stream_Decoder.thy ===== *)
theory Stream_Decoder
  imports Prelude
begin

text \<open>
  The interface between a protocol decoder and the TCP stream under it. A segment of the
  stream reaches a decoder (\<open>WebSocketHandler::decodeData\<close>,
  \<open>MQTTSocketHandler::on_recv\<close>) as one call with \<open>(data, len)\<close>, and how TCP cuts the
  stream into segments must not matter. The contract says so against a specification that
  reads one byte at a time: \<open>feed v b\<close> is the next abstract state and the observable output,
  \<^const>\<open>None\<close> where the stream violates the protocol. A decoder that meets the contract
  is independent of the segmentation, proved once here for every decoder.
\<close>

section \<open>The byte-wise specification and segmented runs\<close>

fun feed_all :: "('v \<Rightarrow> 'b \<Rightarrow> ('v \<times> 'o list) option) \<Rightarrow> 'v \<Rightarrow> 'b list \<Rightarrow> ('v \<times> 'o list) option" where
  "feed_all feed v [] = Some (v, [])"
| "feed_all feed v (b # bs) =
     (case feed v b of None \<Rightarrow> None
      | Some (v', os) \<Rightarrow>
          (case feed_all feed v' bs of None \<Rightarrow> None | Some (v'', os') \<Rightarrow> Some (v'', os @ os')))"

text \<open>One call per segment; the connection is closed at the first call that returns
  \<open>false\<close> (\<open>Session::lwip_recv\<close>), so the remaining segments are never seen.\<close>

fun run_segments :: "('s \<Rightarrow> 'b list \<Rightarrow> ('s \<times> 'e list \<times> bool) option) \<Rightarrow> 's \<Rightarrow> 'b list list \<Rightarrow>
    ('s \<times> 'e list \<times> bool) option" where
  "run_segments decode s [] = Some (s, [], True)"
| "run_segments decode s (xs # xss) =
     (case decode s xs of None \<Rightarrow> None
      | Some (s', es, ok) \<Rightarrow>
          if ok then (case run_segments decode s' xss of None \<Rightarrow> None
                      | Some (s'', es', ok') \<Rightarrow> Some (s'', es @ es', ok'))
          else Some (s', es, False))"

lemma run_segments_append:
  assumes "run_segments decode s (xss @ yss) = Some (s2, es, True)"
  shows "\<exists>s1 es1 es2. run_segments decode s xss = Some (s1, es1, True) \<and> run_segments decode s1 yss = Some (s2, es2, True) \<and>
    es = es1 @ es2"
  using assms
proof (induction xss arbitrary: s es)
  case (Cons xs xss)
  then obtain s1 es1 es2 where d: "decode s xs = Some (s1, es1, True)" "run_segments decode s1 (xss @ yss) = Some (s2, es2, True)"
    "es = es1 @ es2" by (auto split: option.splits prod.splits if_splits)
  from Cons.IH [OF d(2)] d(1,3) show ?case by fastforce
qed simp

lemma feed_all_append:
  "feed_all feed v (xs @ ys) =
     (case feed_all feed v xs of None \<Rightarrow> None
      | Some (v', os) \<Rightarrow>
          (case feed_all feed v' ys of None \<Rightarrow> None | Some (v'', os') \<Rightarrow> Some (v'', os @ os')))"
  by (induction xs arbitrary: v) (auto split: option.splits)

lemma feed_all_append_Some:
  "feed_all feed v xs = Some (v', os) \<Longrightarrow>
   feed_all feed v (xs @ ys) = map_option (\<lambda>(v'', os'). (v'', os @ os')) (feed_all feed v' ys)"
  by (simp add: feed_all_append split: option.splits)

lemma feed_all_prefix:
  assumes "feed_all feed v (xs @ ys) = Some (v2, os)"
  obtains v1 os1 os2 where "feed_all feed v xs = Some (v1, os1)"
    and "feed_all feed v1 ys = Some (v2, os2)" and "os = os1 @ os2"
  using assms by (auto simp: feed_all_append split: option.splits)

section \<open>The contract\<close>

locale stream_decoder =
  fixes decode :: "'s \<Rightarrow> 'b list \<Rightarrow> ('s \<times> 'e list \<times> bool) option"
    and feed :: "'v \<Rightarrow> 'b \<Rightarrow> ('v \<times> 'o list) option"
    and view :: "'s \<Rightarrow> 'v"
    and flat :: "'e list \<Rightarrow> 'o list"
    and inv :: "'s \<Rightarrow> bool"
  assumes flat_Nil: "flat [] = []"
    and flat_append: "flat (es @ es') = flat es @ flat es'"
    and decode_accepts:
      "inv s \<Longrightarrow> feed_all feed (view s) xs = Some (v, os) \<Longrightarrow>
       \<exists>s' es. decode s xs = Some (s', es, True) \<and> view s' = v \<and> flat es = os \<and> inv s'"
begin

lemma run_segments_accepts:
  assumes "inv s" and "feed_all feed (view s) (concat xss) = Some (v, os)"
  shows "\<exists>s' es. run_segments decode s xss = Some (s', es, True)
           \<and> view s' = v \<and> flat es = os \<and> inv s'"
  using assms
proof (induction xss arbitrary: s v os)
  case Nil
  then show ?case by (simp add: flat_Nil)
next
  case (Cons xs xss)
  from Cons.prems(2) have "feed_all feed (view s) (xs @ concat xss) = Some (v, os)" by simp
  then obtain v1 os1 os2 where 1: "feed_all feed (view s) xs = Some (v1, os1)"
    and 2: "feed_all feed v1 (concat xss) = Some (v, os2)" and os: "os = os1 @ os2"
    by (rule feed_all_prefix)
  from decode_accepts [OF Cons.prems(1) 1] obtain s1 es1 where
    d: "decode s xs = Some (s1, es1, True)" and v1: "view s1 = v1" and f1: "flat es1 = os1"
    and i: "inv s1" by blast
  from 2 v1 have "feed_all feed (view s1) (concat xss) = Some (v, os2)" by simp
  from Cons.IH [OF i this] obtain s2 es2 where
    "run_segments decode s1 xss = Some (s2, es2, True)" and "view s2 = v" and "flat es2 = os2"
    and "inv s2" by blast
  with d f1 os show ?case by (simp add: flat_append)
qed

text \<open>Two segmentations of one stream the protocol accepts give the same output.\<close>

lemma segmentation_irrelevant:
  assumes "inv s" and "feed_all feed (view s) (concat xss) = Some (v, os)"
    and "concat yss = concat xss"
  obtains s1 es1 s2 es2 where
    "run_segments decode s xss = Some (s1, es1, True)"
    and "run_segments decode s yss = Some (s2, es2, True)"
    and "view s1 = view s2" and "flat es1 = flat es2"
  using run_segments_accepts [OF assms(1,2)] run_segments_accepts [of s yss v os] assms by metis

end

text \<open>A decoder that also rejects exactly the streams the specification rejects.\<close>

locale exact_stream_decoder = stream_decoder +
  assumes decode_rejects:
    "inv s \<Longrightarrow> feed_all feed (view s) xs = None \<Longrightarrow>
     \<exists>s' es. decode s xs = Some (s', es, False)"
begin

lemma run_segments_rejects:
  assumes "inv s" and "feed_all feed (view s) (concat xss) = None"
  shows "\<exists>s' es. run_segments decode s xss = Some (s', es, False)"
  using assms
proof (induction xss arbitrary: s)
  case Nil
  then show ?case by simp
next
  case (Cons xs xss)
  show ?case
  proof (cases "feed_all feed (view s) xs")
    case None
    from decode_rejects [OF Cons.prems(1) None] show ?thesis by auto
  next
    case (Some a)
    then obtain v1 os1 where 1: "feed_all feed (view s) xs = Some (v1, os1)" by (cases a) simp
    from decode_accepts [OF Cons.prems(1) this] obtain s1 es1 where
      d: "decode s xs = Some (s1, es1, True)" and v1: "view s1 = v1" and i: "inv s1" by blast
    from Cons.prems(2) 1 v1 have "feed_all feed (view s1) (concat xss) = None"
      by (simp add: feed_all_append split: option.splits prod.splits)
    from Cons.IH [OF i this] d show ?thesis by auto
  qed
qed

lemma verdict_total:
  assumes "inv s"
  shows "\<exists>s' es ok. run_segments decode s xss = Some (s', es, ok)
           \<and> (ok \<longleftrightarrow> feed_all feed (view s) (concat xss) \<noteq> None)"
proof (cases "feed_all feed (view s) (concat xss)")
  case None
  with run_segments_rejects [OF assms None] show ?thesis by auto
next
  case (Some a)
  then show ?thesis using run_segments_accepts [OF assms, of xss "fst a" "snd a"] by auto
qed

end

end
