(* ===== verification/Web_Socket.thy ===== *)
theory Web_Socket
  imports Stream_Decoder
begin

text \<open>
  \<open>WebSocketHandler\<close> of \<open>pico_http/websocket_handler.h\<close> and \<open>.cpp\<close>: the frame
  header is collected in a 16-byte buffer across calls, the payload is unmasked in place and
  handed to the callback interface chunk by chunk. The byte-wise specification, the
  refinement proof and the encoder follow in \<open>Web_Socket_Spec\<close>.
\<close>

section \<open>Data\<close>

datatype web_socket_state = WAIT_PACKET | WAIT_DATA

text \<open>\<open>(WebSocketOperation)(b & 0x0f)\<close> may have a value without an enumerator.\<close>

datatype web_socket_operation =
    CONTINUATION_FRAME | TEXT_FRAME | BINARY_FRAME | CONNECTION_CLOSE | PING | PONG
  | UNNAMED_OPERATION u8

definition operation_of :: "u8 \<Rightarrow> web_socket_operation" where
  "operation_of n =
     (if n = 0x00 then CONTINUATION_FRAME else if n = 0x01 then TEXT_FRAME
      else if n = 0x02 then BINARY_FRAME else if n = 0x08 then CONNECTION_CLOSE
      else if n = 0x09 then PING else if n = 0x0A then PONG else UNNAMED_OPERATION n)"

definition is_data_operation :: "web_socket_operation \<Rightarrow> bool" where
  "is_data_operation op \<longleftrightarrow> op = TEXT_FRAME \<or> op = BINARY_FRAME \<or> op = CONTINUATION_FRAME"

definition MAX_WEBSOCKET_HEADER :: nat where
  "MAX_WEBSOCKET_HEADER = 16"

record web_socket_handler =
  ws_fin :: bool
  ws_mask :: bool
  ws_operation :: web_socket_operation
  ws_dataLen :: u64
  ws_dataIndex :: u64
  ws_maskingKey :: bytes
  ws_state :: web_socket_state
  ws_bufferIndex :: nat
  ws_buffer :: bytes

text \<open>The callbacks of \<open>WebSocketInterface\<close>, over the state \<open>'w\<close> of whatever implements
  them (the session, the application and the connection below it).\<close>

record 'w web_socket_interface =
  onWebSocketData :: "bytes \<Rightarrow> 'w \<Rightarrow> bool \<times> 'w"
  onWebsocketEncodedData :: "bytes \<Rightarrow> 'w \<Rightarrow> bool \<times> 'w"
  onFinishedPacket :: "'w \<Rightarrow> bool \<times> 'w"

text \<open>A constructed handler; the members the constructor leaves unset hold whatever the
  memory held, here zero.\<close>

definition web_socket_init :: web_socket_handler where
  "web_socket_init =
     \<lparr> ws_fin = False, ws_mask = False, ws_operation = CONTINUATION_FRAME,
       ws_dataLen = 0, ws_dataIndex = 0, ws_maskingKey = replicate 4 0,
       ws_state = WAIT_PACKET, ws_bufferIndex = 0,
       ws_buffer = replicate MAX_WEBSOCKET_HEADER 0 \<rparr>"

section \<open>The frame header\<close>

definition websocket_header_size :: "u8 \<Rightarrow> nat" where
  "websocket_header_size b1 =
     (let payload_len = b1 AND 0x7f in
      2 + (if payload_len = 126 then 2 else 0) + (if payload_len = 127 then 8 else 0)
        + (if b1 AND 0x80 \<noteq> 0 then 4 else 0))"

text \<open>The payload length and the offset \<open>i\<close> behind it.\<close>

definition websocket_data_len :: "bytes \<Rightarrow> u64 \<times> nat" where
  "websocket_data_len buf =
     (let payload_len = (buf ! 1) AND 0x7f in
      if payload_len < 126 then (ucast payload_len, 2)
      else if payload_len = 126 then
        (push_bit 8 (ucast (buf ! 2)) OR ucast (buf ! 3), 4)
      else
        (push_bit 56 (ucast (buf ! 2)) OR push_bit 48 (ucast (buf ! 3))
           OR push_bit 40 (ucast (buf ! 4)) OR push_bit 32 (ucast (buf ! 5))
           OR push_bit 24 (ucast (buf ! 6)) OR push_bit 16 (ucast (buf ! 7))
           OR push_bit 8 (ucast (buf ! 8)) OR ucast (buf ! 9), 10))"

text \<open>One iteration in state \<^const>\<open>WAIT_PACKET\<close>: \<open>Fault\<close> is an out-of-bounds access
  (\<open>memcpy\<close> past the buffer, \<open>data\<close> moved before its start), \<open>Wait\<close> the two early
  \<open>return true\<close>, \<open>Header\<close> the completed header with the data behind it.\<close>

datatype packet_step = Fault | Wait web_socket_handler | Header web_socket_handler bytes

definition decode_packet :: "web_socket_handler \<Rightarrow> bytes \<Rightarrow> packet_step" where
  "decode_packet h data =
     (let bytesToCopy = min (length data) (MAX_WEBSOCKET_HEADER - ws_bufferIndex h) in
      case mem_copy (ws_buffer h) (ws_bufferIndex h) (take bytesToCopy data) of
        None \<Rightarrow> Fault
      | Some buf \<Rightarrow>
        (let idx = ws_bufferIndex h + bytesToCopy;
             h1 = h\<lparr>ws_buffer := buf, ws_bufferIndex := idx\<rparr> in
         if idx < 2 then Wait h1
         else
           (let masked = (buf ! 1) AND 0x80 \<noteq> 0;
                h2 = h1\<lparr>ws_fin := (buf ! 0) AND 0x80 \<noteq> 0,
                        ws_operation := operation_of ((buf ! 0) AND 0x0f),
                        ws_mask := masked\<rparr>;
                headerSize = websocket_header_size (buf ! 1) in
            if idx < headerSize then Wait h2
            else
              (let extraBytes = int bytesToCopy - (int idx - int headerSize) in
               if extraBytes < 0 then Fault
               else
                 (let (dataLen, i) = websocket_data_len buf;
                      key = (if masked then take 4 (drop i buf) else [0, 0, 0, 0]) in
                  Header (h2\<lparr>ws_dataLen := dataLen, ws_maskingKey := key, ws_dataIndex := 0,
                            ws_state := WAIT_DATA, ws_bufferIndex := 0\<rparr>)
                         (drop (nat extraBytes) data))))))"

section \<open>The payload\<close>

text \<open>The \<open>for\<close> loop over the payload: the bytes it unmasked, the final
  \<open>m_webSocketDataIndex\<close> and the bytes it did not reach.\<close>

fun decode_payload :: "web_socket_handler \<Rightarrow> u64 \<Rightarrow> bytes \<Rightarrow> bytes \<times> u64 \<times> bytes" where
  "decode_payload h idx [] = ([], idx, [])"
| "decode_payload h idx (b # bs) =
     (if idx < ws_dataLen h then
        (let b' = (if ws_mask h then b XOR (ws_maskingKey h ! unat (idx AND 3)) else b);
             (chunk, idx', rest) = decode_payload h (idx + 1) bs in
         (b' # chunk, idx', rest))
      else ([], idx, b # bs))"

text \<open>\<open>decodeData\<close>: the handler, the callback state and the returned flag; \<^const>\<open>None\<close>
  where the loop faults or does not end.\<close>

partial_function (option) decodeData ::
    "'w web_socket_interface \<Rightarrow> web_socket_handler \<Rightarrow> 'w \<Rightarrow> bytes \<Rightarrow>
     (web_socket_handler \<times> 'w \<times> bool) option" where
  "decodeData cb h w data =
     (if data = [] then Some (h, w, True)
      else if ws_state h = WAIT_PACKET then
        (case decode_packet h data of
           Fault \<Rightarrow> None
         | Wait h' \<Rightarrow> Some (h', w, True)
         | Header h' data' \<Rightarrow> decodeData cb h' w data')
      else if is_data_operation (ws_operation h) then
        (case decode_payload h (ws_dataIndex h) data of
           (chunk, idx, rest) \<Rightarrow>
             (case onWebSocketData cb chunk w of
                (ok, w') \<Rightarrow>
                  if \<not> ok then Some (h\<lparr>ws_dataIndex := idx\<rparr>, w', False)
                  else if idx = ws_dataLen h then
                    (case onFinishedPacket cb w' of
                       (ok', w'') \<Rightarrow>
                         if \<not> ok' then
                           Some (h\<lparr>ws_dataIndex := idx, ws_state := WAIT_PACKET\<rparr>, w'', False)
                         else
                           decodeData cb (h\<lparr>ws_dataIndex := idx, ws_state := WAIT_PACKET\<rparr>)
                             w'' rest)
                  else decodeData cb (h\<lparr>ws_dataIndex := idx\<rparr>) w' rest))
      else Some (h, w, False))"

declare decodeData.simps [code]

section \<open>Encoding\<close>

text \<open>The header \<open>encodeData\<close> builds for \<open>len\<close> bytes of payload, a 32-bit \<open>size_t\<close>.\<close>

definition encode_header :: "u32 \<Rightarrow> bytes" where
  "encode_header len =
     (let buffer = (replicate MAX_WEBSOCKET_HEADER 0)[0 := 0x80 OR 0x02] in
      if len < 126 then
        take 2 (buffer[1 := (buffer ! 1) OR ucast len])
      else if len \<le> 0xffff then
        take 4 (buffer[1 := (buffer ! 1) OR 126,
                       2 := ucast (drop_bit 8 len AND 0xff), 3 := ucast (len AND 0xff)])
      else
        take 10 (buffer[1 := (buffer ! 1) OR 127, 2 := 0, 3 := 0, 4 := 0, 5 := 0,
                        6 := ucast (drop_bit 24 len AND 0xff),
                        7 := ucast (drop_bit 16 len AND 0xff),
                        8 := ucast (drop_bit 8 len AND 0xff), 9 := ucast (len AND 0xff)]))"

definition encodeData :: "'w web_socket_interface \<Rightarrow> 'w \<Rightarrow> bytes \<Rightarrow> bool \<times> 'w" where
  "encodeData cb w data =
     (case onWebsocketEncodedData cb (encode_header (of_nat (length data))) w of
        (ok, w') \<Rightarrow> if \<not> ok then (False, w') else onWebsocketEncodedData cb data w')"

end
