(* ===== verification/Web_Socket_Spec.thy ===== *)
theory Web_Socket_Spec
  imports Web_Socket
begin

text \<open>
  What the WebSocket decoder promises: a byte-wise specification of the frame protocol, the
  invariant of the handler, the proof that \<^const>\<open>decodeData\<close> implements the
  specification for every segmentation (the contract of \<open>Stream_Decoder\<close>), and the
  round trip with \<^const>\<open>encodeData\<close>.
\<close>

section \<open>The byte-wise specification\<close>

datatype ws_view =
    In_Header bytes
  | In_Payload web_socket_operation bool bytes u64 u64

datatype ws_output = Byte u8 | Finished

definition header_complete :: "bytes \<Rightarrow> bool" where
  "header_complete p \<longleftrightarrow> 2 \<le> length p \<and> websocket_header_size (p ! 1) \<le> length p"

definition open_payload :: "bytes \<Rightarrow> ws_view" where
  "open_payload p =
     (let masked = (p ! 1) AND 0x80 \<noteq> 0; (dataLen, i) = websocket_data_len p in
      In_Payload (operation_of ((p ! 0) AND 0x0f)) masked
        (if masked then take 4 (drop i p) else [0, 0, 0, 0]) dataLen 0)"

definition feed_header :: "bytes \<Rightarrow> u8 \<Rightarrow> ws_view" where
  "feed_header p b = (if header_complete (p @ [b]) then open_payload (p @ [b]) else In_Header (p @ [b]))"

fun ws_feed :: "ws_view \<Rightarrow> u8 \<Rightarrow> (ws_view \<times> ws_output list) option" where
  "ws_feed (In_Header p) b = Some (feed_header p b, [])"
| "ws_feed (In_Payload op masked key dataLen idx) b =
     (if \<not> is_data_operation op then None
      else if idx < dataLen then
        (let out = Byte (if masked then b XOR (key ! unat (idx AND 3)) else b) in
         if idx + 1 = dataLen then Some (In_Header [], [out, Finished])
         else Some (In_Payload op masked key dataLen (idx + 1), [out]))
      else Some (feed_header [] b, [Finished]))"

section \<open>The handler against the specification\<close>

text \<open>Callbacks that record what they were called with and accept it.\<close>

datatype ws_event = Data bytes | Packet_Finished | Encoded bytes

definition ws_recorder :: "ws_event list web_socket_interface" where
  "ws_recorder =
     \<lparr> onWebSocketData = (\<lambda>d w. (True, w @ [Data d])),
       onWebsocketEncodedData = (\<lambda>d w. (True, w @ [Encoded d])),
       onFinishedPacket = (\<lambda>w. (True, w @ [Packet_Finished])) \<rparr>"

fun ws_outputs :: "ws_event \<Rightarrow> ws_output list" where
  "ws_outputs (Data d) = map Byte d"
| "ws_outputs Packet_Finished = [Finished]"
| "ws_outputs (Encoded d) = []"

definition ws_flat :: "ws_event list \<Rightarrow> ws_output list" where
  "ws_flat es = concat (map ws_outputs es)"

definition ws_abs :: "web_socket_handler \<Rightarrow> ws_view" where
  "ws_abs h =
     (if ws_state h = WAIT_PACKET then In_Header (take (ws_bufferIndex h) (ws_buffer h))
      else In_Payload (ws_operation h) (ws_mask h) (ws_maskingKey h) (ws_dataLen h) (ws_dataIndex h))"

definition ws_inv :: "web_socket_handler \<Rightarrow> bool" where
  "ws_inv h \<longleftrightarrow>
     length (ws_buffer h) = MAX_WEBSOCKET_HEADER \<and> length (ws_maskingKey h) = 4 \<and>
     (if ws_state h = WAIT_PACKET
      then ws_bufferIndex h < MAX_WEBSOCKET_HEADER
           \<and> \<not> header_complete (take (ws_bufferIndex h) (ws_buffer h))
      else ws_bufferIndex h = 0 \<and> ws_dataIndex h \<le> ws_dataLen h)"

text \<open>\<open>decodeData\<close> with the recorder, in the shape of the decoder contract.\<close>

definition ws_decode :: "web_socket_handler \<Rightarrow> bytes \<Rightarrow> (web_socket_handler \<times> ws_event list \<times> bool) option" where
  "ws_decode h data = decodeData ws_recorder h [] data"

lemma ws_inv_init: "ws_inv web_socket_init"
  by (simp add: ws_inv_def web_socket_init_def MAX_WEBSOCKET_HEADER_def header_complete_def)

lemma ws_abs_init [simp]: "ws_abs web_socket_init = In_Header []"
  by (simp add: ws_abs_def web_socket_init_def)

lemma ws_flat_simps [simp]:
  "ws_flat [] = []" "ws_flat (e # es) = ws_outputs e @ ws_flat es"
  "ws_flat (es @ es') = ws_flat es @ ws_flat es'"
  by (simp_all add: ws_flat_def)

lemma header_size_le: "websocket_header_size b \<le> 14"
  by (simp add: websocket_header_size_def Let_def)

lemma header_size_ge: "2 \<le> websocket_header_size b"
  by (simp add: websocket_header_size_def Let_def)

lemma header_complete_mono: "header_complete p \<Longrightarrow> header_complete (p @ q)"
  by (auto simp: header_complete_def nth_append)

lemma header_complete_14: "14 \<le> length p \<Longrightarrow> header_complete p"
  using header_size_le [of "p ! 1"] by (auto simp: header_complete_def)

lemma feed_header_incomplete:
  "\<not> header_complete (p @ pre) \<Longrightarrow>
   feed_all ws_feed (In_Header p) pre = Some (In_Header (p @ pre), [])"
proof (induction pre arbitrary: p)
  case Nil
  then show ?case by simp
next
  case (Cons b pre)
  from Cons.prems have "\<not> header_complete ((p @ [b]) @ pre)" by simp
  moreover from this have "\<not> header_complete (p @ [b])" using header_complete_mono by blast
  ultimately show ?case using Cons.IH by (simp add: feed_header_def)
qed

lemma feed_header_complete:
  "\<not> header_complete (p @ pre) \<Longrightarrow> header_complete (p @ pre @ [b]) \<Longrightarrow>
   feed_all ws_feed (In_Header p) (pre @ [b]) = Some (open_payload (p @ pre @ [b]), [])"
  by (simp add: feed_all_append feed_header_incomplete feed_header_def)

text \<open>Only the header's own bytes matter to its length field and masking key.\<close>

lemma data_len_offset:
  "snd (websocket_data_len p) + (if (p ! 1) AND 0x80 \<noteq> 0 then 4 else 0) = websocket_header_size (p ! 1)"
proof -
  have "(p ! 1) AND 0x7f < 126 \<or> (p ! 1) AND 0x7f = 126 \<or> (p ! 1) AND 0x7f = 127"
  proof -
    have "(p ! 1) AND 0x7f \<le> 0x7f" by (rule word_and_le1)
    then show ?thesis by unat_arith
  qed
  then show ?thesis by (auto simp: websocket_data_len_def websocket_header_size_def Let_def)
qed

lemma websocket_data_len_prefix:
  assumes "websocket_header_size (p ! 1) \<le> n" and "2 \<le> n" and "n \<le> length p"
  shows "websocket_data_len (take n p) = websocket_data_len p"
proof -
  from assms data_len_offset [of p] have "snd (websocket_data_len p) \<le> n" by (auto split: if_splits)
  with assms(2) show ?thesis
    by (auto simp: websocket_data_len_def Let_def split: if_splits)
qed

lemma open_payload_prefix:
  assumes "n = websocket_header_size (p ! 1)" and "n \<le> length p"
  shows "open_payload (take n p) = open_payload p"
proof -
  have n: "2 \<le> n" using assms(1) header_size_ge by simp
  have "websocket_data_len (take n p) = websocket_data_len p"
    using assms n by (simp add: websocket_data_len_prefix)
  moreover have "take 4 (drop i (take n p)) = take 4 (drop i p)"
    if "i + 4 = n" for i
    using that by (simp add: drop_take)
  ultimately show ?thesis
    using n assms data_len_offset [of p]
    by (auto simp: open_payload_def Let_def split: prod.splits)
qed

section \<open>Refinement: the header\<close>

lemma nth_of_take_eq: "take n m = xs \<Longrightarrow> i < length xs \<Longrightarrow> m ! i = xs ! i"
  by (metis length_take min_less_iff_conj nth_take)

lemma butlast_append_take:
  "p @ pre = take n buf \<Longrightarrow> n \<le> length buf \<Longrightarrow> pre \<noteq> [] \<Longrightarrow> p @ butlast pre = take (n - 1) buf"
  by (metis butlast_append butlast_take)

definition buffered :: "web_socket_handler \<Rightarrow> bytes" where
  "buffered h = take (ws_bufferIndex h) (ws_buffer h)"

lemma ws_inv_WAIT_PACKET:
  assumes "ws_inv h" and "ws_state h = WAIT_PACKET"
  shows "length (ws_buffer h) = 16" and "ws_bufferIndex h < 16"
    and "length (buffered h) = ws_bufferIndex h" and "\<not> header_complete (buffered h)"
  using assms by (auto simp: ws_inv_def MAX_WEBSOCKET_HEADER_def buffered_def)

text \<open>The \<open>memcpy\<close> stays inside the buffer and appends to the buffered bytes.\<close>

lemma header_copy:
  assumes "ws_inv h" and "ws_state h = WAIT_PACKET" and "n = min (length data) (16 - ws_bufferIndex h)"
  obtains buf where "mem_copy (ws_buffer h) (ws_bufferIndex h) (take n data) = Some buf"
    and "length buf = 16" and "take (ws_bufferIndex h + n) buf = buffered h @ take n data"
proof -
  note i = ws_inv_WAIT_PACKET [OF assms(1,2)]
  have "ws_bufferIndex h + length (take n data) \<le> length (ws_buffer h)" using i assms(3) by auto
  then show thesis
    using that [of "blit (ws_buffer h) (ws_bufferIndex h) (take n data)"]
      take_blit [of "ws_bufferIndex h" "take n data" "ws_buffer h"] i assms(3)
    by (simp add: mem_copy_Some buffered_def)
qed

lemma decode_packet_wait:
  assumes inv: "ws_inv h" and st: "ws_state h = WAIT_PACKET"
    and inc: "\<not> header_complete (buffered h @ data)"
  shows "\<exists>h'. decode_packet h data = Wait h' \<and> ws_abs h' = In_Header (buffered h @ data) \<and> ws_inv h'"
proof -
  let ?i = "ws_bufferIndex h"
  note i = ws_inv_WAIT_PACKET [OF inv st]
  have l14: "?i + length data < 14" using header_complete_14 [of "buffered h @ data"] inc i by force
  then have n: "min (length data) (16 - ?i) = length data" by simp
  obtain buf where buf: "mem_copy (ws_buffer h) ?i data = Some buf" and lbuf: "length buf = 16"
    and tbuf: "take (?i + length data) buf = buffered h @ data"
    using header_copy [OF inv st, of "length data" data] n by auto
  show ?thesis
  proof (cases "?i + length data < 2")
    case True
    then have "decode_packet h data = Wait (h\<lparr>ws_buffer := buf, ws_bufferIndex := ?i + length data\<rparr>)"
      using buf n by (simp add: decode_packet_def MAX_WEBSOCKET_HEADER_def Let_def)
    then show ?thesis
      using st inv tbuf lbuf inc True by (auto simp: ws_abs_def ws_inv_def MAX_WEBSOCKET_HEADER_def)
  next
    case False
    have "(buffered h @ data) ! 1 = buf ! 1" using nth_of_take_eq [OF tbuf] i False by simp
    with False inc i have "?i + length data < websocket_header_size (buf ! 1)"
      by (auto simp: header_complete_def)
    then have "decode_packet h data =
        Wait (h\<lparr>ws_buffer := buf, ws_bufferIndex := ?i + length data,
                ws_fin := (buf ! 0) AND 0x80 \<noteq> 0,
                ws_operation := operation_of ((buf ! 0) AND 0x0f),
                ws_mask := (buf ! 1) AND 0x80 \<noteq> 0\<rparr>)"
      using buf n False by (simp add: decode_packet_def MAX_WEBSOCKET_HEADER_def Let_def)
    then show ?thesis
      using st inv tbuf lbuf inc l14 by (auto simp: ws_abs_def ws_inv_def MAX_WEBSOCKET_HEADER_def)
  qed
qed

lemma opened_handler:
  assumes buf: "length buf = 16" and hs: "hs = websocket_header_size (buf ! 1)"
    and dl: "websocket_data_len buf = (dl, off)"
    and h': "h' = h\<lparr>ws_buffer := buf, ws_bufferIndex := 0, ws_fin := (buf ! 0) AND 0x80 \<noteq> 0,
        ws_operation := operation_of ((buf ! 0) AND 0x0f), ws_mask := (buf ! 1) AND 0x80 \<noteq> 0,
        ws_dataLen := dl,
        ws_maskingKey := (if (buf ! 1) AND 0x80 \<noteq> 0 then take 4 (drop off buf) else [0, 0, 0, 0]),
        ws_dataIndex := 0, ws_state := WAIT_DATA\<rparr>"
  shows "ws_abs h' = open_payload (take hs buf)" and "ws_inv h'"
proof -
  have hs14: "hs \<le> 14" using hs header_size_le by simp
  then show "ws_abs h' = open_payload (take hs buf)"
    using open_payload_prefix [of hs buf] buf dl hs h' by (simp add: ws_abs_def open_payload_def Let_def)
  have "off + 4 \<le> 16" if "(buf ! 1) AND 0x80 \<noteq> 0"
    using data_len_offset [of buf] dl hs14 hs that by simp
  then show "ws_inv h'" using buf h' by (auto simp: ws_inv_def MAX_WEBSOCKET_HEADER_def min_def)
qed

lemma decode_packet_header:
  assumes inv: "ws_inv h" and st: "ws_state h = WAIT_PACKET"
    and comp: "header_complete (buffered h @ data)"
  obtains h' pre data' where "decode_packet h data = Header h' data'" and "data = pre @ data'"
    and "pre \<noteq> []" and "\<not> header_complete (buffered h @ butlast pre)"
    and "header_complete (buffered h @ pre)" and "ws_abs h' = open_payload (buffered h @ pre)"
    and "ws_inv h'" and "ws_state h' = WAIT_DATA"
proof -
  let ?i = "ws_bufferIndex h"
  note i = ws_inv_WAIT_PACKET [OF inv st]
  define n where "n = min (length data) (16 - ?i)"
  obtain buf where buf: "mem_copy (ws_buffer h) ?i (take n data) = Some buf" and lbuf: "length buf = 16"
    and tbuf: "take (?i + n) buf = buffered h @ take n data"
    using header_copy [OF inv st n_def] by auto
  have lq: "length (buffered h @ take n data) = ?i + n" using i by (simp add: n_def)
  have g: "2 \<le> ?i + n" using comp i by (auto simp: n_def header_complete_def)
  have b1: "buf ! 1 = (buffered h @ data) ! 1"
  proof -
    have "buffered h @ take n data = take (?i + n) (buffered h @ data)" using i by simp
    with nth_of_take_eq [OF tbuf, of 1] lq g have "buf ! 1 = take (?i + n) (buffered h @ data) ! 1"
      by (simp del: take_append)
    also have "\<dots> = (buffered h @ data) ! 1" using g by (intro nth_take) simp
    finally show ?thesis .
  qed
  define hs where "hs = websocket_header_size (buf ! 1)"
  have hs14: "hs \<le> 14" and hs2: "2 \<le> hs" using header_size_le header_size_ge by (simp_all add: hs_def)
  have hsn: "hs \<le> ?i + n"
  proof -
    have "hs \<le> ?i + length data" using comp i by (simp add: header_complete_def hs_def b1 [simplified])
    then show ?thesis using hs14 i by (auto simp: n_def)
  qed
  have ihs: "?i < hs"
  proof (rule ccontr)
    assume a: "\<not> ?thesis"
    then have "buffered h ! 1 = buf ! 1" using b1 i hs2 by (simp add: nth_append)
    with a show False using i hs2 by (simp add: header_complete_def hs_def)
  qed
  define k where "k = hs - ?i"
  have k: "0 < k" "k \<le> n" "?i + k = hs" using ihs hsn by (auto simp: k_def)
  have qpre: "buffered h @ take k data = take hs buf"
  proof -
    have "take hs buf = take hs (take (?i + n) buf)" using hsn by (simp add: min_def)
    also have "\<dots> = buffered h @ take k data" using tbuf i ihs k by (simp add: k_def min_def)
    finally show ?thesis by simp
  qed
  have pre: "take k data \<noteq> []" using k by (auto simp: n_def)
  obtain dl off where dl: "websocket_data_len buf = (dl, off)" by fastforce
  note o = opened_handler [OF lbuf hs_def dl refl, of h]
  have "decode_packet h data = Header (h\<lparr>ws_buffer := buf, ws_bufferIndex := 0, ws_fin := (buf ! 0) AND 0x80 \<noteq> 0,
        ws_operation := operation_of ((buf ! 0) AND 0x0f), ws_mask := (buf ! 1) AND 0x80 \<noteq> 0,
        ws_dataLen := dl,
        ws_maskingKey := (if (buf ! 1) AND 0x80 \<noteq> 0 then take 4 (drop off buf) else [0, 0, 0, 0]),
        ws_dataIndex := 0, ws_state := WAIT_DATA\<rparr>) (drop k data)"
  proof -
    have "nat (int n - (int (?i + n) - int hs)) = k" "\<not> int n - (int (?i + n) - int hs) < 0"
      using k by auto
    then show ?thesis
      using buf g hsn dl
      by (simp add: decode_packet_def MAX_WEBSOCKET_HEADER_def Let_def n_def [symmetric] hs_def [symmetric, simplified])
  qed
  moreover have "header_complete (buffered h @ take k data)"
    using qpre hs14 lbuf hs2 by (simp add: header_complete_def hs_def [symmetric, simplified])
  moreover have "\<not> header_complete (buffered h @ butlast (take k data))"
    using butlast_append_take [OF qpre _ pre] hs14 hs2 lbuf
    by (auto simp: header_complete_def hs_def [symmetric, simplified])
  ultimately show thesis
    using that [of _ "drop k data" "take k data"] pre o qpre by simp
qed


section \<open>Refinement: the payload\<close>

definition payload_output :: "web_socket_handler \<Rightarrow> u64 \<Rightarrow> u8 \<Rightarrow> u8" where
  "payload_output h idx b = (if ws_mask h then b XOR (ws_maskingKey h ! unat (idx AND 3)) else b)"

abbreviation payload_view :: "web_socket_handler \<Rightarrow> u64 \<Rightarrow> ws_view" where
  "payload_view h idx \<equiv> In_Payload (ws_operation h) (ws_mask h) (ws_maskingKey h) (ws_dataLen h) idx"

lemma decode_payload_feed:
  assumes "decode_payload h idx data = (chunk, idx', rest)" and "is_data_operation (ws_operation h)"
    and "idx < ws_dataLen h"
  shows "(idx' = ws_dataLen h \<and> length rest < length data \<and> (\<exists>pre. data = pre @ rest \<and>
            feed_all ws_feed (payload_view h idx) pre = Some (In_Header [], map Byte chunk @ [Finished])))
       \<or> (idx' < ws_dataLen h \<and> rest = [] \<and>
            feed_all ws_feed (payload_view h idx) data = Some (payload_view h idx', map Byte chunk))"
  using assms
proof (induction h idx data arbitrary: chunk idx' rest rule: decode_payload.induct)
  case (1 h idx)
  then show ?case by simp
next
  case (2 h idx b bs)
  obtain chunk1 idx1 rest1 where r: "decode_payload h (idx + 1) bs = (chunk1, idx1, rest1)"
    by (metis prod_cases3)
  have eq: "chunk = payload_output h idx b # chunk1" "idx' = idx1" "rest = rest1"
    using "2.prems" r by (auto simp: payload_output_def)
  show ?case
  proof (cases "idx + 1 = ws_dataLen h")
    case True
    then have "\<not> idx + 1 < ws_dataLen h" by simp
    then have "chunk1 = [] \<and> idx1 = ws_dataLen h \<and> rest1 = bs"
      using r True by (cases bs) auto
    with eq True "2.prems" have "idx' = ws_dataLen h" "rest = bs"
      "feed_all ws_feed (payload_view h idx) [b] = Some (In_Header [], map Byte chunk @ [Finished])"
      by (auto simp: payload_output_def)
    then show ?thesis by (intro disjI1 conjI exI [of _ "[b]"]) auto
  next
    case False
    with "2.prems"(3) have l: "idx + 1 < ws_dataLen h" by unat_arith
    note IH = "2.IH" [OF "2.prems"(3) refl r "2.prems"(2) l]
    have step: "ws_feed (payload_view h idx) b = Some (payload_view h (idx + 1), [Byte (payload_output h idx b)])"
      using False "2.prems" by (simp add: payload_output_def)
    from IH show ?thesis
    proof
      assume "idx1 = ws_dataLen h \<and> length rest1 < length bs \<and> (\<exists>pre. bs = pre @ rest1 \<and>
            feed_all ws_feed (payload_view h (idx + 1)) pre = Some (In_Header [], map Byte chunk1 @ [Finished]))"
      then obtain pre where p: "idx1 = ws_dataLen h" "length rest1 < length bs" "bs = pre @ rest1"
        "feed_all ws_feed (payload_view h (idx + 1)) pre = Some (In_Header [], map Byte chunk1 @ [Finished])"
        by blast
      then have "feed_all ws_feed (payload_view h idx) (b # pre) = Some (In_Header [], map Byte chunk @ [Finished])"
        using step eq by (simp del: ws_feed.simps)
      with p eq show ?thesis by (intro disjI1 conjI exI [of _ "b # pre"]) auto
    next
      assume "idx1 < ws_dataLen h \<and> rest1 = [] \<and>
            feed_all ws_feed (payload_view h (idx + 1)) bs = Some (payload_view h idx1, map Byte chunk1)"
      with eq step show ?thesis by (simp del: ws_feed.simps)
    qed
  qed
qed


section \<open>Refinement: the loop\<close>

definition ws_refines :: "web_socket_handler \<Rightarrow> ws_event list \<Rightarrow> bytes \<Rightarrow> bool" where
  "ws_refines h w data \<longleftrightarrow>
     (case feed_all ws_feed (ws_abs h) data of
        None \<Rightarrow> \<exists>h' es. decodeData ws_recorder h w data = Some (h', w @ es, False)
      | Some (v, os) \<Rightarrow>
          \<exists>h' es. decodeData ws_recorder h w data = Some (h', w @ es, True)
            \<and> ws_abs h' = v \<and> ws_flat es = os \<and> ws_inv h')"

lemma ws_recorder_simps [simp]:
  "onWebSocketData ws_recorder d w = (True, w @ [Data d])"
  "onWebsocketEncodedData ws_recorder d w = (True, w @ [Encoded d])"
  "onFinishedPacket ws_recorder w = (True, w @ [Packet_Finished])"
  by (simp_all add: ws_recorder_def)

lemma decode_end: "decodeData cb h w [] = Some (h, w, True)"
  by (simp add: decodeData.simps)

text \<open>One iteration of the loop: the decoder goes on with \<open>h1\<close> and \<open>data1\<close> after the
  output \<open>es1\<close>, and so does the specification.\<close>

lemma ws_refines_step:
  assumes "decodeData ws_recorder h w data = decodeData ws_recorder h1 (w @ es1) data1"
    and "feed_all ws_feed (ws_abs h) data =
         map_option (\<lambda>(v, os). (v, ws_flat es1 @ os)) (feed_all ws_feed (ws_abs h1) data1)"
    and "ws_refines h1 (w @ es1) data1"
  shows "ws_refines h w data"
proof (cases "feed_all ws_feed (ws_abs h1) data1")
  case None
  with assms show ?thesis by (auto simp: ws_refines_def)
next
  case (Some a)
  with assms obtain h' es where "decodeData ws_recorder h1 (w @ es1) data1 = Some (h', (w @ es1) @ es, True)"
    "ws_abs h' = fst a" "ws_flat es = snd a" "ws_inv h'"
    by (auto simp: ws_refines_def split: prod.splits)
  with Some assms show ?thesis
    by (auto simp: ws_refines_def split: prod.splits intro!: exI [of _ "es1 @ es"])
qed

lemma ws_refines_header:
  assumes inv: "ws_inv h" and st: "ws_state h = WAIT_PACKET" and ne: "data \<noteq> []"
    and IH: "\<And>h' w' data'. length data' < length data \<Longrightarrow> ws_inv h' \<Longrightarrow> ws_refines h' w' data'"
  shows "ws_refines h w data"
proof (cases "header_complete (buffered h @ data)")
  case False
  from decode_packet_wait [OF inv st False] obtain h' where
    "decode_packet h data = Wait h'" "ws_abs h' = In_Header (buffered h @ data)" "ws_inv h'" by blast
  moreover have "feed_all ws_feed (ws_abs h) data = Some (In_Header (buffered h @ data), [])"
    using feed_header_incomplete [OF False] st by (simp add: ws_abs_def buffered_def)
  moreover have "decodeData ws_recorder h w data = Some (h', w @ [], True)"
    using \<open>decode_packet h data = Wait h'\<close> ne st by (subst decodeData.simps) simp
  ultimately show ?thesis by (auto simp: ws_refines_def)
next
  case True
  from decode_packet_header [OF inv st True] obtain h' pre data' where
    d: "decode_packet h data = Header h' data'" and sp: "data = pre @ data'" and pre: "pre \<noteq> []"
    and nc: "\<not> header_complete (buffered h @ butlast pre)" and c: "header_complete (buffered h @ pre)"
    and abs: "ws_abs h' = open_payload (buffered h @ pre)" and inv': "ws_inv h'" by blast
  have pe: "butlast pre @ [last pre] = pre" using pre by simp
  have "feed_all ws_feed (In_Header (buffered h)) pre = Some (ws_abs h', [])"
    using feed_header_complete [OF nc, of "last pre"] c pre abs by simp
  then have f: "feed_all ws_feed (ws_abs h) data =
      map_option (\<lambda>(v, os). (v, ws_flat [] @ os)) (feed_all ws_feed (ws_abs h') data')"
    using sp st by (simp add: feed_all_append_Some ws_abs_def buffered_def)
  have s: "decodeData ws_recorder h w data = decodeData ws_recorder h' (w @ []) data'"
    using d ne st by (subst decodeData.simps) simp
  have "ws_refines h' (w @ []) data'" using IH inv' sp pre by simp
  then show ?thesis by (rule ws_refines_step [OF s f])
qed

lemma ws_refines_payload:
  assumes inv: "ws_inv h" and st: "ws_state h = WAIT_DATA" and ne: "data \<noteq> []"
    and IH: "\<And>h' w' data'. length data' < length data \<Longrightarrow> ws_inv h' \<Longrightarrow> ws_refines h' w' data'"
  shows "ws_refines h w data"
proof -
  from ne obtain b bs where bs: "data = b # bs" by (cases data) auto
  have abs: "ws_abs h = payload_view h (ws_dataIndex h)" using st by (simp add: ws_abs_def)
  let ?done = "h\<lparr>ws_dataIndex := ws_dataLen h, ws_state := WAIT_PACKET\<rparr>"
  have inv_done: "ws_inv ?done" and abs_done: "ws_abs ?done = In_Header []"
    using inv st by (auto simp: ws_inv_def ws_abs_def header_complete_def MAX_WEBSOCKET_HEADER_def)
  show ?thesis
  proof (cases "is_data_operation (ws_operation h)")
    case False
    then have "decodeData ws_recorder h w data = Some (h, w @ [], False)"
      using bs st by (subst decodeData.simps) simp
    moreover have "feed_all ws_feed (ws_abs h) data = None" using False abs bs by simp
    ultimately show ?thesis by (auto simp: ws_refines_def)
  next
    case op: True
    obtain chunk idx rest where dp: "decode_payload h (ws_dataIndex h) data = (chunk, idx, rest)"
      by (metis prod_cases3)
    show ?thesis
    proof (cases "ws_dataIndex h < ws_dataLen h")
      case True
      from decode_payload_feed [OF dp op True] show ?thesis
      proof (elim disjE conjE exE)
        fix pre
        assume a: "idx = ws_dataLen h" "length rest < length data" "data = pre @ rest"
          "feed_all ws_feed (payload_view h (ws_dataIndex h)) pre = Some (In_Header [], map Byte chunk @ [Finished])"
        have "decodeData ws_recorder h w data = decodeData ws_recorder ?done (w @ [Data chunk, Packet_Finished]) rest"
          using dp op st ne a(1) by (subst decodeData.simps) simp
        moreover have "feed_all ws_feed (ws_abs h) data =
          map_option (\<lambda>(v, os). (v, ws_flat [Data chunk, Packet_Finished] @ os)) (feed_all ws_feed (ws_abs ?done) rest)"
          using a abs abs_done by (simp add: feed_all_append_Some)
        ultimately show ?thesis using IH [OF a(2) inv_done] by (rule ws_refines_step)
      next
        assume a: "idx < ws_dataLen h" "rest = []"
          "feed_all ws_feed (payload_view h (ws_dataIndex h)) data = Some (payload_view h idx, map Byte chunk)"
        have "decodeData ws_recorder h w data = Some (h\<lparr>ws_dataIndex := idx\<rparr>, w @ [Data chunk], True)"
          using dp op st ne a(1,2)
          by (subst decodeData.simps) (simp add: decode_end)
        moreover have "ws_inv (h\<lparr>ws_dataIndex := idx\<rparr>)" using inv st a(1) by (simp add: ws_inv_def)
        ultimately show ?thesis using a(3) abs st by (simp add: ws_refines_def) (simp add: ws_abs_def)
      qed
    next
      case False
      with inv st have eq: "ws_dataIndex h = ws_dataLen h" by (simp add: ws_inv_def)
      with dp bs have dp': "chunk = [] \<and> idx = ws_dataLen h \<and> rest = data" by simp
      have r: "ws_refines ?done (w @ [Data [], Packet_Finished]) data"
        by (rule ws_refines_header [OF inv_done _ ne IH]) simp
      have s: "decodeData ws_recorder h w data = decodeData ws_recorder ?done (w @ [Data [], Packet_Finished]) data"
        using dp dp' op st ne by (subst decodeData.simps) simp
      have "feed_all ws_feed (ws_abs h) data =
          map_option (\<lambda>(v, os). (v, ws_flat [Data [], Packet_Finished] @ os)) (feed_all ws_feed (ws_abs ?done) data)"
        unfolding abs abs_done bs eq using op
        by (cases "feed_all ws_feed (feed_header [] b) bs") auto
      from s this r show ?thesis by (rule ws_refines_step)
    qed
  qed
qed

lemma ws_refines: "ws_inv h \<Longrightarrow> ws_refines h w data"
proof (induction data arbitrary: h w rule: length_induct)
  case (1 data)
  show ?case
  proof (cases "data = []")
    case True
    with 1 show ?thesis by (simp add: ws_refines_def decode_end)
  next
    case False
    with 1 show ?thesis
      by (cases "ws_state h") (blast intro: ws_refines_header ws_refines_payload)+
  qed
qed

interpretation wsd: exact_stream_decoder ws_decode ws_feed ws_abs ws_flat ws_inv
proof
  show "ws_flat [] = []" by simp
  show "ws_flat (es @ es') = ws_flat es @ ws_flat es'" for es es' by simp
next
  fix s xs v os
  assume "ws_inv s" and "feed_all ws_feed (ws_abs s) xs = Some (v, os)"
  then show "\<exists>s' es. ws_decode s xs = Some (s', es, True) \<and> ws_abs s' = v \<and> ws_flat es = os \<and> ws_inv s'"
    using ws_refines [of s "[]" xs] by (simp add: ws_refines_def ws_decode_def)
next
  fix s xs
  assume "ws_inv s" and "feed_all ws_feed (ws_abs s) xs = None"
  then show "\<exists>s' es. ws_decode s xs = Some (s', es, False)"
    using ws_refines [of s "[]" xs] by (simp add: ws_refines_def ws_decode_def)
qed


section \<open>Frames as a peer sends them\<close>

text \<open>The payload under the masking of RFC 6455, from payload index \<open>i\<close> on.\<close>

fun mask_from :: "bytes \<Rightarrow> nat \<Rightarrow> bytes \<Rightarrow> bytes" where
  "mask_from key i [] = []"
| "mask_from key i (b # bs) = (b XOR key ! (i mod 4)) # mask_from key (Suc i) bs"

lemma mask_from_invol [simp]: "mask_from key i (mask_from key i d) = d"
  by (induction key i d rule: mask_from.induct) (simp_all add: xor.assoc)

lemma length_mask_from [simp]: "length (mask_from key i d) = length d"
  by (induction key i d rule: mask_from.induct) simp_all

lemma mask_from_eq_Nil [simp]: "mask_from key i d = [] \<longleftrightarrow> d = []"
  by (cases d) simp_all

text \<open>A frame with first byte \<open>b0\<close>: the length as \<^const>\<open>encode_header\<close> writes it, and
  with a masking key the mask bit, the key and the masked payload.\<close>

fun ws_frame_header :: "u8 \<Rightarrow> bytes option \<Rightarrow> nat \<Rightarrow> bytes" where
  "ws_frame_header b0 None n = b0 # tl (encode_header (of_nat n))"
| "ws_frame_header b0 (Some key) n =
     (let e = encode_header (of_nat n) in b0 # ((e ! 1) OR 0x80) # drop 2 e @ key)"

fun ws_frame :: "u8 \<Rightarrow> bytes option \<Rightarrow> bytes \<Rightarrow> bytes" where
  "ws_frame b0 None d = ws_frame_header b0 None (length d) @ d"
| "ws_frame b0 (Some key) d = ws_frame_header b0 (Some key) (length d) @ mask_from key 0 d"

lemma unat_and_3: "i < 2 ^ 64 \<Longrightarrow> unat ((of_nat i :: u64) AND 3) = i mod 4"
proof -
  assume i: "i < 2 ^ 64"
  have "(of_nat i :: u64) AND 3 = take_bit 2 (of_nat i)"
    by (simp add: take_bit_eq_mask mask_eq_exp_minus_1)
  then show ?thesis using i
    by (simp only: unsigned_take_bit_eq) (simp add: unsigned_of_nat take_bit_eq_mod)
qed

lemma of_nat_u64_less: "i < 2 ^ 64 \<Longrightarrow> j < 2 ^ 64 \<Longrightarrow> (of_nat i < (of_nat j :: u64)) \<longleftrightarrow> i < j"
  by (simp add: word_less_nat_alt unsigned_of_nat take_bit_nat_eq_self)

lemma of_nat_u64_eq: "i < 2 ^ 64 \<Longrightarrow> j < 2 ^ 64 \<Longrightarrow> (of_nat i = (of_nat j :: u64)) \<longleftrightarrow> i = j"
  by (simp add: word_unat_eq_iff unsigned_of_nat take_bit_nat_eq_self)

lemma feed_payload:
  assumes "i + length d < 2 ^ 64" and "d \<noteq> []" and "is_data_operation op"
  shows "feed_all ws_feed (In_Payload op m key (of_nat (i + length d)) (of_nat i)) d =
           Some (In_Header [], map Byte (if m then mask_from key i d else d) @ [Finished])"
  using assms
proof (induction d arbitrary: i)
  case Nil
  then show ?case by simp
next
  case (Cons b bs)
  have i: "i < 2 ^ 64" "Suc i < 2 ^ 64" "i + length (b # bs) < 2 ^ 64" using Cons.prems by simp_all
  have l: "(of_nat i < (of_nat (i + length (b # bs)) :: u64))"
    using i by (simp only: of_nat_u64_less) simp
  have e: "((of_nat i :: u64) + 1 = of_nat (i + length (b # bs))) \<longleftrightarrow> bs = []"
  proof -
    have "(of_nat (Suc i) = (of_nat (i + length (b # bs)) :: u64)) \<longleftrightarrow> Suc i = i + length (b # bs)"
      using i by (simp only: of_nat_u64_eq)
    then show ?thesis by (simp add: add.commute)
  qed
  show ?case
  proof (cases "bs = []")
    case True
    then show ?thesis using l e Cons.prems(3) i unat_and_3 [of i]
      by (simp del: of_nat_add)
  next
    case False
    have "feed_all ws_feed (In_Payload op m key (of_nat (Suc i + length bs)) (of_nat (Suc i))) bs =
           Some (In_Header [], map Byte (if m then mask_from key (Suc i) bs else bs) @ [Finished])"
      using Cons.IH [of "Suc i"] Cons.prems False by simp
    moreover have "ws_feed (In_Payload op m key (of_nat (i + length (b # bs))) (of_nat i)) b =
      Some (In_Payload op m key (of_nat (Suc i + length bs)) (of_nat (Suc i)),
            [Byte (if m then b XOR key ! (i mod 4) else b)])"
      using l e Cons.prems(3) i unat_and_3 [of i] False
      by (simp add: Let_def add.commute)
    ultimately show ?thesis by (simp del: ws_feed.simps of_nat_add)
  qed
qed

section \<open>Lengths\<close>

lemma len_bytes_2:
  assumes "(l :: u32) \<le> 0xffff"
  shows "push_bit 8 (ucast (ucast (drop_bit 8 l AND 0xff) :: u8)) OR ucast (ucast (l AND 0xff) :: u8) = (ucast l :: u64)"
proof -
  have t: "take_bit 16 l = l" using assms
    by (simp only: word_unat_eq_iff unsigned_take_bit_eq) (simp add: take_bit_nat_eq_self word_le_nat_alt)
  have m: "x AND 0xff = take_bit 8 x" for x :: u32 by (simp add: take_bit_eq_mask mask_eq_exp_minus_1)
  have "push_bit 8 (ucast (ucast (drop_bit 8 (take_bit 16 l) AND 0xff) :: u8)) OR ucast (ucast (take_bit 16 l AND 0xff) :: u8) = (ucast (take_bit 16 l) :: u64)"
    unfolding m by (rule bit_word_eqI) (auto simp: bit_simps)
  with t show ?thesis by simp
qed

lemma len_bytes_4:
  shows "push_bit 24 (ucast (ucast (drop_bit 24 l AND 0xff) :: u8)) OR
     push_bit 16 (ucast (ucast (drop_bit 16 l AND 0xff) :: u8)) OR
     push_bit 8 (ucast (ucast (drop_bit 8 l AND 0xff) :: u8)) OR ucast (ucast (l AND 0xff) :: u8) = (ucast (l :: u32) :: u64)"
proof -
  have m: "x AND 0xff = take_bit 8 x" for x :: u32 by (simp add: take_bit_eq_mask mask_eq_exp_minus_1)
  have r: "n < 8 \<or> (8 \<le> n \<and> n < 16) \<or> (16 \<le> n \<and> n < 24) \<or> (24 \<le> n \<and> n < 32) \<or> 32 \<le> n" for n :: nat
    by linarith
  have z: "32 \<le> n \<Longrightarrow> \<not> bit l n" for n using bit_imp_le_length [of l n] by auto
  show ?thesis
    unfolding m
  proof (rule bit_word_eqI, goal_cases)
    case (1 n)
    then show ?case using r [of n] by (elim disjE) (auto simp: bit_simps z)
  qed
qed

lemma encode_header_cases:
  "l < 126 \<Longrightarrow> encode_header l = [0x82, ucast l]"
  "126 \<le> l \<Longrightarrow> l \<le> 0xffff \<Longrightarrow> encode_header l =
     [0x82, 126, ucast (drop_bit 8 l AND 0xff), ucast (l AND 0xff)]"
  "0xffff < l \<Longrightarrow> encode_header l =
     [0x82, 127, 0, 0, 0, 0, ucast (drop_bit 24 l AND 0xff), ucast (drop_bit 16 l AND 0xff),
      ucast (drop_bit 8 l AND 0xff), ucast (l AND 0xff)]"
proof -
  have n: "126 \<le> l \<Longrightarrow> \<not> l < 126" "0xffff < l \<Longrightarrow> \<not> l < 126" "0xffff < l \<Longrightarrow> \<not> l \<le> 0xffff" by unat_arith+
  show "l < 126 \<Longrightarrow> encode_header l = [0x82, ucast l]"
    by (simp add: encode_header_def MAX_WEBSOCKET_HEADER_def eval_nat_numeral)
  show "126 \<le> l \<Longrightarrow> l \<le> 0xffff \<Longrightarrow> encode_header l =
     [0x82, 126, ucast (drop_bit 8 l AND 0xff), ucast (l AND 0xff)]"
    using n by (simp add: encode_header_def MAX_WEBSOCKET_HEADER_def eval_nat_numeral)
  show "0xffff < l \<Longrightarrow> encode_header l =
     [0x82, 127, 0, 0, 0, 0, ucast (drop_bit 24 l AND 0xff), ucast (drop_bit 16 l AND 0xff),
      ucast (drop_bit 8 l AND 0xff), ucast (l AND 0xff)]"
    using n by (simp add: encode_header_def MAX_WEBSOCKET_HEADER_def eval_nat_numeral)
qed

lemma ucast_of_nat_u64: "n < 2 ^ 32 \<Longrightarrow> ucast (of_nat n :: u32) = (of_nat n :: u64)"
  by (simp add: word_unat_eq_iff unsigned_ucast_eq unsigned_of_nat take_bit_nat_eq_self)

definition mask_key :: "bytes option \<Rightarrow> bytes" where
  "mask_key mk = (case mk of None \<Rightarrow> [0, 0, 0, 0] | Some key \<Rightarrow> key)"

text \<open>A header the decoder reads back: nothing is missing, nothing is left over.\<close>

definition opens :: "bytes \<Rightarrow> u8 \<Rightarrow> bytes option \<Rightarrow> nat \<Rightarrow> bool" where
  "opens p b0 mk n \<longleftrightarrow> websocket_header_size (p ! 1) = length p \<and>
     open_payload p = In_Payload (operation_of (b0 AND 0x0f)) (mk \<noteq> None) (mask_key mk) (of_nat n) 0"

lemma opens_short:
  assumes "n < 126" and "\<And>key. mk = Some key \<Longrightarrow> length key = 4"
  shows "opens (ws_frame_header b0 mk n) b0 mk n"
proof -
  let ?b = "ucast (of_nat n :: u32) :: u8"
  have n32: "(of_nat n :: u32) < 126" and nb: "?b < 126" and nb8: "?b < 0x80"
    using assms by (simp_all add: word_less_nat_alt unsigned_of_nat take_bit_nat_eq_self unsigned_ucast_eq)
  have u: "ucast ?b = (of_nat n :: u64)"
    using assms by (simp add: word_unat_eq_iff unsigned_ucast_eq unsigned_of_nat take_bit_nat_eq_self)
  have "?b \<noteq> 126" "?b \<noteq> 127" using nb by unat_arith+
  then show ?thesis
    using assms(2) len_byte_7 [OF nb8] nb n32 u
    by (cases mk) (simp_all add: opens_def encode_header_cases websocket_header_size_def
        websocket_data_len_def open_payload_def mask_key_def)
qed

lemma opens_medium:
  assumes "126 \<le> n" and "n \<le> 0xffff" and "\<And>key. mk = Some key \<Longrightarrow> length key = 4"
  shows "opens (ws_frame_header b0 mk n) b0 mk n"
proof -
  let ?l = "of_nat n :: u32"
  have l: "126 \<le> ?l" "?l \<le> 0xffff"
    using assms by (simp_all add: word_le_nat_alt unsigned_of_nat take_bit_nat_eq_self)
  show ?thesis
    using assms(2,3) len_bytes_2 [OF l(2)] l ucast_of_nat_u64 [of n]
    by (cases mk) (simp_all add: opens_def encode_header_cases websocket_header_size_def
        websocket_data_len_def open_payload_def mask_key_def)
qed

lemma opens_long:
  assumes "0xffff < n" and "n < 2 ^ 32" and "\<And>key. mk = Some key \<Longrightarrow> length key = 4"
  shows "opens (ws_frame_header b0 mk n) b0 mk n"
proof -
  let ?l = "of_nat n :: u32"
  have l: "0xffff < ?l"
    using assms by (simp add: word_less_nat_alt unsigned_of_nat take_bit_nat_eq_self)
  show ?thesis
    using assms(2,3) len_bytes_4 [of ?l] l ucast_of_nat_u64 [of n]
    by (cases mk) (simp_all add: opens_def encode_header_cases websocket_header_size_def
        websocket_data_len_def open_payload_def mask_key_def)
qed

lemma opens_frame_header:
  assumes "n < 2 ^ 32" and "\<And>key. mk = Some key \<Longrightarrow> length key = 4"
  shows "opens (ws_frame_header b0 mk n) b0 mk n"
  using assms opens_short opens_medium opens_long by (metis leI linorder_not_le)

lemma feed_frame_header:
  assumes "opens p b0 mk n"
  shows "feed_all ws_feed (In_Header []) p =
           Some (In_Payload (operation_of (b0 AND 0x0f)) (mk \<noteq> None) (mask_key mk) (of_nat n) 0, [])"
proof -
  have l: "length p = websocket_header_size (p ! 1)" using assms by (simp add: opens_def)
  with header_size_ge [of "p ! 1"] have two: "2 \<le> length p" by simp
  then have p: "butlast p @ [last p] = p" by (intro append_butlast_last_id) auto
  have c: "header_complete p" using l two by (simp add: header_complete_def)
  have "\<not> header_complete (butlast p)"
    using l two by (auto simp: header_complete_def nth_butlast)
  with c p feed_header_complete [of "[]" "butlast p" "last p"] assms show ?thesis
    by (simp add: opens_def)
qed

text \<open>A data frame through the specification.\<close>

lemma feed_frame:
  assumes "length d < 2 ^ 32" and "d \<noteq> []" and "\<And>key. mk = Some key \<Longrightarrow> length key = 4"
    and "is_data_operation (operation_of (b0 AND 0x0f))"
  shows "feed_all ws_feed (In_Header []) (ws_frame b0 mk d) = Some (In_Header [], map Byte d @ [Finished])"
proof -
  have "feed_all ws_feed (In_Header []) (ws_frame_header b0 mk (length d)) =
      Some (In_Payload (operation_of (b0 AND 0x0f)) (mk \<noteq> None) (mask_key mk) (of_nat (length d)) 0, [])"
    using assms opens_frame_header feed_frame_header by blast
  moreover have "feed_all ws_feed (In_Payload (operation_of (b0 AND 0x0f)) (mk \<noteq> None) (mask_key mk)
         (of_nat (length d)) 0) (case mk of None \<Rightarrow> d | Some key \<Rightarrow> mask_from key 0 d)
       = Some (In_Header [], map Byte d @ [Finished])"
    using feed_payload [of 0 d "operation_of (b0 AND 0x0f)" False "mask_key mk"]
      feed_payload [of 0 "mask_from (mask_key mk) 0 d" "operation_of (b0 AND 0x0f)" True "mask_key mk"] assms
    by (cases mk) (simp_all add: mask_key_def)
  ultimately show ?thesis
    by (cases mk) (simp_all add: feed_all_append_Some del: ws_frame_header.simps)
qed

definition ws_frames :: "(u8 \<times> bytes option \<times> bytes) list \<Rightarrow> bytes" where
  "ws_frames fs = concat (map (\<lambda>(b0, mk, d). ws_frame b0 mk d) fs)"

definition ws_messages :: "(u8 \<times> bytes option \<times> bytes) list \<Rightarrow> ws_output list" where
  "ws_messages fs = concat (map (\<lambda>(b0, mk, d). map Byte d @ [Finished]) fs)"

text \<open>Data frames, also with an empty payload. The decoder notices the end of an empty frame at the next byte, so that after the last byte of
  the stream the end of an empty last frame is still to come.\<close>

definition data_frame :: "u8 \<times> bytes option \<times> bytes \<Rightarrow> bool" where
  "data_frame f = (case f of (b0, mk, d) \<Rightarrow>
     length d < 2 ^ 32 \<and> (case mk of None \<Rightarrow> True | Some key \<Rightarrow> length key = 4) \<and> is_data_operation (operation_of (b0 AND 0x0f)))"

definition ends_empty :: "(u8 \<times> bytes option \<times> bytes) list \<Rightarrow> bool" where
  "ends_empty fs \<longleftrightarrow> fs \<noteq> [] \<and> snd (snd (last fs)) = []"

definition reported :: "(u8 \<times> bytes option \<times> bytes) list \<Rightarrow> ws_output list" where
  "reported fs = (if ends_empty fs then butlast (ws_messages fs) else ws_messages fs)"

definition end_pending :: "ws_view \<Rightarrow> bool" where
  "end_pending v \<longleftrightarrow> (\<exists>op m key. v = In_Payload op m key 0 0 \<and> is_data_operation op)"

lemma feed_pending:
  "end_pending v \<Longrightarrow> xs \<noteq> [] \<Longrightarrow>
   feed_all ws_feed v xs = map_option (\<lambda>(v, os). (v, Finished # os)) (feed_all ws_feed (In_Header []) xs)"
  by (cases xs) (auto simp: end_pending_def option.map_comp comp_def case_prod_unfold split: option.splits)

lemma ws_frame_nonempty: "ws_frame b0 mk d \<noteq> []"
  by (cases mk) (auto simp: encode_header_def Let_def MAX_WEBSOCKET_HEADER_def eval_nat_numeral)

lemma feed_frame_any:
  assumes "data_frame (b0, mk, d)"
  shows "\<exists>v. feed_all ws_feed (In_Header []) (ws_frame b0 mk d) = Some (v, map Byte d @ (if d = [] then [] else [Finished])) \<and>
    (if d = [] then end_pending v else v = In_Header [])"
proof (cases "d = []")
  case True
  have "feed_all ws_feed (In_Header []) (ws_frame_header b0 mk 0) =
      Some (In_Payload (operation_of (b0 AND 0x0f)) (mk \<noteq> None) (mask_key mk) 0 0, [])"
    using feed_frame_header [OF opens_frame_header [of 0 mk b0]] assms by (simp add: data_frame_def split: option.splits)
  then show ?thesis using True assms
    by (cases mk) (auto simp: end_pending_def data_frame_def simp del: ws_frame_header.simps)
next
  case False
  then show ?thesis using feed_frame [of d mk b0] assms by (auto simp: data_frame_def split: option.splits)
qed

lemma feed_frames:
  "list_all data_frame fs \<Longrightarrow>
   \<exists>v. feed_all ws_feed (In_Header []) (ws_frames fs) = Some (v, reported fs) \<and> (if ends_empty fs then end_pending v else v = In_Header [])"
proof (induction fs rule: rev_induct)
  case Nil
  then show ?case by (simp add: ws_frames_def reported_def ws_messages_def ends_empty_def)
next
  case (snoc f fs)
  obtain b0 mk d where f: "f = (b0, mk, d)" by (cases f)
  obtain v where v: "feed_all ws_feed (In_Header []) (ws_frames fs) = Some (v, reported fs)"
    "if ends_empty fs then end_pending v else v = In_Header []" using snoc by auto
  obtain v' where v': "feed_all ws_feed (In_Header []) (ws_frame b0 mk d) = Some (v', map Byte d @ (if d = [] then [] else [Finished]))"
    "if d = [] then end_pending v' else v' = In_Header []" using feed_frame_any [of b0 mk d] snoc.prems f by auto
  have w: "ws_frames (fs @ [f]) = ws_frames fs @ ws_frame b0 mk d" by (simp add: ws_frames_def f)
  have m: "ws_messages (fs @ [f]) = ws_messages fs @ map Byte d @ [Finished]" by (simp add: ws_messages_def f)
  have e: "ends_empty (fs @ [f]) \<longleftrightarrow> d = []" by (simp add: ends_empty_def f)
  have r: "reported (fs @ [f]) = ws_messages fs @ map Byte d @ (if d = [] then [] else [Finished])"
    by (simp add: reported_def e m butlast_append)
  show ?case
  proof (cases "ends_empty fs")
    case True
    then have "butlast (ws_messages fs) @ [Finished] = ws_messages fs"
    proof -
      have "fs \<noteq> []" using True by (simp add: ends_empty_def)
      then obtain gs g where "fs = gs @ [g]" by (cases fs rule: rev_cases) auto
      then show ?thesis by (cases g) (simp add: ws_messages_def butlast_append)
    qed
    then have "reported fs @ Finished # os = ws_messages fs @ os" for os
      using True by (simp add: reported_def)
    moreover have "feed_all ws_feed v (ws_frame b0 mk d) = Some (v', Finished # map Byte d @ (if d = [] then [] else [Finished]))"
      using feed_pending [OF _ ws_frame_nonempty, of v b0 mk d] v(2) True v'(1) by simp
    ultimately show ?thesis using v(1) v'(2) by (simp add: w r e feed_all_append_Some)
  next
    case False
    then have "reported fs = ws_messages fs" by (simp add: reported_def)
    then show ?thesis using False v v' by (simp add: w r e feed_all_append_Some)
  qed
qed

lemma encodeData_frame:
  "encodeData ws_recorder w d = (True, w @ [Encoded (encode_header (of_nat (length d))), Encoded d])"
  by (simp add: encodeData_def)

lemma encode_header_frame: "encode_header (of_nat n) = ws_frame_header 0x82 None n"
proof -
  have "encode_header l = 0x82 # tl (encode_header l)" for l
    by (simp add: encode_header_def MAX_WEBSOCKET_HEADER_def eval_nat_numeral Let_def)
  then show ?thesis by simp
qed


section \<open>Any callbacks\<close>

lemma decode_payload_inv:
  assumes "decode_payload h idx data = (chunk, idx', rest)" and "idx \<le> ws_dataLen h"
  shows "idx' \<le> ws_dataLen h" and "idx' \<noteq> ws_dataLen h \<Longrightarrow> rest = []"
    and "length rest \<le> length data"
  using assms
proof (induction h idx data arbitrary: chunk idx' rest rule: decode_payload.induct)
  case (2 h idx b bs)
  {
    case 1
    with "2.IH" show ?case by (auto split: prod.splits if_splits simp: inc_le)
  next
    case 2
    with "2.IH" show ?case by (fastforce split: prod.splits if_splits simp: inc_le)
  next
    case 3
    with "2.IH" show ?case by (fastforce split: prod.splits if_splits simp: inc_le)
  }
qed auto

definition ws_safe :: "'w web_socket_interface \<Rightarrow> web_socket_handler \<Rightarrow> 'w \<Rightarrow> bytes \<Rightarrow> bool" where
  "ws_safe cb h w data \<longleftrightarrow> (\<exists>r. decodeData cb h w data = Some r \<and> ws_inv (fst r))"

lemma ws_safe_header:
  assumes inv: "ws_inv h" and st: "ws_state h = WAIT_PACKET" and ne: "data \<noteq> []"
    and IH: "\<And>h' w' data'. length data' < length data \<Longrightarrow> ws_inv h' \<Longrightarrow> ws_safe cb h' w' data'"
  shows "ws_safe cb h w data"
proof (cases "header_complete (buffered h @ data)")
  case False
  from decode_packet_wait [OF inv st False] obtain h' where
    "decode_packet h data = Wait h'" "ws_inv h'" by blast
  then show ?thesis using ne st by (simp add: ws_safe_def decodeData.simps [of cb h])
next
  case True
  from decode_packet_header [OF inv st True] obtain h' pre data' where
    d: "decode_packet h data = Header h' data'" "data = pre @ data'" "pre \<noteq> []" "ws_inv h'" by metis
  have "ws_safe cb h' w data'" by (rule IH) (use d in auto)
  then show ?thesis using d ne st by (simp add: ws_safe_def decodeData.simps [of cb h])
qed

lemma ws_safe_payload:
  assumes inv: "ws_inv h" and st: "ws_state h = WAIT_DATA" and ne: "data \<noteq> []"
    and IH: "\<And>h' w' data'. length data' < length data \<Longrightarrow> ws_inv h' \<Longrightarrow> ws_safe cb h' w' data'"
  shows "ws_safe cb h w data"
proof (cases "is_data_operation (ws_operation h)")
  case False
  then show ?thesis using st ne inv by (simp add: ws_safe_def decodeData.simps [of cb h])
next
  case op: True
  obtain chunk idx rest where dp: "decode_payload h (ws_dataIndex h) data = (chunk, idx, rest)"
    by (metis prod_cases3)
  obtain ok w1 where cb1: "onWebSocketData cb chunk w = (ok, w1)" by fastforce
  obtain ok2 w2 where cb2: "onFinishedPacket cb w1 = (ok2, w2)" by fastforce
  have le: "ws_dataIndex h \<le> ws_dataLen h" using inv st by (simp add: ws_inv_def)
  note d = decode_payload_inv [OF dp le]
  let ?done = "h\<lparr>ws_dataIndex := idx, ws_state := WAIT_PACKET\<rparr>"
  have i1: "ws_inv ?done" and i2: "ws_inv (h\<lparr>ws_dataIndex := idx\<rparr>)"
    using inv st d(1) by (auto simp: ws_inv_def header_complete_def MAX_WEBSOCKET_HEADER_def)
  have more: "ws_safe cb ?done w2 rest"
  proof (cases "rest = []")
    case True
    with i1 show ?thesis by (simp add: ws_safe_def decode_end)
  next
    case False
    show ?thesis
      by (rule ws_safe_header [OF i1 _ False]) (use d(3) IH in auto)
  qed
  have step: "decodeData cb h w data =
      (if \<not> ok then Some (h\<lparr>ws_dataIndex := idx\<rparr>, w1, False)
       else if idx = ws_dataLen h then
         (if \<not> ok2 then Some (?done, w2, False) else decodeData cb ?done w2 rest)
       else decodeData cb (h\<lparr>ws_dataIndex := idx\<rparr>) w1 rest)"
    using st ne op dp cb1 cb2 by (subst decodeData.simps) simp
  show ?thesis
  proof (cases "ok \<and> idx = ws_dataLen h \<and> ok2")
    case True
    with more step show ?thesis by (simp add: ws_safe_def)
  next
    case False
    with d(2) i1 i2 step show ?thesis by (auto simp: ws_safe_def decode_end)
  qed
qed

lemma ws_safe: "ws_inv h \<Longrightarrow> ws_safe cb h w data"
proof (induction data arbitrary: h w rule: length_induct)
  case (1 data)
  show ?case
  proof (cases "data = []")
    case True
    with 1 show ?thesis by (simp add: ws_safe_def decode_end)
  next
    case False
    with 1 show ?thesis
      by (cases "ws_state h") (blast intro: ws_safe_header ws_safe_payload)+
  qed
qed

section \<open>Properties\<close>

text \<open>C13. Whatever the callbacks answer and whatever a peer sends, \<open>decodeData\<close> returns, without
  an access outside its header buffer, its masking key or the received segment, and keeps the
  handler well-formed for the next segment.\<close>

theorem websocket_decode_safe:
  assumes "ws_inv h"
  shows "\<exists>h' w' ok. decodeData cb h w data = Some (h', w', ok) \<and> ws_inv h'"
  using ws_safe [OF assms, of cb w data] by (auto simp: ws_safe_def)

theorem websocket_decode_safe_witness:
  "\<exists>h' w' ok. decodeData ws_recorder web_socket_init [] [0x81, 0x85, 1] = Some (h', w', ok) \<and> ws_inv h'"
  by (rule websocket_decode_safe [OF ws_inv_init])

text \<open>C1. The decoder implements the byte-wise frame specification for every way TCP cuts the
  stream into segments: it refuses exactly the streams the specification refuses, and otherwise
  the payload bytes and the ends of frames it reports, in order, are those of the
  specification.\<close>

theorem websocket_stream_refinement:
  "case feed_all ws_feed (In_Header []) (concat xss) of
     None \<Rightarrow> \<exists>h es. run_segments ws_decode web_socket_init xss = Some (h, es, False)
   | Some (v, os) \<Rightarrow> \<exists>h es. run_segments ws_decode web_socket_init xss = Some (h, es, True)
       \<and> ws_abs h = v \<and> ws_flat es = os"
proof (cases "feed_all ws_feed (In_Header []) (concat xss)")
  case None
  then show ?thesis using wsd.run_segments_rejects [OF ws_inv_init, of xss] by simp
next
  case (Some r)
  then show ?thesis using wsd.run_segments_accepts [OF ws_inv_init, of xss "fst r" "snd r"]
    by (auto split: prod.splits)
qed

lemma frames_decode:
  assumes "list_all data_frame fs" and "concat xss = ws_frames fs"
  shows "\<exists>h es. run_segments ws_decode web_socket_init xss = Some (h, es, True) \<and> ws_flat es = reported fs"
  using wsd.run_segments_accepts [OF ws_inv_init, of xss _ "reported fs"] assms feed_frames by fastforce

text \<open>C11. Data frames written as RFC 6455 writes them (text, binary or continuation frames, any length below 4 GiB in its
  shortest form, empty ones included, masked or not) come back as the messages that were sent, for every
  segmentation: all payload bytes and the end of every frame, except that the end of an empty frame at the end of the stream is
  reported only when another byte arrives. (Control frames are refused.)\<close>

theorem websocket_frames_roundtrip:
  assumes "list_all data_frame fs" and "concat xss = ws_frames fs"
  shows "\<exists>h es. run_segments ws_decode web_socket_init xss = Some (h, es, True)
           \<and> ws_flat es = (if fs \<noteq> [] \<and> snd (snd (last fs)) = [] then butlast (ws_messages fs) else ws_messages fs)"
  using frames_decode [OF assms] by (simp add: reported_def ends_empty_def)

theorem websocket_frames_roundtrip_witness:
  "\<exists>h es. run_segments ws_decode web_socket_init
      [[0x81], [0x83, 1, 2], [3, 4, 0x49, 0x4b, 0x22, 0x02], [0x00]] = Some (h, es, True)
      \<and> ws_flat es = [Byte 0x48, Byte 0x49, Byte 0x21, Finished]"
proof -
  let ?fs = "[(0x81, Some [1, 2, 3, 4], [0x48, 0x49, 0x21]), (0x02, None, [])] :: (u8 \<times> bytes option \<times> bytes) list"
  have "list_all data_frame ?fs"
    by (simp add: data_frame_def operation_of_def is_data_operation_def)
  moreover have "concat [[0x81], [0x83, 1, 2], [3, 4, 0x49, 0x4b, 0x22, 0x02], [0x00]] = ws_frames ?fs"
    by (simp add: ws_frames_def encode_header_cases)
  ultimately show ?thesis using websocket_frames_roundtrip [of ?fs "[[0x81], [0x83, 1, 2], [3, 4, 0x49, 0x4b, 0x22, 0x02], [0x00]]"]
    by (simp add: ws_messages_def)
qed

text \<open>The bytes the encoder has handed to \<open>onWebsocketEncodedData\<close>.\<close>

definition ws_wire :: "ws_event list \<Rightarrow> bytes" where
  "ws_wire es = concat (map (\<lambda>e. case e of Encoded d \<Rightarrow> d | _ \<Rightarrow> []) es)"

lemma encoded_frames: "ws_frames (map (\<lambda>d. (0x82, None, d)) ms) = concat (map (\<lambda>d. encode_header (of_nat (length d)) @ d) ms)"
proof -
  have "ws_frame 0x82 None d = encode_header (of_nat (length d)) @ d" for d
    by (simp add: encode_header_frame del: ws_frame_header.simps)
  then show ?thesis by (simp add: ws_frames_def comp_def del: ws_frame.simps)
qed

lemma encoded_any_decode:
  assumes "list_all (\<lambda>d. length d < 2 ^ 32) ms" and "concat xss = concat (map (\<lambda>d. encode_header (of_nat (length d)) @ d) ms)"
  shows "\<exists>h es. run_segments ws_decode web_socket_init xss = Some (h, es, True) \<and>
    ws_flat es = (if ms \<noteq> [] \<and> last ms = [] then butlast (concat (map (\<lambda>d. map Byte d @ [Finished]) ms))
      else concat (map (\<lambda>d. map Byte d @ [Finished]) ms))"
proof -
  let ?fs = "map (\<lambda>d. (0x82, None, d)) ms"
  have "list_all data_frame ?fs" using assms(1)
    by (simp add: list.pred_map comp_def data_frame_def operation_of_def is_data_operation_def)
  moreover have "ends_empty ?fs \<longleftrightarrow> ms \<noteq> [] \<and> last ms = []" by (auto simp: ends_empty_def last_map)
  moreover have "ws_messages ?fs = concat (map (\<lambda>d. map Byte d @ [Finished]) ms)" by (simp add: ws_messages_def comp_def)
  moreover obtain h es where "run_segments ws_decode web_socket_init xss = Some (h, es, True)" "ws_flat es = reported ?fs"
    using frames_decode [of ?fs xss] calculation(1) assms(2) encoded_frames [of ms] by auto
  ultimately show ?thesis by (auto simp: reported_def)
qed

lemma encoded_messages_decode:
  assumes "list_all (\<lambda>d. d \<noteq> [] \<and> length d < 2 ^ 32) ms"
    and "concat xss = concat (map (\<lambda>d. encode_header (of_nat (length d)) @ d) ms)"
  shows "\<exists>h es. run_segments ws_decode web_socket_init xss = Some (h, es, True)
           \<and> ws_flat es = concat (map (\<lambda>d. map Byte d @ [Finished]) ms)"
proof -
  have "list_all (\<lambda>d. length d < 2 ^ 32) ms" "\<not> (ms \<noteq> [] \<and> last ms = [])"
    using assms(1) by (auto simp: list_all_iff dest: last_in_set)
  from encoded_any_decode [OF this(1) assms(2)] this(2) show ?thesis by (simp split: if_splits)
qed

text \<open>C12. What \<open>encodeData\<close> writes for a sequence of non-empty messages, the decoder of the
  other end reads back, for every segmentation.\<close>

theorem websocket_encode_decode_roundtrip:
  assumes "list_all (\<lambda>d. d \<noteq> [] \<and> length d < 2 ^ 32) ms"
    and "concat xss = concat (map (\<lambda>d. ws_wire (snd (encodeData ws_recorder [] d))) ms)"
  shows "\<exists>h es. run_segments ws_decode web_socket_init xss = Some (h, es, True)
           \<and> ws_flat es = concat (map (\<lambda>d. map Byte d @ [Finished]) ms)"
  by (rule encoded_messages_decode [OF assms(1)])
    (use assms(2) in \<open>simp add: encodeData_frame ws_wire_def\<close>)

theorem websocket_encode_decode_roundtrip_witness:
  "\<exists>h es. run_segments ws_decode web_socket_init [[0x82], [0x02, 7, 8, 0x82, 0x01], [9]] = Some (h, es, True)
      \<and> ws_flat es = concat (map (\<lambda>d. map Byte d @ [Finished]) [[7, 8], [9]])"
  by (rule websocket_encode_decode_roundtrip)
    (simp_all add: encodeData_frame ws_wire_def encode_header_cases)

text \<open>A frame that is no data frame (close, ping, pong, reserved) ends the connection as
  soon as one byte follows its header, in whatever segment the byte arrives.\<close>

theorem websocket_control_frame_refused:
  assumes "list_all data_frame fs" and "n < 2 ^ 32" and "length key = 4"
    and "\<not> is_data_operation (operation_of (b0 AND 0x0f))"
    and "concat xss = ws_frames fs @ ws_frame_header b0 (Some key) n @ b # rest"
  shows "\<exists>h es. run_segments ws_decode web_socket_init xss = Some (h, es, False)"
proof -
  have "feed_all ws_feed (In_Header []) (ws_frame_header b0 (Some key) n) = Some (In_Payload
      (operation_of (b0 AND 0x0f)) True key (of_nat n) 0, [])"
    using feed_frame_header [OF opens_frame_header [OF assms(2), of "Some key" b0]] assms(3)
    by (simp add: mask_key_def del: ws_frame_header.simps)
  then have refused: "feed_all ws_feed (In_Header []) (ws_frame_header b0 (Some key) n @ b # rest) = None"
    using assms(4) by (simp add: feed_all_append_Some del: ws_frame_header.simps)
  obtain v where v: "feed_all ws_feed (In_Header []) (ws_frames fs) = Some (v, reported fs)" "end_pending v \<or> v = In_Header []"
    using feed_frames [OF assms(1)] by (auto split: if_splits)
  have "feed_all ws_feed v (ws_frame_header b0 (Some key) n @ b # rest) = None"
    using v(2) refused feed_pending [of v "ws_frame_header b0 (Some key) n @ b # rest"] by (auto simp del: ws_frame_header.simps)
  then have "feed_all ws_feed (In_Header []) (concat xss) = None"
    unfolding assms(5) using v(1) by (simp add: feed_all_append_Some del: ws_frame_header.simps)
  then show ?thesis using wsd.run_segments_rejects [OF ws_inv_init, of xss] by simp
qed

theorem websocket_control_frame_refused_witness:
  "\<exists>h es. run_segments ws_decode web_socket_init [[0x89, 0x80, 1, 2, 3, 4], [0x81]] = Some (h, es, False)"
  by (rule websocket_control_frame_refused [of "[]" 0 "[1, 2, 3, 4]" "0x89" _ "0x81" "[]"])
    (simp_all add: operation_of_def is_data_operation_def ws_frames_def encode_header_cases)

end
