(* ===== verification/Mqtt.thy ===== *)
theory Mqtt
  imports Stream_Decoder
begin

text \<open>
  \<open>MQTTSocketHandler\<close> of \<open>pico_simple_mqtt/mqtt_handler.h\<close> and \<open>.cpp\<close>, the receiving
  half: a packet header is collected in a 256-byte buffer across calls of \<open>on_recv\<close>, the
  payload of a PUBLISH is handed on chunk by chunk. The members the two halves of the class use
  are disjoint, so the class is two records: the upstream callbacks, which may send, act on a
  state \<open>'w\<close> that can hold the sending half of \<open>Mqtt_Send\<close>, but not on the receiving one.
\<close>

section \<open>Data\<close>

definition MQTT_MAX_HEADER_SIZE :: nat where "MQTT_MAX_HEADER_SIZE = 5"
definition MQTT_BUFFER_SIZE :: nat where "MQTT_BUFFER_SIZE = 256"

abbreviation MQTTQOS0 :: u8 where "MQTTQOS0 \<equiv> 0x00"
abbreviation MQTTQOS1 :: u8 where "MQTTQOS1 \<equiv> 0x02"
abbreviation MQTTQOS2 :: u8 where "MQTTQOS2 \<equiv> 0x04"
abbreviation MQTTRETAIN :: u8 where "MQTTRETAIN \<equiv> 0x01"

abbreviation MQTTCONNECT :: u8 where "MQTTCONNECT \<equiv> 0x10"
abbreviation MQTTCONNACK :: u8 where "MQTTCONNACK \<equiv> 0x20"
abbreviation MQTTPUBLISH :: u8 where "MQTTPUBLISH \<equiv> 0x30"
abbreviation MQTTPUBACK :: u8 where "MQTTPUBACK \<equiv> 0x40"
abbreviation MQTTSUBSCRIBE :: u8 where "MQTTSUBSCRIBE \<equiv> 0x80"
abbreviation MQTTSUBACK :: u8 where "MQTTSUBACK \<equiv> 0x90"
abbreviation MQTTPINGREQ :: u8 where "MQTTPINGREQ \<equiv> 0xC0"
abbreviation MQTTPINGRESP :: u8 where "MQTTPINGRESP \<equiv> 0xD0"

datatype socket_state = WAIT_PACKET | WAIT_DATA

text \<open>\<open>(conn_ack_code_t)b\<close> may have a value without an enumerator.\<close>

datatype conn_ack_code =
    CONNECTION_ACCEPTED | UNACCEPTABLE_PROTOCOL | IDENTIFIER_REJECTED | SERVER_UNAVAILABLE
  | BAD_USER_OR_PASS | NOT_AUTHORIZED | UNNAMED_CODE u8

definition conn_ack_code_of :: "u8 \<Rightarrow> conn_ack_code" where
  "conn_ack_code_of c =
     (if c = 0x00 then CONNECTION_ACCEPTED else if c = 0x01 then UNACCEPTABLE_PROTOCOL
      else if c = 0x02 then IDENTIFIER_REJECTED else if c = 0x03 then SERVER_UNAVAILABLE
      else if c = 0x04 then BAD_USER_OR_PASS else if c = 0x05 then NOT_AUTHORIZED
      else UNNAMED_CODE c)"

record 'w mqtt_socket_interface =
  on_pub_ack :: "u16 \<Rightarrow> 'w \<Rightarrow> bool \<times> 'w"
  on_sub_ack :: "u16 \<Rightarrow> 'w \<Rightarrow> bool \<times> 'w"
  on_conn_ack :: "conn_ack_code \<Rightarrow> u8 \<Rightarrow> 'w \<Rightarrow> bool \<times> 'w"
  on_ping_req :: "'w \<Rightarrow> bool \<times> 'w"
  on_ping_resp :: "'w \<Rightarrow> bool \<times> 'w"
  on_publish_header :: "bytes \<Rightarrow> u16 \<Rightarrow> u16 \<Rightarrow> u32 \<Rightarrow> 'w \<Rightarrow> bool \<times> 'w"
  on_publish_data :: "bytes \<Rightarrow> u32 \<Rightarrow> bool \<Rightarrow> 'w \<Rightarrow> bool \<times> 'w"
  on_mqtt_sent :: "u16 \<Rightarrow> 'w \<Rightarrow> bool \<times> 'w"
  on_mqtt_closed :: "'w \<Rightarrow> 'w"
  on_mqtt_connected :: "'w \<Rightarrow> 'w"

record mqtt_receiver =
  mq_recvBufferIdx :: nat
  mq_recvBuffer :: bytes
  mq_state :: socket_state
  mq_pendingDataLen :: u32

definition mqtt_receiver_init :: mqtt_receiver where
  "mqtt_receiver_init =
     \<lparr> mq_recvBufferIdx = 0, mq_recvBuffer = replicate MQTT_BUFFER_SIZE 0,
       mq_state = WAIT_PACKET, mq_pendingDataLen = 0 \<rparr>"

section \<open>The remaining length\<close>

text \<open>The \<open>do ... while\<close> loop of \<open>decode_header\<close>: \<open>Need_More\<close> where it runs into the end of
  the received bytes.\<close>

datatype 'a scan = Scan_Fault | Need_More | Got 'a

function decode_length :: "bytes \<Rightarrow> nat \<Rightarrow> nat \<Rightarrow> u32 \<Rightarrow> (nat \<times> u32) scan" where
  "decode_length buf idx pos0 length0 =
     (let pos = pos0 + 1 in
      if pos \<ge> idx then Need_More
      else
        (case mem_read buf pos of
           None \<Rightarrow> Scan_Fault
         | Some b \<Rightarrow>
             (let len = length0 + push_bit ((pos - 1) * 7) (ucast (b AND 0x7F)) in
              if b AND 0x80 \<noteq> 0 \<and> pos < 5 then decode_length buf idx pos len
              else Got (pos, len))))"
  by pat_completeness auto
termination by (relation "measure (\<lambda>(_, _, pos0, _). 5 - pos0)") auto

declare decode_length.simps [simp del]

section \<open>One packet\<close>

text \<open>\<open>consume\<close> on the rest of the segment: the rest behind it and the returned flag.\<close>

definition consume :: "bytes \<Rightarrow> nat \<Rightarrow> bytes \<times> bool" where
  "consume data n = (if n > length data then (data, False) else (drop n data, True))"

text \<open>The \<open>decode_*\<close> operations return the receiver, the upstream state, the rest of the segment
  and the flag; \<^const>\<open>None\<close> is an access outside \<open>m_recvBuffer\<close>. Positions never
  exceed 65,794 and are natural numbers; \<open>msg_size\<close> keeps its 32 bits.\<close>

type_synonym 'w decoded = "(mqtt_receiver \<times> 'w \<times> bytes \<times> bool) option"

definition read16 :: "bytes \<Rightarrow> nat \<Rightarrow> u16 option" where
  "read16 buf pos = do { hi \<leftarrow> mem_read buf pos; lo \<leftarrow> mem_read buf (pos + 1); Some (be16 hi lo) }"

definition has_message_id :: "u8 \<Rightarrow> bool" where
  "has_message_id b0 \<longleftrightarrow> b0 AND (MQTTQOS1 OR MQTTQOS2) \<noteq> 0"

text \<open>The end of \<open>decode_publish_header\<close>, from \<open>message_length\<close> on: the payload is
  announced and the header consumed.\<close>

definition open_publish ::
    "'w mqtt_socket_interface \<Rightarrow> mqtt_receiver \<Rightarrow> 'w \<Rightarrow> bytes \<Rightarrow> bytes \<Rightarrow> u16 \<Rightarrow> u16 \<Rightarrow> u32 \<Rightarrow> nat \<Rightarrow> nat \<Rightarrow>
     'w decoded" where
  "open_publish cb h w data topic topic_length message_id msg_size pos startPosition =
     (let message_length = msg_size - of_nat pos;
          w' = snd (on_publish_header cb topic topic_length message_id message_length w);
          h' = h\<lparr>mq_pendingDataLen := message_length, mq_state := WAIT_DATA, mq_recvBufferIdx := 0\<rparr> in
      if startPosition > pos then Some (h', w', data, False)
      else (let (rest, ok) = consume data (pos - startPosition) in Some (h', w', rest, ok)))"

definition decode_publish_header ::
    "'w mqtt_socket_interface \<Rightarrow> mqtt_receiver \<Rightarrow> 'w \<Rightarrow> bytes \<Rightarrow> u32 \<Rightarrow> nat \<Rightarrow> nat \<Rightarrow> 'w decoded" where
  "decode_publish_header cb h w data msg_size pos startPosition =
     (let idx = mq_recvBufferIdx h; buf = mq_recvBuffer h;
          (none, all) = consume data (length data) in
      if pos + 2 > idx then Some (h, w, none, all)
      else do {
        topic_length \<leftarrow> read16 buf pos;
        let pos = pos + 2;
        if pos + unat topic_length \<ge> MQTT_BUFFER_SIZE then Some (h, w, data, False)
        else if pos + unat topic_length > idx then Some (h, w, none, all)
        else do {
          topic \<leftarrow> mem_slice buf pos (unat topic_length);
          let pos = pos + unat topic_length;
          b0 \<leftarrow> mem_read buf 0;
          if has_message_id b0 \<and> pos + 2 > idx then Some (h, w, none, all)
          else do {
            message_id \<leftarrow> (if has_message_id b0 then read16 buf pos else Some 0);
            let pos = pos + (if has_message_id b0 then 2 else 0);
            open_publish cb h w data topic topic_length message_id msg_size pos startPosition
          }
        }
      })"

text \<open>The guards the other four \<open>decode_*\<close> operations open with: the message fits into the
  buffer (\<open>Some False\<close> is \<open>return false\<close>) and is there completely (\<open>Some True\<close> is
  \<open>return consume(data, len, len)\<close>).\<close>

definition await_message :: "mqtt_receiver \<Rightarrow> u32 \<Rightarrow> bool option" where
  "await_message h msg_size =
     (if unat msg_size \<ge> MQTT_BUFFER_SIZE then Some False
      else if unat msg_size > mq_recvBufferIdx h then Some True
      else None)"

text \<open>Their common end: the buffer is empty again and the message is consumed.\<close>

definition finish_message :: "mqtt_receiver \<Rightarrow> 'w \<Rightarrow> bytes \<Rightarrow> u32 \<Rightarrow> nat \<Rightarrow> 'w decoded" where
  "finish_message h w data msg_size startPosition =
     (let (rest, ok) = consume data (unat msg_size - startPosition) in
      Some (h\<lparr>mq_recvBufferIdx := 0\<rparr>, w, rest, ok))"

definition decode_conn_ack ::
    "'w mqtt_socket_interface \<Rightarrow> mqtt_receiver \<Rightarrow> 'w \<Rightarrow> bytes \<Rightarrow> u32 \<Rightarrow> nat \<Rightarrow> nat \<Rightarrow> 'w decoded" where
  "decode_conn_ack cb h w data msg_size pos startPosition =
     (case await_message h msg_size of
        Some False \<Rightarrow> Some (h, w, data, False)
      | Some True \<Rightarrow> (let (rest, ok) = consume data (length data) in Some (h, w, rest, ok))
      | None \<Rightarrow>
          if pos + 2 > mq_recvBufferIdx h
          then (let (rest, ok) = consume data (length data) in Some (h, w, rest, ok))
          else do {
            conn_ack_flags \<leftarrow> mem_read (mq_recvBuffer h) pos;
            code \<leftarrow> mem_read (mq_recvBuffer h) (pos + 1);
            if startPosition > unat msg_size then Some (h, w, data, False)
            else finish_message h (snd (on_conn_ack cb (conn_ack_code_of code) conn_ack_flags w))
                   data msg_size startPosition
          })"

definition decode_pubsub_ack ::
    "'w mqtt_socket_interface \<Rightarrow> mqtt_receiver \<Rightarrow> 'w \<Rightarrow> bytes \<Rightarrow> u32 \<Rightarrow> nat \<Rightarrow> nat \<Rightarrow> u8 \<Rightarrow> 'w decoded" where
  "decode_pubsub_ack cb h w data msg_size pos startPosition message_type =
     (case await_message h msg_size of
        Some False \<Rightarrow> Some (h, w, data, False)
      | Some True \<Rightarrow> (let (rest, ok) = consume data (length data) in Some (h, w, rest, ok))
      | None \<Rightarrow>
          if pos + 2 > mq_recvBufferIdx h
          then (let (rest, ok) = consume data (length data) in Some (h, w, rest, ok))
          else do {
            message_id \<leftarrow> read16 (mq_recvBuffer h) pos;
            if startPosition > unat msg_size then Some (h, w, data, False)
            else finish_message h
                   (snd (if message_type = MQTTPUBACK then on_pub_ack cb message_id w
                         else on_sub_ack cb message_id w))
                   data msg_size startPosition
          })"

definition decode_ping ::
    "'w mqtt_socket_interface \<Rightarrow> mqtt_receiver \<Rightarrow> 'w \<Rightarrow> bytes \<Rightarrow> u32 \<Rightarrow> nat \<Rightarrow> nat \<Rightarrow> u8 \<Rightarrow> 'w decoded" where
  "decode_ping cb h w data msg_size pos startPosition message_type =
     (case await_message h msg_size of
        Some False \<Rightarrow> Some (h, w, data, False)
      | Some True \<Rightarrow> (let (rest, ok) = consume data (length data) in Some (h, w, rest, ok))
      | None \<Rightarrow>
          if startPosition > unat msg_size then Some (h, w, data, False)
          else finish_message h
                 (if message_type = MQTTPINGRESP then snd (on_ping_resp cb w)
                  else if message_type = MQTTPINGREQ then snd (on_ping_req cb w) else w)
                 data msg_size startPosition)"

definition decode_unhandled ::
    "mqtt_receiver \<Rightarrow> 'w \<Rightarrow> bytes \<Rightarrow> u32 \<Rightarrow> nat \<Rightarrow> nat \<Rightarrow> u8 \<Rightarrow> 'w decoded" where
  "decode_unhandled h w data msg_size pos startPosition message_type =
     (case await_message h msg_size of
        Some False \<Rightarrow> Some (h, w, data, False)
      | Some True \<Rightarrow> (let (rest, ok) = consume data (length data) in Some (h, w, rest, ok))
      | None \<Rightarrow>
          if startPosition > unat msg_size then Some (h, w, data, False)
          else finish_message h w data msg_size startPosition)"

text \<open>The \<open>switch (message_type)\<close> of \<open>decode_header\<close>.\<close>

definition dispatch ::
    "'w mqtt_socket_interface \<Rightarrow> mqtt_receiver \<Rightarrow> 'w \<Rightarrow> bytes \<Rightarrow> u32 \<Rightarrow> nat \<Rightarrow> nat \<Rightarrow> u8 \<Rightarrow> 'w decoded" where
  "dispatch cb h w data msg_size pos startPosition message_type =
     (if message_type = MQTTPUBLISH then decode_publish_header cb h w data msg_size pos startPosition
      else if message_type = MQTTCONNACK then decode_conn_ack cb h w data msg_size pos startPosition
      else if message_type = MQTTSUBACK \<or> message_type = MQTTPUBACK then
        decode_pubsub_ack cb h w data msg_size pos startPosition message_type
      else if message_type = MQTTPINGRESP \<or> message_type = MQTTPINGREQ then
        decode_ping cb h w data msg_size pos startPosition message_type
      else decode_unhandled h w data msg_size pos startPosition message_type)"

definition decode_header ::
    "'w mqtt_socket_interface \<Rightarrow> mqtt_receiver \<Rightarrow> 'w \<Rightarrow> bytes \<Rightarrow> 'w decoded" where
  "decode_header cb h0 w data =
     (let startPosition = mq_recvBufferIdx h0;
          bytesToCopy = min (length data) (MQTT_BUFFER_SIZE - startPosition) in
      do {
        buf \<leftarrow> mem_copy (mq_recvBuffer h0) startPosition (take bytesToCopy data);
        let idx = startPosition + bytesToCopy;
        let h = h0\<lparr>mq_recvBuffer := buf, mq_recvBufferIdx := idx\<rparr>;
        let (none, all) = consume data (length data);
        if idx < 2 then Some (h, w, none, all)
        else
          (case decode_length buf idx 0 0 of
             Scan_Fault \<Rightarrow> None
           | Need_More \<Rightarrow> Some (h, w, none, all)
           | Got (pos', len) \<Rightarrow> do {
               let pos = pos' + 1;
               let msg_size = len + of_nat pos;
               b0 \<leftarrow> mem_read buf 0;
               let message_type = b0 AND 0xf0;
               dispatch cb h w data msg_size pos startPosition message_type
             })
      })"

section \<open>The loop\<close>

text \<open>\<open>decode_data\<close>, and so \<open>on_recv\<close>; \<^const>\<open>None\<close> where it faults or does not end.\<close>

partial_function (option) decode_data ::
    "'w mqtt_socket_interface \<Rightarrow> mqtt_receiver \<Rightarrow> 'w \<Rightarrow> bytes \<Rightarrow> (mqtt_receiver \<times> 'w \<times> bool) option" where
  "decode_data cb h w data =
     (if data = [] then Some (h, w, True)
      else if mq_state h = WAIT_PACKET then
        (case decode_header cb h w data of
           None \<Rightarrow> None
         | Some (h', w', data', ok) \<Rightarrow>
             if \<not> ok then Some (h', w', False) else decode_data cb h' w' data')
      else
        (let bytesReceived = min (length data) (unat (mq_pendingDataLen h));
             w' = snd (on_publish_data cb (take bytesReceived data) (of_nat bytesReceived)
                        (bytesReceived = unat (mq_pendingDataLen h)) w);
             pending = mq_pendingDataLen h - of_nat bytesReceived in
         decode_data cb
           (h\<lparr>mq_pendingDataLen := pending,
              mq_state := (if pending = 0 then WAIT_PACKET else mq_state h)\<rparr>)
           w' (drop bytesReceived data)))"

declare decode_data.simps [code]

definition mqtt_on_recv ::
    "'w mqtt_socket_interface \<Rightarrow> mqtt_receiver \<Rightarrow> 'w \<Rightarrow> bytes \<Rightarrow> (mqtt_receiver \<times> 'w \<times> bool) option" where
  "mqtt_on_recv cb h w data = decode_data cb h w data"

text \<open>The receiving half of \<open>reset\<close>; \<open>m_recvBuffer\<close> keeps its content.\<close>

definition mqtt_reset_receiver :: "mqtt_receiver \<Rightarrow> mqtt_receiver" where
  "mqtt_reset_receiver h = h\<lparr>mq_recvBufferIdx := 0, mq_state := WAIT_PACKET, mq_pendingDataLen := 0\<rparr>"

end
