(* ===== verification/Mqtt_Spec.thy ===== *)
theory Mqtt_Spec
  imports Mqtt
begin

text \<open>
  What the MQTT decoder promises: the packets the client reads as a grammar with a byte-wise
  specification over it, and the proof that \<^const>\<open>decode_data\<close> implements the
  specification for every segmentation of a stream the specification accepts.
\<close>

section \<open>The packet grammar\<close>

datatype 'a parse = Incomplete | Malformed | Parsed 'a

fun bind_parse :: "'a parse \<Rightarrow> ('a \<Rightarrow> 'b parse) \<Rightarrow> 'b parse" where
  "bind_parse Incomplete f = Incomplete"
| "bind_parse Malformed f = Malformed"
| "bind_parse (Parsed x) f = f x"

text \<open>A remaining length of at most \<open>fuel\<close> bytes: its value and its size.\<close>

fun parse_varint :: "nat \<Rightarrow> bytes \<Rightarrow> (nat \<times> nat) parse" where
  "parse_varint 0 bs = Malformed"
| "parse_varint (Suc fuel) [] = Incomplete"
| "parse_varint (Suc fuel) (b # bs) =
     (if unat b < 128 then Parsed (unat b, 1)
      else bind_parse (parse_varint fuel bs) (\<lambda>(v, k). Parsed (unat b - 128 + 128 * v, Suc k)))"

datatype mqtt_packet =
    Publish bytes u16 nat
  | Conn_Ack conn_ack_code u8
  | Pub_Ack u16
  | Sub_Ack u16
  | Ping_Req
  | Ping_Resp
  | Ignored u8

text \<open>The body of a packet whose fixed header \<open>p\<close> begins with, \<open>pos\<close> bytes with \<open>n\<close> as the
  remaining length: how many bytes of the stream belong to it (of a PUBLISH, without its
  payload) and what it says.\<close>

definition topic_size :: "bytes \<Rightarrow> nat \<Rightarrow> nat" where
  "topic_size p pos = unat (be16 (p ! pos) (p ! (pos + 1)))"

definition publish_size :: "bytes \<Rightarrow> nat \<Rightarrow> nat" where
  "publish_size p pos = pos + 2 + topic_size p pos + (if has_message_id (p ! 0) then 2 else 0)"

definition publish_packet :: "bytes \<Rightarrow> nat \<Rightarrow> nat \<Rightarrow> mqtt_packet" where
  "publish_packet p pos n =
     Publish (take (topic_size p pos) (drop (pos + 2) p))
       (if has_message_id (p ! 0)
        then be16 (p ! (pos + 2 + topic_size p pos)) (p ! (pos + 2 + topic_size p pos + 1)) else 0)
       (pos + n - publish_size p pos)"

definition parse_publish :: "bytes \<Rightarrow> nat \<Rightarrow> nat \<Rightarrow> (nat \<times> mqtt_packet) parse" where
  "parse_publish p pos n =
     (if length p < pos + 2 then Incomplete
      else if pos + 2 + topic_size p pos \<ge> 256 \<or> publish_size p pos > 256
        \<or> publish_size p pos > pos + n then Malformed
      else if length p < publish_size p pos then Incomplete
      else Parsed (publish_size p pos, publish_packet p pos n))"

definition parse_short :: "bytes \<Rightarrow> nat \<Rightarrow> nat \<Rightarrow> nat \<Rightarrow> mqtt_packet \<Rightarrow> (nat \<times> mqtt_packet) parse" where
  "parse_short p pos n least packet =
     (if pos + n \<ge> 256 \<or> n < least then Malformed
      else if length p < pos + n then Incomplete
      else Parsed (pos + n, packet))"

definition parse_body :: "bytes \<Rightarrow> nat \<Rightarrow> nat \<Rightarrow> (nat \<times> mqtt_packet) parse" where
  "parse_body p pos n =
     (let type = (p ! 0) AND 0xf0 in
      if type = MQTTPUBLISH then parse_publish p pos n
      else if type = MQTTCONNACK then
        parse_short p pos n 2 (Conn_Ack (conn_ack_code_of (p ! (pos + 1))) (p ! pos))
      else if type = MQTTPUBACK then parse_short p pos n 2 (Pub_Ack (be16 (p ! pos) (p ! (pos + 1))))
      else if type = MQTTSUBACK then parse_short p pos n 2 (Sub_Ack (be16 (p ! pos) (p ! (pos + 1))))
      else if type = MQTTPINGRESP then parse_short p pos n 0 Ping_Resp
      else if type = MQTTPINGREQ then parse_short p pos n 0 Ping_Req
      else parse_short p pos n 0 (Ignored type))"

definition mqtt_parse :: "bytes \<Rightarrow> (nat \<times> mqtt_packet) parse" where
  "mqtt_parse p =
     (if p = [] then Incomplete
      else bind_parse (parse_varint 4 (tl p)) (\<lambda>(n, k). parse_body p (k + 1) n))"

section \<open>Prefixes\<close>

lemma parse_varint_append:
  "parse_varint f p \<noteq> Incomplete \<Longrightarrow> parse_varint f (p @ q) = parse_varint f p"
proof (induction f p rule: parse_varint.induct)
  case (3 f b bs)
  then show ?case by (cases "parse_varint f bs") (auto split: if_splits)
qed auto

lemma parse_varint_bounds:
  "parse_varint f p = Parsed (v, k) \<Longrightarrow> 1 \<le> k \<and> k \<le> f \<and> k \<le> length p \<and> v < 128 ^ f"
proof (induction f p arbitrary: v k rule: parse_varint.induct)
  case (3 f b bs)
  show ?case
  proof (cases "unat b < 128")
    case True
    have "(128::nat) \<le> 128 ^ Suc f" by simp
    with True 3 show ?thesis by auto
  next
    case False
    with 3 obtain v' k' where r: "parse_varint f bs = Parsed (v', k')" "v = unat b - 128 + 128 * v'" "k = Suc k'"
      by (cases "parse_varint f bs") auto
    with 3 False have "1 \<le> k'" "k' \<le> f" "k' \<le> length bs" "v' < 128 ^ f" by blast+
    moreover from this have "128 * v' + 128 \<le> 128 * 128 ^ f" by simp
    ultimately show ?thesis using r unat_u8_less [of b] by simp
  qed
qed auto

lemma parse_varint_Incomplete: "parse_varint f p = Incomplete \<Longrightarrow> length p < f"
proof (induction f p rule: parse_varint.induct)
  case (3 f b bs)
  then show ?case by (cases "parse_varint f bs") (auto split: if_splits)
qed auto

lemma publish_size_append:
  assumes "pos + 2 \<le> length p"
  shows "topic_size (p @ q) pos = topic_size p pos" and "publish_size (p @ q) pos = publish_size p pos"
proof -
  have n: "i < length p \<Longrightarrow> (p @ q) ! i = p ! i" for i by (simp add: nth_append)
  show t: "topic_size (p @ q) pos = topic_size p pos"
    using assms by (simp only: topic_size_def n)
  have "(p @ q) ! 0 = p ! 0" using assms by (intro n) linarith
  then show "publish_size (p @ q) pos = publish_size p pos"
    by (simp only: publish_size_def t)
qed

lemma publish_packet_append:
  assumes "publish_size p pos \<le> length p"
  shows "publish_packet (p @ q) pos n = publish_packet p pos n"
proof -
  have l: "pos + 2 + topic_size p pos \<le> length p" using assms by (simp add: publish_size_def)
  then have "p \<noteq> []" by auto
  then have z: "(p @ q) ! 0 = p ! 0" by (simp add: nth_append)
  have s: "publish_size (p @ q) pos = publish_size p pos" "topic_size (p @ q) pos = topic_size p pos"
    using l by (simp_all add: publish_size_append)
  show ?thesis unfolding publish_packet_def s z
    using l assms by (auto simp: nth_append publish_size_def)
qed

lemma parse_publish_append:
  assumes "parse_publish p pos n \<noteq> Incomplete"
  shows "parse_publish (p @ q) pos n = parse_publish p pos n"
proof -
  from assms have l: "pos + 2 \<le> length p" by (auto simp: parse_publish_def split: if_splits)
  from assms publish_packet_append [of p pos q n] l show ?thesis
    by (simp add: parse_publish_def publish_size_append split: if_splits)
qed

lemma parse_body_append:
  assumes "1 \<le> pos" and "pos \<le> length p" and "parse_body p pos n \<noteq> Incomplete"
  shows "parse_body (p @ q) pos n = parse_body p pos n"
proof -
  have "(p @ q) ! 0 = p ! 0" using assms by (cases p) auto
  then show ?thesis
    using assms parse_publish_append [of p pos n q]
    by (auto simp: parse_body_def Let_def parse_short_def nth_append split: if_splits)
qed

lemma mqtt_parse_append:
  assumes "mqtt_parse p \<noteq> Incomplete"
  shows "mqtt_parse (p @ q) = mqtt_parse p"
proof -
  from assms have ne: "p \<noteq> []" by (auto simp: mqtt_parse_def)
  then have tl: "tl (p @ q) = tl p @ q" by simp
  show ?thesis
  proof (cases "parse_varint 4 (tl p)")
    case Incomplete
    with assms ne show ?thesis by (simp add: mqtt_parse_def)
  next
    case Malformed
    then show ?thesis using ne parse_varint_append [of 4 "tl p" q] by (simp add: mqtt_parse_def tl)
  next
    case (Parsed a)
    then obtain n k where a: "parse_varint 4 (tl p) = Parsed (n, k)" by (cases a) auto
    from parse_varint_bounds [OF a] ne have "k + 1 \<le> length p" by (cases p) auto
    with assms ne a have "parse_body (p @ q) (k + 1) n = parse_body p (k + 1) n"
      by (intro parse_body_append) (auto simp: mqtt_parse_def)
    then show ?thesis using a ne parse_varint_append [of 4 "tl p" q] by (simp add: mqtt_parse_def tl)
  qed
qed

lemma mqtt_parse_size:
  assumes "mqtt_parse p = Parsed (k, pk)"
  shows "k \<le> length p" and "k \<le> 256"
  using assms
  by (auto simp: mqtt_parse_def parse_body_def parse_publish_def parse_short_def Let_def
      split: if_splits elim!: bind_parse.elims)

lemma mqtt_parse_Incomplete:
  assumes "mqtt_parse p = Incomplete"
  shows "length p < 256"
proof (cases "p = []")
  case False
  show ?thesis
  proof (cases "parse_varint 4 (tl p)")
    case Incomplete
    with parse_varint_Incomplete show ?thesis by fastforce
  next
    case Malformed
    with assms False show ?thesis by (simp add: mqtt_parse_def)
  next
    case (Parsed a)
    then obtain n k where a: "parse_varint 4 (tl p) = Parsed (n, k)" by (cases a) auto
    with assms False parse_varint_bounds [OF a] show ?thesis
      by (auto simp: mqtt_parse_def parse_body_def parse_publish_def parse_short_def Let_def split: if_splits)
  qed
qed simp

section \<open>The remaining length\<close>


lemma ucast_and_0x7F: "(ucast ((b :: u8) AND 0x7F) :: u32) = of_nat (unat b mod 128)"
proof -
  have "unat (of_nat (unat b mod 128) :: u32) = unat b mod 128"
    using unat_u8_less [of b] by (simp add: unsigned_of_nat take_bit_nat_eq_self)
  then show ?thesis by (simp only: word_unat_eq_iff unat_ucast_8_32 unat_and_0x7F)
qed

lemma push_bit_of_nat: "push_bit (n * 7) (of_nat x :: u32) = of_nat (x * 128 ^ n)"
  by (simp add: push_bit_eq_mult power_mult mult.commute [of n])

lemma decode_length_varint:
  assumes "f + p = 4" and "idx \<le> length buf"
  shows "parse_varint f (drop (Suc p) (take idx buf)) = Parsed (v, k) \<Longrightarrow>
           decode_length buf idx p acc = Got (p + k, acc + of_nat (v * 128 ^ p))"
    and "parse_varint f (drop (Suc p) (take idx buf)) = Incomplete \<Longrightarrow>
           decode_length buf idx p acc = Need_More"
  using assms
proof (induction f arbitrary: p acc v k)
  case (Suc f)
  {
    case 1
    then have ne: "Suc p < idx" by (cases "Suc p < idx") auto
    have d: "drop (Suc p) (take idx buf) = (buf ! Suc p) # drop (Suc (Suc p)) (take idx buf)"
      using ne 1 by (subst Cons_nth_drop_Suc [symmetric]) auto
    let ?b = "buf ! Suc p"
    have m: "push_bit (p * 7) (ucast (?b AND 0x7F)) = (of_nat ((unat ?b mod 128) * 128 ^ p) :: u32)"
      by (simp only: ucast_and_0x7F push_bit_of_nat)
    show ?case
    proof (cases "unat ?b < 128")
      case True
      with 1 d have "v = unat ?b" "k = 1" by auto
      with True ne 1 m show ?thesis
        by (simp add: decode_length.simps [of _ _ p] mem_simps and_0x80_iff)
    next
      case False
      with 1 d obtain v' k' where r: "parse_varint f (drop (Suc (Suc p)) (take idx buf)) = Parsed (v', k')"
        "v = unat ?b - 128 + 128 * v'" "k = Suc k'"
        by (cases "parse_varint f (drop (Suc (Suc p)) (take idx buf))") auto
      from r(1) have "f \<noteq> 0" by (cases f) auto
      then have p5: "Suc p < 5" using 1 by linarith
      define x where "x = unat ?b mod 128"
      have x: "unat ?b - 128 = x" using False unat_u8_less [of ?b] by (simp add: x_def mod_if)
      have "decode_length buf idx (Suc p) (acc + of_nat (x * 128 ^ p)) =
          Got (Suc p + k', acc + of_nat (x * 128 ^ p) + of_nat (v' * 128 ^ Suc p))"
        by (rule Suc.IH(1) [OF r(1)]) (use 1 in auto)
      moreover have "decode_length buf idx p acc = decode_length buf idx (Suc p) (acc + of_nat (x * 128 ^ p))"
        using False p5 ne 1 m [folded x_def]
        by (simp only: decode_length.simps [of _ _ p]) (simp add: mem_simps and_0x80_iff)
      moreover have "v * 128 ^ p = x * 128 ^ p + v' * 128 ^ Suc p"
        using r x by (simp add: algebra_simps)
      ultimately show ?thesis using r by (simp add: add.assoc)
    qed
  next
    case 2
    show ?case
    proof (cases "Suc p < idx")
      case False
      then show ?thesis by (simp add: decode_length.simps)
    next
      case True
      have d: "drop (Suc p) (take idx buf) = (buf ! Suc p) # drop (Suc (Suc p)) (take idx buf)"
        using True 2 by (subst Cons_nth_drop_Suc [symmetric]) auto
      let ?b = "buf ! Suc p"
      from 2 d have b: "\<not> unat ?b < 128" by auto
      with 2 d have r: "parse_varint f (drop (Suc (Suc p)) (take idx buf)) = Incomplete"
        by (cases "parse_varint f (drop (Suc (Suc p)) (take idx buf))") auto
      from r have "f \<noteq> 0" by (cases f) auto
      then have p5: "Suc p < 5" using 2 by linarith
      have "decode_length buf idx (Suc p) acc' = Need_More" for acc'
        by (rule Suc.IH(2) [OF r]) (use 2 in auto)
      then show ?thesis using b p5 True 2
        by (simp add: decode_length.simps [of _ _ p] mem_simps and_0x80_iff)
    qed
  }
qed auto

section \<open>One packet\<close>

text \<open>What \<open>decode_header\<close> does with a packet: the receiver behind it and the callback.\<close>

fun after_packet :: "mqtt_receiver \<Rightarrow> mqtt_packet \<Rightarrow> mqtt_receiver" where
  "after_packet h (Publish topic mid n) =
     h\<lparr>mq_pendingDataLen := of_nat n, mq_state := WAIT_DATA, mq_recvBufferIdx := 0\<rparr>"
| "after_packet h _ = h\<lparr>mq_recvBufferIdx := 0\<rparr>"

fun deliver :: "'w mqtt_socket_interface \<Rightarrow> mqtt_packet \<Rightarrow> 'w \<Rightarrow> 'w" where
  "deliver cb (Publish topic mid n) w =
     snd (on_publish_header cb topic (of_nat (length topic)) mid (of_nat n) w)"
| "deliver cb (Conn_Ack code flags) w = snd (on_conn_ack cb code flags w)"
| "deliver cb (Pub_Ack i) w = snd (on_pub_ack cb i w)"
| "deliver cb (Sub_Ack i) w = snd (on_sub_ack cb i w)"
| "deliver cb Ping_Req w = snd (on_ping_req cb w)"
| "deliver cb Ping_Resp w = snd (on_ping_resp cb w)"
| "deliver cb (Ignored t) w = w"

text \<open>The receiver right after the \<open>memcpy\<close>, its buffer holding the prefix \<open>q\<close>.\<close>

definition loaded :: "mqtt_receiver \<Rightarrow> bytes \<Rightarrow> bool" where
  "loaded h q \<longleftrightarrow> length (mq_recvBuffer h) = 256 \<and> mq_recvBufferIdx h = length q \<and> length q \<le> 256
     \<and> take (length q) (mq_recvBuffer h) = q"

lemma loaded_nth: "loaded h q \<Longrightarrow> i < length q \<Longrightarrow> mq_recvBuffer h ! i = q ! i"
  by (metis loaded_def nth_take)

lemma loaded_read: "loaded h q \<Longrightarrow> i < length q \<Longrightarrow> mem_read (mq_recvBuffer h) i = Some (q ! i)"
  by (simp add: mem_read_def loaded_nth) (simp add: loaded_def)

lemma loaded_read16:
  "loaded h q \<Longrightarrow> i + 1 < length q \<Longrightarrow> read16 (mq_recvBuffer h) i = Some (be16 (q ! i) (q ! (i + 1)))"
  by (simp add: read16_def loaded_read)

lemma loaded_slice:
  assumes "loaded h q" and "off + n \<le> length q"
  shows "mem_slice (mq_recvBuffer h) off n = Some (take n (drop off q))"
proof -
  have "take n (drop off (take (length q) (mq_recvBuffer h))) = take n (drop off (mq_recvBuffer h))"
    using assms(2) by (simp add: drop_take min_def)
  with assms show ?thesis by (simp add: mem_slice_def loaded_def)
qed

lemma open_publish_Some:
  assumes "start \<le> k" and "k - start \<le> length data" and "k \<le> n"
  shows "open_publish cb h w data topic (of_nat (length topic)) mid (of_nat n) k start =
    Some (after_packet h (Publish topic mid (n - k)), deliver cb (Publish topic mid (n - k)) w,
          drop (k - start) data, True)"
  using assms by (simp add: open_publish_def Let_def consume_def of_nat_diff)

text \<open>The reads of \<open>decode_publish_header\<close>, by what they find.\<close>

lemma publish_reads:
  assumes l: "loaded h q" and pos: "1 \<le> pos" and pos2: "pos + 2 \<le> length q"
  obtains tw where "read16 (mq_recvBuffer h) pos = Some tw" and "topic_size q pos = unat tw"
    and "mem_read (mq_recvBuffer h) 0 = Some (q ! 0)" and "mq_recvBufferIdx h = length q"
    and "publish_size q pos = pos + 2 + unat tw + (if has_message_id (q ! 0) then 2 else 0)"
proof -
  have "0 < length q" using pos2 by linarith
  then show thesis
    using that [of "be16 (q ! pos) (q ! (pos + 1))"] loaded_read16 [OF l, of pos] loaded_read [OF l, of 0] l pos2
    by (simp add: topic_size_def publish_size_def loaded_def)
qed

lemma decode_publish_header_incomplete:
  assumes l: "loaded h q" and pos: "1 \<le> pos" and p: "parse_publish q pos m = Incomplete"
  shows "decode_publish_header cb h w data msg_size pos start = Some (h, w, [], True)"
proof (cases "length q < pos + 2")
  case True
  then show ?thesis using l by (simp add: decode_publish_header_def Let_def consume_def loaded_def)
next
  case False
  then have "pos + 2 \<le> length q" by simp
  from publish_reads [OF l pos this] obtain tw where r:
    "read16 (mq_recvBuffer h) pos = Some tw" "topic_size q pos = unat tw"
    "mem_read (mq_recvBuffer h) 0 = Some (q ! 0)" "mq_recvBufferIdx h = length q"
    "publish_size q pos = pos + 2 + unat tw + (if has_message_id (q ! 0) then 2 else 0)" .
  have tl: "pos + 2 + unat tw < 256" "length q < publish_size q pos"
    using p False r by (auto simp: parse_publish_def split: if_splits)
  show ?thesis
  proof (cases "length q < pos + 2 + unat tw")
    case True
    with False r tl show ?thesis
      by (simp add: decode_publish_header_def Let_def consume_def MQTT_BUFFER_SIZE_def)
  next
    case f2: False
    then have s: "mem_slice (mq_recvBuffer h) (pos + 2) (unat tw) = Some (take (unat tw) (drop (pos + 2) q))"
      using loaded_slice [OF l] by simp
    from f2 tl(2) r have "has_message_id (q ! 0)" "length q < pos + 2 + unat tw + 2"
      by (auto split: if_splits)
    with False f2 r s tl(1) show ?thesis
      by (simp add: decode_publish_header_def Let_def consume_def MQTT_BUFFER_SIZE_def)
  qed
qed

lemma decode_publish_header_parsed:
  assumes l: "loaded h q" and pos: "1 \<le> pos" and p: "parse_publish q pos m = Parsed (k, pk)"
    and start: "start \<le> k" and enough: "k - start \<le> length data"
  shows "decode_publish_header cb h w data (of_nat (pos + m)) pos start =
           Some (after_packet h pk, deliver cb pk w, drop (k - start) data, True)"
proof -
  have f: "pos + 2 \<le> length q" "pos + 2 + topic_size q pos < 256" "publish_size q pos \<le> pos + m"
    "publish_size q pos \<le> length q" "k = publish_size q pos" "pk = publish_packet q pos m"
    using p by (auto simp: parse_publish_def split: if_splits)
  from publish_reads [OF l pos f(1)] obtain tw where r:
    "read16 (mq_recvBuffer h) pos = Some tw" "topic_size q pos = unat tw"
    "mem_read (mq_recvBuffer h) 0 = Some (q ! 0)" "mq_recvBufferIdx h = length q"
    "publish_size q pos = pos + 2 + unat tw + (if has_message_id (q ! 0) then 2 else 0)" .
  define topic where "topic = take (unat tw) (drop (pos + 2) q)"
  have len: "length topic = unat tw" using r(5) f(4) by (simp add: topic_def)
  have s: "mem_slice (mq_recvBuffer h) (pos + 2) (unat tw) = Some topic"
    using loaded_slice [OF l, of "pos + 2" "unat tw"] r(5) f(4) by (simp add: topic_def)
  define mid where "mid = (if has_message_id (q ! 0)
        then be16 (q ! (pos + 2 + unat tw)) (q ! (pos + 2 + unat tw + 1)) else 0)"
  have i: "(if has_message_id (q ! 0) then read16 (mq_recvBuffer h) (pos + 2 + unat tw) else Some 0) = Some mid"
    using loaded_read16 [OF l, of "pos + 2 + unat tw"] r(5) f(4)
    by (cases "has_message_id (q ! 0)") (simp_all add: mid_def)
  have "decode_publish_header cb h w data (of_nat (pos + m)) pos start =
      open_publish cb h w data topic tw mid (of_nat (pos + m)) k start"
    using f r s i start
    by (cases "has_message_id (q ! 0)")
      (simp_all add: decode_publish_header_def Let_def consume_def MQTT_BUFFER_SIZE_def del: of_nat_add)
  moreover have "tw = of_nat (length topic)" by (simp add: len)
  moreover have "pk = Publish topic mid (pos + m - k)"
    using f(5,6) by (simp only: publish_packet_def r(2) topic_def mid_def)
  ultimately show ?thesis using open_publish_Some [OF start enough, of "pos + m"] f(3,5) by simp
qed

lemma await_message_cases:
  assumes "loaded h q" and "n < 2 ^ 32"
  shows "await_message h (of_nat n) =
    (if n \<ge> 256 then Some False else if length q < n then Some True else None)"
  using assms by (simp add: await_message_def loaded_def MQTT_BUFFER_SIZE_def unsigned_of_nat take_bit_nat_eq_self)

lemma finish_message_Some:
  assumes "start \<le> k" and "k - start \<le> length data" and "k < 2 ^ 32"
  shows "finish_message h w data (of_nat k) start = Some (h\<lparr>mq_recvBufferIdx := 0\<rparr>, w, drop (k - start) data, True)"
  using assms by (simp add: finish_message_def consume_def unsigned_of_nat take_bit_nat_eq_self)

lemma dispatch_incomplete:
  assumes l: "loaded h q" and pos: "1 \<le> pos" "pos \<le> length q" and n: "pos + n < 2 ^ 32"
    and p: "parse_body q pos n = Incomplete"
  shows "dispatch cb h w data (of_nat (pos + n)) pos start ((q ! 0) AND 0xf0) = Some (h, w, [], True)"
proof (cases "(q ! 0) AND 0xf0 = MQTTPUBLISH")
  case True
  with p have "parse_publish q pos n = Incomplete" by (simp add: parse_body_def)
  from decode_publish_header_incomplete [OF l pos(1) this] True show ?thesis by (simp add: dispatch_def)
next
  case False
  with p have "pos + n < 256" "length q < pos + n"
    by (auto simp: parse_body_def parse_short_def Let_def split: if_splits)
  then have "await_message h (of_nat (pos + n)) = Some True" using await_message_cases [OF l n] by simp
  with False show ?thesis
    by (simp add: dispatch_def decode_conn_ack_def decode_pubsub_ack_def decode_ping_def
        decode_unhandled_def consume_def del: of_nat_add)
qed

lemma dispatch_parsed:
  assumes l: "loaded h q" and pos: "1 \<le> pos" "pos \<le> length q" and n: "pos + n < 2 ^ 32"
    and p: "parse_body q pos n = Parsed (k, pk)" and start: "start \<le> k" and enough: "k - start \<le> length data"
  shows "dispatch cb h w data (of_nat (pos + n)) pos start ((q ! 0) AND 0xf0) =
    Some (after_packet h pk, deliver cb pk w, drop (k - start) data, True)"
proof (cases "(q ! 0) AND 0xf0 = MQTTPUBLISH")
  case True
  with p have "parse_publish q pos n = Parsed (k, pk)" by (simp add: parse_body_def)
  from decode_publish_header_parsed [OF l pos(1) this start enough] True show ?thesis by (simp add: dispatch_def)
next
  case False
  with p have k: "pos + n < 256" "\<not> length q < pos + n" "k = pos + n"
    by (auto simp: parse_body_def parse_short_def Let_def split: if_splits)
  then have a: "await_message h (of_nat (pos + n)) = None" using await_message_cases [OF l n] by simp
  have u: "\<not> unat (of_nat (pos + n) :: u32) < start"
    using k start by (simp add: unsigned_of_nat take_bit_nat_eq_self del: of_nat_add)
  have idx: "mq_recvBufferIdx h = length q" using l by (simp add: loaded_def)
  have fin: "finish_message h w' data (of_nat (pos + n)) start =
      Some (h\<lparr>mq_recvBufferIdx := 0\<rparr>, w', drop (k - start) data, True)" for w' :: 'a
    using finish_message_Some [of start "pos + n" data h w'] k start enough n by simp
  note go = dispatch_def a u idx fin
  have short: "pk = x \<and> least \<le> n"
    if "parse_body q pos n = parse_short q pos n least x" for least x
    using p that by (auto simp: parse_short_def split: if_splits)
  consider "(q ! 0) AND 0xf0 = MQTTCONNACK" | "(q ! 0) AND 0xf0 = MQTTPUBACK" | "(q ! 0) AND 0xf0 = MQTTSUBACK"
    | "(q ! 0) AND 0xf0 = MQTTPINGRESP" | "(q ! 0) AND 0xf0 = MQTTPINGREQ"
    | "(q ! 0) AND 0xf0 \<notin> {MQTTPUBLISH, MQTTCONNACK, MQTTPUBACK, MQTTSUBACK, MQTTPINGRESP, MQTTPINGREQ}"
    using False by blast
  then show ?thesis
  proof cases
    case 1
    then have s: "pk = Conn_Ack (conn_ack_code_of (q ! (pos + 1))) (q ! pos) \<and> 2 \<le> n"
      by (intro short) (simp add: parse_body_def Let_def)
    then have "pos + 1 < length q" using k by simp
    then show ?thesis
      using 1 s loaded_read [OF l, of pos] loaded_read [OF l, of "pos + 1"]
      by (simp add: go decode_conn_ack_def del: of_nat_add)
  next
    case 2
    then have s: "pk = Pub_Ack (be16 (q ! pos) (q ! (pos + 1))) \<and> 2 \<le> n"
      by (intro short) (simp add: parse_body_def Let_def)
    then have "pos + 1 < length q" using k by simp
    then show ?thesis
      using 2 s loaded_read16 [OF l, of pos] by (simp add: go decode_pubsub_ack_def del: of_nat_add)
  next
    case 3
    then have s: "pk = Sub_Ack (be16 (q ! pos) (q ! (pos + 1))) \<and> 2 \<le> n"
      by (intro short) (simp add: parse_body_def Let_def)
    then have "pos + 1 < length q" using k by simp
    then show ?thesis
      using 3 s loaded_read16 [OF l, of pos] by (simp add: go decode_pubsub_ack_def del: of_nat_add)
  next
    case 4
    then have "pk = Ping_Resp \<and> 0 \<le> n" by (intro short) (simp add: parse_body_def Let_def)
    with 4 show ?thesis by (simp add: go decode_ping_def del: of_nat_add)
  next
    case 5
    then have "pk = Ping_Req \<and> 0 \<le> n" by (intro short) (simp add: parse_body_def Let_def)
    with 5 show ?thesis by (simp add: go decode_ping_def del: of_nat_add)
  next
    case 6
    then have "pk = Ignored ((q ! 0) AND 0xf0) \<and> 0 \<le> n" by (intro short) (simp add: parse_body_def Let_def)
    with 6 show ?thesis by (simp add: go decode_unhandled_def del: of_nat_add)
  qed
qed

section \<open>The decoder against the specification\<close>

datatype mqtt_view = MHeader bytes | MData nat

datatype mqtt_output = Packet mqtt_packet | Payload_Byte u8 | Payload_End

fun view_after :: "mqtt_packet \<Rightarrow> mqtt_view" where
  "view_after (Publish topic mid n) = MData n"
| "view_after _ = MHeader []"

fun packet_outputs :: "mqtt_packet \<Rightarrow> mqtt_output list" where
  "packet_outputs (Ignored t) = []"
| "packet_outputs p = [Packet p]"

fun mqtt_feed :: "mqtt_view \<Rightarrow> u8 \<Rightarrow> (mqtt_view \<times> mqtt_output list) option" where
  "mqtt_feed (MHeader p) b =
     (case mqtt_parse (p @ [b]) of
        Incomplete \<Rightarrow> Some (MHeader (p @ [b]), [])
      | Malformed \<Rightarrow> None
      | Parsed (k, packet) \<Rightarrow> Some (view_after packet, packet_outputs packet))"
| "mqtt_feed (MData n) b =
     (if n = 0 then Some (MHeader [b], [Payload_End])
      else if n = 1 then Some (MHeader [], [Payload_Byte b, Payload_End])
      else Some (MData (n - 1), [Payload_Byte b]))"

text \<open>Callbacks that record what they were called with.\<close>

datatype mqtt_event =
    On_Packet mqtt_packet
  | On_Publish_Data bytes bool

definition mqtt_recorder :: "mqtt_event list mqtt_socket_interface" where
  "mqtt_recorder =
     \<lparr> on_pub_ack = (\<lambda>i w. (True, w @ [On_Packet (Pub_Ack i)])),
       on_sub_ack = (\<lambda>i w. (True, w @ [On_Packet (Sub_Ack i)])),
       on_conn_ack = (\<lambda>c f w. (True, w @ [On_Packet (Conn_Ack c f)])),
       on_ping_req = (\<lambda>w. (True, w @ [On_Packet Ping_Req])),
       on_ping_resp = (\<lambda>w. (True, w @ [On_Packet Ping_Resp])),
       on_publish_header = (\<lambda>topic n i len w. (True, w @ [On_Packet (Publish (take (unat n) topic) i (unat len))])),
       on_publish_data = (\<lambda>d n final w. (True, w @ [On_Publish_Data (take (unat n) d) final])),
       on_mqtt_sent = (\<lambda>n w. (True, w)), on_mqtt_closed = (\<lambda>w. w), on_mqtt_connected = (\<lambda>w. w) \<rparr>"

fun mqtt_outputs :: "mqtt_event \<Rightarrow> mqtt_output list" where
  "mqtt_outputs (On_Packet p) = [Packet p]"
| "mqtt_outputs (On_Publish_Data d final) = map Payload_Byte d @ (if final then [Payload_End] else [])"

definition mqtt_flat :: "mqtt_event list \<Rightarrow> mqtt_output list" where
  "mqtt_flat es = concat (map mqtt_outputs es)"

definition mqtt_abs :: "mqtt_receiver \<Rightarrow> mqtt_view" where
  "mqtt_abs h =
     (if mq_state h = WAIT_PACKET then MHeader (take (mq_recvBufferIdx h) (mq_recvBuffer h))
      else MData (unat (mq_pendingDataLen h)))"

definition mqtt_inv :: "mqtt_receiver \<Rightarrow> bool" where
  "mqtt_inv h \<longleftrightarrow> length (mq_recvBuffer h) = MQTT_BUFFER_SIZE \<and>
     (if mq_state h = WAIT_PACKET
      then mq_recvBufferIdx h < MQTT_BUFFER_SIZE
        \<and> mqtt_parse (take (mq_recvBufferIdx h) (mq_recvBuffer h)) = Incomplete
      else mq_recvBufferIdx h = 0)"

definition mqtt_decode :: "mqtt_receiver \<Rightarrow> bytes \<Rightarrow> (mqtt_receiver \<times> mqtt_event list \<times> bool) option" where
  "mqtt_decode h data = mqtt_on_recv mqtt_recorder h [] data"

lemma mqtt_inv_init: "mqtt_inv mqtt_receiver_init"
  by (simp add: mqtt_inv_def mqtt_receiver_init_def mqtt_parse_def MQTT_BUFFER_SIZE_def)

lemma mqtt_abs_init [simp]: "mqtt_abs mqtt_receiver_init = MHeader []"
  by (simp add: mqtt_abs_def mqtt_receiver_init_def)

lemma mqtt_flat_simps [simp]:
  "mqtt_flat [] = []" "mqtt_flat (e # es) = mqtt_outputs e @ mqtt_flat es"
  "mqtt_flat (es @ es') = mqtt_flat es @ mqtt_flat es'"
  by (simp_all add: mqtt_flat_def)

text \<open>The specification on a whole header: incomplete to the end, or complete at one point.\<close>

lemma parse_prefix_Incomplete: "mqtt_parse (p @ q) = Incomplete \<Longrightarrow> mqtt_parse p = Incomplete"
  using mqtt_parse_append [of p q] by (cases "mqtt_parse p") auto

lemma mqtt_feed_incomplete:
  "mqtt_parse (p @ pre) = Incomplete \<Longrightarrow>
   feed_all mqtt_feed (MHeader p) pre = Some (MHeader (p @ pre), [])"
proof (induction pre arbitrary: p)
  case (Cons b pre)
  from Cons.prems have "mqtt_parse ((p @ [b]) @ pre) = Incomplete" by simp
  moreover from this have "mqtt_parse (p @ [b]) = Incomplete" by (rule parse_prefix_Incomplete)
  ultimately show ?case using Cons.IH by simp
qed simp

text \<open>If the specification accepts the stream and does not stay in the header, the header
  ends at the byte \<open>last pre\<close>.\<close>

lemma mqtt_feed_header_cases:
  assumes "feed_all mqtt_feed (MHeader p) data \<noteq> None" and "mqtt_parse p = Incomplete"
  shows "mqtt_parse (p @ data) = Incomplete \<or>
    (\<exists>pre rest k packet. data = pre @ rest \<and> pre \<noteq> [] \<and> mqtt_parse (p @ pre) = Parsed (k, packet)
       \<and> feed_all mqtt_feed (MHeader p) pre = Some (view_after packet, packet_outputs packet)
       \<and> mqtt_parse (p @ butlast pre) = Incomplete)"
  using assms
proof (induction data arbitrary: p)
  case (Cons b data)
  show ?case
  proof (cases "mqtt_parse (p @ [b])")
    case Incomplete
    with Cons.prems have "feed_all mqtt_feed (MHeader (p @ [b])) data \<noteq> None" by (auto split: option.splits)
    from Cons.IH [OF this Incomplete] show ?thesis
    proof (elim disjE exE conjE)
      fix pre rest k packet
      assume a: "data = pre @ rest" "pre \<noteq> []" "mqtt_parse ((p @ [b]) @ pre) = Parsed (k, packet)"
        "feed_all mqtt_feed (MHeader (p @ [b])) pre = Some (view_after packet, packet_outputs packet)"
        "mqtt_parse ((p @ [b]) @ butlast pre) = Incomplete"
      then have "feed_all mqtt_feed (MHeader p) (b # pre) = Some (view_after packet, packet_outputs packet)"
        using Incomplete by simp
      with a show ?thesis by (intro disjI2 exI [of _ "b # pre"] exI [of _ rest]) auto
    qed simp
  next
    case Malformed
    with Cons.prems show ?thesis by simp
  next
    case (Parsed a)
    then obtain k packet where "mqtt_parse (p @ [b]) = Parsed (k, packet)" by (cases a) auto
    with Cons.prems(2) show ?thesis
      by (intro disjI2 exI [of _ "[b]"] exI [of _ data]) auto
  qed
qed simp

text \<open>The size a packet parses to is where its header ends.\<close>

lemma parse_varint_take:
  "parse_varint f p = Parsed (v, k) \<Longrightarrow> k \<le> m \<Longrightarrow> parse_varint f (take m p) = Parsed (v, k)"
proof (induction f p arbitrary: v k m rule: parse_varint.induct)
  case (3 f b bs)
  from parse_varint_bounds [OF 3(2)] 3(3) obtain m' where m: "m = Suc m'" by (cases m) auto
  with 3 show ?case by (cases "parse_varint f bs") (auto split: if_splits)
qed auto

lemma parse_publish_take:
  assumes "parse_publish p pos n = Parsed (k, packet)"
  shows "parse_publish (take k p) pos n \<noteq> Incomplete"
proof -
  have f: "k = publish_size p pos" "k \<le> length p" "pos + 2 \<le> k"
    using assms by (auto simp: parse_publish_def publish_size_def split: if_splits)
  then have "publish_size (take k p @ drop k p) pos = publish_size (take k p) pos"
    by (intro publish_size_append) simp
  with f show ?thesis by (simp add: parse_publish_def)
qed

lemma parse_body_take:
  assumes p: "parse_body p pos n = Parsed (k, packet)" and pos: "1 \<le> pos"
  shows "pos \<le> k" and "parse_body (take k p) pos n \<noteq> Incomplete"
proof -
  show k: "pos \<le> k"
    using p by (auto simp: parse_body_def parse_publish_def publish_size_def parse_short_def Let_def split: if_splits)
  then have z: "take k p ! 0 = p ! 0" using pos by simp
  show "parse_body (take k p) pos n \<noteq> Incomplete"
  proof (cases "(p ! 0) AND 0xf0 = MQTTPUBLISH")
    case True
    with p have "parse_publish p pos n = Parsed (k, packet)" by (simp add: parse_body_def)
    from parse_publish_take [OF this] True show ?thesis by (simp add: parse_body_def z)
  next
    case False
    with p have "k = pos + n" "k \<le> length p"
      by (auto simp: parse_body_def parse_short_def Let_def split: if_splits)
    with False z show ?thesis by (simp add: parse_body_def parse_short_def Let_def)
  qed
qed

lemma mqtt_parse_take:
  assumes "mqtt_parse p = Parsed (k, packet)"
  shows "mqtt_parse (take k p) \<noteq> Incomplete"
proof -
  obtain n j where v: "parse_varint 4 (tl p) = Parsed (n, j)" and b: "parse_body p (j + 1) n = Parsed (k, packet)"
    and ne: "p \<noteq> []"
    using assms by (cases "p = []"; cases "parse_varint 4 (tl p)") (auto simp: mqtt_parse_def)
  note t = parse_body_take [OF b]
  then have "j \<le> k - 1" by simp
  with parse_varint_take [OF v] have "parse_varint 4 (tl (take k p)) = Parsed (n, j)"
    using t by (simp add: tl_take)
  moreover have "take k p \<noteq> []" using ne t by simp
  ultimately show ?thesis using t by (simp add: mqtt_parse_def)
qed

lemma mqtt_parse_first:
  assumes "mqtt_parse (p @ pre) = Parsed (k, packet)" and "mqtt_parse (p @ butlast pre) = Incomplete" and "pre \<noteq> []"
  shows "k = length p + length pre"
proof (rule ccontr)
  assume "k \<noteq> length p + length pre"
  with mqtt_parse_size [OF assms(1)] have k: "k \<le> length (p @ butlast pre)" using assms(3) by simp
  have "take k (p @ pre) = take k (p @ butlast pre)"
    using k assms(3) append_butlast_last_id [of pre] by (metis append.assoc take_append diff_is_0_eq take0 append_Nil2)
  then have "mqtt_parse (p @ butlast pre) \<noteq> Incomplete"
    using mqtt_parse_take [OF assms(1)] parse_prefix_Incomplete [of "take k (p @ butlast pre)" "drop k (p @ butlast pre)"]
    by (metis append_take_drop_id)
  with assms(2) show False by simp
qed


lemma loaded_header_copy:
  assumes inv: "mqtt_inv h" and st: "mq_state h = WAIT_PACKET"
    and q: "q = take 256 (take (mq_recvBufferIdx h) (mq_recvBuffer h) @ data)"
    and n: "n = min (length data) (MQTT_BUFFER_SIZE - mq_recvBufferIdx h)"
  obtains buf where "mem_copy (mq_recvBuffer h) (mq_recvBufferIdx h) (take n data) = Some buf"
    and "mq_recvBufferIdx h + n = length q"
    and "loaded (h\<lparr>mq_recvBuffer := buf, mq_recvBufferIdx := length q\<rparr>) q"
proof -
  let ?i = "mq_recvBufferIdx h" and ?b = "mq_recvBuffer h"
  have i: "?i < 256" "length ?b = 256" using inv st by (simp_all add: mqtt_inv_def MQTT_BUFFER_SIZE_def)
  have q': "q = take ?i ?b @ take n data" using i by (auto simp: q n MQTT_BUFFER_SIZE_def min_def)
  have lq: "?i + n = length q" using i n by (simp add: q' MQTT_BUFFER_SIZE_def)
  have l: "?i + length (take n data) \<le> length ?b" using i n by (simp add: MQTT_BUFFER_SIZE_def)
  have ln: "length (take n data) = n" using n by simp
  have "take (length q) (blit ?b ?i (take n data)) = q"
    using take_blit [OF l] ln lq q' by simp
  moreover have "length q \<le> 256" by (simp add: q)
  ultimately have "loaded (h\<lparr>mq_recvBuffer := blit ?b ?i (take n data), mq_recvBufferIdx := length q\<rparr>) q"
    using l i by (simp add: loaded_def)
  with mem_copy_Some [OF l] lq show thesis using that by blast
qed

lemma mqtt_parse_scan:
  assumes l: "loaded h q" and two: "2 \<le> length q"
  shows "parse_varint 4 (tl q) = Incomplete \<Longrightarrow> decode_length (mq_recvBuffer h) (length q) 0 0 = Need_More"
    and "parse_varint 4 (tl q) = Parsed (n, k) \<Longrightarrow>
           decode_length (mq_recvBuffer h) (length q) 0 0 = Got (k, of_nat n)"
proof -
  have t: "tl q = drop (Suc 0) (take (length q) (mq_recvBuffer h))"
    using l by (simp add: loaded_def drop_Suc)
  have i: "4 + 0 = (4::nat)" "length q \<le> length (mq_recvBuffer h)" using l by (auto simp: loaded_def)
  show "parse_varint 4 (tl q) = Incomplete \<Longrightarrow> decode_length (mq_recvBuffer h) (length q) 0 0 = Need_More"
    using decode_length_varint(2) [OF i] t by simp
  show "parse_varint 4 (tl q) = Parsed (n, k) \<Longrightarrow>
           decode_length (mq_recvBuffer h) (length q) 0 0 = Got (k, of_nat n)"
    using decode_length_varint(1) [OF i, of n k 0] t by simp
qed

lemma mqtt_parse_length_1: "length q < 2 \<Longrightarrow> mqtt_parse q = Incomplete"
  by (cases q) (auto simp: mqtt_parse_def eval_nat_numeral)

lemma decode_header_incomplete:
  assumes inv: "mqtt_inv h" and st: "mq_state h = WAIT_PACKET"
    and q: "q = take 256 (take (mq_recvBufferIdx h) (mq_recvBuffer h) @ data)"
    and p: "mqtt_parse q = Incomplete"
  shows "\<exists>h1. decode_header cb h w data = Some (h1, w, [], True) \<and> loaded h1 q \<and> mq_state h1 = WAIT_PACKET"
proof -
  obtain buf where c: "mem_copy (mq_recvBuffer h) (mq_recvBufferIdx h)
      (take (min (length data) (MQTT_BUFFER_SIZE - mq_recvBufferIdx h)) data) = Some buf"
    and n: "mq_recvBufferIdx h + min (length data) (MQTT_BUFFER_SIZE - mq_recvBufferIdx h) = length q"
    and l: "loaded (h\<lparr>mq_recvBuffer := buf, mq_recvBufferIdx := length q\<rparr>) q"
    by (rule loaded_header_copy [OF inv st q refl])
  let ?h1 = "h\<lparr>mq_recvBuffer := buf, mq_recvBufferIdx := length q\<rparr>"
  have "decode_header cb h w data = Some (?h1, w, [], True)"
  proof (cases "length q < 2")
    case True
    then show ?thesis using c n by (simp add: decode_header_def Let_def consume_def)
  next
    case False
    then have two: "2 \<le> length q" and ne: "q \<noteq> []" by auto
    show ?thesis
    proof (cases "parse_varint 4 (tl q)")
      case Incomplete
      from mqtt_parse_scan(1) [OF l two this] show ?thesis
        using c n False by (simp add: decode_header_def Let_def consume_def)
    next
      case Malformed
      with p ne show ?thesis by (simp add: mqtt_parse_def)
    next
      case (Parsed a)
      then obtain m k where v: "parse_varint 4 (tl q) = Parsed (m, k)" by (cases a) auto
      have b: "k + 1 \<le> length q" "m < 128 ^ 4" using parse_varint_bounds [OF v] ne by (cases q; auto)+
      have bd: "parse_body q (k + 1) m = Incomplete" using p ne v by (simp add: mqtt_parse_def)
      have "dispatch cb ?h1 w data (of_nat (k + 1 + m)) (k + 1) (mq_recvBufferIdx h) ((q ! 0) AND 0xf0) = Some (?h1, w, [], True)"
        by (rule dispatch_incomplete [OF l _ b(1) _ bd]) (use b parse_varint_bounds [OF v] in auto)
      moreover have "mem_read buf 0 = Some (q ! 0)" using loaded_read [OF l, of 0] ne by simp
      ultimately show ?thesis
        using mqtt_parse_scan(2) [OF l two v] c n False
        by (simp add: decode_header_def Let_def consume_def add_ac)
    qed
  qed
  with l st show ?thesis by auto
qed

lemma decode_header_parsed:
  assumes inv: "mqtt_inv h" and st: "mq_state h = WAIT_PACKET"
    and q: "q = take 256 (take (mq_recvBufferIdx h) (mq_recvBuffer h) @ data)"
    and p: "mqtt_parse q = Parsed (k, packet)" and start: "mq_recvBufferIdx h \<le> k"
  shows "\<exists>h1. decode_header cb h w data =
           Some (after_packet h1 packet, deliver cb packet w, drop (k - mq_recvBufferIdx h) data, True)
         \<and> loaded h1 q \<and> mq_state h1 = WAIT_PACKET"
proof -
  obtain buf where c: "mem_copy (mq_recvBuffer h) (mq_recvBufferIdx h)
      (take (min (length data) (MQTT_BUFFER_SIZE - mq_recvBufferIdx h)) data) = Some buf"
    and n: "mq_recvBufferIdx h + min (length data) (MQTT_BUFFER_SIZE - mq_recvBufferIdx h) = length q"
    and l: "loaded (h\<lparr>mq_recvBuffer := buf, mq_recvBufferIdx := length q\<rparr>) q"
    by (rule loaded_header_copy [OF inv st q refl])
  let ?h1 = "h\<lparr>mq_recvBuffer := buf, mq_recvBufferIdx := length q\<rparr>"
  have two: "2 \<le> length q" using p mqtt_parse_length_1 [of q] by (cases "length q < 2") auto
  then have ne: "q \<noteq> []" by auto
  obtain m j where v: "parse_varint 4 (tl q) = Parsed (m, j)" and bd: "parse_body q (j + 1) m = Parsed (k, packet)"
    using p ne by (cases "parse_varint 4 (tl q)") (auto simp: mqtt_parse_def)
  have b: "j + 1 \<le> length q" "m < 128 ^ 4" using parse_varint_bounds [OF v] ne by (cases q; auto)+
  have enough: "k - mq_recvBufferIdx h \<le> length data"
    using mqtt_parse_size(1) [OF p] n by linarith
  have "dispatch cb ?h1 w data (of_nat (j + 1 + m)) (j + 1) (mq_recvBufferIdx h) ((q ! 0) AND 0xf0) =
      Some (after_packet ?h1 packet, deliver cb packet w, drop (k - mq_recvBufferIdx h) data, True)"
    by (rule dispatch_parsed [OF l _ b(1) _ bd start enough]) (use b parse_varint_bounds [OF v] in auto)
  moreover have "mem_read buf 0 = Some (q ! 0)" using loaded_read [OF l, of 0] ne by simp
  ultimately have "decode_header cb h w data =
      Some (after_packet ?h1 packet, deliver cb packet w, drop (k - mq_recvBufferIdx h) data, True)"
    using mqtt_parse_scan(2) [OF l two v] c n two
    by (simp add: decode_header_def Let_def consume_def add_ac)
  with l st show ?thesis by auto
qed

section \<open>The loop\<close>

lemma publish_bounds:
  assumes "mqtt_parse p = Parsed (k, Publish topic mid n)"
  shows "length topic < 65536" and "n < 2 ^ 32"
proof -
  obtain m j where v: "parse_varint 4 (tl p) = Parsed (m, j)" and b: "parse_body p (j + 1) m = Parsed (k, Publish topic mid n)"
    using assms by (cases "p = []"; cases "parse_varint 4 (tl p)") (auto simp: mqtt_parse_def)
  then have "parse_publish p (j + 1) m = Parsed (k, Publish topic mid n)"
    by (auto simp: parse_body_def parse_short_def Let_def split: if_splits)
  then have f: "j + 1 + 2 + topic_size p (j + 1) < 256" "publish_packet p (j + 1) m = Publish topic mid n"
    by (auto simp: parse_publish_def split: if_splits)
  show "length topic < 65536" using f by (auto simp: publish_packet_def)
  have "n \<le> j + 1 + m" using f(2) by (auto simp: publish_packet_def)
  with parse_varint_bounds [OF v] show "n < 2 ^ 32" by simp
qed

lemma deliver_recorder:
  assumes "mqtt_parse p = Parsed (k, packet)"
  obtains es where "deliver mqtt_recorder packet w = w @ es" and "mqtt_flat es = packet_outputs packet"
proof (cases packet)
  case (Publish topic mid n)
  have "unat (of_nat (length topic) :: u16) = length topic" "unat (of_nat n :: u32) = n"
    using publish_bounds [OF assms [unfolded Publish]] by (simp_all add: unsigned_of_nat take_bit_nat_eq_self)
  then show ?thesis using that [of "[On_Packet packet]"] Publish by (simp add: mqtt_recorder_def)
next
  case (Ignored t)
  then show ?thesis using that [of "[]"] by simp
qed (use that [of "[On_Packet packet]"] in \<open>simp_all add: mqtt_recorder_def\<close>)

lemma after_packet_abs:
  assumes "mqtt_parse p = Parsed (k, packet)" and "mq_state h = WAIT_PACKET" and "length (mq_recvBuffer h) = 256"
  shows "mqtt_abs (after_packet h packet) = view_after packet" and "mqtt_inv (after_packet h packet)"
proof -
  have "unat (of_nat n :: u32) = n" if "packet = Publish topic mid n" for topic mid n
    using publish_bounds [OF assms(1) [unfolded that]] by (simp add: unsigned_of_nat take_bit_nat_eq_self)
  then show "mqtt_abs (after_packet h packet) = view_after packet"
    using assms by (cases packet) (simp_all add: mqtt_abs_def)
  show "mqtt_inv (after_packet h packet)"
    using assms by (cases packet) (simp_all add: mqtt_inv_def mqtt_parse_def MQTT_BUFFER_SIZE_def)
qed

lemma mqtt_feed_payload:
  "d \<noteq> [] \<Longrightarrow> length d \<le> n \<Longrightarrow>
   feed_all mqtt_feed (MData n) d =
     Some (if length d = n then MHeader [] else MData (n - length d),
           map Payload_Byte d @ (if length d = n then [Payload_End] else []))"
proof (induction d arbitrary: n)
  case (Cons b d)
  then show ?case by (cases "d = []") auto
qed simp

definition mqtt_accepts :: "mqtt_receiver \<Rightarrow> mqtt_event list \<Rightarrow> bytes \<Rightarrow> bool" where
  "mqtt_accepts h w data \<longleftrightarrow>
     (\<forall>v os. feed_all mqtt_feed (mqtt_abs h) data = Some (v, os) \<longrightarrow>
        (\<exists>h' es. decode_data mqtt_recorder h w data = Some (h', w @ es, True)
           \<and> mqtt_abs h' = v \<and> mqtt_flat es = os \<and> mqtt_inv h'))"

lemma decode_data_Nil: "decode_data cb h w [] = Some (h, w, True)"
  by (simp add: decode_data.simps)

lemma mqtt_accepts_step:
  assumes "decode_data mqtt_recorder h w data = decode_data mqtt_recorder h1 (w @ es1) data1"
    and "feed_all mqtt_feed (mqtt_abs h) data =
         map_option (\<lambda>(v, os). (v, mqtt_flat es1 @ os)) (feed_all mqtt_feed (mqtt_abs h1) data1)"
    and "mqtt_accepts h1 (w @ es1) data1"
  shows "mqtt_accepts h w data"
proof -
  {
    fix v os
    assume "feed_all mqtt_feed (mqtt_abs h) data = Some (v, os)"
    with assms(2) obtain os' where "feed_all mqtt_feed (mqtt_abs h1) data1 = Some (v, os')"
      and os: "os = mqtt_flat es1 @ os'"
      by (cases "feed_all mqtt_feed (mqtt_abs h1) data1") auto
    with assms(3) obtain h' es where "decode_data mqtt_recorder h1 (w @ es1) data1 = Some (h', (w @ es1) @ es, True)"
      and "mqtt_abs h' = v" "mqtt_flat es = os'" "mqtt_inv h'" by (auto simp: mqtt_accepts_def)
    with assms(1) os have "\<exists>h' es. decode_data mqtt_recorder h w data = Some (h', w @ es, True)
        \<and> mqtt_abs h' = v \<and> mqtt_flat es = os \<and> mqtt_inv h'"
      by (intro exI [of _ h'] exI [of _ "es1 @ es"]) simp
  }
  then show ?thesis by (simp add: mqtt_accepts_def)
qed

lemma mqtt_accepts_Nil: "mqtt_inv h \<Longrightarrow> mqtt_accepts h w []"
  by (simp add: mqtt_accepts_def decode_data_Nil)

lemma mqtt_accepts_header:
  assumes inv: "mqtt_inv h" and st: "mq_state h = WAIT_PACKET" and ne: "data \<noteq> []"
    and IH: "\<And>h' w' data'. length data' < length data \<Longrightarrow> mqtt_inv h' \<Longrightarrow> mqtt_accepts h' w' data'"
  shows "mqtt_accepts h w data"
proof (cases "feed_all mqtt_feed (mqtt_abs h) data")
  case None
  then show ?thesis by (simp add: mqtt_accepts_def)
next
  case (Some r)
  define p where "p = take (mq_recvBufferIdx h) (mq_recvBuffer h)"
  define q where "q = take 256 (p @ data)"
  have abs: "mqtt_abs h = MHeader p" and pI: "mqtt_parse p = Incomplete" and lp: "length p = mq_recvBufferIdx h"
    using inv st by (simp_all add: mqtt_abs_def mqtt_inv_def p_def MQTT_BUFFER_SIZE_def)
  have "feed_all mqtt_feed (MHeader p) data \<noteq> None" using Some abs by simp
  from mqtt_feed_header_cases [OF this pI] show ?thesis
  proof (elim disjE exE conjE)
    assume i: "mqtt_parse (p @ data) = Incomplete"
    then have l: "length (p @ data) < 256" by (rule mqtt_parse_Incomplete)
    then have q: "q = p @ data" by (simp add: q_def)
    with i have qi: "mqtt_parse q = Incomplete" by simp
    from decode_header_incomplete [OF inv st q_def [unfolded p_def] qi, of mqtt_recorder w] obtain h1 where
      h1: "decode_header mqtt_recorder h w data = Some (h1, w, [], True)" "loaded h1 q" "mq_state h1 = WAIT_PACKET"
      by blast
    have i1: "mqtt_inv h1" and a1: "mqtt_abs h1 = MHeader (p @ data)"
      using h1 i l q by (auto simp: mqtt_inv_def mqtt_abs_def loaded_def MQTT_BUFFER_SIZE_def)
    have "decode_data mqtt_recorder h w data = decode_data mqtt_recorder h1 (w @ []) []"
      using h1(1) st ne by (subst decode_data.simps) simp
    moreover have "feed_all mqtt_feed (mqtt_abs h) data =
         map_option (\<lambda>(v, os). (v, mqtt_flat [] @ os)) (feed_all mqtt_feed (mqtt_abs h1) [])"
      using mqtt_feed_incomplete [OF i] abs a1 by simp
    ultimately show ?thesis using mqtt_accepts_Nil [OF i1] by (rule mqtt_accepts_step)
  next
    fix pre rest k packet
    assume a: "data = pre @ rest" "pre \<noteq> []" "mqtt_parse (p @ pre) = Parsed (k, packet)"
      "feed_all mqtt_feed (MHeader p) pre = Some (view_after packet, packet_outputs packet)"
      "mqtt_parse (p @ butlast pre) = Incomplete"
    have k: "k = length p + length pre" by (rule mqtt_parse_first [OF a(3,5,2)])
    have "k \<le> 256" by (rule mqtt_parse_size(2) [OF a(3)])
    then have "q = (p @ pre) @ take (256 - k) rest" using a(1) k by (simp add: q_def)
    then have pq: "mqtt_parse q = Parsed (k, packet)" using mqtt_parse_append [of "p @ pre"] a(3) by simp
    obtain h1 where h1: "decode_header mqtt_recorder h w data =
        Some (after_packet h1 packet, deliver mqtt_recorder packet w, drop (k - mq_recvBufferIdx h) data, True)"
      and l1: "loaded h1 q" "mq_state h1 = WAIT_PACKET"
      using decode_header_parsed [OF inv st q_def [unfolded p_def] pq, of mqtt_recorder w] k lp by auto
    have rest: "drop (k - mq_recvBufferIdx h) data = rest" using a(1) k lp by simp
    obtain es where es: "deliver mqtt_recorder packet w = w @ es" "mqtt_flat es = packet_outputs packet"
      by (rule deliver_recorder [OF pq])
    note ap = after_packet_abs [OF pq l1(2)]
    have lb: "length (mq_recvBuffer h1) = 256" using l1(1) by (simp add: loaded_def)
    have "decode_data mqtt_recorder h w data = decode_data mqtt_recorder (after_packet h1 packet) (w @ es) rest"
      using h1 st ne rest es by (subst decode_data.simps) simp
    moreover have "feed_all mqtt_feed (mqtt_abs h) data = map_option (\<lambda>(v, os). (v, mqtt_flat es @ os))
        (feed_all mqtt_feed (mqtt_abs (after_packet h1 packet)) rest)"
      using a abs ap(1) [OF lb] es by (simp add: feed_all_append_Some)
    moreover have "mqtt_accepts (after_packet h1 packet) (w @ es) rest"
      using a(1,2) ap(2) [OF lb] by (intro IH) simp_all
    ultimately show ?thesis by (rule mqtt_accepts_step)
  qed
qed

lemma mqtt_accepts_payload:
  assumes inv: "mqtt_inv h" and st: "mq_state h = WAIT_DATA" and ne: "data \<noteq> []"
    and IH: "\<And>h' w' data'. length data' < length data \<Longrightarrow> mqtt_inv h' \<Longrightarrow> mqtt_accepts h' w' data'"
  shows "mqtt_accepts h w data"
proof -
  define n where "n = unat (mq_pendingDataLen h)"
  define k where "k = min (length data) n"
  define h1 where "h1 = h\<lparr>mq_pendingDataLen := mq_pendingDataLen h - of_nat k,
      mq_state := (if mq_pendingDataLen h - of_nat k = 0 then WAIT_PACKET else mq_state h)\<rparr>"
  have n32: "n < 2 ^ 32" using unat_u32_less [of "mq_pendingDataLen h"] by (simp add: n_def)
  have pn: "mq_pendingDataLen h - of_nat k = of_nat (n - k)"
    by (simp add: k_def n_def of_nat_diff)
  have u: "unat (of_nat (n - k) :: u32) = n - k" using n32 by (simp add: unsigned_of_nat take_bit_nat_eq_self)
  then have z: "(of_nat (n - k) = (0 :: u32)) \<longleftrightarrow> n = k" unfolding word_unat_eq_iff by (auto simp: k_def)
  have abs: "mqtt_abs h = MData n" using st by (simp add: mqtt_abs_def n_def)
  have inv1: "mqtt_inv h1"
    using inv st by (auto simp: h1_def mqtt_inv_def mqtt_parse_def MQTT_BUFFER_SIZE_def)
  have abs1: "mqtt_abs h1 = (if n = k then MHeader [] else MData (n - k))"
    using inv st z u by (auto simp: h1_def mqtt_abs_def mqtt_inv_def pn simp del: of_nat_diff)
  let ?es = "[On_Publish_Data (take k data) (k = n)]"
  have uk: "unat (of_nat k :: u32) = k" using n32 by (simp add: k_def unsigned_of_nat take_bit_nat_eq_self)
  have step: "decode_data mqtt_recorder h w data = decode_data mqtt_recorder h1 (w @ ?es) (drop k data)"
    using st ne uk unfolding h1_def k_def n_def
    by (subst decode_data.simps) (simp add: mqtt_recorder_def Let_def)
  show ?thesis
  proof (cases "n = 0")
    case True
    then have k: "k = 0" by (simp add: k_def)
    from ne obtain b bs where bs: "data = b # bs" by (cases data) auto
    have "mqtt_parse [b] = Incomplete" by (simp add: mqtt_parse_length_1)
    then have "feed_all mqtt_feed (mqtt_abs h) data =
         map_option (\<lambda>(v, os). (v, mqtt_flat ?es @ os)) (feed_all mqtt_feed (mqtt_abs h1) (drop k data))"
      using True k abs abs1 bs by (auto split: option.splits)
    moreover have "mqtt_accepts h1 (w @ ?es) (drop k data)"
    proof -
      have "mq_state h1 = WAIT_PACKET" using True k by (simp add: h1_def n_def unsigned_eq_0_iff)
      moreover have "drop k data = data" using k by simp
      ultimately show ?thesis using mqtt_accepts_header [OF inv1 _ ne IH, of "w @ ?es"] by simp
    qed
    ultimately show ?thesis using step by (blast intro: mqtt_accepts_step)
  next
    case False
    have tk: "take k data \<noteq> []" "length (take k data) = k" using False ne by (auto simp: k_def)
    have "feed_all mqtt_feed (MData n) (take k data) =
        Some (mqtt_abs h1, mqtt_flat ?es)"
      using mqtt_feed_payload [OF tk(1), of n] tk(2) abs1 by (auto simp: k_def)
    then have "feed_all mqtt_feed (MData n) (take k data @ drop k data) =
         map_option (\<lambda>(v, os). (v, mqtt_flat ?es @ os)) (feed_all mqtt_feed (mqtt_abs h1) (drop k data))"
      by (rule feed_all_append_Some)
    then have "feed_all mqtt_feed (mqtt_abs h) data =
         map_option (\<lambda>(v, os). (v, mqtt_flat ?es @ os)) (feed_all mqtt_feed (mqtt_abs h1) (drop k data))"
      by (simp only: append_take_drop_id abs)
    moreover have "mqtt_accepts h1 (w @ ?es) (drop k data)"
      using tk ne inv1 by (intro IH) auto
    ultimately show ?thesis using step by (blast intro: mqtt_accepts_step)
  qed
qed

lemma mqtt_accepts: "mqtt_inv h \<Longrightarrow> mqtt_accepts h w data"
proof (induction data arbitrary: h w rule: length_induct)
  case (1 data)
  show ?case
  proof (cases "data = []")
    case True
    with 1 show ?thesis by (simp add: mqtt_accepts_Nil)
  next
    case False
    with 1 show ?thesis
      by (cases "mq_state h") (blast intro: mqtt_accepts_header mqtt_accepts_payload)+
  qed
qed

interpretation mqd: stream_decoder mqtt_decode mqtt_feed mqtt_abs mqtt_flat mqtt_inv
proof
  show "mqtt_flat [] = []" by simp
  show "mqtt_flat (es @ es') = mqtt_flat es @ mqtt_flat es'" for es es' by simp
next
  fix s xs v os
  assume "mqtt_inv s" and "feed_all mqtt_feed (mqtt_abs s) xs = Some (v, os)"
  then show "\<exists>s' es. mqtt_decode s xs = Some (s', es, True) \<and> mqtt_abs s' = v \<and> mqtt_flat es = os \<and> mqtt_inv s'"
    using mqtt_accepts [of s "[]" xs] by (simp add: mqtt_accepts_def mqtt_decode_def mqtt_on_recv_def)
qed

end
