(* ===== verification/Mqtt_Limits.thy ===== *)
theory Mqtt_Limits
  imports Mqtt_Spec
begin

text \<open>
  Behaviour of the MQTT decoder on any input, also where no packet grammar accepts it: every
  step stays inside the receive buffer and the segment; and the inputs on which the decoder
  stops making progress.
\<close>

section \<open>Memory safety of a step\<close>

definition mqtt_bounded :: "mqtt_receiver \<Rightarrow> bool" where
  "mqtt_bounded h \<longleftrightarrow> length (mq_recvBuffer h) = MQTT_BUFFER_SIZE \<and> mq_recvBufferIdx h \<le> MQTT_BUFFER_SIZE"

definition step_ok :: "bytes \<Rightarrow> 'w decoded \<Rightarrow> bool" where
  "step_ok data r \<longleftrightarrow> (\<exists>h w n ok. r = Some (h, w, drop n data, ok) \<and> mqtt_bounded h)"

named_theorems step_intros

lemma step_ok_all [step_intros]: "mqtt_bounded h \<Longrightarrow> step_ok data (Some (h, w, [], ok))"
  unfolding step_ok_def by (rule exI [of _ h]) (metis drop_all order_refl)

lemma step_ok_none [step_intros]: "mqtt_bounded h \<Longrightarrow> step_ok data (Some (h, w, data, ok))"
  unfolding step_ok_def by (rule exI [of _ h]) (metis drop0)

lemma step_ok_drop [step_intros]: "mqtt_bounded h \<Longrightarrow> step_ok data (Some (h, w, drop n data, ok))"
  unfolding step_ok_def by blast

lemma consume_cases: "consume data n = (data, False) \<or> consume data n = (drop n data, True)"
  by (simp add: consume_def)

lemma consume_all: "consume data (length data) = ([], True)"
  by (simp add: consume_def)

lemma step_ok_consume [step_intros]:
  "mqtt_bounded h \<Longrightarrow> step_ok data (Some (h, w, consume data n))"
  using consume_cases [of data n] by (auto intro: step_intros)

lemma finish_message_ok: "mqtt_bounded h \<Longrightarrow> step_ok data (finish_message h w data msg_size start)"
  by (auto simp: finish_message_def mqtt_bounded_def intro!: step_intros)

lemma open_publish_ok:
  "mqtt_bounded h \<Longrightarrow> step_ok data (open_publish cb h w data topic n i msg_size pos start)"
  by (auto simp: open_publish_def mqtt_bounded_def Let_def intro!: step_intros)

lemma read16_Some: "i + 1 < length m \<Longrightarrow> read16 m i = Some (be16 (m ! i) (m ! (i + 1)))"
  by (simp add: read16_def mem_read_def)

lemma bounded_len: "mqtt_bounded h \<Longrightarrow> length (mq_recvBuffer h) = 256"
  "mqtt_bounded h \<Longrightarrow> mq_recvBufferIdx h \<le> 256"
  by (simp_all add: mqtt_bounded_def MQTT_BUFFER_SIZE_def)

lemma decode_publish_header_ok:
  assumes b: "mqtt_bounded h"
  shows "step_ok data (decode_publish_header cb h w data msg_size pos start)"
proof (cases "pos + 2 > mq_recvBufferIdx h")
  case True
  with b show ?thesis by (simp add: decode_publish_header_def Let_def consume_all step_intros)
next
  case False
  with bounded_len [OF b] obtain tl where tl: "read16 (mq_recvBuffer h) pos = Some tl"
    using read16_Some [of pos "mq_recvBuffer h"] by force
  have b0: "mem_read (mq_recvBuffer h) 0 = Some (mq_recvBuffer h ! 0)"
    using bounded_len [OF b] by (intro mem_read_Some) simp
  show ?thesis
  proof (cases "pos + 2 + unat tl \<ge> 256 \<or> pos + 2 + unat tl > mq_recvBufferIdx h")
    case True
    with False b tl show ?thesis
      by (auto simp: decode_publish_header_def Let_def consume_all MQTT_BUFFER_SIZE_def intro: step_intros)
  next
    case f2: False
    then obtain topic where s: "mem_slice (mq_recvBuffer h) (pos + 2) (unat tl) = Some topic"
      using bounded_len [OF b] by (simp add: mem_slice_def)
    show ?thesis
    proof (cases "has_message_id (mq_recvBuffer h ! 0)")
      case hm: False
      with False f2 b tl s b0 open_publish_ok [OF b] show ?thesis
        by (simp add: decode_publish_header_def Let_def consume_all MQTT_BUFFER_SIZE_def)
    next
      case hm: True
      have "pos + 2 + unat tl + 2 \<le> mq_recvBufferIdx h \<Longrightarrow>
          \<exists>i. read16 (mq_recvBuffer h) (pos + 2 + unat tl) = Some i"
        using read16_Some [of "pos + 2 + unat tl" "mq_recvBuffer h"] bounded_len [OF b] by simp
      with False f2 b tl s b0 hm open_publish_ok [OF b] show ?thesis
        by (cases "pos + 2 + unat tl + 2 > mq_recvBufferIdx h")
          (auto simp: decode_publish_header_def Let_def consume_all MQTT_BUFFER_SIZE_def intro: step_intros)
    qed
  qed
qed

lemma await_message_None:
  "await_message h msg_size = None \<Longrightarrow> unat msg_size < 256 \<and> unat msg_size \<le> mq_recvBufferIdx h"
  by (auto simp: await_message_def MQTT_BUFFER_SIZE_def split: if_splits)

lemma decode_conn_ack_ok:
  assumes b: "mqtt_bounded h"
  shows "step_ok data (decode_conn_ack cb h w data msg_size pos start)"
proof (cases "pos + 2 > mq_recvBufferIdx h")
  case True
  with b show ?thesis
    by (auto simp: decode_conn_ack_def consume_all intro: step_intros split: option.splits bool.splits)
next
  case False
  with bounded_len [OF b] have "mem_read (mq_recvBuffer h) pos = Some (mq_recvBuffer h ! pos)"
    "mem_read (mq_recvBuffer h) (pos + 1) = Some (mq_recvBuffer h ! (pos + 1))"
    by (auto simp: mem_read_def)
  with b False finish_message_ok [OF b] show ?thesis
    by (auto simp: decode_conn_ack_def consume_all intro: step_intros split: option.splits bool.splits)
qed

lemma decode_pubsub_ack_ok:
  assumes b: "mqtt_bounded h"
  shows "step_ok data (decode_pubsub_ack cb h w data msg_size pos start type)"
proof (cases "pos + 2 > mq_recvBufferIdx h")
  case True
  with b show ?thesis
    by (auto simp: decode_pubsub_ack_def consume_all intro: step_intros split: option.splits bool.splits)
next
  case False
  with bounded_len [OF b] obtain i where "read16 (mq_recvBuffer h) pos = Some i"
    using read16_Some [of pos "mq_recvBuffer h"] by force
  with b False finish_message_ok [OF b] show ?thesis
    by (auto simp: decode_pubsub_ack_def consume_all intro: step_intros split: option.splits bool.splits)
qed

lemma decode_ping_ok: "mqtt_bounded h \<Longrightarrow> step_ok data (decode_ping cb h w data msg_size pos start type)"
  by (auto simp: decode_ping_def consume_all intro: step_intros finish_message_ok split: option.splits bool.splits)

lemma decode_unhandled_ok: "mqtt_bounded h \<Longrightarrow> step_ok data (decode_unhandled h w data msg_size pos start type)"
  by (auto simp: decode_unhandled_def consume_all intro: step_intros finish_message_ok split: option.splits bool.splits)

lemma decode_length_no_fault: "idx \<le> length buf \<Longrightarrow> decode_length buf idx pos len \<noteq> Scan_Fault"
proof (induction buf idx pos len rule: decode_length.induct)
  case (1 buf idx pos len)
  then show ?case
    by (subst decode_length.simps) (auto simp: Let_def mem_read_def)
qed

lemma decode_header_ok:
  assumes b: "mqtt_bounded h"
  shows "step_ok data (decode_header cb h w data)"
proof -
  let ?n = "min (length data) (256 - mq_recvBufferIdx h)"
  define buf where "buf = blit (mq_recvBuffer h) (mq_recvBufferIdx h) (take ?n data)"
  define h1 where "h1 = h\<lparr>mq_recvBuffer := buf, mq_recvBufferIdx := mq_recvBufferIdx h + ?n\<rparr>"
  have l: "mq_recvBufferIdx h + length (take ?n data) \<le> length (mq_recvBuffer h)"
    using bounded_len [OF b] by simp
  then have c: "mem_copy (mq_recvBuffer h) (mq_recvBufferIdx h) (take ?n data) = Some buf"
    by (simp only: mem_copy_Some buf_def)
  have lb: "length buf = 256" using length_blit [OF l] bounded_len [OF b] by (simp only: buf_def)
  have b1: "mqtt_bounded h1" using lb bounded_len [OF b] by (simp add: mqtt_bounded_def h1_def MQTT_BUFFER_SIZE_def)
  have "mq_recvBufferIdx h + ?n \<le> length buf" using lb bounded_len [OF b] by simp
  note nf = decode_length_no_fault [OF this, of 0 0]
  have b0: "mem_read buf 0 = Some (buf ! 0)" using lb by (simp add: mem_read_def)
  have d: "step_ok data (dispatch cb h1 w data ms pos start type)" for ms pos start type
    using b1 by (simp add: dispatch_def decode_publish_header_ok decode_conn_ack_ok decode_pubsub_ack_ok
        decode_ping_ok decode_unhandled_ok)
  show ?thesis
    unfolding decode_header_def MQTT_BUFFER_SIZE_def Let_def c Option.bind.bind_lunit b0 consume_all h1_def [symmetric]
    using nf b1 d by (auto split: scan.splits intro: step_intros)
qed


section \<open>Inputs without progress\<close>

text \<open>Five length bytes are accepted and overflow 32 bits: the packet \<open>F0 FA FF FF FF 0F\<close> has
  \<open>msg_size = 0\<close>, and \<open>decode_unhandled\<close> consumes no byte of it.\<close>

definition endless_packet :: bytes where
  "endless_packet = [0xF0, 0xFA, 0xFF, 0xFF, 0xFF, 0x0F]"

lemma length_endless_packet [simp]: "length endless_packet = 6"
  by (simp add: endless_packet_def)

lemma decode_length_append:
  "idx \<le> length p \<Longrightarrow> decode_length (p @ rest) idx pos len = decode_length p idx pos len"
proof (induction p idx pos len rule: decode_length.induct)
  case (1 p idx pos len)
  then show ?case
    by (simp add: decode_length.simps [of "p @ rest"] decode_length.simps [of p] mem_read_def nth_append Let_def)
qed

lemma endless_step:
  assumes "length (mq_recvBuffer h) = 256" and "mq_recvBufferIdx h = 0" and "mq_state h = WAIT_PACKET"
  shows "\<exists>h'. decode_header cb h w endless_packet = Some (h', w, endless_packet, True)
     \<and> length (mq_recvBuffer h') = 256 \<and> mq_recvBufferIdx h' = 0 \<and> mq_state h' = WAIT_PACKET"
proof -
  define buf where "buf = endless_packet @ drop 6 (mq_recvBuffer h)"
  define h1 where "h1 = h\<lparr>mq_recvBuffer := buf, mq_recvBufferIdx := 6\<rparr>"
  have c: "mem_copy (mq_recvBuffer h) 0 endless_packet = Some buf"
    using assms by (simp add: mem_copy_def blit_def buf_def)
  have n: "buf ! 0 = 0xF0" by (simp add: buf_def endless_packet_def)
  have lb: "length buf = 256" using assms by (simp add: buf_def)
  have d: "decode_length buf 6 0 0 = Got (5, 0xFFFFFFFA)"
  proof -
    have "decode_length endless_packet 6 0 0 = Got (5, 0xFFFFFFFA)" by code_simp
    moreover have "6 \<le> length endless_packet" by (simp add: endless_packet_def)
    ultimately show ?thesis by (simp add: buf_def decode_length_append)
  qed
  have z: "(4294967296 :: u32) = 0" by simp
  have "decode_header cb h w endless_packet = decode_unhandled h1 w endless_packet 0 6 0 0xF0"
    using c d assms n lb
    by (simp add: decode_header_def dispatch_def MQTT_BUFFER_SIZE_def mem_read_def h1_def Let_def consume_all z)
  also have "\<dots> = Some (h1\<lparr>mq_recvBufferIdx := 0\<rparr>, w, endless_packet, True)"
    by (simp add: decode_unhandled_def await_message_def finish_message_def consume_def MQTT_BUFFER_SIZE_def)
  finally show ?thesis using lb assms by (simp add: h1_def)
qed

definition at_endless :: "mqtt_receiver \<Rightarrow> bytes \<Rightarrow> bool" where
  "at_endless h data \<longleftrightarrow> data = endless_packet \<and> length (mq_recvBuffer h) = 256 \<and> mq_recvBufferIdx h = 0 \<and> mq_state h = WAIT_PACKET"

lemma decode_data_endless:
  assumes "decode_data cb h w data = Some r"
  shows "\<not> at_endless h data"
  using _ assms
proof (rule decode_data.raw_induct
    [of "\<lambda>cb h w data r. \<not> at_endless h data"])
  fix f :: "'a mqtt_socket_interface \<Rightarrow> mqtt_receiver \<Rightarrow> 'a \<Rightarrow> bytes \<Rightarrow> (mqtt_receiver \<times> 'a \<times> bool) option"
    and cb h w data and r :: "mqtt_receiver \<times> 'a \<times> bool"
  assume IH: "\<And>cb h w data r. f cb h w data = Some r \<Longrightarrow>
      \<not> at_endless h data"
  assume r: "(if data = [] then Some (h, w, True)
      else if mq_state h = WAIT_PACKET then
        (case decode_header cb h w data of
           None \<Rightarrow> None
         | Some (h', w', data', ok) \<Rightarrow>
             if \<not> ok then Some (h', w', False) else f cb h' w' data')
      else
        (let bytesReceived = min (length data) (unat (mq_pendingDataLen h));
             w' = snd (on_publish_data cb (take bytesReceived data) (of_nat bytesReceived)
                        (bytesReceived = unat (mq_pendingDataLen h)) w);
             pending = mq_pendingDataLen h - of_nat bytesReceived in
         f cb (h\<lparr>mq_pendingDataLen := pending,
              mq_state := (if pending = 0 then WAIT_PACKET else mq_state h)\<rparr>)
           w' (drop bytesReceived data))) = Some r"
  show "\<not> at_endless h data"
  proof
    assume a: "at_endless h data"
    then obtain h' where h': "decode_header cb h w data = Some (h', w, data, True)"
      "length (mq_recvBuffer h') = 256" "mq_recvBufferIdx h' = 0" "mq_state h' = WAIT_PACKET"
      using endless_step [of h cb w] by (auto simp: at_endless_def)
    have "data \<noteq> []" using a by (simp add: at_endless_def endless_packet_def)
    with r a h' have "f cb h' w data = Some r" by (simp add: at_endless_def)
    from IH [OF this] a h' show False by (simp add: at_endless_def)
  qed
qed

text \<open>The rounds of the \<open>while\<close> loop of \<open>on_recv\<close> that go on to another: a header or a piece of payload is taken
  from the data without a fault and without an error.\<close>

inductive decode_round ::
    "'w mqtt_socket_interface \<Rightarrow> mqtt_receiver \<times> 'w \<times> bytes \<Rightarrow> mqtt_receiver \<times> 'w \<times> bytes \<Rightarrow> bool" for cb where
  header_round: "data \<noteq> [] \<Longrightarrow> mq_state h = WAIT_PACKET \<Longrightarrow> decode_header cb h w data = Some (h', w', data', True) \<Longrightarrow>
    decode_round cb (h, w, data) (h', w', data')"
| payload_round: "data \<noteq> [] \<Longrightarrow> mq_state h \<noteq> WAIT_PACKET \<Longrightarrow> n = min (length data) (unat (mq_pendingDataLen h)) \<Longrightarrow>
    pending = mq_pendingDataLen h - of_nat n \<Longrightarrow>
    decode_round cb (h, w, data)
      (h\<lparr>mq_pendingDataLen := pending, mq_state := (if pending = 0 then WAIT_PACKET else mq_state h)\<rparr>,
       snd (on_publish_data cb (take n data) (of_nat n) (n = unat (mq_pendingDataLen h)) w), drop n data)"

text \<open>A round is what \<^const>\<open>decode_data\<close> does before it calls itself, and there is one way to go on.\<close>

lemma decode_round_data: "decode_round cb (h, w, data) (h', w', data') \<Longrightarrow> decode_data cb h w data = decode_data cb h' w' data'"
  by (erule decode_round.cases) (subst decode_data.simps, simp add: Let_def)+

lemma decode_round_det: "decode_round cb x y \<Longrightarrow> decode_round cb x z \<Longrightarrow> y = z"
  by (erule decode_round.cases; erule decode_round.cases) auto

lemma endless_rounds:
  "at_endless h endless_packet \<Longrightarrow> \<exists>h'. at_endless h' endless_packet \<and>
     (decode_round cb ^^ n) (h, w, endless_packet) (h', w, endless_packet)"
proof (induction n)
  case (Suc n)
  then obtain h1 where h1: "at_endless h1 endless_packet" "(decode_round cb ^^ n) (h, w, endless_packet) (h1, w, endless_packet)"
    by blast
  then obtain h2 where h2: "decode_header cb h1 w endless_packet = Some (h2, w, endless_packet, True)" "at_endless h2 endless_packet"
    using endless_step [of h1 cb w] by (auto simp: at_endless_def)
  have "decode_round cb (h1, w, endless_packet) (h2, w, endless_packet)"
    by (rule header_round) (use h1(1) h2(1) in \<open>auto simp: at_endless_def endless_packet_def\<close>)
  then show ?case using h1(2) h2(2) by (meson relpowp_Suc_I)
qed auto

lemma rounds_data:
  "(decode_round cb ^^ n) (h, w, data) (h', w', data') \<Longrightarrow> decode_data cb h w data = decode_data cb h' w' data'"
proof (induction n arbitrary: h' w' data')
  case (Suc n)
  then obtain h1 w1 data1 where "(decode_round cb ^^ n) (h, w, data) (h1, w1, data1)" "decode_round cb (h1, w1, data1) (h', w', data')"
    by (auto elim!: relpowp_Suc_E)
  then show ?case using Suc.IH decode_round_data by metis
qed simp

section \<open>The wedged buffer\<close>

text \<open>A PUBLISH with QoS 1 whose topic ends at byte 255 of the buffer: the message id would end
  behind the buffer, so that \<open>decode_publish_header\<close> waits for bytes that cannot arrive.\<close>

definition wedge_packet :: bytes where
  "wedge_packet = [0x32, 0xFE, 0x01, 0x00, 0xFA] @ replicate 251 0x61"

definition wedged :: "mqtt_receiver \<Rightarrow> bool" where
  "wedged h \<longleftrightarrow> mq_state h = WAIT_PACKET \<and> mq_recvBufferIdx h = 256 \<and> mq_recvBuffer h = wedge_packet"

lemma length_wedge_packet [simp]: "length wedge_packet = 256"
  by (simp add: wedge_packet_def)

lemma wedge_length: "decode_length wedge_packet 256 0 0 = Got (2, 254)"
proof -
  have r: "mem_read wedge_packet 1 = Some 0xFE" "mem_read wedge_packet 2 = Some 0x01"
    by (simp_all add: mem_read_def) (simp_all add: wedge_packet_def)
  have "decode_length wedge_packet 256 0 0 = decode_length wedge_packet 256 1 126"
    using r by (subst decode_length.simps) simp
  also have "\<dots> = Got (2, 254)"
    using r by (subst decode_length.simps) (simp add: numeral_2_eq_2 [symmetric])
  finally show ?thesis .
qed

lemma wedge_dispatch:
  assumes "mq_recvBufferIdx h = 256" and "mq_recvBuffer h = wedge_packet"
  shows "decode_publish_header cb h w data msg_size 3 start = Some (h, w, [], True)"
proof -
  have tl: "read16 wedge_packet 3 = Some 250"
    by (simp add: read16_Some) (simp add: wedge_packet_def be16_def)
  have b0: "mem_read wedge_packet 0 = Some 0x32"
    by (simp add: mem_read_def) (simp add: wedge_packet_def)
  have s: "mem_slice wedge_packet 5 250 = Some (take 250 (drop 5 wedge_packet))"
    by (simp add: mem_slice_def)
  show ?thesis
    using assms tl b0 s
    by (simp add: decode_publish_header_def consume_all Let_def MQTT_BUFFER_SIZE_def has_message_id_def)
qed

lemma wedge_header:
  assumes "mq_recvBufferIdx h = 256" and "mq_recvBuffer h = wedge_packet" and "mq_state h = WAIT_PACKET"
  shows "decode_header cb h w data = Some (h, w, [], True)"
proof -
  have "mem_read wedge_packet 0 = Some 0x32" by (simp add: mem_read_def) (simp add: wedge_packet_def)
  then show ?thesis
    using assms wedge_length
    by (simp add: decode_header_def MQTT_BUFFER_SIZE_def mem_copy_def Let_def consume_all dispatch_def wedge_dispatch)
qed


lemma wedge_loop:
  assumes "wedged h"
  shows "decode_data cb h w data = Some (h, w, True)"
proof (cases "data = []")
  case False
  with assms wedge_header [of h cb w data] show ?thesis
    by (subst decode_data.simps) (simp add: wedged_def decode_data_Nil)
qed (simp add: decode_data_Nil)

lemma wedge_start:
  "decode_data cb mqtt_receiver_init w wedge_packet =
     Some (mqtt_receiver_init\<lparr>mq_recvBuffer := wedge_packet, mq_recvBufferIdx := 256\<rparr>, w, True)"
proof -
  let ?h = "mqtt_receiver_init\<lparr>mq_recvBuffer := wedge_packet, mq_recvBufferIdx := 256\<rparr>"
  have b0: "mem_read wedge_packet 0 = Some 0x32" by (simp add: mem_read_def) (simp add: wedge_packet_def)
  have "mem_copy (replicate 256 0) 0 wedge_packet = Some wedge_packet"
    by (simp add: mem_copy_def blit_def)
  then have "decode_header cb mqtt_receiver_init w wedge_packet = Some (?h, w, [], True)"
    using wedge_length b0
    by (simp add: decode_header_def MQTT_BUFFER_SIZE_def Let_def consume_all dispatch_def
        wedge_dispatch mqtt_receiver_init_def)
  moreover have "wedge_packet \<noteq> []" by (simp add: wedge_packet_def)
  ultimately show ?thesis
    by (subst decode_data.simps) (simp add: mqtt_receiver_init_def decode_data_Nil)
qed

section \<open>Properties\<close>

text \<open>C33. Whatever bytes arrive and whatever state their predecessors left, one round of
  \<open>decode_header\<close> stays inside the receive buffer, takes its bytes from the front of the
  segment, and keeps the buffer index within the buffer.\<close>

theorem mqtt_decode_header_memory_safe:
  assumes "mqtt_bounded h"
  shows "\<exists>h' w' n ok. decode_header cb h w data = Some (h', w', drop n data, ok) \<and> mqtt_bounded h'"
  using decode_header_ok [OF assms, of data cb w] by (auto simp: step_ok_def)

theorem mqtt_decode_header_memory_safe_witness:
  "\<exists>h' w' n ok. decode_header mqtt_recorder mqtt_receiver_init [] endless_packet =
     Some (h', w', drop n endless_packet, ok) \<and> mqtt_bounded h'"
  by (rule mqtt_decode_header_memory_safe) (simp add: mqtt_bounded_def mqtt_receiver_init_def MQTT_BUFFER_SIZE_def)

text \<open>C39. Six bytes from a peer keep \<open>decode_data\<close> in its loop for ever: a fifth length byte is
  accepted, the 32-bit message size wraps to zero, and a message of size zero consumes
  nothing. For every \<open>n\<close>, the loop goes through \<open>n\<close> rounds, none of which faults, fails or calls the application, and has
  all six bytes before it again; the call never returns.\<close>

theorem mqtt_length_overflow_hangs:
  "(\<forall>n. \<exists>h. (decode_round cb ^^ n) (mqtt_receiver_init, w, endless_packet) (h, w, endless_packet) \<and>
      decode_data cb mqtt_receiver_init w endless_packet = decode_data cb h w endless_packet) \<and>
   decode_data cb mqtt_receiver_init w endless_packet = None"
proof (intro conjI allI)
  have start: "at_endless mqtt_receiver_init endless_packet"
    by (simp add: at_endless_def mqtt_receiver_init_def MQTT_BUFFER_SIZE_def)
  then show "decode_data cb mqtt_receiver_init w endless_packet = None"
    using decode_data_endless [of cb mqtt_receiver_init w endless_packet]
    by (cases "decode_data cb mqtt_receiver_init w endless_packet") simp_all
  show "\<exists>h. (decode_round cb ^^ n) (mqtt_receiver_init, w, endless_packet) (h, w, endless_packet) \<and>
      decode_data cb mqtt_receiver_init w endless_packet = decode_data cb h w endless_packet" for n
  proof -
    obtain h where "(decode_round cb ^^ n) (mqtt_receiver_init, w, endless_packet) (h, w, endless_packet)"
      using endless_rounds [OF start, of n cb w] by blast
    with rounds_data [OF this] show ?thesis by blast
  qed
qed

text \<open>C40. A PUBLISH with QoS 1 and a topic of 250 bytes wedges the decoder: it passes the size check
  on the topic, its message id does not fit into the buffer any more, and from then on the decoder swallows
  everything it receives without a callback and without an error.\<close>

theorem mqtt_publish_wedges_decoder:
  "\<exists>h. decode_data cb mqtt_receiver_init w wedge_packet = Some (h, w, True)
     \<and> (\<forall>data w'. decode_data cb h w' data = Some (h, w', True))"
proof (intro exI conjI allI)
  show "decode_data cb mqtt_receiver_init w wedge_packet =
      Some (mqtt_receiver_init\<lparr>mq_recvBuffer := wedge_packet, mq_recvBufferIdx := 256\<rparr>, w, True)"
    by (rule wedge_start)
  show "decode_data cb (mqtt_receiver_init\<lparr>mq_recvBuffer := wedge_packet, mq_recvBufferIdx := 256\<rparr>) w' data =
      Some (mqtt_receiver_init\<lparr>mq_recvBuffer := wedge_packet, mq_recvBufferIdx := 256\<rparr>, w', True)" for data w'
    by (rule wedge_loop) (simp add: wedged_def mqtt_receiver_init_def)
qed

definition verdict :: "('s \<times> 'e list \<times> bool) option \<Rightarrow> ('e list \<times> bool) option" where
  "verdict r = map_option snd r"

text \<open>An acknowledgement that is too short for its message id is completed from the next
  message: how TCP cuts the stream decides whether the PINGRESP behind a CONNACK of length zero
  is seen or the connection dies.\<close>

theorem mqtt_short_ack_depends_on_segments:
  "verdict (run_segments mqtt_decode mqtt_receiver_init [[0x20, 0x00, 0xD0, 0x00]]) =
     Some ([On_Packet (Conn_Ack CONNECTION_ACCEPTED 0xD0), On_Packet Ping_Resp], True)
   \<and> verdict (run_segments mqtt_decode mqtt_receiver_init [[0x20, 0x00, 0xD0], [0x00]]) =
     Some ([], False)"
  by code_simp

end
