(* ===== verification/Session_Interface.thy ===== *)
theory Session_Interface
  imports Prelude
begin

text \<open>
  The interface \<open>ISessionSender\<close> of \<open>pico_tls/isession_callback.h\<close>: what the protocol
  handlers call on the connection below them, over the state \<open>'d\<close> of whatever implements it.
  \<open>int8_t\<close> results are lwIP error codes, 0 (\<open>ERR_OK\<close>) for success.
\<close>

type_synonym err = int

definition ERR_OK :: err where "ERR_OK = 0"

record 'd session_sender =
  ss_connect :: "bytes \<Rightarrow> u16 \<Rightarrow> 'd \<Rightarrow> err \<times> 'd"
  ss_send :: "bytes \<Rightarrow> 'd \<Rightarrow> err \<times> 'd"
  ss_flush :: "'d \<Rightarrow> err \<times> 'd"
  ss_close :: "'d \<Rightarrow> err \<times> 'd"
  ss_send_buffer_size :: "'d \<Rightarrow> u16"
  ss_is_connected :: "'d \<Rightarrow> bool"

text \<open>An \<open>int8_t\<close> returned from a function of type \<open>bool\<close>.\<close>

definition bool_of_err :: "err \<Rightarrow> bool" where
  "bool_of_err e \<longleftrightarrow> e \<noteq> 0"

text \<open>A sender that takes everything, and remembers it.\<close>

definition recording_sender :: "bytes list session_sender" where
  "recording_sender =
     \<lparr> ss_connect = (\<lambda>host port w. (ERR_OK, w)), ss_send = (\<lambda>d w. (ERR_OK, w @ [d])), ss_flush = (\<lambda>w. (ERR_OK, w)),
       ss_close = (\<lambda>w. (ERR_OK, w)), ss_send_buffer_size = (\<lambda>w. 0xFFFF),
       ss_is_connected = (\<lambda>w. True) \<rparr>"

lemma recording_sender_simps [simp]:
  "ss_send recording_sender d w = (ERR_OK, w @ [d])"
  "ss_is_connected recording_sender w = True"
  by (simp_all add: recording_sender_def)

text \<open>What the protocol handlers rely on: as long as the connection is \<open>up\<close>, what is sent is taken and appears
  on the wire behind what was sent before.\<close>

locale wire_sender =
  fixes snd0 :: "'d session_sender" and up :: "'d \<Rightarrow> bool" and wire :: "'d \<Rightarrow> bytes"
  assumes send_wire: "up w \<Longrightarrow> fst (ss_send snd0 d w) = ERR_OK \<and> up (snd (ss_send snd0 d w)) \<and>
    wire (snd (ss_send snd0 d w)) = wire w @ d"

interpretation recording: wire_sender recording_sender "\<lambda>w. True" concat
  by unfold_locales simp_all

end
