(* ===== verification/Session.thy ===== *)
theory Session
  imports Session_Interface
begin

text \<open>
  \<open>Session\<close> of \<open>pico_tls/session.h\<close> and \<open>.cpp\<close>: a TCP or TLS connection over lwIP's
  altcp layer. lwIP and the application are parameters: their calls act on the whole world, so that a
  callback may send, close or delete the session it was called from. The session object is
  \<open>w_self\<close>, \<^const>\<open>None\<close> once it has been deleted; every access of a member is a
  read of \<open>w_self\<close>, so that \<^const>\<open>None\<close> as the result of an operation is a use of the
  object after its deletion (or a loop that does not end).
\<close>

section \<open>Data\<close>

definition ERR_VAL :: err where "ERR_VAL = -6"
definition ERR_INPROGRESS :: err where "ERR_INPROGRESS = -5"
definition ERR_ABRT :: err where "ERR_ABRT = -13"

record session =
  s_connected :: bool
  s_closing :: bool
  s_processing :: bool
  s_tls :: bool
  s_sentBytes :: u16
  s_port :: u16
  s_callback :: bool
  s_pcb :: "nat option"

text \<open>The world: the object, the statics \<open>NUM_SESSIONS\<close> and \<open>TLS_CLIENT_CONFIG\<close> (whether it
  is set), and everything else.\<close>

record 'x world =
  w_self :: "session option"
  w_num_sessions :: int
  w_tls_config :: bool
  w_env :: 'x

definition put_self :: "session \<Rightarrow> 'x world \<Rightarrow> 'x world" where
  "put_self s w = w\<lparr>w_self := Some s\<rparr>"

text \<open>lwIP and mbedTLS. A control block is an address; \<open>lw_register\<close> is the four calls
  \<open>altcp_arg\<close>, \<open>altcp_recv\<close>, \<open>altcp_err\<close>, \<open>altcp_sent\<close>, with the session's handlers or
  with \<open>NULL\<close>.\<close>

record 'x lwip =
  lw_ssl_out_content_len :: nat
  lw_write :: "nat option \<Rightarrow> bytes \<Rightarrow> 'x world \<Rightarrow> err \<times> 'x world"
  lw_output :: "nat option \<Rightarrow> 'x world \<Rightarrow> err \<times> 'x world"
  lw_register :: "nat option \<Rightarrow> bool \<Rightarrow> 'x world \<Rightarrow> 'x world"
  lw_abort :: "nat \<Rightarrow> 'x world \<Rightarrow> 'x world"
  lw_recved :: "nat \<Rightarrow> nat \<Rightarrow> 'x world \<Rightarrow> 'x world"
  lw_pbuf_free :: "bytes list \<Rightarrow> 'x world \<Rightarrow> 'x world"
  lw_sndbuf :: "nat \<Rightarrow> 'x world \<Rightarrow> u16"
  lw_setprio :: "nat option \<Rightarrow> 'x world \<Rightarrow> 'x world"
  lw_nagle_disable :: "nat option \<Rightarrow> 'x world \<Rightarrow> 'x world"
  lw_new :: "bool \<Rightarrow> 'x world \<Rightarrow> nat option \<times> 'x world"
  lw_set_hostname :: "nat option \<Rightarrow> bytes \<Rightarrow> 'x world \<Rightarrow> 'x world"
  lw_connect :: "nat option \<Rightarrow> nat \<Rightarrow> u16 \<Rightarrow> 'x world \<Rightarrow> err \<times> 'x world"
  lw_gethostbyname :: "bytes \<Rightarrow> 'x world \<Rightarrow> (err \<times> nat) \<times> 'x world"
  lw_tls_create_config :: "bytes \<Rightarrow> 'x world \<Rightarrow> bool \<times> 'x world"

text \<open>The \<open>ISessionCallback\<close> of the session.\<close>

record 'x session_callback =
  sc_on_sent :: "u16 \<Rightarrow> 'x world \<Rightarrow> bool \<times> 'x world"
  sc_on_recv :: "bytes \<Rightarrow> 'x world \<Rightarrow> bool \<times> 'x world"
  sc_on_closed :: "'x world \<Rightarrow> 'x world"
  sc_on_connected :: "'x world \<Rightarrow> 'x world"

type_synonym 'x outcome = "(err \<times> 'x world) option"

section \<open>Construction\<close>

definition session_init_pcb :: "'x lwip \<Rightarrow> 'x world \<Rightarrow> 'x world option" where
  "session_init_pcb lw w = do {
     s \<leftarrow> w_self w;
     let w = lw_setprio lw (s_pcb s) w;
     let w = lw_register lw (s_pcb s) True w;
     Some (lw_nagle_disable lw (s_pcb s) w)
   }"

definition session_create :: "'x lwip \<Rightarrow> nat option \<Rightarrow> bool \<Rightarrow> 'x world \<Rightarrow> 'x world option" where
  "session_create lw arg tls w = do {
     let w = put_self \<lparr> s_connected = (arg \<noteq> None), s_closing = False, s_processing = False, s_tls = tls,
       s_sentBytes = 0, s_port = 0, s_callback = False, s_pcb = arg \<rparr> w;
     w \<leftarrow> (if arg \<noteq> None then session_init_pcb lw w else Some w);
     Some (w\<lparr>w_num_sessions := w_num_sessions w + 1\<rparr>)
   }"

definition session_set_callback :: "bool \<Rightarrow> 'x world \<Rightarrow> 'x world option" where
  "session_set_callback callback w = do { s \<leftarrow> w_self w; Some (put_self (s\<lparr>s_callback := callback\<rparr>) w) }"

definition session_set_tls :: "bool \<Rightarrow> 'x world \<Rightarrow> 'x world option" where
  "session_set_tls tls w = do { s \<leftarrow> w_self w; Some (put_self (s\<lparr>s_tls := tls\<rparr>) w) }"

definition create_client_tls_config :: "'x lwip \<Rightarrow> bytes \<Rightarrow> 'x world \<Rightarrow> 'x world" where
  "create_client_tls_config lw cert w =
     (if w_tls_config w then w
      else (case lw_tls_create_config lw cert w of (ok, w') \<Rightarrow> w'\<lparr>w_tls_config := ok\<rparr>))"

section \<open>Closing\<close>

definition call_on_closed :: "'x session_callback \<Rightarrow> session \<Rightarrow> 'x world \<Rightarrow> 'x world" where
  "call_on_closed cb s w = (if s_callback s then sc_on_closed cb w else w)"

definition session_close :: "'x lwip \<Rightarrow> 'x session_callback \<Rightarrow> 'x world \<Rightarrow> 'x outcome" where
  "session_close lw cb w = do {
     s \<leftarrow> w_self w;
     if s_closing s then Some (ERR_OK, w)
     else do {
       let s = s\<lparr>s_connected := False, s_closing := True\<rparr>;
       let w = put_self s w;
       (case s_pcb s of
          None \<Rightarrow> Some (ERR_OK, if \<not> s_processing s then call_on_closed cb s w else w)
        | Some pcb \<Rightarrow> do {
            let w = lw_register lw (Some pcb) False w;
            let w = lw_abort lw pcb w;
            s \<leftarrow> w_self w;
            let s = s\<lparr>s_pcb := None\<rparr>;
            let w = put_self s w;
            Some (ERR_ABRT, if \<not> s_processing s then call_on_closed cb s w else w)
          })
     }
   }"

text \<open>The destructor; afterwards the object is gone.\<close>

definition session_delete :: "'x lwip \<Rightarrow> 'x session_callback \<Rightarrow> 'x world \<Rightarrow> 'x world option" where
  "session_delete lw cb w = do {
     s \<leftarrow> w_self w;
     w \<leftarrow> (if s_pcb s \<noteq> None
          then map_option snd (session_close lw cb (put_self (s\<lparr>s_callback := False\<rparr>) w)) else Some w);
     Some (w\<lparr>w_num_sessions := w_num_sessions w - 1, w_self := None\<rparr>)
   }"

section \<open>Sending\<close>

definition session_send_buffer_size :: "'x lwip \<Rightarrow> 'x world \<Rightarrow> u16 option" where
  "session_send_buffer_size lw w = do {
     s \<leftarrow> w_self w;
     Some (case s_pcb s of None \<Rightarrow> 0 | Some pcb \<Rightarrow> lw_sndbuf lw pcb w)
   }"

definition session_flush :: "'x lwip \<Rightarrow> 'x world \<Rightarrow> 'x outcome" where
  "session_flush lw w = do {
     s \<leftarrow> w_self w;
     Some (if s_closing s \<or> s_pcb s = None then (ERR_OK, w) else lw_output lw (s_pcb s) w)
   }"

definition check_send_failure :: "'x session_callback \<Rightarrow> err \<Rightarrow> 'x world \<Rightarrow> 'x outcome" where
  "check_send_failure cb e w = do {
     s \<leftarrow> w_self w;
     let w' = put_self (s\<lparr>s_processing := False\<rparr>) w;
     Some (if e \<noteq> ERR_OK then (e, w')
           else if s_closing s \<or> s_pcb s = None then (ERR_ABRT, call_on_closed cb s w')
           else (ERR_OK, w))
   }"

definition session_lwip_sent :: "'x lwip \<Rightarrow> 'x session_callback \<Rightarrow> u16 \<Rightarrow> 'x world \<Rightarrow> 'x outcome" where
  "session_lwip_sent lw cb len w = do {
     s \<leftarrow> w_self w;
     if s_processing s then Some (ERR_OK, put_self (s\<lparr>s_sentBytes := s_sentBytes s + len\<rparr>) w)
     else do {
       let len = len + s_sentBytes s;
       let w = put_self (s\<lparr>s_sentBytes := 0\<rparr>) w;
       if s_callback s then
         (case sc_on_sent cb len w of (ok, w) \<Rightarrow> if \<not> ok then session_close lw cb w else Some (ERR_OK, w))
       else Some (ERR_OK, w)
     }
   }"

text \<open>The \<open>while\<close> loop of \<open>send\<close>; the first component is the error it returns, if it does.\<close>

partial_function (option) send_loop ::
    "'x lwip \<Rightarrow> 'x session_callback \<Rightarrow> bytes \<Rightarrow> 'x world \<Rightarrow> (err option \<times> 'x world) option" where
  "send_loop lw cb data w =
     (if data = [] then Some (None, w)
      else Option.bind (w_self w) (\<lambda>s.
        (case lw_write lw (s_pcb s) (take (lw_ssl_out_content_len lw) data) w of
           (e, w) \<Rightarrow> Option.bind (check_send_failure cb e w) (\<lambda>(r, w).
             if r \<noteq> ERR_OK then Some (Some e, w)
             else send_loop lw cb (drop (lw_ssl_out_content_len lw) data) w))))"

declare send_loop.simps [code]

definition session_send ::
    "'x lwip \<Rightarrow> 'x session_callback \<Rightarrow> bytes option \<Rightarrow> 'x world \<Rightarrow> 'x outcome" where
  "session_send lw cb data0 w =
     (case data0 of
        None \<Rightarrow> Some (ERR_VAL, w)
      | Some data \<Rightarrow> do {
          s \<leftarrow> w_self w;
          if s_pcb s = None then Some (ERR_OK, w)
          else do {
            (failed, w) \<leftarrow> send_loop lw cb data (put_self (s\<lparr>s_processing := True\<rparr>) w);
            (case failed of
               Some e \<Rightarrow> Some (e, w)
             | None \<Rightarrow> do {
                 (e, w) \<leftarrow> session_flush lw w;
                 (r, w) \<leftarrow> check_send_failure cb e w;
                 if r \<noteq> ERR_OK then Some (e, w)
                 else do {
                   s \<leftarrow> w_self w;
                   let w = put_self (s\<lparr>s_processing := False\<rparr>) w;
                   if s_sentBytes s > 0 then session_lwip_sent lw cb 0 w else Some (ERR_OK, w)
                 }
               })
          }
        })"

section \<open>Receiving\<close>

text \<open>The loop over the pbuf chain; the first component is the error it returns, if it does. The
  whole chain is \<open>p\<close>, the rest of it \<open>its\<close>; \<open>tot_len == len\<close> where nothing follows.\<close>

fun recv_loop ::
    "'x lwip \<Rightarrow> 'x session_callback \<Rightarrow> nat \<Rightarrow> bytes list \<Rightarrow> bytes list \<Rightarrow> 'x world \<Rightarrow>
     (err option \<times> 'x world) option" where
  "recv_loop lw cb pcb p [] w = Some (None, w)"
| "recv_loop lw cb pcb p (it # its) w =
     (case sc_on_recv cb it w of
        (recvStatus, w) \<Rightarrow> do {
          s \<leftarrow> w_self w;
          let s' = s\<lparr>s_processing := False\<rparr>;
          if s_closing s \<or> s_pcb s = None then
            Some (Some ERR_ABRT, call_on_closed cb s (put_self s' w))
          else if \<not> recvStatus then do {
            let w = lw_recved lw pcb (length (concat p)) (put_self s' w);
            let w = lw_pbuf_free lw p w;
            (e, w) \<leftarrow> session_close lw cb w;
            Some (Some e, w)
          }
          else if concat its = [] then Some (None, w)
          else recv_loop lw cb pcb p its w
        })"

definition session_lwip_recv ::
    "'x lwip \<Rightarrow> 'x session_callback \<Rightarrow> nat \<Rightarrow> bytes list option \<Rightarrow> err \<Rightarrow> 'x world \<Rightarrow> 'x outcome" where
  "session_lwip_recv lw cb pcb p0 e w = do {
     s \<leftarrow> w_self w;
     let s = (if e = ERR_ABRT then s\<lparr>s_pcb := None\<rparr> else s);
     let w = put_self s w;
     (case p0 of
        None \<Rightarrow> session_close lw cb w
      | Some p \<Rightarrow>
          if e \<noteq> ERR_OK then map_option (\<lambda>(_, w). (ERR_ABRT, w)) (session_close lw cb w)
          else do {
            (r, w) \<leftarrow> (if s_callback s then do {
                 (r, w) \<leftarrow> recv_loop lw cb pcb p p (put_self (s\<lparr>s_processing := True\<rparr>) w);
                 (case r of
                    Some _ \<Rightarrow> Some (r, w)
                  | None \<Rightarrow> do { s \<leftarrow> w_self w; Some (None, put_self (s\<lparr>s_processing := False\<rparr>) w) })
               } else Some (None, w));
            (case r of
               Some e \<Rightarrow> Some (e, w)
             | None \<Rightarrow> Some (ERR_OK, lw_pbuf_free lw p (lw_recved lw pcb (length (concat p)) w)))
          })
   }"

definition session_lwip_err :: "'x lwip \<Rightarrow> 'x session_callback \<Rightarrow> 'x world \<Rightarrow> 'x world option" where
  "session_lwip_err lw cb w = do {
     s \<leftarrow> w_self w;
     let w = lw_register lw (s_pcb s) False w;
     s \<leftarrow> w_self w;
     map_option snd (session_close lw cb (put_self (s\<lparr>s_pcb := None\<rparr>) w))
   }"

section \<open>Connecting\<close>

definition session_connect_ip ::
    "'x lwip \<Rightarrow> 'x session_callback \<Rightarrow> bytes option \<Rightarrow> nat \<Rightarrow> u16 \<Rightarrow> 'x world \<Rightarrow> 'x outcome" where
  "session_connect_ip lw cb host ip port w = do {
     s \<leftarrow> w_self w;
     if s_tls s \<and> \<not> w_tls_config w then session_close lw cb w
     else do {
       let (pcb, w) = lw_new lw (s_tls s) w;
       s \<leftarrow> w_self w;
       let w = put_self (s\<lparr>s_pcb := pcb\<rparr>) w;
       let w = (case host of Some h \<Rightarrow> if s_tls s then lw_set_hostname lw pcb h w else w | None \<Rightarrow> w);
       w \<leftarrow> session_init_pcb lw w;
       let (e, w) = lw_connect lw pcb ip port w;
       if e \<noteq> ERR_OK then session_close lw cb w else Some (ERR_OK, w)
     }
   }"

definition session_connect ::
    "'x lwip \<Rightarrow> 'x session_callback \<Rightarrow> bytes \<Rightarrow> u16 \<Rightarrow> 'x world \<Rightarrow> 'x outcome" where
  "session_connect lw cb host port w = do {
     s \<leftarrow> w_self w;
     let w = put_self (s\<lparr>s_closing := False, s_connected := False, s_sentBytes := 0, s_port := port\<rparr>) w;
     let ((e, ip), w) = lw_gethostbyname lw host w;
     if e = ERR_OK then session_connect_ip lw cb (Some host) ip port w else Some (e, w)
   }"

definition session_dns_callback ::
    "'x lwip \<Rightarrow> 'x session_callback \<Rightarrow> bytes \<Rightarrow> nat option \<Rightarrow> 'x world \<Rightarrow> 'x world option" where
  "session_dns_callback lw cb host ipaddr w = do {
     s \<leftarrow> w_self w;
     (case ipaddr of
        None \<Rightarrow> Some (call_on_closed cb s w)
      | Some ip \<Rightarrow> map_option snd (session_connect_ip lw cb (Some host) ip (s_port s) w))
   }"

definition session_lwip_connected ::
    "'x lwip \<Rightarrow> 'x session_callback \<Rightarrow> err \<Rightarrow> 'x world \<Rightarrow> 'x outcome" where
  "session_lwip_connected lw cb e w = do {
     s \<leftarrow> w_self w;
     if e \<noteq> ERR_OK then session_close lw cb w
     else do {
       let w = put_self (s\<lparr>s_connected := True\<rparr>) w;
       Some (ERR_OK, if s_callback s then sc_on_connected cb w else w)
     }
   }"

definition session_is_connected :: "'x world \<Rightarrow> bool option" where
  "session_is_connected w = do { s \<leftarrow> w_self w; Some (s_pcb s \<noteq> None \<and> \<not> s_closing s \<and> s_connected s) }"

end
