(* ===== verification/Session_Spec.thy ===== *)
theory Session_Spec imports Session begin

text \<open>
  The life of a session: an invariant of its members under every operation, proved once for any
  lwIP that leaves the object alone and any callbacks that keep the invariant, and what the
  operations do over a lwIP that accepts and records everything.
\<close>

section \<open>The invariant and its interface\<close>

text \<open>A closing session has no control block left and is not connected.\<close>

definition session_ok :: "session \<Rightarrow> bool" where
  "session_ok s \<longleftrightarrow> (s_closing s \<longrightarrow> s_pcb s = None \<and> \<not> s_connected s)"

definition session_inv :: "'x world \<Rightarrow> bool" where
  "session_inv w \<longleftrightarrow> (case w_self w of None \<Rightarrow> True | Some s \<Rightarrow> session_ok s)"

lemma w_self_put [simp]: "w_self (put_self s w) = Some s"
  by (simp add: put_self_def)

lemma session_inv_put [simp]: "session_inv (put_self s w) \<longleftrightarrow> session_ok s"
  by (simp add: session_inv_def)

lemma session_inv_self: "session_inv w \<Longrightarrow> w_self w = Some s \<Longrightarrow> session_ok s"
  by (simp add: session_inv_def)

text \<open>The result of an operation keeps the invariant, if there is one.\<close>

definition keeps :: "('a \<times> 'x world) option \<Rightarrow> bool" where
  "keeps r \<longleftrightarrow> (\<forall>a w. r = Some (a, w) \<longrightarrow> session_inv w)"

definition keeps' :: "'x world option \<Rightarrow> bool" where
  "keeps' r \<longleftrightarrow> (\<forall>w. r = Some w \<longrightarrow> session_inv w)"

lemma keeps_simps [simp]:
  "keeps None" "keeps (Some (a, w)) \<longleftrightarrow> session_inv w" "keeps' None" "keeps' (Some w) \<longleftrightarrow> session_inv w"
  by (simp_all add: keeps_def keeps'_def)

lemma keeps_bind: "(\<And>x. m = Some x \<Longrightarrow> keeps (f x)) \<Longrightarrow> keeps (Option.bind m f)"
  by (cases m) simp_all

lemma keeps_self:
  "session_inv w \<Longrightarrow> (\<And>s. w_self w = Some s \<Longrightarrow> session_ok s \<Longrightarrow> keeps (f s)) \<Longrightarrow> keeps (Option.bind (w_self w) f)"
  using session_inv_self [of w] by (cases "w_self w") simp_all

lemma session_ok_updates [simp]:
  "session_ok (s\<lparr>s_processing := b\<rparr>) = session_ok s" "session_ok (s\<lparr>s_sentBytes := n\<rparr>) = session_ok s"
  "session_ok (s\<lparr>s_callback := b\<rparr>) = session_ok s" "session_ok (s\<lparr>s_port := p\<rparr>) = session_ok s"
  "session_ok s \<Longrightarrow> session_ok (s\<lparr>s_pcb := None\<rparr>)"
  by (simp_all add: session_ok_def)

lemma keeps_map_snd: "keeps r \<Longrightarrow> keeps' (map_option snd r)"
  by (cases r) (auto simp: keeps_def)

lemma keeps_bind_op: "keeps m \<Longrightarrow> (\<And>a w. session_inv w \<Longrightarrow> keeps (f (a, w))) \<Longrightarrow> keeps (Option.bind m f)"
  by (cases m) (auto simp: keeps_def)

locale session_client =
  fixes lw :: "'x lwip" and cb :: "'x session_callback"
  assumes write_self: "w_self (snd (lw_write lw p d w)) = w_self w"
    and output_self: "w_self (snd (lw_output lw p w)) = w_self w"
    and register_self: "w_self (lw_register lw p b w) = w_self w"
    and abort_self: "w_self (lw_abort lw a w) = w_self w"
    and recved_self: "w_self (lw_recved lw a k w) = w_self w"
    and free_self: "w_self (lw_pbuf_free lw q w) = w_self w"
    and prio_self: "w_self (lw_setprio lw p w) = w_self w"
    and nagle_self: "w_self (lw_nagle_disable lw p w) = w_self w"
    and new_self: "w_self (snd (lw_new lw t w)) = w_self w"
    and host_self: "w_self (lw_set_hostname lw p d w) = w_self w"
    and connect_self: "w_self (snd (lw_connect lw p ip port w)) = w_self w"
    and dns_self: "w_self (snd (lw_gethostbyname lw d w)) = w_self w"
    and on_sent_inv: "session_inv w \<Longrightarrow> session_inv (snd (sc_on_sent cb n w))"
    and on_recv_inv: "session_inv w \<Longrightarrow> session_inv (snd (sc_on_recv cb d w))"
    and on_closed_inv: "session_inv w \<Longrightarrow> session_inv (sc_on_closed cb w)"
    and on_connected_inv: "session_inv w \<Longrightarrow> session_inv (sc_on_connected cb w)"
begin

lemmas lwip_self = write_self output_self register_self abort_self recved_self free_self prio_self
  nagle_self new_self host_self connect_self dns_self

lemma inv_eq: "w_self w = w_self w' \<Longrightarrow> session_inv w = session_inv w'"
  by (simp add: session_inv_def)

lemma call_on_closed_inv: "session_inv w \<Longrightarrow> session_inv (call_on_closed cb s w)"
  by (simp add: call_on_closed_def on_closed_inv)

lemma close_keeps: "session_inv w \<Longrightarrow> keeps (session_close lw cb w)"
  by (auto simp: session_close_def session_ok_def lwip_self Let_def
      intro!: keeps_bind call_on_closed_inv split: option.splits)

lemma check_keeps: "session_inv w \<Longrightarrow> keeps (check_send_failure cb e w)"
  unfolding check_send_failure_def by (rule keeps_self) (simp_all add: Let_def call_on_closed_inv)

lemma output_inv:
  assumes "session_inv w" and "lw_output lw p w = (e, w1)"
  shows "session_inv w1"
proof -
  have "w_self w1 = w_self w" using output_self [of p w] assms(2) by simp
  then show ?thesis using assms(1) inv_eq by blast
qed

lemma flush_keeps: "session_inv w \<Longrightarrow> keeps (session_flush lw w)"
  unfolding session_flush_def by (rule keeps_self) (auto simp: keeps_def intro: output_inv split: if_splits)

lemma sent_keeps:
  assumes "session_inv w"
  shows "keeps (session_lwip_sent lw cb n w)"
proof -
  have c: "keeps (case sc_on_sent cb m (put_self s w) of (ok, w) \<Rightarrow> if \<not> ok then session_close lw cb w else Some (ERR_OK, w))"
    if "session_ok s" for m s
    using on_sent_inv [of "put_self s w" m] that by (auto intro!: close_keeps split: prod.splits)
  show ?thesis
    using assms c by (auto simp: session_lwip_sent_def session_ok_def Let_def dest!: session_inv_self intro!: keeps_bind)
qed

lemma write_then_check:
  assumes "session_inv w" and "lw_write lw p d w = (e, w1)"
  shows "keeps (check_send_failure cb e w1)"
proof -
  have "w_self w1 = w_self w" using write_self [of p d w] assms(2) by simp
  then have "session_inv w1" using assms(1) inv_eq by blast
  then show ?thesis by (rule check_keeps)
qed

lemma send_loop_keeps: "session_inv w \<Longrightarrow> keeps (send_loop lw cb data w)"
proof -
  have "lw' = lw \<longrightarrow> cb' = cb \<longrightarrow> session_inv w \<longrightarrow> session_inv (snd r)"
    if "send_loop lw' cb' data w = Some r" for lw' and cb' :: "'x session_callback" and data w r
    using _ that
  proof (rule send_loop.raw_induct
      [of "\<lambda>lw' cb' data w r. lw' = lw \<longrightarrow> cb' = cb \<longrightarrow> session_inv w \<longrightarrow> session_inv (snd r)"])
    fix f :: "'x lwip \<Rightarrow> 'x session_callback \<Rightarrow> bytes \<Rightarrow> 'x world \<Rightarrow> (err option \<times> 'x world) option"
      and lw' cb' data w and r :: "err option \<times> 'x world"
    assume IH: "\<And>lw' cb' data w r. f lw' cb' data w = Some r \<Longrightarrow>
        lw' = lw \<longrightarrow> cb' = cb \<longrightarrow> session_inv w \<longrightarrow> session_inv (snd r)"
    assume r: "(if data = [] then Some (None, w)
      else Option.bind (w_self w) (\<lambda>s.
        (case lw_write lw' (s_pcb s) (take (lw_ssl_out_content_len lw') data) w of
           (e, w) \<Rightarrow> Option.bind (check_send_failure cb' e w) (\<lambda>(r, w).
             if r \<noteq> ERR_OK then Some (Some e, w)
             else f lw' cb' (drop (lw_ssl_out_content_len lw') data) w)))) = Some r"
    show "lw' = lw \<longrightarrow> cb' = cb \<longrightarrow> session_inv w \<longrightarrow> session_inv (snd r)"
    proof (intro impI)
      assume a: "lw' = lw" "cb' = cb" "session_inv w"
      show "session_inv (snd r)"
      proof (cases "data = []")
        case False
        with r obtain s where s: "w_self w = Some s" by (cases "w_self w") auto
        obtain e w1 where w1: "lw_write lw (s_pcb s) (take (lw_ssl_out_content_len lw) data) w = (e, w1)" by fastforce
        with r False s a obtain x w2 where c: "check_send_failure cb e w1 = Some (x, w2)"
          by (cases "check_send_failure cb e w1") auto
        have "session_inv w2" using write_then_check [OF a(3) w1] c by simp
        with r False s a w1 c IH [of lw cb _ w2] show ?thesis by (auto split: if_splits)
      qed (use r a in auto)
    qed
  qed
  then show "session_inv w \<Longrightarrow> keeps (send_loop lw cb data w)" by (auto simp: keeps_def)
qed

lemma finish_send_keeps:
  assumes "session_inv w"
  shows "keeps (Option.bind (w_self w) (\<lambda>s. let w = put_self (s\<lparr>s_processing := False\<rparr>) w in
      if s_sentBytes s > 0 then session_lwip_sent lw cb 0 w else Some (ERR_OK, w)))"
  by (rule keeps_self [OF assms]) (simp add: Let_def sent_keeps)

lemma send_keeps: "session_inv w \<Longrightarrow> keeps (session_send lw cb d w)"
proof (cases d)
  case (Some data)
  assume inv: "session_inv w"
  have flush: "keeps (Option.bind (session_flush lw w1) (\<lambda>(e, w). Option.bind (check_send_failure cb e w) (\<lambda>(r, w).
      if r \<noteq> ERR_OK then Some (e, w)
      else Option.bind (w_self w) (\<lambda>s. let w = put_self (s\<lparr>s_processing := False\<rparr>) w in
        if s_sentBytes s > 0 then session_lwip_sent lw cb 0 w else Some (ERR_OK, w)))))"
    if "session_inv w1" for w1
    by (intro keeps_bind_op [OF flush_keeps [OF that]])
      (auto intro!: keeps_bind_op [OF check_keeps] finish_send_keeps)
  have loop: "keeps (Option.bind (send_loop lw cb data (put_self (s\<lparr>s_processing := True\<rparr>) w)) (\<lambda>(failed, w). 
      case failed of Some e \<Rightarrow> Some (e, w)
      | None \<Rightarrow> Option.bind (session_flush lw w) (\<lambda>(e, w). Option.bind (check_send_failure cb e w) (\<lambda>(r, w).
      if r \<noteq> ERR_OK then Some (e, w)
      else Option.bind (w_self w) (\<lambda>s. let w = put_self (s\<lparr>s_processing := False\<rparr>) w in
        if s_sentBytes s > 0 then session_lwip_sent lw cb 0 w else Some (ERR_OK, w))))))"
    if "session_ok s" for s
    using that flush by (intro keeps_bind_op [OF send_loop_keeps]) (auto split: option.splits)
  show ?thesis
    unfolding session_send_def Some option.case
    by (rule keeps_self [OF inv]) (use inv loop in \<open>auto simp: Let_def\<close>)
qed (simp add: session_send_def)

lemma recv_loop_keeps: "session_inv w \<Longrightarrow> keeps (recv_loop lw cb pcb p its w)"
proof (induction its arbitrary: w)
  case (Cons it its)
  obtain ok w1 where r: "sc_on_recv cb it w = (ok, w1)" by fastforce
  have i1: "session_inv w1" using on_recv_inv [OF Cons.prems, of it] r by simp
  have c: "keeps (Option.bind (session_close lw cb (lw_pbuf_free lw p (lw_recved lw pcb n (put_self s w1)))) (\<lambda>(e, w). Some (Some e, w)))"
    if "session_ok s" for s n
    using that by (intro keeps_bind_op [OF close_keeps]) (auto simp: session_inv_def lwip_self)
  show ?case
    unfolding recv_loop.simps r prod.case
    by (rule keeps_self [OF i1]) (use Cons.IH [OF i1] i1 c in \<open>auto simp: Let_def intro!: call_on_closed_inv\<close>)
qed simp

lemma recv_keeps:
  assumes inv: "session_inv w"
  shows "keeps (session_lwip_recv lw cb pcb p0 e w)"
proof -
  have free: "session_inv (lw_pbuf_free lw p (lw_recved lw pcb n w))" if "session_inv w" for p n and w :: "'x world"
    using that by (simp add: session_inv_def lwip_self)
  have loop: "keeps (Option.bind (recv_loop lw cb pcb p p (put_self (s\<lparr>s_processing := True\<rparr>) w)) (\<lambda>(r, w).
      case r of Some _ \<Rightarrow> Some (r, w)
      | None \<Rightarrow> Option.bind (w_self w) (\<lambda>s. Some (None, put_self (s\<lparr>s_processing := False\<rparr>) w))))"
    if "session_ok s" for s p and w :: "'x world"
    using that by (intro keeps_bind_op [OF recv_loop_keeps]) (auto intro: keeps_self split: option.splits)
  have close: "keeps (map_option (\<lambda>(_, w). (ERR_ABRT, w)) (session_close lw cb w))" if "session_inv w" for w :: "'x world"
    using close_keeps [OF that] by (auto simp: keeps_def)
  have last: "keeps (case (r, w) of (r, w) \<Rightarrow> (case r of Some e \<Rightarrow> Some (e, w)
      | None \<Rightarrow> Some (ERR_OK, lw_pbuf_free lw p (lw_recved lw pcb n w))))" if "session_inv w" for r p n and w :: "'x world"
    using that free by (auto split: option.splits)
  show ?thesis
    unfolding session_lwip_recv_def Let_def
  proof (rule keeps_self [OF inv], goal_cases)
    case (1 s)
    let ?s = "if e = ERR_ABRT then s\<lparr>s_pcb := None\<rparr> else s"
    have ok: "session_ok ?s" using 1 by simp
    then have iw: "session_inv (put_self ?s w)" by simp
    show ?case
    proof (cases p0)
      case None
      then show ?thesis using close_keeps [OF iw] by simp
    next
      case (Some p)
      have "keeps (if s_callback ?s then Option.bind (recv_loop lw cb pcb p p (put_self (?s\<lparr>s_processing := True\<rparr>) (put_self ?s w))) (\<lambda>(r, w).
          case r of Some _ \<Rightarrow> Some (r, w)
          | None \<Rightarrow> Option.bind (w_self w) (\<lambda>s. Some (None, put_self (s\<lparr>s_processing := False\<rparr>) w)))
        else Some (None, put_self ?s w))"
        using loop [OF ok] iw by (cases "s_callback ?s") simp_all
      then have "keeps (Option.bind (if s_callback ?s then Option.bind (recv_loop lw cb pcb p p (put_self (?s\<lparr>s_processing := True\<rparr>) (put_self ?s w))) (\<lambda>(r, w).
          case r of Some _ \<Rightarrow> Some (r, w)
          | None \<Rightarrow> Option.bind (w_self w) (\<lambda>s. Some (None, put_self (s\<lparr>s_processing := False\<rparr>) w)))
        else Some (None, put_self ?s w)) (\<lambda>(r, w). case r of Some e \<Rightarrow> Some (e, w)
          | None \<Rightarrow> Some (ERR_OK, lw_pbuf_free lw p (lw_recved lw pcb (length (concat p)) w))))"
        by (rule keeps_bind_op) (rule last)
      with close [OF iw] Some show ?thesis
        by (cases "e \<noteq> ERR_OK") simp_all
    qed
  qed
qed

lemma err_keeps: "session_inv w \<Longrightarrow> keeps' (session_lwip_err lw cb w)"
proof -
  assume inv: "session_inv w"
  show ?thesis
  proof (cases "w_self w")
    case (Some s)
    then have "session_ok s" using inv by (simp add: session_inv_def)
    then have "keeps (session_close lw cb (put_self (s\<lparr>s_pcb := None\<rparr>) (lw_register lw (s_pcb s) False w)))"
      by (intro close_keeps) simp
    then show ?thesis using Some by (simp add: session_lwip_err_def register_self keeps_map_snd)
  qed (simp add: session_lwip_err_def)
qed

lemma connected_keeps:
  assumes "session_inv w" and "w_self w = Some s" and "\<not> s_closing s"
  shows "keeps (session_lwip_connected lw cb e w)"
  using assms close_keeps [OF assms(1)] on_connected_inv [of "put_self (s\<lparr>s_connected := True\<rparr>) w"]
  by (simp add: session_lwip_connected_def session_ok_def Let_def)

lemma init_pcb_self: "session_init_pcb lw w = Some w' \<Longrightarrow> w_self w' = w_self w"
  by (auto simp: session_init_pcb_def lwip_self Let_def split: bind_splits)

lemma connect_ip_keeps:
  assumes inv: "session_inv w" and self: "w_self w = Some s" and notclosing: "\<not> s_closing s"
  shows "keeps (session_connect_ip lw cb host ip port w)"
proof (cases "s_tls s \<and> \<not> w_tls_config w")
  case True
  then show ?thesis using self close_keeps [OF inv] by (simp add: session_connect_ip_def)
next
  case False
  obtain pcb w1 where n: "lw_new lw (s_tls s) w = (pcb, w1)" by fastforce
  then have s1: "w_self w1 = Some s" using new_self [of "s_tls s" w] self by simp
  define w2 where "w2 = put_self (s\<lparr>s_pcb := pcb\<rparr>) w1"
  define w3 where "w3 = (case host of Some h \<Rightarrow> if s_tls s then lw_set_hostname lw pcb h w2 else w2 | None \<Rightarrow> w2)"
  have s3: "w_self w3 = Some (s\<lparr>s_pcb := pcb\<rparr>)" by (simp add: w3_def w2_def lwip_self split: option.split)
  have eq: "session_connect_ip lw cb host ip port w = Option.bind (session_init_pcb lw w3)
      (\<lambda>w. case lw_connect lw pcb ip port w of
        (e, w) \<Rightarrow> if e \<noteq> ERR_OK then session_close lw cb w else Some (ERR_OK, w))"
    unfolding session_connect_ip_def w3_def w2_def using False self n s1 by (simp only: Let_def Option.bind.bind_lunit prod.case if_False)
  show ?thesis
    unfolding eq
  proof (rule keeps_bind)
    fix w4 assume 4: "session_init_pcb lw w3 = Some w4"
    obtain r w5 where c: "lw_connect lw pcb ip port w4 = (r, w5)" by fastforce
    have "w_self w5 = Some (s\<lparr>s_pcb := pcb\<rparr>)"
      using connect_self [of pcb ip port w4] c init_pcb_self [OF 4] s3 by simp
    then have "session_inv w5" using notclosing by (simp add: session_inv_def session_ok_def)
    with close_keeps [OF this] c
    show "keeps (case lw_connect lw pcb ip port w4 of
        (e, w) \<Rightarrow> if e \<noteq> ERR_OK then session_close lw cb w else Some (ERR_OK, w))" by simp
  qed
qed

lemma connect_keeps: "session_inv w \<Longrightarrow> keeps (session_connect lw cb host port w)"
proof -
  assume inv: "session_inv w"
  show ?thesis
    unfolding session_connect_def Let_def
  proof (rule keeps_self [OF inv], goal_cases)
    case (1 s)
    let ?s = "s\<lparr>s_closing := False, s_connected := False, s_sentBytes := 0, s_port := port\<rparr>"
    obtain e ip w1 where d: "lw_gethostbyname lw host (put_self ?s w) = ((e, ip), w1)" by (metis prod.exhaust)
    then have s1: "w_self w1 = Some ?s" using dns_self [of host "put_self ?s w"] by simp
    then have "session_inv w1" by (simp add: session_inv_def session_ok_def)
    with connect_ip_keeps [OF this s1] d show ?case by simp
  qed
qed

end

section \<open>Runs of a session\<close>

text \<open>The application calls the operations of the session at any time, lwIP calls the handlers of a registered
  control block, and the resolver answers at any time, also a session that has been closed meanwhile.\<close>

inductive session_step :: "'x lwip \<Rightarrow> 'x session_callback \<Rightarrow> 'x world \<Rightarrow> 'x world \<Rightarrow> bool"
  for lw cb where
  step_connect: "session_connect lw cb host port w = Some (e, w') \<Longrightarrow> session_step lw cb w w'"
| step_connect_ip: "session_connect_ip lw cb host_name ip port w = Some (e, w') \<Longrightarrow> session_step lw cb w w'"
| step_send: "session_send lw cb d w = Some (e, w') \<Longrightarrow> session_step lw cb w w'"
| step_flush: "session_flush lw w = Some (e, w') \<Longrightarrow> session_step lw cb w w'"
| step_close: "session_close lw cb w = Some (e, w') \<Longrightarrow> session_step lw cb w w'"
| step_set_callback: "session_set_callback b w = Some w' \<Longrightarrow> session_step lw cb w w'"
| step_set_tls: "session_set_tls b w = Some w' \<Longrightarrow> session_step lw cb w w'"
| step_delete: "session_delete lw cb w = Some w' \<Longrightarrow> session_step lw cb w w'"
| step_dns: "session_dns_callback lw cb host ip w = Some w' \<Longrightarrow> session_step lw cb w w'"
| step_connected: "w_self w = Some s \<Longrightarrow> s_pcb s = Some pcb \<Longrightarrow>
    session_lwip_connected lw cb e w = Some (r, w') \<Longrightarrow> session_step lw cb w w'"
| step_sent: "w_self w = Some s \<Longrightarrow> s_pcb s = Some pcb \<Longrightarrow>
    session_lwip_sent lw cb n w = Some (r, w') \<Longrightarrow> session_step lw cb w w'"
| step_recv: "w_self w = Some s \<Longrightarrow> s_pcb s = Some pcb \<Longrightarrow>
    session_lwip_recv lw cb pcb p e w = Some (r, w') \<Longrightarrow> session_step lw cb w w'"
| step_err: "w_self w = Some s \<Longrightarrow> s_pcb s = Some pcb \<Longrightarrow>
    session_lwip_err lw cb w = Some w' \<Longrightarrow> session_step lw cb w w'"

text \<open>The step that the code does not guard: \<open>dns_callback\<close>, or a call of the \<open>connect\<close> with an address, opens a connection on a
  session that is marked as closing. (The \<open>connect\<close> with a name takes the mark off.)\<close>

definition opens_closed :: "'x lwip \<Rightarrow> 'x session_callback \<Rightarrow> 'x world \<Rightarrow> 'x world \<Rightarrow> bool" where
  "opens_closed lw cb w w' \<longleftrightarrow> (\<exists>s. w_self w = Some s \<and> s_closing s \<and>
     ((\<exists>host ip. session_dns_callback lw cb host (Some ip) w = Some w') \<or>
      (\<exists>host ip port e. session_connect_ip lw cb host ip port w = Some (e, w'))))"

context session_client
begin

lemma connect_ip_inv:
  assumes "session_inv w" and "session_connect_ip lw cb host ip port w = Some (e, w')"
  shows "session_inv w' \<or> opens_closed lw cb w w'"
proof (cases "w_self w")
  case None
  then show ?thesis using assms(2) by (simp add: session_connect_ip_def)
next
  case (Some s)
  show ?thesis
  proof (cases "s_closing s")
    case True
    then show ?thesis using Some assms(2) unfolding opens_closed_def by blast
  next
    case False
    from connect_ip_keeps [OF assms(1) Some this] assms(2) have "session_inv w'" by (metis keeps_simps(2))
    then show ?thesis ..
  qed
qed

lemma dns_inv:
  assumes "session_inv w" and "session_dns_callback lw cb host ip w = Some w'"
  shows "session_inv w' \<or> opens_closed lw cb w w'"
proof -
  obtain s where s: "w_self w = Some s" using assms(2) by (cases "w_self w") (simp_all add: session_dns_callback_def)
  show ?thesis
  proof (cases ip)
    case None
    then show ?thesis using assms s by (auto simp: session_dns_callback_def call_on_closed_inv)
  next
    case (Some i)
    show ?thesis
    proof (cases "s_closing s")
      case True
      then show ?thesis using Some s assms(2) unfolding opens_closed_def by blast
    next
      case False
      then show ?thesis using connect_ip_keeps [OF assms(1) s False] assms(2) s Some
        by (auto simp: session_dns_callback_def keeps_def)
    qed
  qed
qed

lemma step_inv: "session_step lw cb w w' \<Longrightarrow> session_inv w \<Longrightarrow> session_inv w' \<or> opens_closed lw cb w w'"
proof (induction rule: session_step.induct)
  case (step_connect_ip host_name ip port w e w')
  then show ?case using connect_ip_inv by blast
next
  case (step_dns host ip w w')
  then show ?case using dns_inv by blast
next
  case (step_set_callback b w w')
  then show ?case by (auto simp: session_set_callback_def session_inv_def session_ok_def bind_eq_Some_conv)
next
  case (step_set_tls b w w')
  then show ?case by (auto simp: session_set_tls_def session_inv_def session_ok_def bind_eq_Some_conv)
next
  case (step_delete w w')
  then show ?case by (auto simp: session_delete_def session_inv_def bind_eq_Some_conv)
next
  case (step_connected w s pcb e r w')
  then have "\<not> s_closing s" using session_inv_self [of w s] by (auto simp: session_ok_def)
  with step_connected connected_keeps [of w s e] show ?case by simp
next
  case (step_err w s pcb w')
  then show ?case using err_keeps [of w] by simp
qed (metis keeps_simps(2) connect_keeps send_keeps flush_keeps close_keeps sent_keeps recv_keeps)+

text \<open>A run leaves the invariant at a step that opens a closed session, or not at all.\<close>

lemma run_inv:
  "(session_step lw cb)\<^sup>*\<^sup>* w w' \<Longrightarrow> session_inv w \<Longrightarrow> session_inv w' \<or>
   (\<exists>w1 w2. (session_step lw cb)\<^sup>*\<^sup>* w w1 \<and> session_inv w1 \<and> opens_closed lw cb w1 w2 \<and> (session_step lw cb)\<^sup>*\<^sup>* w2 w')"
proof (induction rule: rtranclp_induct)
  case (step w' w'')
  then consider "session_inv w'"
    | w1 w2 where "(session_step lw cb)\<^sup>*\<^sup>* w w1" "session_inv w1" "opens_closed lw cb w1 w2" "(session_step lw cb)\<^sup>*\<^sup>* w2 w'"
    by blast
  then show ?case
  proof cases
    case 1
    from step_inv [OF step(2) 1] step(1) 1 show ?thesis by blast
  next
    case 2
    with step(2) show ?thesis by (meson rtranclp.rtrancl_into_rtrancl)
  qed
qed simp

end

end
