(* ===== verification/Session_Trace.thy ===== *)
theory Session_Trace
  imports Session_Spec begin

text \<open>
  A session over a lwIP that records what is asked of it, with an application that runs a script of
  calls in \<open>on_recv\<close> and, like the handlers of the repository, may delete the session in
  \<open>on_closed\<close>. The interface of \<^verbatim>\<open>Session_Spec\<close> holds of it, and what a send, a receive and a
  close do is read off the record.
\<close>

section \<open>The recording lwIP\<close>

datatype event =
    Wrote bytes | Output | Registered bool | Aborted | Recved nat | Freed "bytes list"
  | Opened | Delivered bytes | On_Sent u16 | On_Closed | On_Connected

record session_env =
  e_log :: "event list"
  e_results :: "err list"

definition log_event :: "event \<Rightarrow> 'a session_env_scheme world \<Rightarrow> 'a session_env_scheme world" where
  "log_event ev w = w\<lparr>w_env := (w_env w)\<lparr>e_log := e_log (w_env w) @ [ev]\<rparr>\<rparr>"

text \<open>\<open>e_results\<close> are the answers to the next writes; a write after the last of them is accepted.\<close>

definition logged_write :: "bytes \<Rightarrow> 'a session_env_scheme world \<Rightarrow> err \<times> 'a session_env_scheme world" where
  "logged_write d w =
     (case e_results (w_env w) of
        [] \<Rightarrow> (ERR_OK, log_event (Wrote d) w)
      | e # es \<Rightarrow>
          let w' = w\<lparr>w_env := (w_env w)\<lparr>e_results := es\<rparr>\<rparr>
          in if e = ERR_OK then (ERR_OK, log_event (Wrote d) w') else (e, w'))"

definition logging_lwip :: "nat \<Rightarrow> 'a session_env_scheme lwip" where
  "logging_lwip n = \<lparr> lw_ssl_out_content_len = n,
     lw_write = (\<lambda>p. logged_write),
     lw_output = (\<lambda>p w. (ERR_OK, log_event Output w)),
     lw_register = (\<lambda>p b. log_event (Registered b)),
     lw_abort = (\<lambda>p. log_event Aborted),
     lw_recved = (\<lambda>p k. log_event (Recved k)),
     lw_pbuf_free = (\<lambda>q. log_event (Freed q)),
     lw_sndbuf = (\<lambda>p w. 1000),
     lw_setprio = (\<lambda>p w. w),
     lw_nagle_disable = (\<lambda>p w. w),
     lw_new = (\<lambda>t w. (Some 1, log_event Opened w)),
     lw_set_hostname = (\<lambda>p d w. w),
     lw_connect = (\<lambda>p ip port w. (ERR_OK, w)),
     lw_gethostbyname = (\<lambda>d w. ((ERR_INPROGRESS, 0), w)),
     lw_tls_create_config = (\<lambda>c w. (True, w)) \<rparr>"

section \<open>The application\<close>

datatype app_action = Send bytes | Close | Flush

text \<open>The notifications that do nothing but record, and delete the session when it is closed.\<close>

definition quiet_callback :: "bool \<Rightarrow> 'a session_env_scheme session_callback" where
  "quiet_callback del = \<lparr>
     sc_on_sent = (\<lambda>k w. (True, log_event (On_Sent k) w)),
     sc_on_recv = (\<lambda>d w. (True, log_event (Delivered d) w)),
     sc_on_closed = (\<lambda>w. let w = log_event On_Closed w in if del then w\<lparr>w_self := None\<rparr> else w),
     sc_on_connected = log_event On_Connected \<rparr>"

text \<open>What an application calls. A call on a deleted session leaves a deleted session.\<close>

definition session_action :: "'x lwip \<Rightarrow> 'x session_callback \<Rightarrow> app_action \<Rightarrow> 'x world \<Rightarrow> 'x world" where
  "session_action lw cb a w =
     (case (case a of Send d \<Rightarrow> session_send lw cb (Some d) w
                    | Close \<Rightarrow> session_close lw cb w
                    | Flush \<Rightarrow> session_flush lw w) of
        None \<Rightarrow> w\<lparr>w_self := None\<rparr>
      | Some (e, w') \<Rightarrow> w')"

definition run_action :: "nat \<Rightarrow> bool \<Rightarrow> app_action \<Rightarrow> 'a session_env_scheme world \<Rightarrow> 'a session_env_scheme world" where
  "run_action n del = session_action (logging_lwip n) (quiet_callback del)"

definition run_actions :: "nat \<Rightarrow> bool \<Rightarrow> app_action list \<Rightarrow> 'a session_env_scheme world \<Rightarrow> 'a session_env_scheme world" where
  "run_actions n del acts w = fold (run_action n del) acts w"

definition script_callback :: "nat \<Rightarrow> bool \<Rightarrow> app_action list \<Rightarrow> bool \<Rightarrow> 'a session_env_scheme session_callback" where
  "script_callback n del acts ok = (quiet_callback del)\<lparr>
     sc_on_recv := (\<lambda>d w. (ok, run_actions n del acts (log_event (Delivered d) w)))\<rparr>"

lemma log_self [simp]: "w_self (log_event ev w) = w_self w"
  by (simp add: log_event_def)

lemma logged_write_self [simp]: "w_self (snd (logged_write d w)) = w_self w"
  by (simp add: logged_write_def Let_def split: list.split)

lemma log_inv [simp]: "session_inv (log_event ev w) = session_inv w"
  by (simp add: session_inv_def)

lemma deleted_inv [simp]: "session_inv (w\<lparr>w_self := None\<rparr>)"
  by (simp add: session_inv_def)

interpretation quiet: session_client "logging_lwip n" "quiet_callback del"
  for n del
  by unfold_locales (simp_all add: logging_lwip_def quiet_callback_def Let_def)

lemma run_action_inv: "session_inv w \<Longrightarrow> session_inv (run_action n del a w)"
  using quiet.send_keeps [of w n del] quiet.close_keeps [of w n del] quiet.flush_keeps [of w n]
  by (cases a) (auto simp: run_action_def session_action_def Let_def keeps_def split: option.split)

lemma run_actions_inv: "session_inv w \<Longrightarrow> session_inv (run_actions n del acts w)"
  unfolding run_actions_def by (induction acts arbitrary: w) (simp_all add: run_action_inv)

interpretation script: session_client "logging_lwip n" "script_callback n del acts ok"
  for n del acts ok
  by unfold_locales
    (simp_all add: logging_lwip_def quiet_callback_def script_callback_def Let_def run_actions_inv)

text \<open>
  C9. The session invariant. Over any lwIP that leaves the session object alone and any
  application that keeps the invariant in its callbacks, whatever the order of calls, lwIP's events and the resolver's answers: a
  session that has been closed has released its control block and is not connected; unless, at some point of the run, the
  resolver's answer or a call of the \<open>connect\<close> with an address opened a connection on a session marked as closing, which is the
  one thing the code does not guard against (\<open>session_close_during_lookup\<close> below shows such a run).
\<close>

theorem session_closed_is_released:
  assumes "session_client lw cb" and "session_inv w" and "(session_step lw cb)\<^sup>*\<^sup>* w w'"
  shows "session_inv w' \<or>
    (\<exists>w1 w2. (session_step lw cb)\<^sup>*\<^sup>* w w1 \<and> session_inv w1 \<and> opens_closed lw cb w1 w2 \<and> (session_step lw cb)\<^sup>*\<^sup>* w2 w')"
  using session_client.run_inv [OF assms(1) assms(3) assms(2)] .

definition open_world :: "session_env world" where
  "open_world = \<lparr> w_self = Some \<lparr> s_connected = True, s_closing = False, s_processing = False, s_tls = True,
     s_sentBytes = 0, s_port = 443, s_callback = True, s_pcb = Some 1 \<rparr>, w_num_sessions = 1, w_tls_config = True,
     w_env = \<lparr> e_log = [], e_results = [] \<rparr> \<rparr>"

theorem session_closed_is_released_witness:
  "\<exists>w'. session_step (logging_lwip 4) (script_callback 4 False [] True) open_world w' \<and>
     map_option s_closing (w_self w') = Some True \<and>
     (session_inv w' \<or> (\<exists>w1 w2. (session_step (logging_lwip 4) (script_callback 4 False [] True))\<^sup>*\<^sup>* open_world w1 \<and> session_inv w1 \<and>
        opens_closed (logging_lwip 4) (script_callback 4 False [] True) w1 w2 \<and>
        (session_step (logging_lwip 4) (script_callback 4 False [] True))\<^sup>*\<^sup>* w2 w'))"
proof -
  obtain w' where w': "session_close (logging_lwip 4) (script_callback 4 False [] True) open_world = Some (ERR_ABRT, w')"
    and c: "map_option s_closing (w_self w') = Some True"
    by (simp add: session_close_def open_world_def logging_lwip_def log_event_def put_self_def call_on_closed_def
        script_callback_def quiet_callback_def Let_def)
  have st: "session_step (logging_lwip 4) (script_callback 4 False [] True) open_world w'"
    by (rule session_step.step_close [OF w'])
  have "session_inv open_world" by (simp add: open_world_def session_inv_def session_ok_def)
  from session_closed_is_released [OF script.session_client_axioms this r_into_rtranclp [of "session_step (logging_lwip 4) (script_callback 4 False [] True)", OF st]]
  show ?thesis using st c by blast
qed


section \<open>Sending\<close>

text \<open>The pieces a buffer is sent in.\<close>

function chunks :: "nat \<Rightarrow> 'a list \<Rightarrow> 'a list list" where
  "chunks n d = (if n = 0 \<or> d = [] then [] else take n d # chunks n (drop n d))"
  by pat_completeness auto
termination by (relation "measure (\<lambda>(n, d). length d)") auto

declare chunks.simps [simp del]

lemma chunks_Nil [simp]: "chunks n [] = []"
  by (simp add: chunks.simps)

lemma chunks_step: "0 < n \<Longrightarrow> d \<noteq> [] \<Longrightarrow> chunks n d = take n d # chunks n (drop n d)"
  by (subst chunks.simps) simp

lemma concat_chunks [simp]: "0 < n \<Longrightarrow> concat (chunks n d) = d"
  by (induction n d rule: chunks.induct) (subst chunks.simps, simp)

lemma chunk_sizes: "c \<in> set (chunks n d) \<Longrightarrow> 0 < length c \<and> length c \<le> n"
proof (induction n d rule: chunks.induct)
  case (1 n d)
  then show ?case using chunks.simps [of n d] by (auto split: if_splits)
qed

definition wrote :: "bytes list \<Rightarrow> err list \<Rightarrow> 'a session_env_scheme world \<Rightarrow> 'a session_env_scheme world" where
  "wrote cs es w = w\<lparr>w_env := (w_env w)\<lparr>e_log := e_log (w_env w) @ map Wrote cs, e_results := es\<rparr>\<rparr>"

lemma wrote_simps [simp]:
  "w_self (wrote cs es w) = w_self w"
  "e_results (w_env (wrote cs es w)) = es"
  "e_log (w_env (wrote cs es w)) = e_log (w_env w) @ map Wrote cs"
  "wrote ds es' (wrote cs es w) = wrote (cs @ ds) es' w"
  "wrote [] (e_results (w_env w)) w = w"
  by (simp_all add: wrote_def)

lemma logged_write_ok:
  assumes "e_results (w_env w) = [] \<or> hd (e_results (w_env w)) = ERR_OK"
  shows "logged_write d w = (ERR_OK, wrote [d] (tl (e_results (w_env w))) w)"
  using assms by (cases "e_results (w_env w)") (auto simp: logged_write_def log_event_def wrote_def)

lemma logged_write_fails:
  assumes "e_results (w_env w) = e # es" and "e \<noteq> ERR_OK"
  shows "logged_write d w = (e, wrote [] es w)"
  using assms by (simp add: logged_write_def wrote_def)

lemma check_ok: "w_self w = Some s \<Longrightarrow> \<not> s_closing s \<Longrightarrow> s_pcb s \<noteq> None \<Longrightarrow> check_send_failure cb ERR_OK w = Some (ERR_OK, w)"
  by (auto simp: check_send_failure_def)

lemma check_fails: "w_self w = Some s \<Longrightarrow> e \<noteq> ERR_OK \<Longrightarrow>
    check_send_failure cb e w = Some (e, put_self (s\<lparr>s_processing := False\<rparr>) w)"
  by (simp add: check_send_failure_def)

lemma put_self_put [simp]: "put_self s (put_self s' w) = put_self s w"
  by (simp add: put_self_def)

lemma wrote_put [simp]: "wrote cs es (put_self s w) = put_self s (wrote cs es w)"
  by (simp add: wrote_def put_self_def)

lemma env_put [simp]: "w_env (put_self s w) = w_env w"
  by (simp add: put_self_def)

lemma put_self_same: "w_self w = Some s \<Longrightarrow> put_self s w = w"
  by (simp add: put_self_def)

lemma lw_logging [simp]:
  "lw_ssl_out_content_len (logging_lwip n) = n" "lw_write (logging_lwip n) p = logged_write"
  "lw_output (logging_lwip n) p w = (ERR_OK, log_event Output w)"
  "lw_register (logging_lwip n) p b = log_event (Registered b)"
  "lw_abort (logging_lwip n) q = log_event Aborted" "lw_recved (logging_lwip n) q k = log_event (Recved k)"
  "lw_pbuf_free (logging_lwip n) ps = log_event (Freed ps)" "lw_setprio (logging_lwip n) p w = w"
  "lw_nagle_disable (logging_lwip n) p w = w" "lw_new (logging_lwip n) t w = (Some 1, log_event Opened w)"
  "lw_set_hostname (logging_lwip n) p d w = w" "lw_connect (logging_lwip n) p ip port w = (ERR_OK, w)"
  "lw_gethostbyname (logging_lwip n) d w = ((ERR_INPROGRESS, 0), w)"
  by (simp_all add: logging_lwip_def)

lemma send_loop_accepted:
  assumes "0 < n" and "w_self w = Some s" and "\<not> s_closing s" and "s_pcb s \<noteq> None"
    and "\<forall>e\<in>set (take (length (chunks n data)) (e_results (w_env w))). e = ERR_OK"
  shows "send_loop (logging_lwip n) cb data w =
     Some (None, wrote (chunks n data) (drop (length (chunks n data)) (e_results (w_env w))) w)"
  using assms
proof (induction n data arbitrary: w rule: chunks.induct)
  case (1 n data)
  show ?case
  proof (cases "data = []")
    case True
    then show ?thesis by (subst send_loop.simps) simp
  next
    case False
    note c = chunks_step [OF \<open>0 < n\<close> False]
    let ?es = "e_results (w_env w)"
    have hd: "?es = [] \<or> hd ?es = ERR_OK" using 1(6) unfolding c by (cases ?es) auto
    have IH: "send_loop (logging_lwip n) cb (drop n data) (wrote [take n data] (tl ?es) w) =
        Some (None, wrote (chunks n (drop n data)) (drop (length (chunks n (drop n data))) (tl ?es))
          (wrote [take n data] (tl ?es) w))"
      by (subst 1(1)) (use 1 False c in \<open>auto simp: wrote_def take_Suc drop_Suc, (cases ?es; auto)?\<close>)
    show ?thesis
      by (subst send_loop.simps)
        (use False 1 hd IH c in \<open>simp add: logged_write_ok check_ok [where s = s] drop_Suc\<close>)
  qed
qed

lemma send_loop_refused:
  assumes "0 < n" and "w_self w = Some s" and "\<not> s_closing s" and "s_pcb s \<noteq> None"
    and "e_results (w_env w) = replicate k ERR_OK @ e # es" and "e \<noteq> ERR_OK" and "k < length (chunks n data)"
  shows "send_loop (logging_lwip n) cb data w =
     Some (Some e, put_self (s\<lparr>s_processing := False\<rparr>) (wrote (take k (chunks n data)) es w))"
  using assms
proof (induction k arbitrary: w data)
  case 0
  then have d: "data \<noteq> []" by auto
  from 0 d show ?case
    by (subst send_loop.simps) (simp add: logged_write_fails check_fails [where s = s])
next
  case (Suc k)
  then have d: "data \<noteq> []" by auto
  note c = chunks_step [OF \<open>0 < n\<close> d]
  have w: "logged_write (take n data) w = (ERR_OK, wrote [take n data] (replicate k ERR_OK @ e # es) w)"
    using Suc.prems by (simp add: logged_write_ok)
  have "send_loop (logging_lwip n) cb (drop n data) (wrote [take n data] (replicate k ERR_OK @ e # es) w) =
    Some (Some e, put_self (s\<lparr>s_processing := False\<rparr>) (wrote (take k (chunks n (drop n data))) es
      (wrote [take n data] (replicate k ERR_OK @ e # es) w)))"
    by (rule Suc.IH) (use Suc.prems c in simp_all)
  then show ?case
    by (subst send_loop.simps) (use d w c Suc.prems in \<open>simp add: check_ok [where s = s]\<close>)
qed


lemma send_accepted:
  assumes "0 < n" and "w_self w = Some s" and "\<not> s_closing s" and "s_pcb s \<noteq> None"
    and "s_sentBytes s = 0" and "e_results (w_env w) = []"
  shows "session_send (logging_lwip n) cb (Some data) w = Some (ERR_OK, put_self (s\<lparr>s_processing := False\<rparr>)
    (w\<lparr>w_env := (w_env w)\<lparr>e_log := e_log (w_env w) @ map Wrote (chunks n data) @ [Output], e_results := []\<rparr>\<rparr>))"
proof -
  let ?w = "put_self (s\<lparr>s_processing := True\<rparr>) w"
  have loop: "send_loop (logging_lwip n) cb data ?w = Some (None, wrote (chunks n data) [] ?w)"
    by (subst send_loop_accepted [where s = "s\<lparr>s_processing := True\<rparr>"]) (use assms in simp_all)
  have "session_flush (logging_lwip n) (wrote (chunks n data) [] ?w) =
      Some (ERR_OK, log_event Output (wrote (chunks n data) [] ?w))"
    using assms by (auto simp: session_flush_def)
  with loop show ?thesis
    using assms by (simp add: session_send_def check_ok [where s = "s\<lparr>s_processing := True\<rparr>"] not_None_eq [symmetric]
      del: not_None_eq) (simp add: put_self_def wrote_def log_event_def)
qed

text \<open>
  Sending on an open session. Data of any length is handed to lwIP completely and in order,
  in writes of at most \<open>MBEDTLS_SSL_OUT_CONTENT_LEN\<close> bytes, followed by one flush; the session is as
  before.
\<close>

theorem session_send_splits:
  assumes "0 < n" and "w_self w = Some s" and "\<not> s_closing s" and "s_pcb s \<noteq> None"
    and "s_sentBytes s = 0" and "e_results (w_env w) = []"
  shows "\<exists>cs. concat cs = data \<and> (\<forall>c\<in>set cs. 0 < length c \<and> length c \<le> n) \<and>
     session_send (logging_lwip n) (script_callback n del acts ok) (Some data) w =
       Some (ERR_OK, put_self (s\<lparr>s_processing := False\<rparr>)
         (w\<lparr>w_env := (w_env w)\<lparr>e_log := e_log (w_env w) @ map Wrote cs @ [Output], e_results := []\<rparr>\<rparr>))"
  using send_accepted [OF assms] chunk_sizes [of _ n data] concat_chunks [OF assms(1), of data] by metis

theorem session_send_splits_witness:
  "\<exists>cs. concat cs = [1, 2, 3, 4, 5 :: u8] \<and> (\<forall>c\<in>set cs. 0 < length c \<and> length c \<le> 2) \<and>
     session_send (logging_lwip 2) (script_callback 2 False [] True) (Some [1, 2, 3, 4, 5]) open_world =
       Some (ERR_OK, put_self (the (w_self open_world))
         (open_world\<lparr>w_env := \<lparr>e_log = map Wrote cs @ [Output], e_results = []\<rparr>\<rparr>))"
  using session_send_splits [of 2 open_world "the (w_self open_world)" "[1, 2, 3, 4, 5]" False "[]" True]
  by (simp add: open_world_def)

text \<open>
  A refused write. When lwIP refuses the write after \<open>k\<close> accepted ones, send stops there
  and returns lwIP's error: nothing more is written or flushed, the session stays open, nobody is told.
\<close>

theorem session_send_stops_at_refusal:
  assumes "0 < n" and "w_self w = Some s" and "\<not> s_closing s" and "s_pcb s \<noteq> None"
    and "e_results (w_env w) = replicate k ERR_OK @ e # es" and "e \<noteq> ERR_OK" and "k * n < length data"
  shows "\<exists>cs. concat cs = take (k * n) data \<and>
     session_send (logging_lwip n) (script_callback n del acts ok) (Some data) w =
       Some (e, put_self (s\<lparr>s_processing := False\<rparr>)
         (w\<lparr>w_env := (w_env w)\<lparr>e_log := e_log (w_env w) @ map Wrote cs, e_results := es\<rparr>\<rparr>))"
proof (intro exI [of _ "take k (chunks n data)"] conjI)
  have prefix: "k * n < length data \<Longrightarrow>
      k < length (chunks n data) \<and> concat (take k (chunks n data)) = take (k * n) data" for data :: bytes
  proof (induction k arbitrary: data)
    case 0
    then have "chunks n data \<noteq> []" using \<open>0 < n\<close> chunks_step [of n data] by auto
    then show ?case by simp
  next
    case (Suc k)
    then have "data \<noteq> []" "k * n < length (drop n data)" by auto
    with Suc.IH [of "drop n data"] show ?case
      using chunks_step [OF \<open>0 < n\<close>, of data] by (simp add: take_add)
  qed
  show "concat (take k (chunks n data)) = take (k * n) data" using prefix assms by blast
  let ?cb = "script_callback n del acts ok" and ?w = "put_self (s\<lparr>s_processing := True\<rparr>) w"
  have "send_loop (logging_lwip n) ?cb data ?w = Some (Some e,
      put_self (s\<lparr>s_processing := True, s_processing := False\<rparr>) (wrote (take k (chunks n data)) es ?w))"
    by (rule send_loop_refused [where s = "s\<lparr>s_processing := True\<rparr>"]) (use assms prefix [of data] in simp_all)
  then show "session_send (logging_lwip n) ?cb (Some data) w = Some (e, put_self (s\<lparr>s_processing := False\<rparr>)
         (w\<lparr>w_env := (w_env w)\<lparr>e_log := e_log (w_env w) @ map Wrote (take k (chunks n data)), e_results := es\<rparr>\<rparr>))"
    using assms by (simp add: session_send_def) (simp add: put_self_def wrote_def)
qed

definition refusing_world :: "session_env world" where
  "refusing_world = open_world\<lparr>w_env := \<lparr>e_log = [], e_results = [ERR_OK, -1]\<rparr>\<rparr>"

theorem session_send_stops_at_refusal_witness:
  "\<exists>cs. concat cs = [1, 2 :: u8] \<and>
     session_send (logging_lwip 2) (script_callback 2 False [] True) (Some [1, 2, 3, 4, 5]) refusing_world =
       Some (-1, put_self (the (w_self refusing_world))
         (refusing_world\<lparr>w_env := \<lparr>e_log = map Wrote cs, e_results = []\<rparr>\<rparr>))"
  using session_send_stops_at_refusal [of 2 refusing_world "the (w_self refusing_world)" 1 "-1" "[]" "[1, 2, 3, 4, 5]" False "[]" True]
  by (simp add: refusing_world_def open_world_def ERR_OK_def)


section \<open>Receiving\<close>

lemma log_event_put [simp]: "log_event ev (put_self s w) = put_self s (log_event ev w)"
  by (simp add: log_event_def put_self_def)

lemma e_log_event [simp]: "e_log (w_env (log_event ev w)) = e_log (w_env w) @ [ev]"
  by (simp add: log_event_def)

lemma e_results_event [simp]: "e_results (w_env (log_event ev w)) = e_results (w_env w)"
  by (simp add: log_event_def)

definition log_events :: "event list \<Rightarrow> 'a session_env_scheme world \<Rightarrow> 'a session_env_scheme world" where
  "log_events evs w = fold log_event evs w"

lemma log_events_simps [simp]:
  "log_events [] w = w" "log_events (ev # evs) w = log_events evs (log_event ev w)"
  "log_events evs (log_events evs' w) = log_events (evs' @ evs) w"
  by (simp_all add: log_events_def)

lemma log_events_put [simp]: "log_events evs (put_self s w) = put_self s (log_events evs w)"
  unfolding log_events_def by (induction evs arbitrary: w) simp_all

lemma log_events_self [simp]: "w_self (log_events evs w) = w_self w"
  unfolding log_events_def by (induction evs arbitrary: w) simp_all

lemma e_log_events [simp]: "e_log (w_env (log_events evs w)) = e_log (w_env w) @ evs"
  unfolding log_events_def by (induction evs arbitrary: w) simp_all

lemma e_results_events [simp]: "e_results (w_env (log_events evs w)) = e_results (w_env w)"
  unfolding log_events_def by (induction evs arbitrary: w) simp_all

lemma log_events_env: "log_events evs w = w\<lparr>w_env := (w_env w)\<lparr>e_log := e_log (w_env w) @ evs\<rparr>\<rparr>"
  unfolding log_events_def by (induction evs arbitrary: w) (simp_all add: log_event_def)

lemma send_logged:
  assumes "0 < n" and "w_self w = Some s" and "\<not> s_closing s" and "s_pcb s \<noteq> None"
    and "s_sentBytes s = 0" and "e_results (w_env w) = []"
  shows "session_send (logging_lwip n) cb (Some data) w =
    Some (ERR_OK, put_self (s\<lparr>s_processing := False\<rparr>) (log_events (map Wrote (chunks n data) @ [Output]) w))"
proof -
  have "(w_env w)\<lparr>e_log := evs, e_results := []\<rparr> = (w_env w)\<lparr>e_log := evs\<rparr>" for evs
    using assms(6) by (cases "w_env w") simp
  then show ?thesis using send_accepted [OF assms, of cb data] by (simp add: log_events_env)
qed

lemma log_event_events: "log_event ev (log_events evs w) = log_events (evs @ [ev]) w"
  by (simp add: log_events_def)

lemma script_callback_simps [simp]:
  "sc_on_recv (script_callback n del acts ok) d w = (ok, run_actions n del acts (log_event (Delivered d) w))"
  "sc_on_sent (script_callback n del acts ok) k w = (True, log_event (On_Sent k) w)"
  "sc_on_closed (script_callback n del acts ok) w = sc_on_closed (quiet_callback del) w"
  by (simp_all add: script_callback_def quiet_callback_def)

lemma run_actions_simps [simp]:
  "run_actions n del [] w = w"
  "run_actions n del (a # acts) w = run_actions n del acts (run_action n del a w)"
  by (simp_all add: run_actions_def)

text \<open>The segments of a chain up to the last one with data.\<close>

fun segments :: "bytes list \<Rightarrow> bytes list" where
  "segments [] = []"
| "segments (it # its) = (if concat its = [] then [it] else it # segments its)"

lemma concat_segments: "concat (segments its) = concat its"
  by (induction its) auto

lemma recv_loop_delivers:
  assumes "w_self w = Some s" and "\<not> s_closing s" and "s_pcb s \<noteq> None"
  shows "recv_loop lw (script_callback n del [] True) pcb p its w = Some (None, log_events (map Delivered (segments its)) w)"
  using assms
proof (induction its arbitrary: w)
  case (Cons it its)
  then show ?case using Cons.IH [of "log_event (Delivered it) w"] by auto
qed simp

text \<open>
  C30. Receiving on an open session. The bytes of a pbuf chain reach the application completely
  and in order, lwIP is told once that all of them were taken, the chain is freed once, and the session
  is as before.
\<close>

theorem session_recv_delivers:
  assumes "w_self w = Some s" and "\<not> s_closing s" and "s_pcb s = Some pcb" and "s_callback s"
  shows "\<exists>ds. concat ds = concat p \<and>
     session_lwip_recv (logging_lwip n) (script_callback n del [] True) pcb (Some p) ERR_OK w =
       Some (ERR_OK, put_self (s\<lparr>s_processing := False\<rparr>)
         (log_events (map Delivered ds @ [Recved (length (concat p)), Freed p]) w))"
proof (intro exI [of _ "segments p"] conjI)
  show "concat (segments p) = concat p" by (rule concat_segments)
  have "recv_loop (logging_lwip n) (script_callback n del [] True) pcb p p (put_self (s\<lparr>s_processing := True\<rparr>) w) =
      Some (None, log_events (map Delivered (segments p)) (put_self (s\<lparr>s_processing := True\<rparr>) w))"
    by (rule recv_loop_delivers [where s = "s\<lparr>s_processing := True\<rparr>"]) (use assms in simp_all)
  then show "session_lwip_recv (logging_lwip n) (script_callback n del [] True) pcb (Some p) ERR_OK w =
       Some (ERR_OK, put_self (s\<lparr>s_processing := False\<rparr>)
         (log_events (map Delivered (segments p) @ [Recved (length (concat p)), Freed p]) w))"
    using assms by (simp add: session_lwip_recv_def Let_def ERR_OK_def ERR_ABRT_def put_self_same log_event_events)
qed

theorem session_recv_delivers_witness:
  "\<exists>ds. concat ds = [1, 2, 3 :: u8] \<and>
     session_lwip_recv (logging_lwip 2) (script_callback 2 False [] True) 1 (Some [[1, 2], [3]]) ERR_OK open_world =
       Some (ERR_OK, put_self (the (w_self open_world))
         (log_events (map Delivered ds @ [Recved 3, Freed [[1, 2], [3]]]) open_world))"
  using session_recv_delivers [of open_world "the (w_self open_world)" 1 "[[1, 2], [3]]" 2 False]
  by (simp add: open_world_def eval_nat_numeral)

lemma close_open:
  assumes "w_self w = Some s" and "\<not> s_closing s" and "s_pcb s = Some pcb" and "s_processing s"
  shows "session_close (logging_lwip n) cb w = Some (ERR_ABRT,
    put_self (s\<lparr>s_connected := False, s_closing := True, s_pcb := None\<rparr>) (log_events [Registered False, Aborted] w))"
  using assms by (simp add: session_close_def Let_def)

lemma run_closed:
  assumes "w_self w = Some s" and "s_closing s" and "set acts \<subseteq> {Close, Flush}"
  shows "run_actions n del acts w = w"
  using assms by (induction acts) (auto simp: run_action_def session_action_def session_close_def session_flush_def)

lemma run_close_flush:
  assumes "w_self w = Some s" and "\<not> s_closing s" and "s_pcb s = Some pcb" and "s_processing s"
    and "set acts \<subseteq> {Close, Flush}"
  shows "run_actions n del acts w =
    (let evs = map (\<lambda>_. Output) (takeWhile (\<lambda>a. a = Flush) acts)
     in if Close \<in> set acts
        then put_self (s\<lparr>s_connected := False, s_closing := True, s_pcb := None\<rparr>)
          (log_events (evs @ [Registered False, Aborted]) w)
        else log_events evs w)"
  using assms
proof (induction acts arbitrary: w)
  case (Cons a acts)
  consider "a = Close" | "a = Flush" using Cons.prems by auto
  then show ?case
  proof cases
    case 1
    then show ?thesis using Cons.prems by (simp add: run_action_def session_action_def close_open run_closed)
  next
    case 2
    then show ?thesis
      using Cons.prems Cons.IH [of "log_event Output w"] by (simp add: run_action_def session_action_def session_flush_def Let_def)
  qed
qed simp

text \<open>
  C31. Closing while receiving. When the application closes the session from \<open>on_recv\<close>,
  flushing at will but not sending, the connection is aborted once, the application is told once, after
  its callback has returned, and the handler reports the abort without using the session again, even
  if the application deletes it then. (The pbuf chain is not freed.)
\<close>

theorem session_close_in_recv:
  assumes "w_self w = Some s" and "\<not> s_closing s" and "s_pcb s = Some pcb" and "s_callback s"
    and "set acts \<subseteq> {Close, Flush}" and "Close \<in> set acts"
  shows "\<exists>w' evs. session_lwip_recv (logging_lwip n) (script_callback n del acts ok) pcb (Some (it # its)) ERR_OK w =
       Some (ERR_ABRT, w') \<and>
     e_log (w_env w') = e_log (w_env w) @ Delivered it # evs @ [Registered False, Aborted, On_Closed] \<and>
     set evs \<subseteq> {Output} \<and> (w_self w' = None) = del"
proof -
  let ?s = "s\<lparr>s_processing := True\<rparr>" and ?evs = "map (\<lambda>_. Output) (takeWhile (\<lambda>a. a = Flush) acts)"
  have run: "run_actions n del acts (log_event (Delivered it) (put_self ?s w)) =
      put_self (?s\<lparr>s_connected := False, s_closing := True, s_pcb := None\<rparr>)
        (log_events (?evs @ [Registered False, Aborted]) (log_event (Delivered it) (put_self ?s w)))"
    by (subst run_close_flush [where s = ?s]) (use assms in \<open>simp_all add: Let_def\<close>)
  let ?w' = "put_self (s\<lparr>s_connected := False, s_closing := True, s_pcb := None, s_processing := False\<rparr>)
      (log_events (?evs @ [Registered False, Aborted, On_Closed]) (log_event (Delivered it) w))"
  have "session_lwip_recv (logging_lwip n) (script_callback n del acts ok) pcb (Some (it # its)) ERR_OK w =
      Some (ERR_ABRT, if del then ?w'\<lparr>w_self := None\<rparr> else ?w')"
    using assms run by (simp add: session_lwip_recv_def Let_def ERR_OK_def ERR_ABRT_def put_self_same
        call_on_closed_def quiet_callback_def log_event_events)
  moreover have "set ?evs \<subseteq> {Output}" by auto
  ultimately show ?thesis by (intro exI [of _ "if del then ?w'\<lparr>w_self := None\<rparr> else ?w'"] exI [of _ ?evs]) auto
qed

theorem session_close_in_recv_witness:
  "\<exists>w' evs. session_lwip_recv (logging_lwip 2) (script_callback 2 True [Flush, Close, Close] True) 1 (Some [[1], [2]]) ERR_OK open_world =
       Some (ERR_ABRT, w') \<and>
     e_log (w_env w') = Delivered [1] # evs @ [Registered False, Aborted, On_Closed] \<and>
     set evs \<subseteq> {Output} \<and> w_self w' = None"
  using session_close_in_recv [of open_world "the (w_self open_world)" 1 "[Flush, Close, Close]" 2 True True "[1]" "[[2]]"]
  by (simp add: open_world_def)

text \<open>
  C37. Sending and then closing while receiving. The send leaves \<open>m_processing\<close> false, so the
  close that follows it inside \<open>on_recv\<close> already tells the application, and the handler tells it again:
  an application that deletes the session when told leaves the handler with a deleted object, any other
  is told twice.
\<close>

theorem session_send_then_close_in_recv:
  assumes "0 < n" and "w_self w = Some s" and "\<not> s_closing s" and "s_pcb s = Some pcb" and "s_callback s"
    and "s_sentBytes s = 0" and "e_results (w_env w) = []"
  shows "session_lwip_recv (logging_lwip n) (script_callback n True [Send d, Close] ok) pcb (Some (it # its)) ERR_OK w = None \<and>
    (\<exists>e w'. session_lwip_recv (logging_lwip n) (script_callback n False [Send d, Close] ok) pcb (Some (it # its)) ERR_OK w =
       Some (e, w') \<and> count_list (e_log (w_env w')) On_Closed = Suc (Suc (count_list (e_log (w_env w)) On_Closed)))"
proof -
  let ?w = "put_self (s\<lparr>s_processing := True\<rparr>) (log_event (Delivered it) w)"
  let ?w1 = "put_self (s\<lparr>s_processing := False\<rparr>) (w\<lparr>w_env := (w_env w)\<lparr>e_log :=
      e_log (w_env w) @ Delivered it # map Wrote (chunks n d) @ [Output], e_results := []\<rparr>\<rparr>)"
  let ?w2 = "put_self (s\<lparr>s_processing := False, s_connected := False, s_closing := True, s_pcb := None\<rparr>)
      (log_events [Registered False, Aborted, On_Closed] ?w1)"
  have send: "session_send (logging_lwip n) (quiet_callback del) (Some d) ?w = Some (ERR_OK, ?w1)" for del
    using send_accepted [of n ?w "s\<lparr>s_processing := True\<rparr>" "quiet_callback del" d] assms
    by (simp add: put_self_def log_event_def)
  have close: "session_close (logging_lwip n) (quiet_callback del) ?w1 =
      Some (ERR_ABRT, if del then ?w2\<lparr>w_self := None\<rparr> else ?w2)" for del
    using assms by (simp add: session_close_def Let_def call_on_closed_def quiet_callback_def)
  have run: "run_actions n del [Send d, Close] ?w = (if del then ?w2\<lparr>w_self := None\<rparr> else ?w2)" for del
    by (simp only: run_actions_simps run_action_def session_action_def Let_def app_action.case send close option.case prod.case)
  have "session_lwip_recv (logging_lwip n) (script_callback n True [Send d, Close] ok) pcb (Some (it # its)) ERR_OK w = None"
    using assms run [of True] by (simp add: session_lwip_recv_def Let_def ERR_OK_def ERR_ABRT_def put_self_same)
  moreover have "session_lwip_recv (logging_lwip n) (script_callback n False [Send d, Close] ok) pcb (Some (it # its)) ERR_OK w =
      Some (ERR_ABRT, put_self (s\<lparr>s_connected := False, s_closing := True, s_pcb := None, s_processing := False\<rparr>)
        (log_event On_Closed ?w2))"
    using assms run [of False]
    by (simp add: session_lwip_recv_def Let_def ERR_OK_def ERR_ABRT_def put_self_same call_on_closed_def quiet_callback_def)
  moreover have "count_list (map Wrote cs) On_Closed = 0" for cs by (induction cs) simp_all
  ultimately show ?thesis by simp
qed

theorem session_send_then_close_in_recv_witness:
  "session_lwip_recv (logging_lwip 4) (script_callback 4 True [Send [7], Close] True) 1 (Some [[1]]) ERR_OK open_world = None \<and>
    (\<exists>e w'. session_lwip_recv (logging_lwip 4) (script_callback 4 False [Send [7], Close] True) 1 (Some [[1]]) ERR_OK open_world =
       Some (e, w') \<and> count_list (e_log (w_env w')) On_Closed = Suc (Suc 0))"
  using session_send_then_close_in_recv [of 4 open_world "the (w_self open_world)" 1 "[7]" True "[1]" "[]"]
  by (simp add: open_world_def)

section \<open>Closing\<close>

text \<open>
  Closing outside of a callback aborts the connection and tells the application once; closing
  again, sending and flushing then do nothing.
\<close>

theorem session_close_once:
  assumes "w_self w = Some s" and "\<not> s_closing s" and "s_pcb s = Some pcb" and "s_callback s" and "\<not> s_processing s"
  shows "\<exists>w1. session_close (logging_lwip n) (script_callback n False acts ok) w = Some (ERR_ABRT, w1) \<and>
     e_log (w_env w1) = e_log (w_env w) @ [Registered False, Aborted, On_Closed] \<and>
     session_close (logging_lwip n) (script_callback n False acts ok) w1 = Some (ERR_OK, w1) \<and>
     session_send (logging_lwip n) (script_callback n False acts ok) (Some d) w1 = Some (ERR_OK, w1) \<and>
     session_flush (logging_lwip n) w1 = Some (ERR_OK, w1) \<and> session_is_connected w1 = Some False"
proof -
  let ?w1 = "put_self (s\<lparr>s_connected := False, s_closing := True, s_pcb := None\<rparr>)
      (log_events [Registered False, Aborted, On_Closed] w)"
  have "session_close (logging_lwip n) (script_callback n False acts ok) w = Some (ERR_ABRT, ?w1)"
    using assms by (simp add: session_close_def Let_def call_on_closed_def quiet_callback_def)
  then show ?thesis
    by (intro exI [of _ ?w1]) (simp add: session_close_def session_send_def session_flush_def session_is_connected_def)
qed

theorem session_close_once_witness:
  "\<exists>w1. session_close (logging_lwip 4) (script_callback 4 False [] True) open_world = Some (ERR_ABRT, w1) \<and>
     e_log (w_env w1) = [Registered False, Aborted, On_Closed] \<and>
     session_close (logging_lwip 4) (script_callback 4 False [] True) w1 = Some (ERR_OK, w1) \<and>
     session_send (logging_lwip 4) (script_callback 4 False [] True) (Some [1]) w1 = Some (ERR_OK, w1) \<and>
     session_flush (logging_lwip 4) w1 = Some (ERR_OK, w1) \<and> session_is_connected w1 = Some False"
  using session_close_once [of open_world "the (w_self open_world)" 1 4 "[]" True "[1]"]
  by (simp add: open_world_def)

text \<open>
  Closing during a name lookup. The resolver's answer still opens a connection, on a session
  that stays marked as closing: it has a control block, reports that it is not connected even once lwIP
  has connected it, and closing it does nothing.
\<close>

theorem session_close_during_lookup:
  assumes "w_self w = Some s" and "s_callback s" and "\<not> s_processing s" and "s_pcb s = None"
    and "\<not> s_tls s \<or> w_tls_config w"
  shows "\<exists>w1 w2 w3 w4.
     session_connect (logging_lwip n) (script_callback n False acts ok) host port w = Some (ERR_INPROGRESS, w1) \<and>
     session_close (logging_lwip n) (script_callback n False acts ok) w1 = Some (ERR_OK, w2) \<and>
     session_dns_callback (logging_lwip n) (script_callback n False acts ok) host (Some ip) w2 = Some w3 \<and>
     map_option s_pcb (w_self w3) = Some (Some 1) \<and>
     session_close (logging_lwip n) (script_callback n False acts ok) w3 = Some (ERR_OK, w3) \<and>
     session_lwip_connected (logging_lwip n) (script_callback n False acts ok) ERR_OK w3 = Some (ERR_OK, w4) \<and>
     session_is_connected w4 = Some False"
proof -
  let ?cb = "script_callback n False acts ok"
  let ?w1 = "put_self (s\<lparr>s_closing := False, s_connected := False, s_sentBytes := 0, s_port := port\<rparr>) w"
  let ?s2 = "s\<lparr>s_sentBytes := 0, s_port := port, s_connected := False, s_closing := True\<rparr>"
  let ?w2 = "put_self ?s2 (log_event On_Closed w)"
  let ?w3 = "put_self (?s2\<lparr>s_pcb := Some 1\<rparr>) (log_events [On_Closed, Opened, Registered True] w)"
  let ?w4 = "put_self (?s2\<lparr>s_pcb := Some 1, s_connected := True\<rparr>)
    (log_events [On_Closed, Opened, Registered True, On_Connected] w)"
  have "session_connect (logging_lwip n) ?cb host port w = Some (ERR_INPROGRESS, ?w1)"
    using assms by (simp add: session_connect_def Let_def ERR_INPROGRESS_def ERR_OK_def)
  moreover have "session_close (logging_lwip n) ?cb ?w1 = Some (ERR_OK, ?w2)"
    using assms by (simp add: session_close_def Let_def call_on_closed_def quiet_callback_def)
  moreover have "session_dns_callback (logging_lwip n) ?cb host (Some ip) ?w2 = Some ?w3"
    using assms by (auto simp: session_dns_callback_def session_connect_ip_def session_init_pcb_def Let_def)
      (simp_all add: log_event_def put_self_def)
  moreover have "session_close (logging_lwip n) ?cb ?w3 = Some (ERR_OK, ?w3)"
    by (simp add: session_close_def)
  moreover have "session_lwip_connected (logging_lwip n) ?cb ERR_OK ?w3 = Some (ERR_OK, ?w4)"
    using assms by (simp add: session_lwip_connected_def Let_def script_callback_def quiet_callback_def log_event_events)
  moreover have "session_is_connected ?w4 = Some False" by (simp add: session_is_connected_def)
  ultimately show ?thesis by (intro exI [of _ ?w1] exI [of _ ?w2] exI [of _ ?w3] exI [of _ ?w4]) simp
qed

definition idle_world :: "session_env world" where
  "idle_world = open_world\<lparr>w_self := Some ((the (w_self open_world))\<lparr>s_connected := False, s_pcb := None\<rparr>)\<rparr>"

theorem session_close_during_lookup_witness:
  "\<exists>w1 w2 w3 w4.
     session_connect (logging_lwip 4) (script_callback 4 False [] True) [104] 443 idle_world = Some (ERR_INPROGRESS, w1) \<and>
     session_close (logging_lwip 4) (script_callback 4 False [] True) w1 = Some (ERR_OK, w2) \<and>
     session_dns_callback (logging_lwip 4) (script_callback 4 False [] True) [104] (Some 9) w2 = Some w3 \<and>
     map_option s_pcb (w_self w3) = Some (Some 1) \<and>
     session_close (logging_lwip 4) (script_callback 4 False [] True) w3 = Some (ERR_OK, w3) \<and>
     session_lwip_connected (logging_lwip 4) (script_callback 4 False [] True) ERR_OK w3 = Some (ERR_OK, w4) \<and>
     session_is_connected w4 = Some False"
  using session_close_during_lookup [of idle_world "the (w_self idle_world)" 4 "[]" True "[104]" 443 9]
  by (simp add: open_world_def idle_world_def)

end
