(* ===== verification/Session_Blocks.thy ===== *)
theory Session_Blocks
  imports Session_Trace
begin

text \<open>
  The control blocks of lwIP. A \<open>Session\<close> holds one, gives it back with \<open>altcp_abort\<close>, and lwIP then reuses its memory: every use
  of a control block that has been aborted is a use after free. Whatever lwIP answers and whatever the application calls from
  its callbacks, short of connecting the session anew, a session uses only control blocks that are alive.
\<close>

section \<open>The contract\<close>

text \<open>\<open>alive\<close> and \<open>sane\<close> are about the environment of the session: which control blocks lwIP has given out and not got back, and
  whether none was used that is not alive. A null pointer is no use, since lwIP checks for it.\<close>

definition usable :: "(nat \<Rightarrow> 'x \<Rightarrow> bool) \<Rightarrow> nat option \<Rightarrow> 'x world \<Rightarrow> bool" where
  "usable alive p0 w \<longleftrightarrow> (\<forall>p. p0 = Some p \<longrightarrow> alive p (w_env w))"

definition harmless :: "(nat \<Rightarrow> 'x \<Rightarrow> bool) \<Rightarrow> ('x \<Rightarrow> bool) \<Rightarrow> 'x world \<Rightarrow> 'x world \<Rightarrow> bool" where
  "harmless alive sane w w' \<longleftrightarrow> (sane (w_env w) \<longrightarrow> sane (w_env w')) \<and> (\<forall>p. alive p (w_env w) \<longrightarrow> alive p (w_env w'))"

definition blocks_ok :: "(nat \<Rightarrow> 'x \<Rightarrow> bool) \<Rightarrow> ('x \<Rightarrow> bool) \<Rightarrow> 'x world \<Rightarrow> bool" where
  "blocks_ok alive sane w \<longleftrightarrow> sane (w_env w) \<and> (\<forall>s. w_self w = Some s \<longrightarrow> usable alive (s_pcb s) w)"

text \<open>The session keeps its control block or loses it, but gets no other.\<close>

definition same_block :: "'x world \<Rightarrow> 'x world \<Rightarrow> bool" where
  "same_block w w' \<longleftrightarrow> (\<forall>s'. w_self w' = Some s' \<longrightarrow> (\<exists>s. w_self w = Some s \<and> (s_pcb s' = None \<or> s_pcb s' = s_pcb s)))"

definition proceeds :: "(nat \<Rightarrow> 'x \<Rightarrow> bool) \<Rightarrow> ('x \<Rightarrow> bool) \<Rightarrow> 'x world \<Rightarrow> 'x world \<Rightarrow> bool" where
  "proceeds alive sane w w' \<longleftrightarrow> (blocks_ok alive sane w \<longrightarrow> blocks_ok alive sane w' \<and> same_block w w')"

definition goes :: "(nat \<Rightarrow> 'x \<Rightarrow> bool) \<Rightarrow> ('x \<Rightarrow> bool) \<Rightarrow> 'x world \<Rightarrow> ('a \<times> 'x world) option \<Rightarrow> bool" where
  "goes alive sane w r \<longleftrightarrow> (\<forall>a w'. r = Some (a, w') \<longrightarrow> proceeds alive sane w w')"

lemma proceeds_refl [simp]: "proceeds alive sane w w"
  by (simp add: proceeds_def same_block_def)

lemma proceeds_trans: "proceeds alive sane w w' \<Longrightarrow> proceeds alive sane w' w'' \<Longrightarrow> proceeds alive sane w w''"
  unfolding proceeds_def same_block_def by metis

lemma proceeds_put:
  "w_self w = Some s \<Longrightarrow> s_pcb s' = None \<or> s_pcb s' = s_pcb s \<Longrightarrow> proceeds alive sane w (put_self s' w)"
  by (auto simp: proceeds_def blocks_ok_def same_block_def usable_def put_self_def)

lemma proceeds_harmless:
  "w_self w' = w_self w \<Longrightarrow> (blocks_ok alive sane w \<Longrightarrow> harmless alive sane w w') \<Longrightarrow> proceeds alive sane w w'"
  by (auto simp: proceeds_def blocks_ok_def same_block_def usable_def harmless_def)

lemma goes_simps [simp]: "goes alive sane w None" "goes alive sane w (Some (a, w')) \<longleftrightarrow> proceeds alive sane w w'"
  by (simp_all add: goes_def)

lemma goes_from: "proceeds alive sane w w' \<Longrightarrow> goes alive sane w' r \<Longrightarrow> goes alive sane w r"
  unfolding goes_def using proceeds_trans by metis

lemma goes_bind:
  "goes alive sane w m \<Longrightarrow> (\<And>a w'. m = Some (a, w') \<Longrightarrow> goes alive sane w' (f (a, w'))) \<Longrightarrow> goes alive sane w (Option.bind m f)"
  by (cases m) (auto intro: goes_from)

lemma goes_self: "(\<And>s. w_self w = Some s \<Longrightarrow> goes alive sane w (f s)) \<Longrightarrow> goes alive sane w (Option.bind (w_self w) f)"
  by (cases "w_self w") simp_all

lemma goes_ok: "(blocks_ok alive sane w \<Longrightarrow> goes alive sane w r) \<Longrightarrow> goes alive sane w r"
  by (auto simp: goes_def proceeds_def)

lemma blocks_usable: "blocks_ok alive sane w \<Longrightarrow> w_self w = Some s \<Longrightarrow> usable alive (s_pcb s) w"
  by (simp add: blocks_ok_def)

lemma usable_put [simp]: "usable alive p (put_self s w) = usable alive p w"
  by (simp add: usable_def put_self_def)

text \<open>What an application calls when it is told something.\<close>

record script =
  on_recv_does :: "bytes \<Rightarrow> bool \<times> app_action list"
  on_sent_does :: "u16 \<Rightarrow> bool \<times> app_action list"
  on_connected_does :: "app_action list"

definition scripted :: "'x lwip \<Rightarrow> script \<Rightarrow> 'x session_callback \<Rightarrow> 'x session_callback" where
  "scripted lw A cb = \<lparr>
     sc_on_sent = (\<lambda>k w. (fst (on_sent_does A k), fold (session_action lw cb) (snd (on_sent_does A k)) w)),
     sc_on_recv = (\<lambda>d w. (fst (on_recv_does A d), fold (session_action lw cb) (snd (on_recv_does A d)) w)),
     sc_on_closed = sc_on_closed cb,
     sc_on_connected = fold (session_action lw cb) (on_connected_does A) \<rparr>"

locale block_client = session_client lw cb
  for lw :: "'x lwip" and cb :: "'x session_callback" +
  fixes alive :: "nat \<Rightarrow> 'x \<Rightarrow> bool" and sane :: "'x \<Rightarrow> bool"
  assumes write_fine: "usable alive p w \<Longrightarrow> harmless alive sane w (snd (lw_write lw p d w))"
    and output_fine: "usable alive p w \<Longrightarrow> harmless alive sane w (snd (lw_output lw p w))"
    and register_fine: "usable alive p w \<Longrightarrow> harmless alive sane w (lw_register lw p b w)"
    and prio_fine: "usable alive p w \<Longrightarrow> harmless alive sane w (lw_setprio lw p w)"
    and nagle_fine: "usable alive p w \<Longrightarrow> harmless alive sane w (lw_nagle_disable lw p w)"
    and host_fine: "usable alive p w \<Longrightarrow> harmless alive sane w (lw_set_hostname lw p d w)"
    and connect_fine: "usable alive p w \<Longrightarrow> harmless alive sane w (snd (lw_connect lw p ip port w))"
    and recved_fine: "usable alive (Some a) w \<Longrightarrow> harmless alive sane w (lw_recved lw a k w)"
    and free_fine: "harmless alive sane w (lw_pbuf_free lw q w)"
    and dns_fine: "harmless alive sane w (snd (lw_gethostbyname lw d w))"
    and new_fine: "harmless alive sane w (snd (lw_new lw t w)) \<and> usable alive (fst (lw_new lw t w)) (snd (lw_new lw t w))"
    and abort_fine: "usable alive (Some a) w \<Longrightarrow> sane (w_env w) \<Longrightarrow> sane (w_env (lw_abort lw a w))"
    and on_sent_fine: "proceeds alive sane w (snd (sc_on_sent cb n w))"
    and on_recv_fine: "proceeds alive sane w (snd (sc_on_recv cb d w))"
    and on_closed_fine: "proceeds alive sane w (sc_on_closed cb w)"
    and on_connected_fine: "proceeds alive sane w (sc_on_connected cb w)"
begin

abbreviation fine :: "'x world \<Rightarrow> bool" where "fine w \<equiv> blocks_ok alive sane w"
abbreviation gets :: "'x world \<Rightarrow> 'x world \<Rightarrow> bool" where "gets w w' \<equiv> proceeds alive sane w w'"
abbreviation ends :: "'x world \<Rightarrow> ('a \<times> 'x world) option \<Rightarrow> bool" where "ends w r \<equiv> goes alive sane w r"

lemma call_on_closed_gets: "gets w (call_on_closed cb s w)"
  by (simp add: call_on_closed_def on_closed_fine)

lemma closing_gets:
  assumes "w_self w = Some s" and "s_pcb s = Some p" and "s_pcb s1 = Some p"
  shows "gets w (put_self (s1\<lparr>s_pcb := None\<rparr>) (lw_abort lw p (lw_register lw (Some p) False (put_self s1 w))))"
proof -
  let ?w1 = "put_self s1 w"
  let ?w2 = "lw_register lw (Some p) False ?w1"
  have "sane (w_env (lw_abort lw p ?w2))" if "fine w"
  proof -
    have u: "usable alive (Some p) ?w1" "sane (w_env ?w1)" using that assms by (auto simp: blocks_ok_def)
    from register_fine [OF u(1), of False] u have "usable alive (Some p) ?w2" "sane (w_env ?w2)"
      by (auto simp: harmless_def usable_def)
    then show ?thesis by (rule abort_fine)
  qed
  then show ?thesis using assms(1) by (auto simp: proceeds_def blocks_ok_def same_block_def usable_def put_self_def)
qed

lemma close_ends: "ends w (session_close lw cb w)"
proof (unfold session_close_def, rule goes_self)
  fix s
  assume s: "w_self w = Some s"
  let ?s = "s\<lparr>s_connected := False, s_closing := True\<rparr>"
  show "ends w (if s_closing s then Some (ERR_OK, w) else
      let s = ?s; w = put_self s w in case s_pcb s of
        None \<Rightarrow> Some (ERR_OK, if \<not> s_processing s then call_on_closed cb s w else w)
      | Some pcb \<Rightarrow> let w = lw_register lw (Some pcb) False w; w = lw_abort lw pcb w in
          Option.bind (w_self w) (\<lambda>s. let s = s\<lparr>s_pcb := None\<rparr>; w = put_self s w in
            Some (ERR_ABRT, if \<not> s_processing s then call_on_closed cb s w else w)))"
  proof (cases "s_pcb s")
    case None
    have "gets w (put_self ?s w)" by (rule proceeds_put [OF s]) simp
    then show ?thesis using None call_on_closed_gets by (auto simp: Let_def intro: proceeds_trans)
  next
    case (Some p)
    have "gets w (put_self (?s\<lparr>s_pcb := None\<rparr>) (lw_abort lw p (lw_register lw (Some p) False (put_self ?s w))))"
      by (rule closing_gets [OF s Some]) (simp add: Some)
    then show ?thesis using Some call_on_closed_gets by (auto simp: Let_def lwip_self intro: proceeds_trans)
  qed
qed

lemma check_ends: "ends w (check_send_failure cb e w)"
proof (unfold check_send_failure_def, rule goes_self)
  fix s
  assume s: "w_self w = Some s"
  have "gets w (put_self (s\<lparr>s_processing := False\<rparr>) w)" by (rule proceeds_put [OF s]) simp
  then show "ends w (let w' = put_self (s\<lparr>s_processing := False\<rparr>) w in Some
      (if e \<noteq> ERR_OK then (e, w') else if s_closing s \<or> s_pcb s = None then (ERR_ABRT, call_on_closed cb s w') else (ERR_OK, w)))"
    using call_on_closed_gets by (auto simp: Let_def intro: proceeds_trans)
qed

lemma flush_ends: "ends w (session_flush lw w)"
proof (unfold session_flush_def, rule goes_self)
  fix s
  assume s: "w_self w = Some s"
  have "gets w (snd (lw_output lw (s_pcb s) w))"
    by (rule proceeds_harmless) (auto simp: lwip_self intro!: output_fine dest: blocks_usable [OF _ s])
  then show "ends w (Some (if s_closing s \<or> s_pcb s = None then (ERR_OK, w) else lw_output lw (s_pcb s) w))"
    by (cases "lw_output lw (s_pcb s) w") auto
qed

lemma sent_ends: "ends w (session_lwip_sent lw cb n w)"
proof (unfold session_lwip_sent_def, rule goes_self)
  fix s
  assume s: "w_self w = Some s"
  have p: "gets w (put_self (s\<lparr>s_sentBytes := m\<rparr>) w)" for m by (rule proceeds_put [OF s]) simp
  have c: "ends (put_self (s\<lparr>s_sentBytes := 0\<rparr>) w)
      (case sc_on_sent cb m (put_self (s\<lparr>s_sentBytes := 0\<rparr>) w) of (ok, w) \<Rightarrow> if \<not> ok then session_close lw cb w else Some (ERR_OK, w))" for m
    using on_sent_fine [of "put_self (s\<lparr>s_sentBytes := 0\<rparr>) w" m] close_ends
    by (auto intro: goes_from split: prod.splits)
  show "ends w (if s_processing s then Some (ERR_OK, put_self (s\<lparr>s_sentBytes := s_sentBytes s + n\<rparr>) w)
     else let len = n + s_sentBytes s; w = put_self (s\<lparr>s_sentBytes := 0\<rparr>) w in
       if s_callback s then case sc_on_sent cb len w of (ok, w) \<Rightarrow> if \<not> ok then session_close lw cb w else Some (ERR_OK, w)
       else Some (ERR_OK, w))"
    using p goes_from [OF p c] by (simp add: Let_def)
qed

lemma write_gets: "w_self w = Some s \<Longrightarrow> gets w (snd (lw_write lw (s_pcb s) d w))"
  by (rule proceeds_harmless) (auto simp: lwip_self intro!: write_fine dest: blocks_usable)

lemma send_loop_ends: "ends w (send_loop lw cb data w)"
proof -
  have "lw' = lw \<longrightarrow> cb' = cb \<longrightarrow> gets w (snd r)"
    if "send_loop lw' cb' data w = Some r" for lw' and cb' :: "'x session_callback" and data w r
    using _ that
  proof (rule send_loop.raw_induct [of "\<lambda>lw' cb' data w r. lw' = lw \<longrightarrow> cb' = cb \<longrightarrow> gets w (snd r)"])
    fix f :: "'x lwip \<Rightarrow> 'x session_callback \<Rightarrow> bytes \<Rightarrow> 'x world \<Rightarrow> (err option \<times> 'x world) option"
      and lw' cb' data w and r :: "err option \<times> 'x world"
    assume IH: "\<And>lw' cb' data w r. f lw' cb' data w = Some r \<Longrightarrow> lw' = lw \<longrightarrow> cb' = cb \<longrightarrow> gets w (snd r)"
    assume r: "(if data = [] then Some (None, w)
      else Option.bind (w_self w) (\<lambda>s.
        (case lw_write lw' (s_pcb s) (take (lw_ssl_out_content_len lw') data) w of
           (e, w) \<Rightarrow> Option.bind (check_send_failure cb' e w) (\<lambda>(r, w).
             if r \<noteq> ERR_OK then Some (Some e, w)
             else f lw' cb' (drop (lw_ssl_out_content_len lw') data) w)))) = Some r"
    show "lw' = lw \<longrightarrow> cb' = cb \<longrightarrow> gets w (snd r)"
    proof (intro impI)
      assume a: "lw' = lw" "cb' = cb"
      show "gets w (snd r)"
      proof (cases "data = []")
        case False
        with r obtain s where s: "w_self w = Some s" by (cases "w_self w") auto
        obtain e w1 where w1: "lw_write lw (s_pcb s) (take (lw_ssl_out_content_len lw) data) w = (e, w1)" by fastforce
        with r False s a obtain x w2 where c: "check_send_failure cb e w1 = Some (x, w2)"
          by (cases "check_send_failure cb e w1") auto
        have "gets w w1" using write_gets [OF s, of "take (lw_ssl_out_content_len lw) data"] w1 by simp
        moreover have "gets w1 w2" using check_ends [of w1 e] c by simp
        ultimately have g: "gets w w2" by (rule proceeds_trans)
        show ?thesis
        proof (cases "x = ERR_OK")
          case True
          then have "f lw cb (drop (lw_ssl_out_content_len lw) data) w2 = Some r" using r False s a w1 c by simp
          from IH [OF this] g show ?thesis by (auto intro: proceeds_trans)
        next
          case False
          then show ?thesis using r \<open>data \<noteq> []\<close> s a w1 c g by auto
        qed
      qed (use r in auto)
    qed
  qed
  then show ?thesis by (auto simp: goes_def)
qed

lemma finish_send_ends:
  "ends w (Option.bind (w_self w) (\<lambda>s. let w = put_self (s\<lparr>s_processing := False\<rparr>) w in
      if s_sentBytes s > 0 then session_lwip_sent lw cb 0 w else Some (ERR_OK, w)))"
proof (rule goes_self)
  fix s
  assume s: "w_self w = Some s"
  have "gets w (put_self (s\<lparr>s_processing := False\<rparr>) w)" by (rule proceeds_put [OF s]) simp
  then show "ends w (let w = put_self (s\<lparr>s_processing := False\<rparr>) w in
      if s_sentBytes s > 0 then session_lwip_sent lw cb 0 w else Some (ERR_OK, w))"
    using sent_ends by (auto simp: Let_def intro: goes_from)
qed

lemma flushed_send_ends:
  "ends w (Option.bind (session_flush lw w) (\<lambda>(e, w). Option.bind (check_send_failure cb e w) (\<lambda>(r, w).
      if r \<noteq> ERR_OK then Some (e, w)
      else Option.bind (w_self w) (\<lambda>s. let w = put_self (s\<lparr>s_processing := False\<rparr>) w in
        if s_sentBytes s > 0 then session_lwip_sent lw cb 0 w else Some (ERR_OK, w)))))"
proof (rule goes_bind [OF flush_ends], unfold prod.case, rule goes_bind [OF check_ends], unfold prod.case)
  fix e r w'
  show "ends w' (if r \<noteq> ERR_OK then Some (e, w')
      else Option.bind (w_self w') (\<lambda>s. let w = put_self (s\<lparr>s_processing := False\<rparr>) w' in
        if s_sentBytes s > 0 then session_lwip_sent lw cb 0 w else Some (ERR_OK, w)))"
    using finish_send_ends by (cases "r = ERR_OK") simp_all
qed

lemma send_ends: "ends w (session_send lw cb d w)"
proof (cases d)
  case (Some data)
  show ?thesis
    unfolding session_send_def Some option.case
  proof (rule goes_self)
    fix s
    assume s: "w_self w = Some s"
    have p: "gets w (put_self (s\<lparr>s_processing := True\<rparr>) w)" by (rule proceeds_put [OF s]) simp
    have "ends (put_self (s\<lparr>s_processing := True\<rparr>) w) (Option.bind (send_loop lw cb data (put_self (s\<lparr>s_processing := True\<rparr>) w)) (\<lambda>(failed, w).
      case failed of Some e \<Rightarrow> Some (e, w)
      | None \<Rightarrow> Option.bind (session_flush lw w) (\<lambda>(e, w). Option.bind (check_send_failure cb e w) (\<lambda>(r, w).
      if r \<noteq> ERR_OK then Some (e, w)
      else Option.bind (w_self w) (\<lambda>s. let w = put_self (s\<lparr>s_processing := False\<rparr>) w in
        if s_sentBytes s > 0 then session_lwip_sent lw cb 0 w else Some (ERR_OK, w))))))" (is "ends _ ?r")
      using flushed_send_ends by (intro goes_bind [OF send_loop_ends]) (auto split: option.splits)
    from goes_from [OF p this] show "ends w (if s_pcb s = None then Some (ERR_OK, w) else ?r)" by simp
  qed
qed (simp add: session_send_def)

text \<open>While the segments of a chain are handed over, the control block they arrived on stays the session's.\<close>

lemma recv_keeps_block:
  assumes "fine w" and "w_self w = Some s" and "s_pcb s = Some pcb" and "sc_on_recv cb d w = (st, w1)"
  shows "fine w1" and "w_self w1 = Some s1 \<Longrightarrow> s_pcb s1 \<noteq> None \<Longrightarrow> s_pcb s1 = Some pcb"
  using on_recv_fine [of w d] assms by (auto simp: proceeds_def same_block_def)

lemma recv_loop_block:
  "w_self w = Some s \<Longrightarrow> s_pcb s = Some pcb \<Longrightarrow> fine w \<Longrightarrow> recv_loop lw cb pcb p its w = Some (None, w') \<Longrightarrow>
   \<exists>s'. w_self w' = Some s' \<and> s_pcb s' = Some pcb"
proof (induction its arbitrary: w s)
  case (Cons it its)
  obtain st w1 where r: "sc_on_recv cb it w = (st, w1)" by fastforce
  from Cons.prems(4) r obtain s1 where s1: "w_self w1 = Some s1" by (cases "w_self w1") auto
  note k = recv_keeps_block [OF Cons.prems(3,1,2) r]
  show ?case
  proof (cases "s_closing s1 \<or> s_pcb s1 = None \<or> \<not> st")
    case True
    then show ?thesis using Cons.prems(4) r s1 by (auto simp: Let_def bind_eq_Some_conv split: if_splits)
  next
    case False
    then have b: "s_pcb s1 = Some pcb" using k(2) [OF s1] by simp
    show ?thesis
    proof (cases "concat its = []")
      case True
      then show ?thesis using False Cons.prems(4) r s1 b by (simp add: Let_def)
    next
      case more: False
      then have "recv_loop lw cb pcb p its w1 = Some (None, w')" using False Cons.prems(4) r s1 by (auto simp: Let_def simp del: concat_eq_Nil_conv)
      from Cons.IH [OF s1 b k(1) this] show ?thesis .
    qed
  qed
qed auto

lemma recv_loop_ends:
  "w_self w = Some s \<Longrightarrow> s_pcb s = Some pcb \<Longrightarrow> ends w (recv_loop lw cb pcb p its w)"
proof (induction its arbitrary: w s)
  case (Cons it its)
  obtain st w1 where r: "sc_on_recv cb it w = (st, w1)" by fastforce
  then have g: "gets w w1" using on_recv_fine [of w it] by simp
  show ?case
    unfolding recv_loop.simps r prod.case
  proof (rule goes_ok, rule goes_from [OF g], rule goes_self)
    fix s1
    assume f: "fine w" and s1: "w_self w1 = Some s1"
    note k = recv_keeps_block [OF f Cons.prems(1,2) r]
    let ?w2 = "put_self (s1\<lparr>s_processing := False\<rparr>) w1"
    let ?w3 = "lw_pbuf_free lw p (lw_recved lw pcb (length (concat p)) ?w2)"
    have g2: "gets w1 ?w2" by (rule proceeds_put [OF s1]) simp
    have closed: "ends w1 (Some (Some ERR_ABRT, call_on_closed cb s1 ?w2))"
      using g2 call_on_closed_gets by (auto intro: proceeds_trans)
    have refused: "ends w1 (Option.bind (session_close lw cb ?w3) (\<lambda>(e, w). Some (Some e, w)))" if "s_pcb s1 \<noteq> None"
    proof -
      have b: "s_pcb s1 = Some pcb" using k(2) [OF s1 that] .
      then have "gets ?w2 (lw_recved lw pcb (length (concat p)) ?w2)"
        by (intro proceeds_harmless) (auto simp: lwip_self blocks_ok_def intro!: recved_fine)
      moreover have "gets (lw_recved lw pcb (length (concat p)) ?w2) ?w3"
        by (rule proceeds_harmless) (auto simp: lwip_self intro!: free_fine)
      ultimately have "gets w1 ?w3" using g2 by (meson proceeds_trans)
      then show ?thesis by (rule goes_from) (rule goes_bind [OF close_ends], simp)
    qed
    show "ends w1 (let s' = s1\<lparr>s_processing := False\<rparr> in
        if s_closing s1 \<or> s_pcb s1 = None then Some (Some ERR_ABRT, call_on_closed cb s1 (put_self s' w1))
        else if \<not> st then let w = lw_recved lw pcb (length (concat p)) (put_self s' w1); w = lw_pbuf_free lw p w in
          Option.bind (session_close lw cb w) (\<lambda>(e, w). Some (Some e, w))
        else if concat its = [] then Some (None, w1) else recv_loop lw cb pcb p its w1)"
      using closed refused Cons.IH [OF s1] k(2) [OF s1] by (auto simp: Let_def)
  qed
qed simp

lemma taken_gets:
  assumes "w_self w = Some s" and "s_pcb s = Some pcb"
  shows "gets w (lw_pbuf_free lw p (lw_recved lw pcb k w))"
proof -
  have "gets w (lw_recved lw pcb k w)"
    using assms by (intro proceeds_harmless) (auto simp: lwip_self blocks_ok_def intro!: recved_fine)
  moreover have "gets (lw_recved lw pcb k w) (lw_pbuf_free lw p (lw_recved lw pcb k w))"
    by (rule proceeds_harmless) (auto simp: lwip_self intro!: free_fine)
  ultimately show ?thesis by (rule proceeds_trans)
qed

lemma recv_ends:
  assumes "w_self w = Some s" and "s_pcb s = Some pcb"
  shows "ends w (session_lwip_recv lw cb pcb p0 e w)"
proof -
  let ?s = "if e = ERR_ABRT then s\<lparr>s_pcb := None\<rparr> else s"
  let ?w = "put_self ?s w"
  have g: "gets w ?w" by (rule proceeds_put [OF assms(1)]) simp
  have loop: "ends ?w (Option.bind (if s_callback ?s then Option.bind (recv_loop lw cb pcb p p (put_self (?s\<lparr>s_processing := True\<rparr>) ?w)) (\<lambda>(r, w).
      case r of Some _ \<Rightarrow> Some (r, w)
      | None \<Rightarrow> Option.bind (w_self w) (\<lambda>s. Some (None, put_self (s\<lparr>s_processing := False\<rparr>) w)))
      else Some (None, ?w)) (\<lambda>(r, w). case r of Some e \<Rightarrow> Some (e, w)
      | None \<Rightarrow> Some (ERR_OK, lw_pbuf_free lw p (lw_recved lw pcb (length (concat p)) w))))" if e: "e = ERR_OK" for p
  proof (cases "s_callback s")
    case False
    then show ?thesis using e assms taken_gets [of ?w ?s pcb] by (simp add: ERR_OK_def ERR_ABRT_def)
  next
    case True
    have s: "?s = s" using e by (simp add: ERR_OK_def ERR_ABRT_def)
    let ?w1 = "put_self (s\<lparr>s_processing := True\<rparr>) ?w"
    have w1: "w_self ?w1 = Some (s\<lparr>s_processing := True\<rparr>)" "s_pcb (s\<lparr>s_processing := True\<rparr>) = Some pcb"
      using assms by simp_all
    have g1: "gets ?w ?w1" by (rule proceeds_put [of _ s]) (simp_all add: s)
    have "ends ?w1 (Option.bind (Option.bind (recv_loop lw cb pcb p p ?w1) (\<lambda>(r, w). case r of Some _ \<Rightarrow> Some (r, w)
        | None \<Rightarrow> Option.bind (w_self w) (\<lambda>s. Some (None, put_self (s\<lparr>s_processing := False\<rparr>) w))))
        (\<lambda>(r, w). case r of Some e \<Rightarrow> Some (e, w)
        | None \<Rightarrow> Some (ERR_OK, lw_pbuf_free lw p (lw_recved lw pcb (length (concat p)) w))))"
    proof (rule goes_ok, cases "recv_loop lw cb pcb p p ?w1")
      case (Some rw)
      assume f: "fine ?w1"
      obtain r w' where rw: "rw = (r, w')" by fastforce
      have l: "gets ?w1 w'" using recv_loop_ends [OF w1, of p p] Some rw by simp
      show ?thesis
      proof (cases r)
        case None
        obtain s' where s': "w_self w' = Some s'" "s_pcb s' = Some pcb"
          using recv_loop_block [OF w1 f Some [unfolded rw None]] by auto
        let ?w2 = "put_self (s'\<lparr>s_processing := False\<rparr>) w'"
        have "gets w' ?w2" by (rule proceeds_put [OF s'(1)]) simp
        moreover have "gets ?w2 (lw_pbuf_free lw p (lw_recved lw pcb (length (concat p)) ?w2))"
          by (rule taken_gets [of _ "s'\<lparr>s_processing := False\<rparr>"]) (simp_all add: s')
        ultimately have "gets ?w1 (lw_pbuf_free lw p (lw_recved lw pcb (length (concat p)) ?w2))"
          using l by (meson proceeds_trans)
        then show ?thesis using Some rw None s' by simp
      qed (use Some rw l in simp)
    qed simp
    from goes_from [OF g1 this] show ?thesis using True s by simp
  qed
  show ?thesis
    unfolding session_lwip_recv_def Let_def assms(1) Option.bind.bind_lunit
  proof (rule goes_from [OF g], cases p0)
    case None
    then show "ends ?w (case p0 of None \<Rightarrow> session_close lw cb ?w | Some p \<Rightarrow>
        if e \<noteq> ERR_OK then map_option (\<lambda>(_, w). (ERR_ABRT, w)) (session_close lw cb ?w)
        else Option.bind (if s_callback ?s then Option.bind (recv_loop lw cb pcb p p (put_self (?s\<lparr>s_processing := True\<rparr>) ?w)) (\<lambda>(r, w).
          case r of Some _ \<Rightarrow> Some (r, w)
          | None \<Rightarrow> Option.bind (w_self w) (\<lambda>s. Some (None, put_self (s\<lparr>s_processing := False\<rparr>) w)))
          else Some (None, ?w)) (\<lambda>(r, w). case r of Some e \<Rightarrow> Some (e, w)
          | None \<Rightarrow> Some (ERR_OK, lw_pbuf_free lw p (lw_recved lw pcb (length (concat p)) w))))" using close_ends by simp
  next
    case (Some p)
    have "ends ?w (map_option (\<lambda>(_, w). (ERR_ABRT, w)) (session_close lw cb ?w))"
      using close_ends [of ?w] by (auto simp: goes_def)
    then show "ends ?w (case p0 of None \<Rightarrow> session_close lw cb ?w | Some p \<Rightarrow>
        if e \<noteq> ERR_OK then map_option (\<lambda>(_, w). (ERR_ABRT, w)) (session_close lw cb ?w)
        else Option.bind (if s_callback ?s then Option.bind (recv_loop lw cb pcb p p (put_self (?s\<lparr>s_processing := True\<rparr>) ?w)) (\<lambda>(r, w).
          case r of Some _ \<Rightarrow> Some (r, w)
          | None \<Rightarrow> Option.bind (w_self w) (\<lambda>s. Some (None, put_self (s\<lparr>s_processing := False\<rparr>) w)))
          else Some (None, ?w)) (\<lambda>(r, w). case r of Some e \<Rightarrow> Some (e, w)
          | None \<Rightarrow> Some (ERR_OK, lw_pbuf_free lw p (lw_recved lw pcb (length (concat p)) w))))" using Some loop [of p] by simp
  qed
qed

lemma map_snd_gets: "ends w r \<Longrightarrow> map_option snd r = Some w' \<Longrightarrow> gets w w'"
  by (auto simp: goes_def)

lemma err_gets:
  assumes "session_lwip_err lw cb w = Some w'"
  shows "gets w w'"
proof -
  obtain s where s: "w_self w = Some s" using assms by (cases "w_self w") (simp_all add: session_lwip_err_def)
  let ?w1 = "lw_register lw (s_pcb s) False w"
  have s1: "w_self ?w1 = Some s" using s by (simp add: lwip_self)
  have "gets w ?w1"
    by (rule proceeds_harmless) (auto simp: lwip_self intro!: register_fine dest: blocks_usable [OF _ s])
  moreover have "gets ?w1 (put_self (s\<lparr>s_pcb := None\<rparr>) ?w1)" by (rule proceeds_put [OF s1]) simp
  moreover have "gets (put_self (s\<lparr>s_pcb := None\<rparr>) ?w1) w'"
    by (rule map_snd_gets [OF close_ends]) (use assms s s1 in \<open>simp add: session_lwip_err_def Let_def\<close>)
  ultimately show ?thesis by (meson proceeds_trans)
qed

lemma connected_ends: "ends w (session_lwip_connected lw cb e w)"
proof (unfold session_lwip_connected_def, rule goes_self)
  fix s
  assume s: "w_self w = Some s"
  have "gets w (put_self (s\<lparr>s_connected := True\<rparr>) w)" by (rule proceeds_put [OF s]) simp
  then show "ends w (if e \<noteq> ERR_OK then session_close lw cb w
     else let w = put_self (s\<lparr>s_connected := True\<rparr>) w in Some (ERR_OK, if s_callback s then sc_on_connected cb w else w))"
    using close_ends on_connected_fine by (auto simp: Let_def intro: proceeds_trans)
qed

subsection \<open>A new control block\<close>

lemma init_gets:
  assumes "session_init_pcb lw w = Some w'"
  shows "gets w w'" and "w_self w' = w_self w"
proof -
  obtain s where s: "w_self w = Some s" using assms by (cases "w_self w") (simp_all add: session_init_pcb_def)
  let ?w1 = "lw_setprio lw (s_pcb s) w" and ?p = "s_pcb s"
  let ?w2 = "lw_register lw ?p True ?w1"
  have w': "w' = lw_nagle_disable lw ?p ?w2" using assms s by (simp add: session_init_pcb_def Let_def)
  have s1: "w_self ?w1 = Some s" and s2: "w_self ?w2 = Some s" using s by (simp_all add: lwip_self)
  have "gets w ?w1"
    by (rule proceeds_harmless) (auto simp: lwip_self intro!: prio_fine dest: blocks_usable [OF _ s])
  moreover have "gets ?w1 ?w2"
    by (rule proceeds_harmless) (auto simp: lwip_self intro!: register_fine dest: blocks_usable [OF _ s1])
  moreover have "gets ?w2 w'"
    unfolding w' by (rule proceeds_harmless) (auto simp: lwip_self intro!: nagle_fine dest: blocks_usable [OF _ s2])
  ultimately show "gets w w'" by (meson proceeds_trans)
  show "w_self w' = w_self w" using s w' by (simp add: lwip_self)
qed

lemma gets_fine: "gets w w' \<Longrightarrow> fine w \<Longrightarrow> fine w'"
  by (simp add: proceeds_def)

lemma ends_gets: "ends w r \<Longrightarrow> r = Some (a, w') \<Longrightarrow> gets w w'"
  by simp

lemma ends_fine: "ends w r \<Longrightarrow> r = Some (a, w') \<Longrightarrow> fine w \<Longrightarrow> fine w'"
  by (simp add: proceeds_def)

lemma new_block_fine:
  assumes "fine w" and "lw_new lw t w = (pcb, w1)"
  shows "fine (put_self (s\<lparr>s_pcb := pcb\<rparr>) w1)"
  using new_fine [of w t] assms by (auto simp: blocks_ok_def harmless_def usable_def put_self_def)

lemma connect_ip_fine:
  assumes "fine w" and "session_connect_ip lw cb host ip port w = Some (e, w')"
  shows "fine w'"
proof -
  obtain s where s: "w_self w = Some s" using assms(2) by (cases "w_self w") (simp_all add: session_connect_ip_def)
  show ?thesis
  proof (cases "s_tls s \<and> \<not> w_tls_config w")
    case True
    then show ?thesis using ends_fine [OF close_ends _ assms(1)] assms(2) s by (simp add: session_connect_ip_def)
  next
    case False
    obtain pcb w1 where n: "lw_new lw (s_tls s) w = (pcb, w1)" by fastforce
    have s1: "w_self w1 = Some s" using new_self [of "s_tls s" w] n s by simp
    let ?w2 = "put_self (s\<lparr>s_pcb := pcb\<rparr>) w1"
    let ?w3 = "case host of Some h \<Rightarrow> if s_tls s then lw_set_hostname lw pcb h ?w2 else ?w2 | None \<Rightarrow> ?w2"
    have s3: "w_self ?w3 = Some (s\<lparr>s_pcb := pcb\<rparr>)" by (simp add: lwip_self split: option.split)
    have u: "usable alive pcb w" if "fine w" "w_self w = Some (s\<lparr>s_pcb := pcb\<rparr>)" for w
      using blocks_usable [OF that] by simp
    have h: "gets ?w2 (lw_set_hostname lw pcb h ?w2)" for h
      by (rule proceeds_harmless) (auto simp: lwip_self intro!: host_fine u [of ?w2, simplified])
    have f3: "fine ?w3" using new_block_fine [OF assms(1) n, of s] gets_fine [OF h] by (simp split: option.split)
    obtain w4 where i: "session_init_pcb lw ?w3 = Some w4"
      using assms(2) s s1 False n by (cases "session_init_pcb lw ?w3") (simp_all add: session_connect_ip_def Let_def)
    have f4: "fine w4" using gets_fine [OF init_gets(1) [OF i] f3] .
    have s4: "w_self w4 = Some (s\<lparr>s_pcb := pcb\<rparr>)" using init_gets(2) [OF i] s3 by simp
    obtain r w5 where c: "lw_connect lw pcb ip port w4 = (r, w5)" by fastforce
    have "gets w4 (snd (lw_connect lw pcb ip port w4))"
      by (rule proceeds_harmless) (auto simp: lwip_self intro!: connect_fine u s4)
    then have f5: "fine w5" using gets_fine [OF _ f4] c by simp
    have "(if r \<noteq> ERR_OK then session_close lw cb w5 else Some (ERR_OK, w5)) = Some (e, w')"
      using assms(2) s s1 False n i c by (simp add: session_connect_ip_def Let_def)
    then show ?thesis using f5 ends_fine [OF close_ends _ f5] by (auto split: if_splits)
  qed
qed

lemma connect_fine':
  assumes "fine w" and "session_connect lw cb host port w = Some (e, w')"
  shows "fine w'"
proof -
  obtain s where s: "w_self w = Some s" using assms(2) by (cases "w_self w") (simp_all add: session_connect_def)
  let ?w1 = "put_self (s\<lparr>s_closing := False, s_connected := False, s_sentBytes := 0, s_port := port\<rparr>) w"
  have "gets w ?w1" by (rule proceeds_put [OF s]) simp
  moreover have "gets ?w1 (snd (lw_gethostbyname lw host ?w1))"
    by (rule proceeds_harmless) (auto simp: lwip_self intro!: dns_fine)
  ultimately have f: "fine (snd (lw_gethostbyname lw host ?w1))" using assms(1) gets_fine by blast
  show ?thesis
    using assms(2) s f connect_ip_fine
    by (auto simp: session_connect_def Let_def split: prod.splits if_splits)
qed

lemma dns_callback_fine: "fine w \<Longrightarrow> session_dns_callback lw cb host ip w = Some w' \<Longrightarrow> fine w'"
  using connect_ip_fine gets_fine [OF call_on_closed_gets]
  by (auto simp: session_dns_callback_def bind_eq_Some_conv split: option.splits)

text \<open>A block that lwIP has already given up is reported with \<open>ERR_ABRT\<close>: the session forgets it without a use.\<close>

lemma recv_aborted_fine:
  assumes "sane (w_env w)" and "session_lwip_recv lw cb pcb p ERR_ABRT w = Some (r, w')"
  shows "fine w'"
proof -
  obtain s where s: "w_self w = Some s" using assms(2) by (cases "w_self w") (simp_all add: session_lwip_recv_def)
  let ?w1 = "put_self (s\<lparr>s_pcb := None\<rparr>) w"
  have f: "fine ?w1" using assms(1) by (simp add: blocks_ok_def usable_def put_self_def)
  obtain e where "session_close lw cb ?w1 = Some (e, w')"
    using assms(2) s by (auto simp: session_lwip_recv_def Let_def ERR_OK_def ERR_ABRT_def split: option.splits)
  from ends_fine [OF close_ends this f] show ?thesis .
qed

lemma create_fine:
  assumes "sane (w_env w)" and "usable alive pcb w" and "session_create lw pcb tls w = Some w'"
  shows "fine w'"
proof -
  let ?w1 = "put_self \<lparr> s_connected = (pcb \<noteq> None), s_closing = False, s_processing = False, s_tls = tls,
       s_sentBytes = 0, s_port = 0, s_callback = False, s_pcb = pcb \<rparr> w"
  have f: "fine ?w1" using assms by (simp add: blocks_ok_def usable_def put_self_def)
  obtain w2 where "(if pcb \<noteq> None then session_init_pcb lw ?w1 else Some ?w1) = Some w2"
      and w': "w' = w2\<lparr>w_num_sessions := w_num_sessions w2 + 1\<rparr>"
    using assms(3) by (auto simp: session_create_def Let_def bind_eq_Some_conv simp del: not_None_eq)
  then have "fine w2" using f gets_fine [OF init_gets(1) f] by (auto split: if_splits)
  then show ?thesis using w' by (simp add: blocks_ok_def usable_def)
qed

lemma delete_fine:
  assumes "fine w" and "session_delete lw cb w = Some w'"
  shows "fine w'"
proof -
  obtain s where s: "w_self w = Some s" using assms(2) by (cases "w_self w") (simp_all add: session_delete_def)
  let ?w1 = "put_self (s\<lparr>s_callback := False\<rparr>) w"
  have f: "fine ?w1" using gets_fine [OF proceeds_put [OF s] assms(1)] by simp
  obtain w2 where "(if s_pcb s \<noteq> None then map_option snd (session_close lw cb ?w1) else Some w) = Some w2"
      and w': "w' = w2\<lparr>w_num_sessions := w_num_sessions w2 - 1, w_self := None\<rparr>"
    using assms(2) s by (auto simp: session_delete_def bind_eq_Some_conv)
  then have "fine w2" using assms(1) gets_fine [OF map_snd_gets [OF close_ends] f] by (auto split: if_splits)
  then show ?thesis using w' by (simp add: blocks_ok_def)
qed

lemma set_callback_fine: "fine w \<Longrightarrow> session_set_callback b w = Some w' \<Longrightarrow> fine w'"
  by (auto simp: session_set_callback_def bind_eq_Some_conv intro!: gets_fine [OF proceeds_put])

lemma set_tls_fine: "fine w \<Longrightarrow> session_set_tls b w = Some w' \<Longrightarrow> fine w'"
  by (auto simp: session_set_tls_def bind_eq_Some_conv intro!: gets_fine [OF proceeds_put])

lemma step_fine: "session_step lw cb w w' \<Longrightarrow> fine w \<Longrightarrow> fine w'"
proof (induction rule: session_step.induct)
  case (step_dns host ip w w')
  then show ?case using dns_callback_fine by blast
next
  case (step_err w s pcb w')
  then show ?case using gets_fine [OF err_gets] by blast
next
  case (step_recv w s pcb p e r w')
  then show ?case using ends_fine [OF recv_ends] by blast
next
  case (step_connect host port w e w')
  then show ?case using connect_fine' by blast
next
  case (step_connect_ip host_name ip port w e w')
  then show ?case using connect_ip_fine by blast
next
  case (step_delete w w')
  then show ?case using delete_fine by blast
next
  case (step_set_callback b w w')
  then show ?case using set_callback_fine by blast
next
  case (step_set_tls b w w')
  then show ?case using set_tls_fine by blast
qed (blast intro: ends_fine [OF send_ends] ends_fine [OF flush_ends] ends_fine [OF close_ends]
    ends_fine [OF connected_ends] ends_fine [OF sent_ends])+

text \<open>Calls of the session itself are fine in a callback, and so are the callbacks of an application made of them.\<close>

lemma action_gets: "gets w (session_action lw cb a w)"
proof -
  have "gets w (w\<lparr>w_self := None\<rparr>)" by (simp add: proceeds_def blocks_ok_def same_block_def)
  then show ?thesis using ends_gets [OF send_ends] ends_gets [OF close_ends] ends_gets [OF flush_ends]
    by (cases a) (auto simp: session_action_def split: option.split)
qed

lemma action_keeps: "session_inv w \<Longrightarrow> session_inv (session_action lw cb a w)"
proof -
  assume w: "session_inv w"
  have "session_inv (w\<lparr>w_self := None\<rparr>)" by (simp add: session_inv_def)
  then show ?thesis using send_keeps [OF w] close_keeps [OF w] flush_keeps [OF w]
    by (cases a) (auto simp: session_action_def keeps_def split: option.split)
qed

lemma actions_gets: "gets w (fold (session_action lw cb) acts w)"
  by (induction acts arbitrary: w) (auto intro: proceeds_trans action_gets)

lemma actions_keep: "session_inv w \<Longrightarrow> session_inv (fold (session_action lw cb) acts w)"
  by (induction acts arbitrary: w) (simp_all add: action_keeps)

lemma scripted_client: "block_client lw (scripted lw A cb) alive sane"
  by unfold_locales
    (simp_all add: scripted_def actions_gets actions_keep lwip_self on_closed_inv on_closed_fine
      write_fine output_fine register_fine prio_fine nagle_fine host_fine connect_fine recved_fine free_fine
      dns_fine new_fine abort_fine)

end

section \<open>A lwIP that keeps account\<close>

text \<open>It refuses or answers as \<^const>\<open>e_results\<close> says, has room for a number of control blocks and gives out each address
  once, so that every use of a block that is gone is noticed.\<close>

record block_env = session_env +
  b_alive :: "nat list"
  b_next :: nat
  b_room :: nat
  b_misused :: bool

definition touch :: "nat option \<Rightarrow> block_env world \<Rightarrow> block_env world" where
  "touch p0 w = (case p0 of
     None \<Rightarrow> w
   | Some p \<Rightarrow> if p \<in> set (b_alive (w_env w)) then w else w\<lparr>w_env := (w_env w)\<lparr>b_misused := True\<rparr>\<rparr>)"

definition answer :: "block_env world \<Rightarrow> err \<times> block_env world" where
  "answer w = (case e_results (w_env w) of
     [] \<Rightarrow> (ERR_OK, w)
   | e # es \<Rightarrow> (e, w\<lparr>w_env := (w_env w)\<lparr>e_results := es\<rparr>\<rparr>))"

definition free_block :: "nat \<Rightarrow> block_env world \<Rightarrow> block_env world" where
  "free_block p w = w\<lparr>w_env := (w_env w)\<lparr>b_alive := removeAll p (b_alive (w_env w))\<rparr>\<rparr>"

definition new_block :: "block_env world \<Rightarrow> nat option \<times> block_env world" where
  "new_block w = (let x = w_env w; p = b_next x in
     if b_room x = 0 then (None, w)
     else (Some p, w\<lparr>w_env := x\<lparr>b_alive := p # b_alive x, b_next := Suc p, b_room := b_room x - 1\<rparr>\<rparr>))"

definition tracking_lwip :: "nat \<Rightarrow> block_env lwip" where
  "tracking_lwip n = (logging_lwip n)\<lparr>
     lw_write := (\<lambda>p d w. logged_write d (touch p w)),
     lw_output := (\<lambda>p w. answer (touch p (log_event Output w))),
     lw_register := (\<lambda>p b w. touch p (log_event (Registered b) w)),
     lw_abort := (\<lambda>p w. free_block p (touch (Some p) (log_event Aborted w))),
     lw_recved := (\<lambda>p k w. touch (Some p) (log_event (Recved k) w)),
     lw_setprio := touch,
     lw_nagle_disable := touch,
     lw_new := (\<lambda>t w. new_block (log_event Opened w)),
     lw_set_hostname := (\<lambda>p d. touch p),
     lw_connect := (\<lambda>p ip port w. answer (touch p w)),
     lw_gethostbyname := (\<lambda>d w. case answer w of (e, w) \<Rightarrow> ((e, 0), w))\<rparr>"

lemma touch_alive [simp]: "usable (\<lambda>p x. p \<in> set (b_alive x)) p w \<Longrightarrow> touch p w = w"
  by (simp add: touch_def usable_def split: option.split)

lemma track_simps [simp]:
  "w_self (touch p w) = w_self w" "w_self (snd (answer w)) = w_self w" "w_self (free_block a w) = w_self w"
  "w_self (snd (new_block w)) = w_self w"
  "b_alive (w_env (log_event ev w)) = b_alive (w_env w)" "b_misused (w_env (log_event ev w)) = b_misused (w_env w)"
  "b_alive (w_env (snd (logged_write d w))) = b_alive (w_env w)"
  "b_misused (w_env (snd (logged_write d w))) = b_misused (w_env w)"
  "b_alive (w_env (snd (answer w))) = b_alive (w_env w)" "b_misused (w_env (snd (answer w))) = b_misused (w_env w)"
  "b_misused (w_env (free_block a w)) = b_misused (w_env w)"
  by (simp_all add: touch_def answer_def free_block_def new_block_def log_event_def logged_write_def Let_def
      split: option.split list.split)

lemma usable_log [simp]:
  fixes w :: "block_env world"
  shows "usable (\<lambda>p x. p \<in> set (b_alive x)) p (log_event ev w) = usable (\<lambda>p x. p \<in> set (b_alive x)) p w"
  by (simp add: usable_def)

lemma tracked_new:
  "harmless (\<lambda>p x. p \<in> set (b_alive x)) (\<lambda>x. \<not> b_misused x) w (snd (new_block (log_event ev w)))"
  "usable (\<lambda>p x. p \<in> set (b_alive x)) (fst (new_block (log_event ev w))) (snd (new_block (log_event ev w)))"
  by (simp_all add: new_block_def harmless_def usable_def Let_def log_event_def)

lemma snd_answered: "snd (case answer w of (e, w) \<Rightarrow> ((e, k), w)) = snd (answer w)"
  by (simp split: prod.split)

section \<open>Applications\<close>

text \<open>An application is a list of scripts: what the callbacks call, what the callbacks of these calls call, and so on; the
  innermost ones only record.\<close>

primrec application :: "'a session_env_scheme lwip \<Rightarrow> bool \<Rightarrow> script list \<Rightarrow> 'a session_env_scheme session_callback" where
  "application lw del [] = quiet_callback del"
| "application lw del (A # As) = scripted lw A (application lw del As)"

lemma tracking_client:
  "block_client (tracking_lwip n) (application (tracking_lwip n) del As) (\<lambda>p x. p \<in> set (b_alive x)) (\<lambda>x. \<not> b_misused x)"
proof (induction As)
  case Nil
  show ?case
    by unfold_locales
      (simp_all add: tracking_lwip_def snd_answered tracked_new, simp_all add: quiet_callback_def harmless_def proceeds_def
        blocks_ok_def same_block_def usable_def Let_def)
next
  case (Cons A As)
  from block_client.scripted_client [OF this] show ?case by simp
qed

interpretation tracked: block_client "tracking_lwip n" "application (tracking_lwip n) del As"
    "\<lambda>p x. p \<in> set (b_alive x)" "\<lambda>x. \<not> b_misused x" for n del As
  by (rule tracking_client)

section \<open>Sessions and their control blocks\<close>

text \<open>The life of the sessions that one object at a time holds: lwIP accepts a connection and a session is made for it, or one is
  made to connect; the session goes its steps up to its deletion; lwIP gives up a block that no session holds, or the block of the session, which
  it then reports with \<^const>\<open>ERR_ABRT\<close>.\<close>

inductive block_step :: "nat \<Rightarrow> block_env session_callback \<Rightarrow> block_env world \<Rightarrow> block_env world \<Rightarrow> bool" for n cb where
  made: "w_self w = None \<Longrightarrow> session_create (tracking_lwip n) None tls w = Some w' \<Longrightarrow> block_step n cb w w'"
| accepted: "w_self w = None \<Longrightarrow> new_block w = (pcb, w1) \<Longrightarrow> session_create (tracking_lwip n) pcb tls w1 = Some w' \<Longrightarrow>
    block_step n cb w w'"
| stepped: "session_step (tracking_lwip n) cb w w' \<Longrightarrow> block_step n cb w w'"
| given_up: "(\<And>s. w_self w = Some s \<Longrightarrow> s_pcb s \<noteq> Some p) \<Longrightarrow> block_step n cb w (free_block p w)"
| aborted: "w_self w = Some s \<Longrightarrow> s_pcb s = Some p \<Longrightarrow>
    session_lwip_recv (tracking_lwip n) cb p q ERR_ABRT (free_block p w) = Some (r, w') \<Longrightarrow> block_step n cb w w'"

abbreviation tracked_ok :: "block_env world \<Rightarrow> bool" where
  "tracked_ok \<equiv> blocks_ok (\<lambda>p x. p \<in> set (b_alive x)) (\<lambda>x. \<not> b_misused x)"

lemma block_step_ok:
  assumes "block_step n (application (tracking_lwip n) del As) w w'" and "tracked_ok w"
  shows "tracked_ok w'"
  using assms
proof (induction rule: block_step.induct)
  case (made w tls w')
  then show ?case by (intro tracked.create_fine [of w None n tls w']) (simp_all add: blocks_ok_def usable_def)
next
  case (accepted w pcb w1 tls w')
  then show ?case
    by (intro tracked.create_fine [of w1 pcb n tls w']) (auto simp: blocks_ok_def usable_def new_block_def Let_def split: if_splits)
next
  case (stepped w w')
  then show ?case by (rule tracked.step_fine)
next
  case (given_up w p)
  then show ?case by (auto simp: blocks_ok_def usable_def free_block_def)
next
  case (aborted w s p q r w')
  show ?case by (rule tracked.recv_aborted_fine [OF _ aborted.hyps(3)]) (use aborted.prems in \<open>simp add: blocks_ok_def\<close>)
qed

lemma block_run_ok:
  "(block_step n (application (tracking_lwip n) del As))\<^sup>*\<^sup>* w w' \<Longrightarrow> tracked_ok w \<Longrightarrow> tracked_ok w'"
  by (induction rule: rtranclp_induct) (auto intro: block_step_ok)

text \<open>
  C10. No use after free. Sessions are made, accepted, connected, called by lwIP and by the application and deleted in any order,
  lwIP answers what it likes and gives up blocks when it likes, and the application sends, flushes and closes from within its
  callbacks, to any depth: no call of lwIP gets a control block that has been aborted or given up, and the block the
  session holds is alive.
\<close>

theorem session_uses_live_blocks:
  assumes "(block_step n (application (tracking_lwip n) del As))\<^sup>*\<^sup>* w w'" and "\<not> b_misused (w_env w)"
    and "w_self w = None"
  shows "\<not> b_misused (w_env w') \<and> (\<forall>s p. w_self w' = Some s \<and> s_pcb s = Some p \<longrightarrow> p \<in> set (b_alive (w_env w')))"
  using block_run_ok [OF assms(1)] assms(2,3) by (auto simp: blocks_ok_def usable_def)

definition bare_world :: "nat \<Rightarrow> block_env world" where
  "bare_world room = \<lparr> w_self = None, w_num_sessions = 0, w_tls_config = False,
     w_env = \<lparr> e_log = [], e_results = [], b_alive = [], b_next = 1, b_room = room, b_misused = False \<rparr> \<rparr>"

text \<open>An application that sends and, at the second piece, closes.\<close>

definition closing_script :: script where
  "closing_script = \<lparr> on_recv_does = (\<lambda>d. (True, if d = [2] then [Send [7], Close] else [Flush])), on_sent_does = (\<lambda>k. (True, [])),
     on_connected_does = [] \<rparr>"

lemma tracking_simps [simp]:
  "lw_ssl_out_content_len (tracking_lwip n) = n" "lw_write (tracking_lwip n) p d w = logged_write d (touch p w)"
  "lw_output (tracking_lwip n) p w = answer (touch p (log_event Output w))"
  "lw_register (tracking_lwip n) p b w = touch p (log_event (Registered b) w)"
  "lw_abort (tracking_lwip n) a w = free_block a (touch (Some a) (log_event Aborted w))"
  "lw_recved (tracking_lwip n) a k w = touch (Some a) (log_event (Recved k) w)"
  "lw_pbuf_free (tracking_lwip n) ps w = log_event (Freed ps) w"
  "lw_setprio (tracking_lwip n) p w = touch p w" "lw_nagle_disable (tracking_lwip n) p w = touch p w"
  "lw_new (tracking_lwip n) t w = new_block (log_event Opened w)"
  "lw_connect (tracking_lwip n) p ip port w = answer (touch p w)"
  "lw_gethostbyname (tracking_lwip n) h w = (case answer w of (e, w) \<Rightarrow> ((e, 0), w))"
  by (simp_all add: tracking_lwip_def)

theorem session_uses_live_blocks_witness:
  "\<exists>w'. (block_step 4 (application (tracking_lwip 4) False [closing_script]))\<^sup>*\<^sup>* (bare_world 1) w' \<and>
     e_log (w_env w') = [Registered True, Output, Wrote [7], Output, Registered False, Aborted, On_Closed, On_Closed] \<and>
     \<not> b_misused (w_env w') \<and> (\<forall>s p. w_self w' = Some s \<and> s_pcb s = Some p \<longrightarrow> p \<in> set (b_alive (w_env w')))"
proof -
  let ?cb = "application (tracking_lwip 4) False [closing_script]"
  let ?s = "\<lparr> s_connected = True, s_closing = False, s_processing = False, s_tls = False, s_sentBytes = 0, s_port = 0,
      s_callback = False, s_pcb = Some 1 \<rparr>"
  let ?x = "\<lparr> e_log = [Registered True], e_results = [], b_alive = [1], b_next = 2, b_room = 0, b_misused = False \<rparr>"
  let ?w1 = "\<lparr> w_self = Some ?s, w_num_sessions = 1, w_tls_config = False, w_env = ?x \<rparr>"
  let ?w2 = "put_self (?s\<lparr>s_callback := True\<rparr>) ?w1"
  let ?w3 = "put_self (?s\<lparr>s_callback := True, s_connected := False, s_closing := True, s_pcb := None\<rparr>)
    (?w1\<lparr>w_env := ?x\<lparr>e_log := [Registered True, Output, Wrote [7], Output, Registered False, Aborted, On_Closed, On_Closed], b_alive := []\<rparr>\<rparr>)"
  have "new_block (bare_world 1) = (Some 1, (bare_world 1)\<lparr>w_env := ?x\<lparr>e_log := []\<rparr>\<rparr>)"
    by (simp add: new_block_def bare_world_def)
  then have 1: "block_step 4 ?cb (bare_world 1) ?w1"
    by (rule block_step.accepted [rotated, where tls = False])
      (simp_all add: session_create_def session_init_pcb_def bare_world_def put_self_def log_event_def touch_def Let_def)
  have 2: "block_step 4 ?cb ?w1 ?w2"
    by (rule block_step.stepped [OF session_step.step_set_callback [of True]]) (simp add: session_set_callback_def put_self_def)
  have "session_lwip_recv (tracking_lwip 4) ?cb 1 (Some [[1], [2], [3]]) ERR_OK ?w2 = Some (ERR_ABRT, ?w3)"
    by (simp add: session_lwip_recv_def scripted_def closing_script_def session_action_def quiet_callback_def
        session_send_def session_close_def session_flush_def send_loop.simps check_send_failure_def session_lwip_sent_def
        call_on_closed_def logged_write_def answer_def touch_def free_block_def log_event_def put_self_def Let_def
        ERR_OK_def ERR_ABRT_def)
  then have "session_step (tracking_lwip 4) ?cb ?w2 ?w3"
    by (rule session_step.step_recv [rotated 2, where s = "?s\<lparr>s_callback := True\<rparr>"]) simp_all
  then have 3: "block_step 4 ?cb ?w2 ?w3" by (rule block_step.stepped)
  have run: "(block_step 4 ?cb)\<^sup>*\<^sup>* (bare_world 1) ?w3"
    using 1 2 3 by (meson r_into_rtranclp rtranclp_trans)
  moreover have "e_log (w_env ?w3) = [Registered True, Output, Wrote [7], Output, Registered False, Aborted, On_Closed, On_Closed]"
    by simp
  moreover note session_uses_live_blocks [OF run]
  ultimately show ?thesis by (intro exI [of _ ?w3]) (simp add: bare_world_def)
qed

section \<open>Connecting anew while receiving\<close>

text \<open>An application that, in \<open>on_recv\<close>, closes the session and connects it to the next host.\<close>

definition moving_on :: "nat \<Rightarrow> bytes \<Rightarrow> u16 \<Rightarrow> bool \<Rightarrow> block_env session_callback" where
  "moving_on n host port ok = (quiet_callback False)\<lparr>
     sc_on_recv := (\<lambda>d w. (ok, case Option.bind (session_close (tracking_lwip n) (quiet_callback False) w)
         (\<lambda>(e, w). session_connect (tracking_lwip n) (quiet_callback False) host port w) of
       None \<Rightarrow> w\<lparr>w_self := None\<rparr> | Some (e, w') \<Rightarrow> w'))\<rparr>"

text \<open>
  The exception that the runs above leave out. Where the name of the next host is known at once, the session has a control
  block again when \<open>on_recv\<close> returns, and the handler goes on with the one it was called for: \<open>altcp_recved\<close> is called on the
  block that was aborted, whatever \<open>on_recv\<close> answers.
\<close>

theorem session_reconnect_in_recv_uses_dead_block:
  assumes "w_self w = Some s" and "\<not> s_closing s" and "s_pcb s = Some p" and "s_callback s" and "\<not> s_tls s"
    and "e_results (w_env w) = []" and "0 < b_room (w_env w)" and "p \<in> set (b_alive (w_env w))"
    and "p < b_next (w_env w)"
  shows "\<exists>e w'. session_lwip_recv (tracking_lwip n) (moving_on n host port ok) p (Some [d]) ERR_OK w = Some (e, w') \<and>
     b_misused (w_env w')"
proof -
  let ?w1 = "put_self (s\<lparr>s_processing := True, s_connected := False, s_closing := True, s_pcb := None\<rparr>)
    (w\<lparr>w_env := (w_env w)\<lparr>e_log := e_log (w_env w) @ [Registered False, Aborted], b_alive := removeAll p (b_alive (w_env w))\<rparr>\<rparr>)"
  let ?q = "b_next (w_env w)"
  let ?s2 = "s\<lparr>s_processing := True, s_connected := False, s_closing := False, s_sentBytes := 0, s_port := port, s_pcb := Some ?q\<rparr>"
  let ?w2 = "put_self ?s2
    (w\<lparr>w_env := (w_env w)\<lparr>e_log := e_log (w_env w) @ [Registered False, Aborted, Opened, Registered True],
      b_alive := ?q # removeAll p (b_alive (w_env w)), b_next := Suc ?q, b_room := b_room (w_env w) - 1\<rparr>\<rparr>)"
  have close: "session_close (tracking_lwip n) (quiet_callback False) (put_self (s\<lparr>s_processing := True\<rparr>) w) = Some (ERR_ABRT, ?w1)"
    using assms by (simp add: session_close_def Let_def touch_def free_block_def log_event_def put_self_def)
  have connect: "session_connect (tracking_lwip n) (quiet_callback False) host port ?w1 = Some (ERR_OK, ?w2)"
    using assms by (simp add: session_connect_def session_connect_ip_def session_init_pcb_def Let_def touch_def answer_def
        new_block_def log_event_def put_self_def)
  have recv: "sc_on_recv (moving_on n host port ok) d (put_self (s\<lparr>s_processing := True\<rparr>) w) = (ok, ?w2)"
    by (simp add: moving_on_def close connect)
  show ?thesis
    using assms recv
    by (cases ok) (auto simp: session_lwip_recv_def Let_def ERR_OK_def ERR_ABRT_def put_self_same touch_def
        session_close_def free_block_def call_on_closed_def moving_on_def quiet_callback_def)
qed

theorem session_reconnect_in_recv_uses_dead_block_witness:
  "\<exists>e w' w. session_lwip_recv (tracking_lwip 4) (moving_on 4 [104] 443 True) 1 (Some [[1]]) ERR_OK w = Some (e, w') \<and>
     \<not> b_misused (w_env w) \<and> b_misused (w_env w')"
proof -
  let ?w = "put_self \<lparr> s_connected = True, s_closing = False, s_processing = False, s_tls = False, s_sentBytes = 0, s_port = 0,
      s_callback = True, s_pcb = Some 1 \<rparr>
    ((bare_world 1)\<lparr>w_env := (w_env (bare_world 1))\<lparr>b_alive := [1], b_next := 2\<rparr>\<rparr>)"
  have "\<exists>e w'. session_lwip_recv (tracking_lwip 4) (moving_on 4 [104] 443 True) 1 (Some [[1]]) ERR_OK ?w = Some (e, w') \<and>
      b_misused (w_env w')"
    by (rule session_reconnect_in_recv_uses_dead_block [where s = "the (w_self ?w)"]) (simp_all add: bare_world_def)
  moreover have "\<not> b_misused (w_env ?w)" by (simp add: bare_world_def)
  ultimately show ?thesis by blast
qed

end
