(* ===== verification/Mqtt_Messages.thy ===== *)
theory Mqtt_Messages
  imports Mqtt_Spec
begin

text \<open>
  The packets of MQTT 3.1.1 as a broker writes them, and their round trip through the decoder:
  each message header parses to its packet and to nothing shorter, so that a stream of messages is
  reported message by message whatever the segmentation.
\<close>

section \<open>Messages as a broker sends them\<close>

fun mqtt_varint :: "nat \<Rightarrow> bytes" where
  "mqtt_varint n = (if n < 128 then [of_nat n] else of_nat (n mod 128 + 128) # mqtt_varint (n div 128))"

declare mqtt_varint.simps [simp del]

datatype broker_message =
    Send_Publish bytes "u16 option" bytes
  | Send_Connack u8 u8
  | Send_Puback u16
  | Send_Suback u16 u8
  | Send_Pingresp

definition mqtt_frame :: "u8 \<Rightarrow> nat \<Rightarrow> bytes \<Rightarrow> bytes" where
  "mqtt_frame type n body = type # mqtt_varint n @ body"

definition bytes16 :: "u16 \<Rightarrow> bytes" where
  "bytes16 x = [hi8 x, lo8 x]"

fun publish_head :: "bytes \<Rightarrow> u16 option \<Rightarrow> bytes" where
  "publish_head topic None = bytes16 (of_nat (length topic)) @ topic"
| "publish_head topic (Some mid) = bytes16 (of_nat (length topic)) @ topic @ bytes16 mid"

fun message_header :: "broker_message \<Rightarrow> bytes" where
  "message_header (Send_Publish topic mid payload) =
     mqtt_frame (if mid = None then 0x30 else 0x32) (length (publish_head topic mid) + length payload)
       (publish_head topic mid)"
| "message_header (Send_Connack flags code) = mqtt_frame 0x20 2 [flags, code]"
| "message_header (Send_Puback i) = mqtt_frame 0x40 2 (bytes16 i)"
| "message_header (Send_Suback i code) = mqtt_frame 0x90 3 (bytes16 i @ [code])"
| "message_header Send_Pingresp = mqtt_frame 0xD0 0 []"

fun message_payload :: "broker_message \<Rightarrow> bytes" where
  "message_payload (Send_Publish topic mid payload) = payload"
| "message_payload _ = []"

fun message_ok :: "broker_message \<Rightarrow> bool" where
  "message_ok (Send_Publish topic mid payload) \<longleftrightarrow>
     length topic \<le> 246 \<and> payload \<noteq> [] \<and> length payload < 2 ^ 28 - 256"
| "message_ok _ \<longleftrightarrow> True"

fun message_packet :: "broker_message \<Rightarrow> mqtt_packet" where
  "message_packet (Send_Publish topic mid payload) =
     Publish topic (case mid of None \<Rightarrow> 0 | Some i \<Rightarrow> i) (length payload)"
| "message_packet (Send_Connack flags code) = Conn_Ack (conn_ack_code_of code) flags"
| "message_packet (Send_Puback i) = Pub_Ack i"
| "message_packet (Send_Suback i code) = Sub_Ack i"
| "message_packet Send_Pingresp = Ping_Resp"

definition message_outputs :: "broker_message \<Rightarrow> mqtt_output list" where
  "message_outputs m = Packet (message_packet m) #
     (if message_payload m = [] then [] else map Payload_Byte (message_payload m) @ [Payload_End])"

definition message_bytes :: "broker_message \<Rightarrow> bytes" where
  "message_bytes m = message_header m @ message_payload m"

lemma varint_parse:
  "n < 128 ^ f \<Longrightarrow> 0 < f \<Longrightarrow> parse_varint f (mqtt_varint n @ rest) = Parsed (n, length (mqtt_varint n))"
proof (induction f arbitrary: n)
  case (Suc f)
  show ?case
  proof (cases "n < 128")
    case True
    then show ?thesis by (simp add: mqtt_varint.simps [of n] unsigned_of_nat take_bit_nat_eq_self)
  next
    case False
    with Suc.prems have f: "0 < f" by (cases f) auto
    have "n div 128 < 128 ^ f" using Suc.prems by (simp add: less_mult_imp_div_less mult.commute)
    from Suc.IH [OF this f] have "parse_varint f (mqtt_varint (n div 128) @ rest) =
        Parsed (n div 128, length (mqtt_varint (n div 128)))" .
    moreover have "unat (of_nat (n mod 128 + 128) :: u8) = n mod 128 + 128"
      by (simp add: unsigned_of_nat take_bit_nat_eq_self del: of_nat_add)
    ultimately show ?thesis using False by (simp add: mqtt_varint.simps [of n] del: of_nat_add)
  qed
qed simp

lemma mqtt_frame_parse:
  assumes "n < 2 ^ 28"
  shows "mqtt_parse (mqtt_frame type n body) = parse_body (mqtt_frame type n body) (length (mqtt_varint n) + 1) n"
  using varint_parse [of n 4 body] assms by (simp add: mqtt_parse_def mqtt_frame_def)

lemma varint_length: "n < 2 ^ 28 \<Longrightarrow> length (mqtt_varint n) \<le> 4"
  using varint_parse [of n 4 "[]"] parse_varint_bounds [of 4 "mqtt_varint n" n "length (mqtt_varint n)"] by simp

lemma frame_nth:
  "mqtt_frame type n body ! 0 = type"
  "mqtt_frame type n body ! (length (mqtt_varint n) + 1 + i) = body ! i"
  by (simp_all add: mqtt_frame_def nth_append)

lemma frame_drop: "drop (length (mqtt_varint n) + 1 + i) (mqtt_frame type n body) = drop i body"
  by (simp add: mqtt_frame_def)

lemma frame_length: "length (mqtt_frame type n body) = length (mqtt_varint n) + 1 + length body"
  by (simp add: mqtt_frame_def)

lemma parse_short_frame:
  assumes "length body = n" and "n < 128" and "least \<le> n"
  shows "parse_short (mqtt_frame type n body) (Suc (length (mqtt_varint n))) n least x =
    Parsed (length (mqtt_frame type n body), x)"
  using assms varint_length [of n] by (simp add: parse_short_def frame_length)

lemma publish_head_nth:
  "publish_head topic mid ! 0 = hi8 (of_nat (length topic))"
  "publish_head topic mid ! 1 = lo8 (of_nat (length topic))"
  by (cases mid; simp add: bytes16_def)+

lemma parse_publish_message:
  fixes mid :: "u16 option"
  assumes body_def: "body = publish_head topic mid" and "length topic \<le> 246" and "length payload < 2 ^ 28 - 256"
    and n: "n = length body + length payload"
    and type: "has_message_id type \<longleftrightarrow> mid \<noteq> None"
  shows "parse_publish (mqtt_frame type n body) (length (mqtt_varint n) + 1) n =
    Parsed (length (mqtt_frame type n body), message_packet (Send_Publish topic mid payload))"
proof -
  let ?p = "mqtt_frame type n body" and ?pos = "length (mqtt_varint n) + 1"
  have lb: "length body = 2 + length topic + (if mid = None then 0 else 2)"
    by (cases mid) (simp_all add: body_def bytes16_def)
  have n28: "n < 2 ^ 28" using assms lb by (auto split: if_splits)
  note v = varint_length [OF n28]
  have hm: "has_message_id (?p ! 0) \<longleftrightarrow> mid \<noteq> None"
    by (simp add: frame_nth type)
  have ts: "topic_size ?p ?pos = length topic"
  proof -
    have "?p ! ?pos = hi8 (of_nat (length topic))"
      using frame_nth(2) [of type n body 0] by (simp only: body_def publish_head_nth add_0_right)
    moreover have "?p ! (?pos + 1) = lo8 (of_nat (length topic))"
      using frame_nth(2) [of type n body 1] by (simp only: body_def publish_head_nth)
    ultimately show ?thesis
      using assms(2) by (simp only: topic_size_def be16_hi8_lo8) (simp add: unsigned_of_nat take_bit_nat_eq_self)
  qed
  have ps: "publish_size ?p ?pos = length ?p"
    unfolding publish_size_def ts hm frame_length lb by simp
  have t: "take (length topic) (drop (?pos + 2) ?p) = topic"
    unfolding frame_drop body_def by (cases mid) (simp_all add: bytes16_def)
  have i: "be16 (?p ! (?pos + 2 + length topic)) (?p ! (?pos + 2 + length topic + 1)) = i" if "mid = Some i" for i
    using frame_nth(2) [of type n body "2 + length topic"] frame_nth(2) [of type n body "2 + length topic + 1"] that
    by (simp add: body_def bytes16_def nth_append add.assoc)
  have rest: "?pos + n - length ?p = length payload" by (simp add: n frame_length)
  have "publish_packet ?p ?pos n = message_packet (Send_Publish topic mid payload)"
    unfolding publish_packet_def ts ps hm rest t using i by (cases mid) simp_all
  moreover have "?pos + 2 + length topic < 256" "length ?p \<le> 256" "length ?p \<le> ?pos + n" "?pos + 2 \<le> length ?p"
    using assms(2) v lb n by (auto simp: frame_length split: if_splits)
  ultimately show ?thesis unfolding parse_publish_def ts ps by simp
qed


text \<open>Every message header parses to its packet, and to nothing shorter.\<close>

lemma message_header_parse:
  assumes "message_ok m"
  shows "mqtt_parse (message_header m) = Parsed (length (message_header m), message_packet m)"
proof (cases m)
  case (Send_Publish topic mid payload)
  let ?body = "publish_head topic mid"
  let ?n = "length ?body + length payload" and ?type = "if mid = None then 0x30 else 0x32 :: u8"
  have ok: "length topic \<le> 246" "length payload < 2 ^ 28 - 256" using assms Send_Publish by simp_all
  have lb: "length ?body \<le> 250" using ok by (cases mid) (simp_all add: bytes16_def)
  then have n: "?n < 2 ^ 28" using ok by simp
  have "parse_body (mqtt_frame ?type ?n ?body) (length (mqtt_varint ?n) + 1) ?n =
      parse_publish (mqtt_frame ?type ?n ?body) (length (mqtt_varint ?n) + 1) ?n"
    by (simp add: parse_body_def frame_nth)
  then show ?thesis
    using parse_publish_message [OF refl ok refl, of ?type] mqtt_frame_parse [OF n] Send_Publish
    by (simp add: has_message_id_def)
next
  case (Send_Connack flags code)
  have "mqtt_parse (mqtt_frame 0x20 2 [flags, code]) =
      parse_short (mqtt_frame 0x20 2 [flags, code]) (length (mqtt_varint 2) + 1) 2 2 (Conn_Ack (conn_ack_code_of code) flags)"
    using frame_nth(2) [of "0x20" 2 "[flags, code]" 0] frame_nth(2) [of "0x20" 2 "[flags, code]" 1]
    by (simp add: mqtt_frame_parse parse_body_def frame_nth)
  then show ?thesis using Send_Connack by (simp add: parse_short_frame)
next
  case (Send_Puback i)
  have "mqtt_parse (mqtt_frame 0x40 2 (bytes16 i)) =
      parse_short (mqtt_frame 0x40 2 (bytes16 i)) (length (mqtt_varint 2) + 1) 2 2 (Pub_Ack i)"
    using frame_nth(2) [of "0x40" 2 "bytes16 i" 0] frame_nth(2) [of "0x40" 2 "bytes16 i" 1]
    by (simp add: mqtt_frame_parse parse_body_def frame_nth bytes16_def)
  then show ?thesis using Send_Puback by (simp add: parse_short_frame bytes16_def)
next
  case (Send_Suback i code)
  have "mqtt_parse (mqtt_frame 0x90 3 (bytes16 i @ [code])) =
      parse_short (mqtt_frame 0x90 3 (bytes16 i @ [code])) (length (mqtt_varint 3) + 1) 3 2 (Sub_Ack i)"
    using frame_nth(2) [of "0x90" 3 "bytes16 i @ [code]" 0] frame_nth(2) [of "0x90" 3 "bytes16 i @ [code]" 1]
    by (simp add: mqtt_frame_parse parse_body_def frame_nth bytes16_def)
  then show ?thesis using Send_Suback by (simp add: parse_short_frame bytes16_def)
next
  case Send_Pingresp
  have "mqtt_parse (mqtt_frame 0xD0 0 []) = parse_short (mqtt_frame 0xD0 0 []) (length (mqtt_varint 0) + 1) 0 0 Ping_Resp"
    by (simp add: mqtt_frame_parse parse_body_def frame_nth)
  then show ?thesis using Send_Pingresp by (simp add: parse_short_frame)
qed

lemma feed_header_parsed:
  assumes p: "mqtt_parse p = Parsed (length p, packet)"
  shows "feed_all mqtt_feed (MHeader []) p = Some (view_after packet, packet_outputs packet)"
proof -
  have ne: "p \<noteq> []" using p by (auto simp: mqtt_parse_def)
  then have bl: "butlast p @ [last p] = p" by simp
  have "mqtt_parse (butlast p) = Incomplete"
  proof (rule ccontr)
    assume a: "\<not> ?thesis"
    with mqtt_parse_append [of "butlast p" "[last p]"] bl p
    have "mqtt_parse (butlast p) = Parsed (length p, packet)" by simp
    have "0 < length p" using ne by simp
    with mqtt_parse_size(1) [OF \<open>mqtt_parse (butlast p) = Parsed (length p, packet)\<close>] show False
      by (simp only: length_butlast)
  qed
  then have b: "feed_all mqtt_feed (MHeader []) (butlast p) = Some (MHeader (butlast p), [])"
    using mqtt_feed_incomplete [of "[]" "butlast p"] by simp
  have "feed_all mqtt_feed (MHeader []) (butlast p @ [last p]) = Some (view_after packet, packet_outputs packet)"
    unfolding feed_all_append_Some [OF b] using p bl by simp
  then show ?thesis using bl by simp
qed

lemma feed_message:
  assumes "message_ok m"
  shows "feed_all mqtt_feed (MHeader []) (message_bytes m) = Some (MHeader [], message_outputs m)"
proof -
  note h = feed_header_parsed [OF message_header_parse [OF assms]]
  show ?thesis
  proof (cases "\<exists>topic mid payload. m = Send_Publish topic mid payload")
    case True
    then obtain topic mid payload where m: "m = Send_Publish topic mid payload" by blast
    with assms have "payload \<noteq> []" by simp
    then have "feed_all mqtt_feed (MData (length payload)) payload = Some (MHeader [], map Payload_Byte payload @ [Payload_End])"
      using mqtt_feed_payload [of payload "length payload"] by simp
    with h m \<open>payload \<noteq> []\<close> show ?thesis
      by (simp add: message_bytes_def message_outputs_def feed_all_append_Some del: message_header.simps)
  next
    case False
    with h show ?thesis
      by (cases m) (simp_all add: message_bytes_def message_outputs_def feed_all_append_Some del: message_header.simps)
  qed
qed

lemma feed_messages:
  "list_all message_ok ms \<Longrightarrow>
   feed_all mqtt_feed (MHeader []) (concat (map message_bytes ms)) = Some (MHeader [], concat (map message_outputs ms))"
  by (induction ms) (simp_all add: feed_all_append_Some feed_message)

section \<open>Properties\<close>

text \<open>C2. For every stream the packet grammar accepts and every way TCP cuts it into segments, the
  decoder accepts each segment and reports exactly the packets and payload bytes of the
  grammar, in order.\<close>

theorem mqtt_stream_refinement:
  assumes "feed_all mqtt_feed (MHeader []) (concat xss) = Some (v, os)"
  shows "\<exists>h es. run_segments mqtt_decode mqtt_receiver_init xss = Some (h, es, True)
           \<and> mqtt_abs h = v \<and> mqtt_flat es = os"
  using mqd.run_segments_accepts [OF mqtt_inv_init, of xss v os] assms by auto

theorem mqtt_stream_refinement_witness:
  "\<exists>h es. run_segments mqtt_decode mqtt_receiver_init [[0x20], [0x02, 0x00, 0x05, 0xD0], [0x00]] = Some (h, es, True)
     \<and> mqtt_abs h = MHeader [] \<and> mqtt_flat es = [Packet (Conn_Ack NOT_AUTHORIZED 0), Packet Ping_Resp]"
  by (rule mqtt_stream_refinement) code_simp



end
