(* ===== verification/Mqtt_Send.thy ===== *)
theory Mqtt_Send
  imports Mqtt_Messages Session_Interface
begin

text \<open>
  The sending half of \<open>MQTTSocketHandler\<close> (\<open>pico_simple_mqtt/mqtt_handler.cpp\<close>):
  \<open>write_header\<close>, \<open>write_string\<close> and the \<open>send_*\<close> operations, with the clock and the
  sender as arguments. Strings are their characters before the terminator, \<^const>\<open>None\<close> for
  a null pointer. An operation returns \<^const>\<open>None\<close> where it writes outside its buffer.
\<close>

section \<open>Data\<close>

record mqtt_transmitter =
  mt_pendingPing :: bool
  mt_keepaliveSeconds :: u8
  mt_messageId :: u16
  mt_lastKeepaliveUs :: u64
  mt_pendingSendDataLen :: u32

definition mqtt_transmitter_init :: mqtt_transmitter where
  "mqtt_transmitter_init =
     \<lparr> mt_pendingPing = False, mt_keepaliveSeconds = 0, mt_messageId = 1,
       mt_lastKeepaliveUs = 0, mt_pendingSendDataLen = 0 \<rparr>"

text \<open>\<open>reset\<close>, on both halves.\<close>

definition mqtt_reset ::
    "u64 \<Rightarrow> mqtt_receiver \<Rightarrow> mqtt_transmitter \<Rightarrow> mqtt_receiver \<times> mqtt_transmitter" where
  "mqtt_reset now h t =
     (mqtt_reset_receiver h,
      t\<lparr>mt_pendingPing := False, mt_messageId := 1, mt_lastKeepaliveUs := now,
        mt_pendingSendDataLen := 0\<rparr>)"

text \<open>The notifications of the session below, passed on upstream; \<open>on_recv\<close> is
  \<^const>\<open>mqtt_on_recv\<close>. A new connection starts with both halves reset.\<close>

definition mqtt_on_sent :: "'w mqtt_socket_interface \<Rightarrow> u16 \<Rightarrow> 'w \<Rightarrow> bool \<times> 'w" where
  "mqtt_on_sent cb len w = on_mqtt_sent cb len w"

definition mqtt_on_closed :: "'w mqtt_socket_interface \<Rightarrow> 'w \<Rightarrow> 'w" where
  "mqtt_on_closed cb w = on_mqtt_closed cb w"

definition mqtt_on_connected ::
    "'w mqtt_socket_interface \<Rightarrow> u64 \<Rightarrow> mqtt_receiver \<Rightarrow> mqtt_transmitter \<Rightarrow> 'w \<Rightarrow>
     mqtt_receiver \<times> mqtt_transmitter \<times> 'w" where
  "mqtt_on_connected cb now h t w =
     (let (h, t) = mqtt_reset now h t in (h, t, on_mqtt_connected cb w))"

section \<open>Writing into the buffer\<close>

text \<open>\<open>buffer[pos++] = b\<close> for each byte.\<close>

fun put_bytes :: "bytes \<Rightarrow> nat \<Rightarrow> bytes \<Rightarrow> (bytes \<times> nat) option" where
  "put_bytes buffer pos [] = Some (buffer, pos)"
| "put_bytes buffer pos (b # bs) = do { buffer' \<leftarrow> mem_write buffer pos b; put_bytes buffer' (pos + 1) bs }"

definition write_string :: "bytes \<Rightarrow> u16 \<Rightarrow> bytes \<Rightarrow> nat \<Rightarrow> (bytes \<times> nat) option" where
  "write_string msg len buffer pos = do {
     (buffer, pos) \<leftarrow> put_bytes buffer pos [hi8 len, lo8 len];
     buffer \<leftarrow> mem_copy buffer pos (take (unat len) msg);
     Some (buffer, pos + unat len)
   }"

text \<open>One more length byte: \<open>if ((message_size >> k) > 0)\<close>.\<close>

definition more_length :: "u32 \<Rightarrow> nat \<Rightarrow> bytes \<times> nat \<Rightarrow> (bytes \<times> nat) option" where
  "more_length message_size k bp =
     (case bp of (buffer, pos) \<Rightarrow>
        if drop_bit k message_size > 0 then do {
          prev \<leftarrow> mem_read buffer (pos - 1);
          buffer \<leftarrow> mem_write buffer (pos - 1) (prev OR 0x80);
          put_bytes buffer pos [ucast (drop_bit k message_size AND 0x7f)]
        } else Some (buffer, pos))"

definition write_header :: "u8 \<Rightarrow> u32 \<Rightarrow> bytes \<Rightarrow> u32 \<Rightarrow> u32 \<Rightarrow> (bytes \<times> nat) option" where
  "write_header message_type message_size buffer buffer_size laterBytes =
     (if message_size - laterBytes + 5 > buffer_size then Some (buffer, 0)
      else if drop_bit 28 message_size > 0 then Some (buffer, 0)
      else do {
        bp \<leftarrow> put_bytes buffer 0 [message_type, ucast (message_size AND 0x7f)];
        bp \<leftarrow> more_length message_size 7 bp;
        bp \<leftarrow> more_length message_size 14 bp;
        more_length message_size 21 bp
      })"

section \<open>The operations\<close>

text \<open>The returned flag, the transmitter and the connection below.\<close>

type_synonym 'd sent = "(bool \<times> mqtt_transmitter \<times> 'd) option"

definition downstream_send :: "'d session_sender \<Rightarrow> bytes \<Rightarrow> nat \<Rightarrow> mqtt_transmitter \<Rightarrow> 'd \<Rightarrow> 'd sent" where
  "downstream_send s buffer pos t d = do {
     packet \<leftarrow> mem_slice buffer 0 pos;
     (case ss_send s packet d of (e, d') \<Rightarrow> Some (bool_of_err e, t, d'))
   }"

definition strlen16 :: "bytes option \<Rightarrow> u16" where
  "strlen16 s = (case s of None \<Rightarrow> 0 | Some cs \<Rightarrow> of_nat (length cs))"

definition field_size :: "u16 \<Rightarrow> nat" where
  "field_size len = (if len > 0 then 2 + unat len else 0)"

definition connect_flags :: "bool \<Rightarrow> bool \<Rightarrow> bool \<Rightarrow> bool \<Rightarrow> u8" where
  "connect_flags clean_session will user pass =
     (let v = (if will then 0x04 OR 0x08 OR 0x20 else 0);
          v = (if clean_session then v OR 0x02 else v) in
      if user then (let v = v OR 0x80 in if pass then v OR 0x40 else v) else v)"

text \<open>The two optional blocks at the end of a CONNECT.\<close>

definition write_will ::
    "bytes option \<Rightarrow> bytes option \<Rightarrow> u16 \<Rightarrow> u16 \<Rightarrow> bytes \<times> nat \<Rightarrow> (bytes \<times> nat) option" where
  "write_will will_topic will_message will_topic_len will_message_len bp =
     (case (will_topic, will_message) of
        (Some topic, Some message) \<Rightarrow> do {
          bp \<leftarrow> write_string topic will_topic_len (fst bp) (snd bp);
          write_string message will_message_len (fst bp) (snd bp)
        }
      | _ \<Rightarrow> Some bp)"

definition write_credentials ::
    "bytes option \<Rightarrow> bytes option \<Rightarrow> u16 \<Rightarrow> u16 \<Rightarrow> bytes \<times> nat \<Rightarrow> (bytes \<times> nat) option" where
  "write_credentials user pass user_len pass_len bp =
     (case user of
        None \<Rightarrow> Some bp
      | Some name \<Rightarrow> do {
          bp \<leftarrow> write_string name user_len (fst bp) (snd bp);
          (case pass of
             None \<Rightarrow> Some bp
           | Some word \<Rightarrow> write_string word pass_len (fst bp) (snd bp))
        })"

definition send_connect ::
    "u64 \<Rightarrow> 'd session_sender \<Rightarrow> bool \<Rightarrow> u8 \<Rightarrow> bytes option \<Rightarrow> bytes option \<Rightarrow> bytes option \<Rightarrow> bytes option \<Rightarrow>
     bytes option \<Rightarrow> mqtt_transmitter \<Rightarrow> 'd \<Rightarrow> 'd sent" where
  "send_connect now s clean_session keepalive_seconds id0 will_topic will_message user pass t d =
     (if mt_pendingSendDataLen t > 0 then Some (False, t, d)
      else
        (let id_len = strlen16 id0;
             will_topic_len = strlen16 will_topic;
             will_message_len = (if will_topic \<noteq> None then strlen16 will_message else 0);
             user_len = strlen16 user;
             pass_len = (if user \<noteq> None then strlen16 pass else 0);
             message_size = 7 + 1 + 2 + field_size id_len + field_size will_topic_len
               + field_size will_message_len + field_size user_len + field_size pass_len in
         if message_size + MQTT_MAX_HEADER_SIZE > MQTT_BUFFER_SIZE then Some (False, t, d)
         else do {
           let size = message_size + MQTT_MAX_HEADER_SIZE;
           (buffer, pos) \<leftarrow> write_header MQTTCONNECT (of_nat message_size) (replicate size 0) (of_nat size) 0;
           if pos = 0 then Some (False, t, d)
           else do {
             (buffer, pos) \<leftarrow> put_bytes buffer pos ([0x00, 0x04] @ ascii ''MQTT'' @ [4]);
             (buffer, pos) \<leftarrow> put_bytes buffer pos
               [connect_flags clean_session (will_topic \<noteq> None) (user \<noteq> None) (pass \<noteq> None),
                drop_bit 8 keepalive_seconds, keepalive_seconds AND 0xFF];
             (case id0 of
                None \<Rightarrow> Some (False, t, d)
              | Some cs \<Rightarrow> do {
                  bp \<leftarrow> write_string cs id_len buffer pos;
                  bp \<leftarrow> write_will will_topic will_message will_topic_len will_message_len bp;
                  bp \<leftarrow> write_credentials user pass user_len pass_len bp;
                  downstream_send s (fst bp) (snd bp)
                    (t\<lparr>mt_messageId := 1, mt_lastKeepaliveUs := now,
                       mt_keepaliveSeconds := keepalive_seconds\<rparr>) d
                })
           }
         }))"

definition next_message_id :: "u16 \<Rightarrow> u16" where
  "next_message_id i = (if i = 0xFFFF then 1 else i + 1)"

definition send_subscribe :: "u64 \<Rightarrow> 'd session_sender \<Rightarrow> bytes \<Rightarrow> mqtt_transmitter \<Rightarrow> 'd \<Rightarrow> 'd sent" where
  "send_subscribe now s topic t d =
     (if mt_pendingSendDataLen t > 0 then Some (False, t, d)
      else
        (let topic_length = (of_nat (length topic) :: u16);
             message_size = 2 + unat topic_length + 2 + 1 in
         if message_size + MQTT_MAX_HEADER_SIZE > MQTT_BUFFER_SIZE then Some (False, t, d)
         else do {
           let size = message_size + MQTT_MAX_HEADER_SIZE;
           (buffer, pos) \<leftarrow> write_header (MQTTSUBSCRIBE OR MQTTQOS1) (of_nat message_size)
             (replicate size 0) (of_nat size) 0;
           if pos = 0 then Some (False, t, d)
           else do {
             (buffer, pos) \<leftarrow> put_bytes buffer pos [hi8 (mt_messageId t), lo8 (mt_messageId t)];
             (buffer, pos) \<leftarrow> write_string topic topic_length buffer pos;
             (buffer, pos) \<leftarrow> put_bytes buffer pos [1];
             downstream_send s buffer pos
               (t\<lparr>mt_messageId := next_message_id (mt_messageId t), mt_lastKeepaliveUs := now\<rparr>) d
           }
         }))"

text \<open>\<open>*out_message_id\<close> is the message id before the call.\<close>

definition send_publish_header ::
    "u64 \<Rightarrow> 'd session_sender \<Rightarrow> bytes \<Rightarrow> u32 \<Rightarrow> mqtt_transmitter \<Rightarrow> 'd \<Rightarrow> 'd sent" where
  "send_publish_header now s topic message_length t d =
     (if mt_pendingSendDataLen t > 0 then Some (False, t, d)
      else
        (let topic_length = (of_nat (length topic) :: u16);
             header_size = 2 + unat topic_length + 2;
             message_size = of_nat header_size + message_length;
             size = header_size + MQTT_MAX_HEADER_SIZE in
         do {
           (buffer, pos) \<leftarrow> write_header (MQTTPUBLISH OR MQTTQOS1 OR MQTTRETAIN) message_size
             (replicate size 0) (of_nat size) message_length;
           if pos = 0 then Some (False, t, d)
           else do {
             (buffer, pos) \<leftarrow> put_bytes buffer pos [hi8 topic_length, lo8 topic_length];
             buffer \<leftarrow> mem_copy buffer pos (take (unat topic_length) topic);
             (buffer, pos) \<leftarrow> put_bytes buffer (pos + unat topic_length)
               [hi8 (mt_messageId t), lo8 (mt_messageId t)];
             downstream_send s buffer pos
               (t\<lparr>mt_pendingSendDataLen := message_length,
                  mt_messageId := next_message_id (mt_messageId t), mt_lastKeepaliveUs := now\<rparr>) d
           }
         }))"

definition send_ping :: "u64 \<Rightarrow> 'd session_sender \<Rightarrow> mqtt_transmitter \<Rightarrow> 'd \<Rightarrow> 'd sent" where
  "send_ping now s t d =
     (if mt_pendingSendDataLen t > 0 then Some (True, t\<lparr>mt_pendingPing := True\<rparr>, d)
      else do {
        (buffer, pos) \<leftarrow> write_header MQTTPINGREQ 0 (replicate MQTT_MAX_HEADER_SIZE 0)
          (of_nat MQTT_BUFFER_SIZE) 0;
        downstream_send s buffer pos (t\<lparr>mt_pendingPing := False, mt_lastKeepaliveUs := now\<rparr>) d
      })"

definition send_publish_data :: "u64 \<Rightarrow> 'd session_sender \<Rightarrow> bytes \<Rightarrow> mqtt_transmitter \<Rightarrow> 'd \<Rightarrow> 'd sent" where
  "send_publish_data now s data t d =
     (if unat (mt_pendingSendDataLen t) < length data then Some (False, t, d)
      else
        (let t' = t\<lparr>mt_pendingSendDataLen := mt_pendingSendDataLen t - of_nat (length data)\<rparr> in
         case ss_send s data d of
           (e, d') \<Rightarrow>
             if \<not> bool_of_err e then Some (False, t', d')
             else if mt_pendingSendDataLen t' = 0 \<and> mt_pendingPing t' then send_ping now s t' d'
             else Some (True, t', d')))"

text \<open>\<open>update\<close>, called from the main loop; no downstream is \<^const>\<open>None\<close>.\<close>

definition mqtt_update ::
    "u64 \<Rightarrow> u64 \<Rightarrow> 'd session_sender option \<Rightarrow> mqtt_transmitter \<Rightarrow> 'd \<Rightarrow> 'd sent" where
  "mqtt_update now_us now downstream t d =
     (case downstream of
        None \<Rightarrow> Some (True, t, d)
      | Some s \<Rightarrow>
          if ss_is_connected s d then
            (let seconds = (ucast ((now_us - mt_lastKeepaliveUs t) div 1000000) :: u32) in
             if seconds > ucast (mt_keepaliveSeconds t) then do {
               (ok, t', d') \<leftarrow> send_ping now s (t\<lparr>mt_lastKeepaliveUs := now\<rparr>) d;
               Some (True, t', d')
             } else Some (True, t, d))
          else Some (True, t, d))"

end
