(* ===== verification/Mqtt_Send_Spec.thy ===== *)
theory Mqtt_Send_Spec
  imports Mqtt_Send
begin

text \<open>
  The packets the \<open>send_*\<close> operations put on the wire: what is written into the send
  buffer, byte by byte, that it stays inside the buffer, and that the result is the MQTT packet it
  is meant to be.
\<close>


section \<open>What has been written so far\<close>

definition written :: "nat \<Rightarrow> bytes \<Rightarrow> bytes \<times> nat \<Rightarrow> bool" where
  "written n q bp \<longleftrightarrow> length (fst bp) = n \<and> snd bp = length q \<and> length q \<le> n \<and> take (length q) (fst bp) = q"

lemma written_start: "length buffer = n \<Longrightarrow> written n [] (buffer, 0)"
  by (simp add: written_def)

lemma written_write:
  assumes "written n q (buffer, pos)" and "length q < n"
  shows "mem_write buffer pos b = Some (buffer[pos := b])" and "written n (q @ [b]) (buffer[pos := b], pos + 1)"
  using assms by (simp_all add: written_def mem_write_def take_Suc_conv_app_nth)

lemma put_bytes_written:
  assumes "written n q (buffer, pos)" and "length q + length bs \<le> n"
  obtains buffer' where "put_bytes buffer pos bs = Some (buffer', pos + length bs)"
    and "written n (q @ bs) (buffer', pos + length bs)"
proof -
  have "\<exists>buffer'. put_bytes buffer pos bs = Some (buffer', pos + length bs) \<and> written n (q @ bs) (buffer', pos + length bs)"
    using assms
  proof (induction bs arbitrary: q buffer pos)
    case (Cons b bs)
    then have w: "mem_write buffer pos b = Some (buffer[pos := b])"
      "written n (q @ [b]) (buffer[pos := b], pos + 1)"
      using written_write [of n q buffer pos b] by simp_all
    from Cons.IH [OF w(2)] Cons.prems(2) w(1) show ?case by simp
  qed simp
  then show thesis using that by blast
qed

lemma mem_copy_written:
  assumes "written n q (buffer, pos)" and "length q + length bs \<le> n"
  obtains buffer' where "mem_copy buffer pos bs = Some buffer'" and "written n (q @ bs) (buffer', pos + length bs)"
proof -
  have l: "pos + length bs \<le> length buffer" using assms by (simp add: written_def)
  with assms take_blit [OF l] length_blit [OF l] have "written n (q @ bs) (blit buffer pos bs, pos + length bs)"
    by (simp add: written_def)
  with mem_copy_Some [OF l] show thesis using that by blast
qed

lemma write_string_written:
  assumes "written n q (buffer, pos)" and "length q + 2 + length msg \<le> n" and "length msg < 65536"
  obtains buffer' where "write_string msg (of_nat (length msg)) buffer pos = Some (buffer', pos + 2 + length msg)"
    and "written n (q @ bytes16 (of_nat (length msg)) @ msg) (buffer', pos + 2 + length msg)"
proof -
  let ?l = "of_nat (length msg) :: u16"
  have u: "unat ?l = length msg" using assms(3) by (simp add: unsigned_of_nat take_bit_nat_eq_self)
  from assms(2) have "length q + length [hi8 ?l, lo8 ?l] \<le> n" by simp
  from put_bytes_written [OF assms(1) this] obtain b1 where
    1: "put_bytes buffer pos [hi8 ?l, lo8 ?l] = Some (b1, pos + 2)" "written n (q @ bytes16 ?l) (b1, pos + 2)"
    by (auto simp: bytes16_def)
  from assms(2) have "length (q @ bytes16 ?l) + length msg \<le> n" by (simp add: bytes16_def)
  from mem_copy_written [OF 1(2) this] obtain b2 where
    "mem_copy b1 (pos + 2) msg = Some b2" "written n ((q @ bytes16 ?l) @ msg) (b2, pos + 2 + length msg)" .
  with 1 u that [of b2] show thesis by (simp add: write_string_def)
qed

lemma downstream_send_written:
  assumes "written n q (buffer, pos)" and "ss_send s q d = (e, d')"
  shows "downstream_send s buffer pos t d = Some (bool_of_err e, t, d')"
  using assms by (simp add: downstream_send_def written_def mem_slice_def)

section \<open>The fixed header\<close>

lemma length_byte: "(ucast ((x :: u32) AND 0x7f) :: u8) = of_nat (unat x mod 128)"
proof -
  have m: "x AND 0x7f = take_bit 7 x" by (simp add: take_bit_eq_mask mask_eq_exp_minus_1)
  have "unat (ucast (take_bit 7 x) :: u8) = unat x mod 128"
    by (simp only: unsigned_ucast_eq unsigned_take_bit_eq) (simp add: take_bit_eq_mod mod_mod_cancel)
  moreover have "unat (of_nat (unat x mod 128) :: u8) = unat x mod 128"
    by (simp add: unsigned_of_nat take_bit_nat_eq_self order_less_le_trans [of _ 128])
  ultimately show ?thesis by (simp only: word_unat_eq_iff m)
qed

lemma or_0x80:
  assumes "k < 128" shows "(of_nat k OR 0x80 :: u8) = of_nat (k + 128)"
proof -
  have "(of_nat k :: u8) AND 0x80 = 0"
    using len_byte_7(3) [of "of_nat k"] assms by (simp add: word_less_nat_alt unsigned_of_nat take_bit_nat_eq_self)
  then have "(of_nat k :: u8) OR 0x80 = of_nat k + 0x80" by (simp add: disjunctive_add_eq_or)
  then show ?thesis by simp
qed

lemma unat_drop_bit_u32: "unat (drop_bit k (x :: u32)) = unat x div 2 ^ k"
  by (simp only: unat_drop_bit_eq) (simp add: drop_bit_eq_div)

lemma drop_bit_pos: "drop_bit k (x :: u32) > 0 \<longleftrightarrow> 2 ^ k \<le> unat x"
proof -
  have "drop_bit k x > 0 \<longleftrightarrow> 0 < unat (drop_bit k x)" by (simp add: word_less_nat_alt)
  then show ?thesis by (simp add: unat_drop_bit_u32 div_greater_zero_iff)
qed

text \<open>The remaining length as \<open>write_header\<close> builds it: with the continuation bit set on the
  last byte whenever another one follows.\<close>

lemma more_length_written:
  assumes "written n (q @ [b]) bp" and "length q + 2 \<le> n"
  obtains bp' where "more_length sz k bp = Some bp'"
    and "written n (if 2 ^ k \<le> unat sz then q @ [b OR 0x80, of_nat (unat sz div 2 ^ k mod 128)] else q @ [b]) bp'"
proof (cases "2 ^ k \<le> unat sz")
  case False
  then show thesis using that [of bp] assms drop_bit_pos [of k sz] by (cases bp) (simp add: more_length_def)
next
  case True
  obtain buffer pos where bp: "bp = (buffer, pos)" by (cases bp)
  have p: "pos = length q + 1" "length buffer = n" "take (length q + 1) buffer = q @ [b]"
    using assms by (simp_all add: bp written_def)
  have bq: "buffer ! length q = b"
  proof -
    have "take (length q + 1) buffer ! length q = b" unfolding p(3) by simp
    then show ?thesis by simp
  qed
  have tq: "take (length q) buffer = q"
  proof -
    have "take (length q) (take (length q + 1) buffer) = q" unfolding p(3) by simp
    then show ?thesis by (simp add: min_def)
  qed
  have w0: "written n q (buffer, length q)" using assms(2) p tq by (simp add: written_def)
  note w1 = written_write [OF w0, of "b OR 0x80"]
  have w2: "written n (q @ [b OR 0x80]) (buffer[length q := b OR 0x80], length q + 1)"
    using w1(2) assms(2) by simp
  from put_bytes_written [OF w2, of "[ucast (drop_bit k sz AND 0x7f)]"] assms(2) obtain b3 where
    "put_bytes (buffer[length q := b OR 0x80]) (length q + 1) [ucast (drop_bit k sz AND 0x7f)] = Some (b3, length q + 2)"
    "written n (q @ [b OR 0x80, ucast (drop_bit k sz AND 0x7f)]) (b3, length q + 2)"
    by auto
  moreover have "mem_read buffer (pos - 1) = Some b" using p assms(2) bq by (simp add: mem_read_def)
  moreover have "mem_write buffer (pos - 1) (b OR 0x80) = Some (buffer[length q := b OR 0x80])"
    using p assms(2) by (simp add: mem_write_def)
  ultimately show thesis
    using that [of "(b3, length q + 2)"] True p drop_bit_pos [of k sz]
    by (simp add: more_length_def bp length_byte unat_drop_bit_u32)
qed

lemma varint_bytes:
  assumes "n < 2 ^ 28"
  shows "mqtt_varint n =
    (let b = \<lambda>k. of_nat (n div 2 ^ k mod 128) :: u8 in
     if n < 2 ^ 7 then [b 0] else if n < 2 ^ 14 then [b 0 OR 0x80, b 7]
     else if n < 2 ^ 21 then [b 0 OR 0x80, b 7 OR 0x80, b 14]
     else [b 0 OR 0x80, b 7 OR 0x80, b 14 OR 0x80, b 21])"
proof -
  have d: "n div 128 div 128 = n div 16384" "n div 16384 div 128 = n div 2097152"
    by (simp_all add: div_mult2_eq [symmetric])
  consider "n < 128" | "128 \<le> n" "n < 16384" | "16384 \<le> n" "n < 2097152" | "2097152 \<le> n" by linarith
  then show ?thesis
  proof cases
    case 1
    then show ?thesis by (simp add: mqtt_varint.simps [of n])
  next
    case 2
    then have "n div 128 < 128" by (simp add: less_mult_imp_div_less)
    with 2 show ?thesis
      by (simp add: mqtt_varint.simps [of n] mqtt_varint.simps [of "n div 128"] or_0x80 del: of_nat_add)
  next
    case 3
    then have "\<not> n div 128 < 128" "n div 16384 < 128"
      by (simp_all add: less_mult_imp_div_less not_less less_eq_div_iff_mult_less_eq)
    with 3 show ?thesis
      by (simp add: mqtt_varint.simps [of n] mqtt_varint.simps [of "n div 128"]
          mqtt_varint.simps [of "n div 16384"] d or_0x80 del: of_nat_add)
  next
    case 4
    then have "\<not> n div 128 < 128" "\<not> n div 16384 < 128" "n div 2097152 < 128"
      using assms by (simp_all add: less_mult_imp_div_less not_less less_eq_div_iff_mult_less_eq)
    with 4 show ?thesis
      by (simp add: mqtt_varint.simps [of n] mqtt_varint.simps [of "n div 128"]
          mqtt_varint.simps [of "n div 16384"] mqtt_varint.simps [of "n div 2097152"] d or_0x80 del: of_nat_add)
  qed
qed

lemma write_header_written:
  assumes "length buffer = n" and "5 \<le> n" and "unat message_size < 2 ^ 28"
    and "\<not> message_size - laterBytes + 5 > buffer_size"
  obtains buffer' pos where "write_header type message_size buffer buffer_size laterBytes = Some (buffer', pos)"
    and "written n (type # mqtt_varint (unat message_size)) (buffer', pos)" and "pos > 0"
proof -
  let ?m = "unat message_size"
  let ?b = "\<lambda>k. of_nat (?m div 2 ^ k mod 128) :: u8"
  have d28: "\<not> drop_bit 28 message_size > 0" using assms(3) drop_bit_pos [of 28 message_size] by simp
  have w: "written n [] (buffer, 0)" using assms(1) by (rule written_start)
  have "length [] + length [type, ucast (message_size AND 0x7f)] \<le> n" using assms(2) by simp
  from put_bytes_written [OF w this] obtain b1 where
    b1: "put_bytes buffer 0 [type, ucast (message_size AND 0x7f)] = Some (b1, 0 + length [type, ucast (message_size AND 0x7f)])"
    "written n ([] @ [type, ucast (message_size AND 0x7f)]) (b1, 0 + length [type, ucast (message_size AND 0x7f)])" .
  have 1: "put_bytes buffer 0 [type, ucast (message_size AND 0x7f)] = Some (b1, 2)"
    "written n ([type] @ [?b 0]) (b1, 2)" using b1 by (simp_all add: length_byte numeral_2_eq_2)
  have "length [type] + 2 \<le> n" using assms(2) by simp
  then obtain bp2 where 2: "more_length message_size 7 (b1, 2) = Some bp2"
    "written n (if 2 ^ 7 \<le> ?m then [type] @ [?b 0 OR 0x80, ?b 7] else [type] @ [?b 0]) bp2"
    by (rule more_length_written [OF 1(2)])
  define q2 where "q2 = (if 2 ^ 7 \<le> ?m then [type, ?b 0 OR 0x80] else [type])"
  define l2 where "l2 = (if 2 ^ 7 \<le> ?m then ?b 7 else ?b 0)"
  have w2: "written n (q2 @ [l2]) bp2" using 2(2) by (simp add: q2_def l2_def split: if_splits)
  have "length q2 + 2 \<le> n" using assms(2) by (simp add: q2_def)
  then obtain bp3 where 3: "more_length message_size 14 bp2 = Some bp3"
    "written n (if 2 ^ 14 \<le> ?m then q2 @ [l2 OR 0x80, ?b 14] else q2 @ [l2]) bp3"
    by (rule more_length_written [OF w2])
  define q3 where "q3 = (if 2 ^ 14 \<le> ?m then q2 @ [l2 OR 0x80] else q2)"
  define l3 where "l3 = (if 2 ^ 14 \<le> ?m then ?b 14 else l2)"
  have w3: "written n (q3 @ [l3]) bp3" using 3(2) by (simp add: q3_def l3_def split: if_splits)
  have "length q3 + 2 \<le> n" using assms(2) by (simp add: q2_def q3_def)
  then obtain bp4 where 4: "more_length message_size 21 bp3 = Some bp4"
    "written n (if 2 ^ 21 \<le> ?m then q3 @ [l3 OR 0x80, ?b 21] else q3 @ [l3]) bp4"
    by (rule more_length_written [OF w3])
  have "(if 2 ^ 21 \<le> ?m then q3 @ [l3 OR 0x80, ?b 21] else q3 @ [l3]) = type # mqtt_varint ?m"
    using assms(3) by (simp add: varint_bytes q2_def l2_def q3_def l3_def Let_def)
  with 4(2) have w4: "written n (type # mqtt_varint ?m) (fst bp4, snd bp4)" by simp
  have "write_header type message_size buffer buffer_size laterBytes = Some (fst bp4, snd bp4)"
    using 1(1) 2(1) 3(1) 4(1) assms(4) d28 by (simp add: write_header_def)
  moreover have "snd bp4 > 0" using w4 by (simp add: written_def)
  ultimately show thesis using that w4 by blast
qed

section \<open>The packets\<close>

definition mqtt_string :: "bytes \<Rightarrow> bytes" where
  "mqtt_string cs = bytes16 (of_nat (length cs)) @ cs"

lemma length_mqtt_string [simp]: "length (mqtt_string cs) = 2 + length cs"
  by (simp add: mqtt_string_def bytes16_def)

lemma write_string_field:
  assumes "written n q bp" and "length q + length (mqtt_string msg) \<le> n" and "length msg < 65536"
  obtains bp' where "write_string msg (of_nat (length msg)) (fst bp) (snd bp) = Some bp'"
    and "written n (q @ mqtt_string msg) bp'"
proof -
  from assms(1) have "written n q (fst bp, snd bp)" by simp
  moreover have "length q + 2 + length msg \<le> n" using assms(2) by simp
  ultimately show thesis using that assms(3) write_string_written [of n q "fst bp" "snd bp" msg]
    by (metis mqtt_string_def)
qed

definition subscribe_packet :: "u16 \<Rightarrow> bytes \<Rightarrow> bytes" where
  "subscribe_packet i topic = (let body = bytes16 i @ mqtt_string topic @ [1] in mqtt_frame 0x82 (length body) body)"

definition publish_header_packet :: "u16 \<Rightarrow> bytes \<Rightarrow> nat \<Rightarrow> bytes" where
  "publish_header_packet i topic len =
     (let body = mqtt_string topic @ bytes16 i in mqtt_frame 0x33 (length body + len) body)"

lemma write_header_fits:
  assumes "length buffer = n" and "5 \<le> n" and "m < 2 ^ 28" and "r \<le> m" and "m - r + 5 \<le> N" and "N < 2 ^ 32"
  obtains b pos where "write_header type (of_nat m) buffer (of_nat N) (of_nat r) = Some (b, pos)"
    and "written n (type # mqtt_varint m) (b, pos)" and "pos > 0"
proof -
  have u: "unat (of_nat m :: u32) = m" using assms(3) by (simp add: unsigned_of_nat take_bit_nat_eq_self)
  have e: "(of_nat m - of_nat r + 5 :: u32) = of_nat (m - r + 5)" using assms(4) by (simp add: of_nat_diff)
  have "unat (of_nat (m - r + 5) :: u32) = m - r + 5" "unat (of_nat N :: u32) = N"
    using assms(5,6) by (simp_all add: unsigned_of_nat take_bit_nat_eq_self del: of_nat_add of_nat_diff)
  then have "\<not> (of_nat m - of_nat r + 5 > (of_nat N :: u32))"
    using assms(5) unfolding e word_less_nat_alt by simp
  from write_header_written [OF assms(1,2) _ this, of type] u assms(3) show thesis using that by auto
qed

lemma send_ping_sends:
  assumes "mt_pendingSendDataLen t = 0" and "ss_send s [0xC0, 0x00] d = (e, d')"
  shows "send_ping now s t d =
    Some (bool_of_err e, t\<lparr>mt_pendingPing := False, mt_lastKeepaliveUs := now\<rparr>, d')"
proof -
  obtain b pos where w: "write_header MQTTPINGREQ (of_nat 0) (replicate MQTT_MAX_HEADER_SIZE 0) (of_nat MQTT_BUFFER_SIZE) (of_nat 0) = Some (b, pos)"
    "written 5 (0xC0 # mqtt_varint 0) (b, pos)"
    by (rule write_header_fits [of "replicate MQTT_MAX_HEADER_SIZE 0" 5 0 0 MQTT_BUFFER_SIZE MQTTPINGREQ])
      (simp_all add: MQTT_BUFFER_SIZE_def MQTT_MAX_HEADER_SIZE_def)
  have "written 5 [0xC0, 0x00] (b, pos)" using w(2) by (simp add: mqtt_varint.simps)
  from downstream_send_written [OF this assms(2)] assms(1) w(1) show ?thesis by (simp add: send_ping_def)
qed

lemma send_subscribe_sends:
  assumes "mt_pendingSendDataLen t = 0" and "length topic \<le> 246"
    and "ss_send s (subscribe_packet (mt_messageId t) topic) d = (e, d')"
  shows "send_subscribe now s topic t d = Some (bool_of_err e,
           t\<lparr>mt_messageId := next_message_id (mt_messageId t), mt_lastKeepaliveUs := now\<rparr>, d')"
proof -
  let ?l = "length topic" and ?i = "mt_messageId t"
  let ?m = "2 + ?l + 2 + 1"
  let ?n = "?m + 5"
  let ?h = "0x82 # mqtt_varint ?m"
  have u: "unat (of_nat ?l :: u16) = ?l" using assms(2) by (simp add: unsigned_of_nat take_bit_nat_eq_self)
  have v: "length (mqtt_varint ?m) \<le> 4" using assms(2) by (intro varint_length) simp
  obtain b1 p1 where 1: "write_header 0x82 (of_nat ?m) (replicate ?n 0) (of_nat ?n) (of_nat 0) = Some (b1, p1)"
    "written ?n ?h (b1, p1)" "p1 > 0"
    by (rule write_header_fits [of "replicate ?n 0" ?n ?m 0 ?n "0x82"]) (use assms(2) in auto)
  have "length ?h + length [hi8 ?i, lo8 ?i] \<le> ?n" using v by simp
  from put_bytes_written [OF 1(2) this] obtain b2 p2 where 2: "put_bytes b1 p1 [hi8 ?i, lo8 ?i] = Some (b2, p2)"
    "written ?n (?h @ bytes16 ?i) (b2, p2)" by (metis bytes16_def)
  have "length (?h @ bytes16 ?i) + length (mqtt_string topic) \<le> ?n" "?l < 65536"
    using v assms(2) by (simp_all add: bytes16_def)
  from write_string_field [OF 2(2) this] obtain b3 p3 where 3: "write_string topic (of_nat ?l) b2 p2 = Some (b3, p3)"
    "written ?n ((?h @ bytes16 ?i) @ mqtt_string topic) (b3, p3)" by auto
  have "length ((?h @ bytes16 ?i) @ mqtt_string topic) + length [1 :: u8] \<le> ?n" using v by (simp add: bytes16_def)
  from put_bytes_written [OF 3(2) this] obtain b4 p4 where 4: "put_bytes b3 p3 [1] = Some (b4, p4)"
    "written ?n (((?h @ bytes16 ?i) @ mqtt_string topic) @ [1]) (b4, p4)" by metis
  have "((?h @ bytes16 ?i) @ mqtt_string topic) @ [1] = subscribe_packet ?i topic"
    by (simp add: subscribe_packet_def mqtt_frame_def bytes16_def add.commute)
  with 4(2) assms(3) have "downstream_send s b4 p4 t' d = Some (bool_of_err e, t', d')" for t'
    by (simp add: downstream_send_written)
  then show ?thesis
    using assms(1,2) u 1(1,3) 2(1) 3(1) 4(1)
    by (simp add: send_subscribe_def MQTT_MAX_HEADER_SIZE_def MQTT_BUFFER_SIZE_def Let_def del: of_nat_add put_bytes.simps split: prod.splits)
qed

lemma send_publish_header_sends:
  assumes "mt_pendingSendDataLen t = 0" and "length topic < 65536" and "4 + length topic + unat len < 2 ^ 28"
    and "ss_send s (publish_header_packet (mt_messageId t) topic (unat len)) d = (e, d')"
  shows "send_publish_header now s topic len t d = Some (bool_of_err e,
           t\<lparr>mt_pendingSendDataLen := len, mt_messageId := next_message_id (mt_messageId t),
             mt_lastKeepaliveUs := now\<rparr>, d')"
proof -
  let ?l = "length topic" and ?i = "mt_messageId t"
  let ?k = "2 + ?l + 2"
  let ?m = "?k + unat len" and ?n = "?k + 5"
  let ?h = "0x33 # mqtt_varint ?m"
  define tl where "tl = (of_nat ?l :: u16)"
  have u: "unat tl = ?l" using assms(2) by (simp add: tl_def unsigned_of_nat take_bit_nat_eq_self)
  have v: "length (mqtt_varint ?m) \<le> 4" using assms(3) by (intro varint_length) simp
  obtain b1 p1 where 1: "write_header 0x33 (of_nat ?m) (replicate ?n 0) (of_nat ?n) (of_nat (unat len)) = Some (b1, p1)"
    "written ?n ?h (b1, p1)" "p1 > 0"
    by (rule write_header_fits [of "replicate ?n 0" ?n ?m "unat len" ?n "0x33"]) (use assms(2,3) in auto)
  have m: "of_nat ?k + len = of_nat ?m" by simp
  have q: "MQTTPUBLISH OR MQTTQOS1 OR MQTTRETAIN = (0x33 :: u8)" by simp
  have "length ?h + length [hi8 tl, lo8 tl] \<le> ?n" using v by simp
  from put_bytes_written [OF 1(2) this] obtain b2 p2 where 2: "put_bytes b1 p1 [hi8 tl, lo8 tl] = Some (b2, p2)"
    "written ?n (?h @ bytes16 tl) (b2, p2)" by (metis bytes16_def)
  have "length (?h @ bytes16 tl) + length topic \<le> ?n" using v by (simp add: bytes16_def)
  from mem_copy_written [OF 2(2) this] obtain b3 where 3: "mem_copy b2 p2 topic = Some b3"
    "written ?n ((?h @ bytes16 tl) @ topic) (b3, p2 + ?l)" .
  have "length ((?h @ bytes16 tl) @ topic) + length [hi8 ?i, lo8 ?i] \<le> ?n" using v by (simp add: bytes16_def)
  from put_bytes_written [OF 3(2) this] obtain b4 p4 where 4: "put_bytes b3 (p2 + ?l) [hi8 ?i, lo8 ?i] = Some (b4, p4)"
    "written ?n (((?h @ bytes16 tl) @ topic) @ bytes16 ?i) (b4, p4)" by (metis bytes16_def)
  have "((?h @ bytes16 tl) @ topic) @ bytes16 ?i = publish_header_packet ?i topic (unat len)"
    by (simp add: publish_header_packet_def mqtt_frame_def bytes16_def mqtt_string_def add.commute tl_def)
  with 4(2) assms(4) have "downstream_send s b4 p4 t' d = Some (bool_of_err e, t', d')" for t'
    by (simp add: downstream_send_written)
  then show ?thesis
    unfolding send_publish_header_def MQTT_MAX_HEADER_SIZE_def Let_def tl_def [symmetric] u m q
    using assms(1) 1(1,3) 2(1) 3(1) 4(1) by (simp del: of_nat_add put_bytes.simps)
qed

section \<open>CONNECT\<close>

definition opt_field :: "bytes option \<Rightarrow> bytes" where
  "opt_field f = (case f of None \<Rightarrow> [] | Some cs \<Rightarrow> mqtt_string cs)"

definition connect_body ::
    "bool \<Rightarrow> u8 \<Rightarrow> bytes \<Rightarrow> bytes option \<Rightarrow> bytes option \<Rightarrow> bytes option \<Rightarrow> bytes option \<Rightarrow> bytes" where
  "connect_body clean_session keepalive cid will_topic will_message user pass =
     mqtt_string (ascii ''MQTT'') @ [4, connect_flags clean_session (will_topic \<noteq> None) (user \<noteq> None) (pass \<noteq> None), 0, keepalive]
     @ mqtt_string cid @ opt_field will_topic @ opt_field will_message @ opt_field user @ opt_field pass"

text \<open>The arguments \<open>send_connect\<close> is written for: strings are not empty, a will has a
  topic and a message, a password comes with a user name.\<close>

definition connect_args_ok :: "bytes \<Rightarrow> bytes option \<Rightarrow> bytes option \<Rightarrow> bytes option \<Rightarrow> bytes option \<Rightarrow> bool" where
  "connect_args_ok cid will_topic will_message user pass \<longleftrightarrow>
     cid \<noteq> [] \<and> will_topic \<noteq> Some [] \<and> will_message \<noteq> Some [] \<and> user \<noteq> Some [] \<and> pass \<noteq> Some []
     \<and> (will_topic = None \<longleftrightarrow> will_message = None) \<and> (user = None \<longrightarrow> pass = None)"

lemma field_size_opt:
  assumes "f \<noteq> Some []" and "length (opt_field f) < 65536"
  shows "field_size (strlen16 f) = length (opt_field f)"
    and "f = Some cs \<Longrightarrow> strlen16 f = of_nat (length cs) \<and> length cs < 65536"
  using assms
  by (cases f; force simp: field_size_def strlen16_def opt_field_def word_less_nat_alt unsigned_of_nat take_bit_nat_eq_self)+

lemma write_opt_field:
  assumes "written n q bp" and "length q + length (opt_field f) \<le> n" and "length (opt_field f) < 65536"
  obtains bp' where "(case f of None \<Rightarrow> Some bp | Some cs \<Rightarrow> write_string cs (strlen16 f) (fst bp) (snd bp)) = Some bp'"
    and "written n (q @ opt_field f) bp'"
proof (cases f)
  case None
  then show ?thesis using that [of bp] assms by (simp add: opt_field_def)
next
  case (Some cs)
  with assms(2,3) have "length q + length (mqtt_string cs) \<le> n" "length cs < 65536" by (simp_all add: opt_field_def)
  from write_string_field [OF assms(1) this] obtain bp' where
    "write_string cs (of_nat (length cs)) (fst bp) (snd bp) = Some bp'" "written n (q @ mqtt_string cs) bp'" .
  with that [of bp'] Some show ?thesis by (simp add: opt_field_def strlen16_def)
qed

lemma write_will_written:
  assumes "written n q bp" and "length q + length (opt_field wt) + length (opt_field wm) \<le> n" and "n < 65536"
    and "wt = None \<longleftrightarrow> wm = None"
  obtains bp' where "write_will wt wm (strlen16 wt) (if wt \<noteq> None then strlen16 wm else 0) bp = Some bp'"
    and "written n (q @ opt_field wt @ opt_field wm) bp'"
proof -
  obtain bp1 where 1: "(case wt of None \<Rightarrow> Some bp | Some cs \<Rightarrow> write_string cs (strlen16 wt) (fst bp) (snd bp)) = Some bp1"
    "written n (q @ opt_field wt) bp1"
    by (rule write_opt_field [OF assms(1), of wt]) (use assms(2,3) in auto)
  obtain bp2 where 2: "(case wm of None \<Rightarrow> Some bp1 | Some cs \<Rightarrow> write_string cs (strlen16 wm) (fst bp1) (snd bp1)) = Some bp2"
    "written n ((q @ opt_field wt) @ opt_field wm) bp2"
    by (rule write_opt_field [OF 1(2), of wm]) (use assms(2,3) in auto)
  from 1(1) 2 assms(4) that [of bp2] show thesis
    by (cases wt; cases wm) (auto simp: write_will_def)
qed

lemma write_credentials_written:
  assumes "written n q bp" and "length q + length (opt_field user) + length (opt_field pass) \<le> n" and "n < 65536"
    and "user = None \<longrightarrow> pass = None"
  obtains bp' where "write_credentials user pass (strlen16 user) (if user \<noteq> None then strlen16 pass else 0) bp = Some bp'"
    and "written n (q @ opt_field user @ opt_field pass) bp'"
proof -
  obtain bp1 where 1: "(case user of None \<Rightarrow> Some bp | Some cs \<Rightarrow> write_string cs (strlen16 user) (fst bp) (snd bp)) = Some bp1"
    "written n (q @ opt_field user) bp1"
    by (rule write_opt_field [OF assms(1), of user]) (use assms(2,3) in auto)
  obtain bp2 where 2: "(case pass of None \<Rightarrow> Some bp1 | Some cs \<Rightarrow> write_string cs (strlen16 pass) (fst bp1) (snd bp1)) = Some bp2"
    "written n ((q @ opt_field user) @ opt_field pass) bp2"
    by (rule write_opt_field [OF 1(2), of pass]) (use assms(2,3) in auto)
  from 1(1) 2 assms(4) that [of bp2] show thesis
    by (cases user; cases pass) (auto simp: write_credentials_def)
qed

lemma u8_drop_8: "drop_bit 8 (x :: u8) = 0"
  by (rule word_unat_eq_iff [THEN iffD2])
    (use unat_u8_less [of x] in \<open>simp only: unat_drop_bit_eq, simp add: drop_bit_eq_div\<close>)

text \<open>The sizes \<open>send_connect\<close> adds up are the size of the body.\<close>

lemma connect_size:
  assumes ok: "connect_args_ok cid wt wm user pass"
    and len: "length (connect_body clean keepalive cid wt wm user pass) < 65536"
  shows "7 + 1 + 2 + field_size (strlen16 (Some cid)) + field_size (strlen16 wt)
      + field_size (if wt \<noteq> None then strlen16 wm else 0) + field_size (strlen16 user)
      + field_size (if user \<noteq> None then strlen16 pass else 0)
    = length (connect_body clean keepalive cid wt wm user pass)"
proof -
  have l: "length (opt_field wt) < 65536" "length (opt_field wm) < 65536" "length (opt_field user) < 65536"
    "length (opt_field pass) < 65536" "length (opt_field (Some cid)) < 65536"
    using len by (simp_all add: connect_body_def opt_field_def [of "Some cid"])
  have z: "field_size (strlen16 None) = 0" "field_size 0 = 0" by (simp_all add: field_size_def strlen16_def)
  have "field_size (if wt \<noteq> None then strlen16 wm else 0) = length (opt_field wm)"
    using ok field_size_opt(1) [OF _ l(2)] by (auto simp: connect_args_ok_def z opt_field_def)
  moreover have "field_size (if user \<noteq> None then strlen16 pass else 0) = length (opt_field pass)"
    using ok field_size_opt(1) [OF _ l(4)] by (auto simp: connect_args_ok_def z opt_field_def)
  moreover have "field_size (strlen16 wt) = length (opt_field wt)" "field_size (strlen16 user) = length (opt_field user)"
    "field_size (strlen16 (Some cid)) = length (opt_field (Some cid))"
    using ok l by (auto simp: connect_args_ok_def intro!: field_size_opt)
  ultimately show ?thesis by (simp add: connect_body_def opt_field_def [of "Some cid"])
qed

lemma send_connect_sends:
  assumes idle: "mt_pendingSendDataLen t = 0" and ok: "connect_args_ok cid wt wm user pass"
    and body: "body = connect_body clean keepalive cid wt wm user pass" and fits: "length body \<le> 251"
    and sent: "ss_send s (mqtt_frame 0x10 (length body) body) d = (e, d')"
  shows "send_connect now s clean keepalive (Some cid) wt wm user pass t d = Some (bool_of_err e,
           t\<lparr>mt_messageId := 1, mt_lastKeepaliveUs := now, mt_keepaliveSeconds := keepalive\<rparr>, d')"
proof -
  let ?m = "length body"
  let ?n = "?m + 5"
  let ?h = "0x10 # mqtt_varint ?m"
  let ?v = "[0x00, 0x04] @ ascii ''MQTT'' @ [4]"
  let ?f = "[connect_flags clean (wt \<noteq> None) (user \<noteq> None) (pass \<noteq> None), drop_bit 8 keepalive, keepalive AND 0xFF]"
  have v: "length (mqtt_varint ?m) \<le> 4" using fits by (intro varint_length) simp
  have lb: "?m = 10 + (2 + length cid) + (length (opt_field wt) + length (opt_field wm))
      + (length (opt_field user) + length (opt_field pass))"
    by (simp add: body connect_body_def)
  have size: "7 + 1 + 2 + field_size (strlen16 (Some cid)) + field_size (strlen16 wt)
      + field_size (if wt \<noteq> None then strlen16 wm else 0) + field_size (strlen16 user)
      + field_size (if user \<noteq> None then strlen16 pass else 0) = ?m"
    using connect_size [OF ok, of clean keepalive] fits by (simp add: body)
  obtain b1 p1 where 1: "write_header 0x10 (of_nat ?m) (replicate ?n 0) (of_nat ?n) (of_nat 0) = Some (b1, p1)"
    "written ?n ?h (b1, p1)" "p1 > 0"
    by (rule write_header_fits [of "replicate ?n 0" ?n ?m 0 ?n "0x10"]) (use fits in auto)
  have "length ?h + length ?v \<le> ?n" using v lb by simp
  from put_bytes_written [OF 1(2) this] obtain b2 p2 where 2: "put_bytes b1 p1 ?v = Some (b2, p2)"
    "written ?n (?h @ ?v) (b2, p2)" by metis
  have "length (?h @ ?v) + length ?f \<le> ?n" using v lb by simp
  from put_bytes_written [OF 2(2) this] obtain b3 p3 where 3: "put_bytes b2 p2 ?f = Some (b3, p3)"
    "written ?n ((?h @ ?v) @ ?f) (b3, p3)" by metis
  let ?q3 = "(?h @ ?v) @ ?f"
  have "length ?q3 + length (mqtt_string cid) \<le> ?n" "length cid < 65536" using v lb fits by simp_all
  from write_string_field [OF 3(2) this] obtain bp4 where 4: "write_string cid (strlen16 (Some cid)) b3 p3 = Some bp4"
    "written ?n (?q3 @ mqtt_string cid) bp4" by (auto simp: strlen16_def)
  let ?q4 = "?q3 @ mqtt_string cid"
  have will: "wt = None \<longleftrightarrow> wm = None" and cred: "user = None \<longrightarrow> pass = None"
    using ok by (simp_all add: connect_args_ok_def)
  have n16: "?n < 65536" using fits by simp
  have "length ?q4 + length (opt_field wt) + length (opt_field wm) \<le> ?n" using v lb by simp
  from write_will_written [OF 4(2) this n16 will] obtain bp5 where
    5: "write_will wt wm (strlen16 wt) (if wt \<noteq> None then strlen16 wm else 0) bp4 = Some bp5"
    "written ?n (?q4 @ opt_field wt @ opt_field wm) bp5" .
  let ?q5 = "?q4 @ opt_field wt @ opt_field wm"
  have "length ?q5 + length (opt_field user) + length (opt_field pass) \<le> ?n" using v lb by simp
  from write_credentials_written [OF 5(2) this n16 cred] obtain bp6 where
    6: "write_credentials user pass (strlen16 user) (if user \<noteq> None then strlen16 pass else 0) bp5 = Some bp6"
    "written ?n (?q5 @ opt_field user @ opt_field pass) bp6" .
  have "?q5 @ opt_field user @ opt_field pass = mqtt_frame 0x10 ?m body"
    by (simp add: body connect_body_def mqtt_frame_def mqtt_string_def bytes16_def hi8_def lo8_def u8_and_0xFF u8_drop_8)
  with 6(2) sent have "downstream_send s (fst bp6) (snd bp6) t' d = Some (bool_of_err e, t', d')" for t'
    using downstream_send_written [of ?n _ "fst bp6" "snd bp6"] by simp
  then show ?thesis
    unfolding send_connect_def Let_def size MQTT_MAX_HEADER_SIZE_def MQTT_BUFFER_SIZE_def
    using idle fits 1(1,3) 2(1) 3(1) 4(1) 5(1) 6(1)
    by (simp del: of_nat_add put_bytes.simps append.simps)
qed

section \<open>Any arguments\<close>

lemma write_header_any:
  assumes "length buffer = n" and "5 \<le> n"
  obtains b where "write_header type size0 buffer N r = Some (b, 0)"
    | b pos where "write_header type size0 buffer N r = Some (b, pos)" and "pos > 0"
      and "written n (type # mqtt_varint (unat size0)) (b, pos)" and "unat size0 < 2 ^ 28"
proof (cases "size0 - r + 5 > N \<or> drop_bit 28 size0 > 0")
  case True
  then show thesis using that(1) [of buffer] by (auto simp: write_header_def)
next
  case False
  then have "unat size0 < 2 ^ 28" "\<not> size0 - r + 5 > N" using drop_bit_pos [of 28 size0] by auto
  with write_header_written [OF assms this, of type] that(2) show thesis by metis
qed

text \<open>Of a topic of 64 KiB or more only the length modulo 65536 is sent.\<close>

definition sent_topic :: "bytes \<Rightarrow> bytes" where
  "sent_topic topic = take (unat (of_nat (length topic) :: u16)) topic"

lemma length_sent_topic: "length (sent_topic topic) = unat (of_nat (length topic) :: u16)"
  by (simp add: sent_topic_def unsigned_of_nat take_bit_eq_mod)

lemma sent_topic_length: "(of_nat (length (sent_topic topic)) :: u16) = of_nat (length topic)"
  by (simp only: length_sent_topic of_nat_unat ucast_id)

lemma send_subscribe_sent_topic: "send_subscribe now s topic t d = send_subscribe now s (sent_topic topic) t d"
proof -
  have "take (unat (of_nat (length topic) :: u16)) (sent_topic topic) = take (unat (of_nat (length topic) :: u16)) topic"
    by (simp add: sent_topic_def)
  then show ?thesis
    by (simp only: send_subscribe_def write_string_def sent_topic_length Let_def)
qed

lemma send_subscribe_any: "send_subscribe now s topic t d \<noteq> None"
proof (cases "mt_pendingSendDataLen t = 0 \<and> length (sent_topic topic) \<le> 246")
  case True
  obtain e d' where "ss_send s (subscribe_packet (mt_messageId t) (sent_topic topic)) d = (e, d')" by fastforce
  then show ?thesis using send_subscribe_sends [of t "sent_topic topic" s d e d' now] True send_subscribe_sent_topic [of now s topic t d]
    by simp
next
  case False
  then show ?thesis
    by (auto simp: send_subscribe_def length_sent_topic MQTT_MAX_HEADER_SIZE_def MQTT_BUFFER_SIZE_def Let_def word_gt_0)
qed

lemma send_publish_header_any: "send_publish_header now s topic len t d \<noteq> None"
proof -
  define tl where "tl = (of_nat (length topic) :: u16)"
  define topic' where "topic' = take (unat tl) topic"
  let ?k = "2 + unat tl + 2"
  let ?n = "?k + 5"
  let ?i = "mt_messageId t"
  have lt: "length topic' \<le> unat tl" by (simp add: topic'_def)
  have "unat tl \<le> length topic" by (simp add: tl_def unsigned_of_nat)
  then have lt: "length topic' = unat tl" by (simp add: topic'_def)
  have ln: "length (replicate ?n 0 :: bytes) = ?n" "5 \<le> ?n" by simp_all
  show ?thesis
  proof (rule write_header_any [OF ln, of "MQTTPUBLISH OR MQTTQOS1 OR MQTTRETAIN" "of_nat ?k + len" "of_nat ?n" len])
    fix b assume "write_header (MQTTPUBLISH OR MQTTQOS1 OR MQTTRETAIN) (of_nat ?k + len) (replicate ?n 0) (of_nat ?n) len = Some (b, 0)"
    then show ?thesis
      unfolding send_publish_header_def MQTT_MAX_HEADER_SIZE_def Let_def tl_def [symmetric]
      by (simp del: of_nat_add not_None_eq)
  next
    fix b pos assume 1: "write_header (MQTTPUBLISH OR MQTTQOS1 OR MQTTRETAIN) (of_nat ?k + len) (replicate ?n 0) (of_nat ?n) len = Some (b, pos)" "pos > 0"
      and w: "written ?n ((MQTTPUBLISH OR MQTTQOS1 OR MQTTRETAIN) # mqtt_varint (unat (of_nat ?k + len))) (b, pos)"
      and m: "unat (of_nat ?k + len) < 2 ^ 28"
    let ?h = "(MQTTPUBLISH OR MQTTQOS1 OR MQTTRETAIN) # mqtt_varint (unat (of_nat ?k + len))"
    note v = varint_length [OF m]
    have "length ?h + length [hi8 tl, lo8 tl] \<le> ?n" using v by simp
    from put_bytes_written [OF w this] obtain b2 p2 where 2: "put_bytes b pos [hi8 tl, lo8 tl] = Some (b2, p2)"
      "written ?n (?h @ bytes16 tl) (b2, p2)" by (metis bytes16_def)
    have "length (?h @ bytes16 tl) + length topic' \<le> ?n" using v lt by (simp add: bytes16_def)
    from mem_copy_written [OF 2(2) this] obtain b3 where 3: "mem_copy b2 p2 topic' = Some b3"
      "written ?n ((?h @ bytes16 tl) @ topic') (b3, p2 + length topic')" .
    have "length ((?h @ bytes16 tl) @ topic') + length [hi8 ?i, lo8 ?i] \<le> ?n" using v lt by (simp add: bytes16_def)
    from put_bytes_written [OF 3(2) this] obtain b4 p4 where 4: "put_bytes b3 (p2 + unat tl) [hi8 ?i, lo8 ?i] = Some (b4, p4)"
      "written ?n (((?h @ bytes16 tl) @ topic') @ [hi8 ?i, lo8 ?i]) (b4, p4)" using lt by metis
    have "downstream_send s b4 p4 t' d \<noteq> None" for t'
    proof -
      obtain e d' where "ss_send s (((?h @ bytes16 tl) @ topic') @ [hi8 ?i, lo8 ?i]) d = (e, d')" by fastforce
      from downstream_send_written [OF 4(2) this] show ?thesis by simp
    qed
    then show ?thesis
      unfolding send_publish_header_def MQTT_MAX_HEADER_SIZE_def Let_def tl_def [symmetric] topic'_def [symmetric]
      using 1 2(1) 3(1) 4(1) by (simp del: of_nat_add put_bytes.simps not_None_eq)
  qed
qed

lemma send_ping_any: "send_ping now s t d \<noteq> None"
  using send_ping_sends [of t s d _ _ now]
  by (cases "mt_pendingSendDataLen t = 0"; cases "ss_send s [0xC0, 0] d") (auto simp: send_ping_def word_gt_0)

lemma send_publish_data_any: "send_publish_data now s data t d \<noteq> None"
  using send_ping_any [of now s "t\<lparr>mt_pendingSendDataLen := 0\<rparr>"]
  by (auto simp: send_publish_data_def Let_def split: prod.splits)

lemma send_subscribe_recorded:
  assumes "length topic < 65536"
  shows "send_subscribe now recording_sender topic t w =
     (if mt_pendingSendDataLen t > 0 \<or> length topic > 246 then Some (False, t, w)
      else Some (False, t\<lparr>mt_messageId := next_message_id (mt_messageId t), mt_lastKeepaliveUs := now\<rparr>,
                 w @ [subscribe_packet (mt_messageId t) topic]))"
proof (cases "mt_pendingSendDataLen t = 0 \<and> length topic \<le> 246")
  case True
  then show ?thesis
    using send_subscribe_sends [of t topic recording_sender w ERR_OK]
    by (simp add: bool_of_err_def ERR_OK_def)
next
  case False
  have "unat (of_nat (length topic) :: u16) = length topic"
    using assms by (simp add: unsigned_of_nat take_bit_nat_eq_self)
  with False show ?thesis
    by (auto simp: send_subscribe_def MQTT_MAX_HEADER_SIZE_def MQTT_BUFFER_SIZE_def Let_def word_gt_0)
qed

text \<open>The packet of the transmitter, read by the decoder.\<close>

lemma publish_header_packet_parse:
  fixes payload :: bytes
  assumes "length topic \<le> 246" and "length payload < 2 ^ 28 - 256"
  shows "mqtt_parse (publish_header_packet i topic (length payload)) =
    Parsed (length (publish_header_packet i topic (length payload)), Publish topic i (length payload))"
proof -
  let ?body = "publish_head topic (Some i)"
  let ?n = "length ?body + length payload"
  have b: "mqtt_string topic @ bytes16 i = ?body" by (simp add: mqtt_string_def)
  have n: "?n < 2 ^ 28" using assms by (simp add: bytes16_def)
  have "parse_body (mqtt_frame 0x33 ?n ?body) (length (mqtt_varint ?n) + 1) ?n =
      parse_publish (mqtt_frame 0x33 ?n ?body) (length (mqtt_varint ?n) + 1) ?n"
    by (simp add: parse_body_def frame_nth)
  then show ?thesis
    using parse_publish_message [OF refl assms refl, of "0x33" "Some i"] mqtt_frame_parse [OF n]
    by (simp add: publish_header_packet_def b has_message_id_def Let_def)
qed

section \<open>Properties\<close>

text \<open>C34. No call of \<open>send_publish_header\<close>, \<open>send_publish_data\<close>, \<open>send_ping\<close>, \<open>send_subscribe\<close> or
  \<open>update\<close> writes outside its send buffer, whatever the arguments and the state: also where the topic or the
  message is too long for its 16-bit or 32-bit length.\<close>

theorem mqtt_send_memory_safe:
  "send_publish_header now s topic len t d \<noteq> None \<and> send_publish_data now s data t d \<noteq> None
     \<and> send_ping now s t d \<noteq> None \<and> send_subscribe now s topic t d \<noteq> None \<and> mqtt_update now' now (Some s) t d \<noteq> None"
proof (intro conjI send_publish_header_any send_publish_data_any send_ping_any send_subscribe_any)
  have "send_ping now s (t\<lparr>mt_lastKeepaliveUs := now\<rparr>) d \<noteq> None" by (rule send_ping_any)
  then show "mqtt_update now' now (Some s) t d \<noteq> None"
    by (auto simp: mqtt_update_def Let_def simp del: not_None_eq)
qed

text \<open>With the arguments it is written for and a body of up to 251 bytes, \<open>send_connect\<close> puts
  exactly one CONNECT packet on the wire: its remaining length is the length of the body behind
  it, the flags say which fields follow, and the fields are in the order of MQTT 3.1.1.\<close>

theorem mqtt_connect_packet:
  assumes "mt_pendingSendDataLen t = 0" and "connect_args_ok cid will_topic will_message user pass"
    and "length (connect_body clean keepalive cid will_topic will_message user pass) \<le> 251"
  shows "\<exists>r t'. send_connect now recording_sender clean keepalive (Some cid) will_topic will_message user pass t w =
     Some (r, t', w @ [mqtt_frame 0x10 (length (connect_body clean keepalive cid will_topic will_message user pass))
       (connect_body clean keepalive cid will_topic will_message user pass)])
     \<and> mt_keepaliveSeconds t' = keepalive \<and> mt_messageId t' = 1"
  using send_connect_sends [OF assms(1,2) refl assms(3), of recording_sender w ERR_OK _ now] by auto

theorem mqtt_connect_packet_witness:
  "\<exists>r t'. send_connect 0 recording_sender True 60 (Some [0x70]) None None (Some [0x75]) (Some [0x77]) mqtt_transmitter_init [] =
     Some (r, t', [] @ [mqtt_frame 0x10 (length (connect_body True 60 [0x70] None None (Some [0x75]) (Some [0x77])))
       (connect_body True 60 [0x70] None None (Some [0x75]) (Some [0x77]))])
     \<and> mt_keepaliveSeconds t' = 60 \<and> mt_messageId t' = 1"
  by (rule mqtt_connect_packet)
    (simp_all add: mqtt_transmitter_init_def connect_args_ok_def connect_body_def opt_field_def)

text \<open>\<open>send_subscribe\<close> puts exactly one SUBSCRIBE packet with the next message id on the wire, or refuses a topic
  of more than 246 bytes (or a call in the middle of a PUBLISH) and sends nothing.\<close>

theorem mqtt_subscribe_packet:
  assumes "length topic < 65536"
  shows "\<exists>r t'. send_subscribe now recording_sender topic t w =
     Some (r, t', if mt_pendingSendDataLen t > 0 \<or> length topic > 246 then w
                  else w @ [subscribe_packet (mt_messageId t) topic])"
  using send_subscribe_recorded [OF assms] by auto

theorem mqtt_subscribe_packet_witness:
  "\<exists>r t'. send_subscribe 7 recording_sender [0x61, 0x2F, 0x23] mqtt_transmitter_init [] =
     Some (r, t', if mt_pendingSendDataLen mqtt_transmitter_init > 0 \<or> length [0x61, 0x2F, 0x23 :: u8] > 246 then []
                  else [] @ [subscribe_packet (mt_messageId mqtt_transmitter_init) [0x61, 0x2F, 0x23]])"
  by (rule mqtt_subscribe_packet) simp

text \<open>C14. What \<open>send_publish_header\<close> and \<open>send_publish_data\<close> put on the wire for a message, with a topic of at most 246 bytes and a
  payload that is not empty and shorter than 256 MiB by 256 bytes, when no other message and no ping is pending, the decoder of the
  other end reports as that message: topic, message id, length and payload, for every segmentation. (A longer topic is sent
  as well, but where the header does not fit into the receive buffer of the decoder it refuses the message.)\<close>

theorem mqtt_publish_roundtrip:
  assumes "length topic \<le> 246" and "payload \<noteq> []" and "length payload < 2 ^ 28 - 256"
    and "mt_pendingSendDataLen t = 0" and "\<not> mt_pendingPing t"
  shows "\<exists>r1 t1 w1 r2 t2 w2.
     send_publish_header now recording_sender topic (of_nat (length payload)) t [] = Some (r1, t1, w1)
     \<and> send_publish_data now recording_sender payload t1 w1 = Some (r2, t2, w2)
     \<and> (\<forall>xss. concat xss = concat w2 \<longrightarrow>
          (\<exists>h es. run_segments mqtt_decode mqtt_receiver_init xss = Some (h, es, True)
             \<and> mqtt_flat es = Packet (Publish topic (mt_messageId t) (length payload)) #
                 map Payload_Byte payload @ [Payload_End]))"
proof -
  let ?hdr = "publish_header_packet (mt_messageId t) topic (length payload)"
  let ?os = "Packet (Publish topic (mt_messageId t) (length payload)) # map Payload_Byte payload @ [Payload_End]"
  have u: "unat (of_nat (length payload) :: u32) = length payload"
    using assms(3) by (simp add: unsigned_of_nat take_bit_nat_eq_self)
  obtain t1 where 1: "send_publish_header now recording_sender topic (of_nat (length payload)) t [] = Some (False, t1, [?hdr])"
    and t1: "mt_pendingSendDataLen t1 = of_nat (length payload)"
    using send_publish_header_sends [of t topic "of_nat (length payload)" recording_sender "[]" ERR_OK "[?hdr]" now] assms u
    by (simp add: bool_of_err_def ERR_OK_def)
  have 2: "\<exists>t2. send_publish_data now recording_sender payload t1 [?hdr] = Some (False, t2, [?hdr, payload])"
    using t1 u by (simp add: send_publish_data_def bool_of_err_def ERR_OK_def)
  have "feed_all mqtt_feed (MHeader []) (?hdr @ payload) = Some (MHeader [], ?os)"
    using feed_header_parsed [OF publish_header_packet_parse [OF assms(1,3), of "mt_messageId t"]]
      mqtt_feed_payload [OF assms(2), of "length payload"]
    by (simp add: feed_all_append_Some)
  then have "\<exists>h es. run_segments mqtt_decode mqtt_receiver_init xss = Some (h, es, True) \<and> mqtt_flat es = ?os"
    if "concat xss = concat [?hdr, payload]" for xss
    using mqd.run_segments_accepts [OF mqtt_inv_init, of xss] that by auto
  with 1 2 show ?thesis by blast
qed

theorem mqtt_publish_roundtrip_witness:
  "\<exists>r1 t1 w1 r2 t2 w2.
     send_publish_header 0 recording_sender [0x74] (of_nat (length [1, 2, 3 :: u8])) mqtt_transmitter_init [] = Some (r1, t1, w1)
     \<and> send_publish_data 0 recording_sender [1, 2, 3] t1 w1 = Some (r2, t2, w2)
     \<and> (\<forall>xss. concat xss = concat w2 \<longrightarrow>
          (\<exists>h es. run_segments mqtt_decode mqtt_receiver_init xss = Some (h, es, True)
             \<and> mqtt_flat es = Packet (Publish [0x74] (mt_messageId mqtt_transmitter_init) (length [1, 2, 3 :: u8])) #
                 map Payload_Byte [1, 2, 3] @ [Payload_End]))"
  by (rule mqtt_publish_roundtrip) (simp_all add: mqtt_transmitter_init_def)

lemma next_message_id_step:
  assumes "unat i = n mod 65535 + 1"
  shows "unat (next_message_id i) = Suc n mod 65535 + 1"
proof (cases "i = 0xFFFF")
  case True
  then have "unat i = 65535" by simp
  with assms have "n mod 65535 = 65534" by simp
  then have "Suc n mod 65535 = 0" by (simp add: mod_Suc)
  with True show ?thesis by (simp add: next_message_id_def)
next
  case False
  then have "unat i \<noteq> 65535" by (simp add: word_unat_eq_iff)
  then have l: "unat i < 65535" using unat_u16_less [of i] by linarith
  then have "unat (i + 1) = unat i + 1" by (simp add: unat_word_ariths)
  moreover have "Suc n mod 65535 = Suc (n mod 65535)" using assms l by (simp add: mod_Suc)
  ultimately show ?thesis using False assms by (simp add: next_message_id_def)
qed

lemma message_ids: "unat ((next_message_id ^^ n) 1) = n mod 65535 + 1"
  by (induction n) (simp_all add: next_message_id_step)

lemma connect_empty_id_written:
  assumes "mt_pendingSendDataLen t = 0"
  shows "send_connect now s clean keepalive (Some []) None None (Some []) None t d = None"
proof -
  obtain b1 p1 where 1: "write_header 0x10 (of_nat 10) (replicate 15 0) (of_nat 15) (of_nat 0) = Some (b1, p1)"
    "written 15 (0x10 # mqtt_varint 10) (b1, p1)" "p1 > 0"
    by (rule write_header_fits [of "replicate 15 0" 15 10 0 15 "0x10"]) auto
  have h: "0x10 # mqtt_varint 10 = [0x10, 10]" by (simp add: mqtt_varint.simps)
  let ?v = "[0x00, 0x04] @ ascii ''MQTT'' @ [4]"
  let ?f = "[connect_flags clean False True False, drop_bit 8 keepalive, keepalive AND 0xFF]"
  have "length [0x10, 10 :: u8] + length ?v \<le> 15" by simp
  from put_bytes_written [OF 1(2) [unfolded h] this] obtain b2 p2 where 2: "put_bytes b1 p1 ?v = Some (b2, p2)"
    "written 15 ([0x10, 10] @ ?v) (b2, p2)" by metis
  have "length ([0x10, 10] @ ?v) + length ?f \<le> 15" by simp
  from put_bytes_written [OF 2(2) this] obtain b3 p3 where 3: "put_bytes b2 p2 ?f = Some (b3, p3)"
    "written 15 (([0x10, 10] @ ?v) @ ?f) (b3, p3)" by metis
  obtain bp4 where 4: "write_string [] (of_nat (length ([] :: bytes))) (fst (b3, p3)) (snd (b3, p3)) = Some bp4"
    "written 15 ((([0x10, 10] @ ?v) @ ?f) @ mqtt_string []) bp4"
    by (rule write_string_field [OF 3(2), of "[]"]) auto
  obtain b4 p4 where bp4: "bp4 = (b4, p4)" by (cases bp4)
  have p4: "p4 = 14" "length b4 = 15" using 4(2) by (auto simp: bp4 written_def mqtt_string_def bytes16_def)
  then have 5: "write_string [] 0 b4 p4 = None"
    by (simp add: write_string_def mem_write_def)
  show ?thesis
    unfolding send_connect_def Let_def
    using assms 1(1,3) 2(1) 3(1) 4(1) 5
    by (simp add: bp4 strlen16_def field_size_def MQTT_MAX_HEADER_SIZE_def MQTT_BUFFER_SIZE_def
        write_will_def write_credentials_def del: put_bytes.simps append.simps)
qed

section \<open>Properties of the transmitter's state\<close>

text \<open>The message ids of consecutive SUBSCRIBE and PUBLISH packets after a CONNECT run through
  1 to 65535 and start over: none is 0, and 65535 consecutive ones are distinct.\<close>

theorem mqtt_message_ids:
  "unat ((next_message_id ^^ n) 1) = n mod 65535 + 1"
  by (rule message_ids)

text \<open>A PINGREQ that falls into a PUBLISH is put off until the payload is complete, but with a connection that
  reports success as \<open>ERR_OK\<close> it is never sent: \<open>send_publish_data\<close> takes the code for a failure,
  returns \<open>false\<close> and leaves the ping pending.\<close>

theorem mqtt_pending_ping_lost:
  assumes "0 < mt_pendingSendDataLen t" and "unat (mt_pendingSendDataLen t) = length data"
  shows "\<exists>t1 t2. send_ping now recording_sender t w = Some (True, t1, w)
     \<and> send_publish_data now recording_sender data t1 w = Some (False, t2, w @ [data])
     \<and> mt_pendingSendDataLen t2 = 0 \<and> mt_pendingPing t2"
proof -
  have "mt_pendingSendDataLen t = of_nat (length data)" using assms(2) by (metis word_unat_eq_iff of_nat_unat ucast_id)
  with assms show ?thesis
    by (simp add: send_ping_def send_publish_data_def bool_of_err_def ERR_OK_def)
qed

theorem mqtt_pending_ping_lost_witness:
  "\<exists>t1 t2. send_ping 0 recording_sender (mqtt_transmitter_init\<lparr>mt_pendingSendDataLen := 2\<rparr>) [] = Some (True, t1, [])
     \<and> send_publish_data 0 recording_sender [7, 8] t1 [] = Some (False, t2, [] @ [[7, 8]])
     \<and> mt_pendingSendDataLen t2 = 0 \<and> mt_pendingPing t2"
  by (rule mqtt_pending_ping_lost) simp_all

text \<open>An empty client id and an empty user name are counted as absent but written as fields: \<open>send_connect\<close>
  writes behind its send buffer.\<close>

theorem mqtt_connect_empty_strings_overflow:
  "send_connect now s clean keepalive (Some []) None None (Some []) None mqtt_transmitter_init d = None"
  by (rule connect_empty_id_written) (simp add: mqtt_transmitter_init_def)

text \<open>\<open>update\<close> sends a PINGREQ exactly when the connection is up and more whole seconds have
  passed since the last packet than the keepalive interval has, and otherwise changes nothing.\<close>

theorem mqtt_update_keepalive:
  assumes "mt_pendingSendDataLen t = 0"
  shows "\<exists>t'. mqtt_update now_us now (Some (recording_sender\<lparr>ss_is_connected := (\<lambda>w. up)\<rparr>)) t w =
     Some (True, t', if up \<and> unat (mt_keepaliveSeconds t) < unat ((now_us - mt_lastKeepaliveUs t) div 1000000) mod 2 ^ 32
                     then w @ [[0xC0, 0x00]] else w)
     \<and> (\<not> (up \<and> unat (mt_keepaliveSeconds t) < unat ((now_us - mt_lastKeepaliveUs t) div 1000000) mod 2 ^ 32) \<longrightarrow> t' = t)"
proof -
  let ?s = "recording_sender\<lparr>ss_is_connected := (\<lambda>w. up)\<rparr>"
  let ?t = "t\<lparr>mt_lastKeepaliveUs := now\<rparr>"
  have u: "(ucast (mt_keepaliveSeconds t) < (ucast ((now_us - mt_lastKeepaliveUs t) div 1000000) :: u32)) \<longleftrightarrow>
      unat (mt_keepaliveSeconds t) < unat ((now_us - mt_lastKeepaliveUs t) div 1000000) mod 2 ^ 32"
    unfolding word_less_nat_alt unat_ucast_8_32
    by (simp only: unsigned_ucast_eq) (simp add: take_bit_eq_mod)
  have "send_ping now ?s ?t w = Some (bool_of_err ERR_OK, ?t\<lparr>mt_pendingPing := False, mt_lastKeepaliveUs := now\<rparr>, w @ [[0xC0, 0x00]])"
    by (rule send_ping_sends) (simp_all add: assms)
  then show ?thesis
    by (cases up; cases "ucast (mt_keepaliveSeconds t) < (ucast ((now_us - mt_lastKeepaliveUs t) div 1000000) :: u32)")
      (simp_all add: mqtt_update_def Let_def u)
qed

theorem mqtt_update_keepalive_witness:
  "\<exists>t'. mqtt_update 61000000 61000000 (Some (recording_sender\<lparr>ss_is_connected := (\<lambda>w. True)\<rparr>))
       (mqtt_transmitter_init\<lparr>mt_keepaliveSeconds := 60\<rparr>) [] = Some (True, t', [] @ [[0xC0, 0x00]])"
  using mqtt_update_keepalive [of "mqtt_transmitter_init\<lparr>mt_keepaliveSeconds := 60\<rparr>" 61000000 61000000 True "[]"]
  by (auto simp: mqtt_transmitter_init_def)

end
