(* ===== verification/Session_Wire.thy ===== *)
theory Session_Wire
  imports Session_Trace
begin

text \<open>
  A session as the \<open>ISessionSender\<close> of the protocol above it: the contract of \<open>Session_Interface\<close> over the
  recording lwIP, what it puts on the wire, and the pbuf chains that arrive one after the other.
\<close>

section \<open>A session as the connection of its user\<close>

text \<open>A call on a session that has been deleted leaves a deleted session.\<close>

definition session_result :: "'x world \<Rightarrow> 'x outcome \<Rightarrow> err \<times> 'x world" where
  "session_result w r = (case r of None \<Rightarrow> (ERR_VAL, w\<lparr>w_self := None\<rparr>) | Some (e, w') \<Rightarrow> (e, w'))"

definition session_as_sender :: "'x lwip \<Rightarrow> 'x session_callback \<Rightarrow> 'x world session_sender" where
  "session_as_sender lw cb = \<lparr>
     ss_connect = (\<lambda>host port w. session_result w (session_connect lw cb host port w)),
     ss_send = (\<lambda>d w. session_result w (session_send lw cb (Some d) w)),
     ss_flush = (\<lambda>w. session_result w (session_flush lw w)),
     ss_close = (\<lambda>w. session_result w (session_close lw cb w)),
     ss_send_buffer_size = (\<lambda>w. case session_send_buffer_size lw w of None \<Rightarrow> 0 | Some k \<Rightarrow> k),
     ss_is_connected = (\<lambda>w. session_is_connected w = Some True) \<rparr>"

text \<open>An open session whose writes lwIP takes, and what it has written.\<close>

definition session_open :: "'a session_env_scheme world \<Rightarrow> bool" where
  "session_open w \<longleftrightarrow> e_results (w_env w) = [] \<and>
     (case w_self w of None \<Rightarrow> False | Some s \<Rightarrow> \<not> s_closing s \<and> s_pcb s \<noteq> None \<and> s_sentBytes s = 0)"

definition session_wire :: "'a session_env_scheme world \<Rightarrow> bytes" where
  "session_wire w = concat (map (\<lambda>ev. case ev of Wrote d \<Rightarrow> d | _ \<Rightarrow> []) (e_log (w_env w)))"

lemma wire_of_chunks: "0 < n \<Longrightarrow> concat (map (\<lambda>ev. case ev of Wrote d \<Rightarrow> d | _ \<Rightarrow> []) (map Wrote (chunks n d) @ [Output])) = d"
  by (simp add: comp_def)

lemma session_open_self: "session_open w \<Longrightarrow> \<exists>s. w_self w = Some s \<and> \<not> s_closing s \<and> s_pcb s \<noteq> None \<and> s_sentBytes s = 0 \<and>
    e_results (w_env w) = []"
  by (auto simp: session_open_def split: option.splits)

interpretation session_wire: wire_sender "session_as_sender (logging_lwip (Suc n)) cb" session_open session_wire
  for n and cb :: "'a session_env_scheme session_callback"
proof
  fix w :: "'a session_env_scheme world" and d
  assume "session_open w"
  then obtain s where s: "w_self w = Some s" "\<not> s_closing s" "s_pcb s \<noteq> None" "s_sentBytes s = 0" "e_results (w_env w) = []"
    using session_open_self by blast
  let ?w = "put_self (s\<lparr>s_processing := False\<rparr>) (log_events (map Wrote (chunks (Suc n) d) @ [Output]) w)"
  have "ss_send (session_as_sender (logging_lwip (Suc n)) cb) d w = (ERR_OK, ?w)"
    using send_logged [of "Suc n" w s cb d] s by (simp add: session_as_sender_def session_result_def)
  moreover have "session_open ?w" using s by (simp add: session_open_def put_self_def)
  moreover have "session_wire ?w = session_wire w @ d"
    using wire_of_chunks [of "Suc n" d] by (simp add: session_wire_def put_self_def comp_def)
  ultimately show "fst (ss_send (session_as_sender (logging_lwip (Suc n)) cb) d w) = ERR_OK \<and>
      session_open (snd (ss_send (session_as_sender (logging_lwip (Suc n)) cb) d w)) \<and>
      session_wire (snd (ss_send (session_as_sender (logging_lwip (Suc n)) cb) d w)) = session_wire w @ d"
    by simp
qed

text \<open>One pbuf chain after the other arrives, until lwIP is told to stop.\<close>

fun recv_chains ::
    "'x lwip \<Rightarrow> 'x session_callback \<Rightarrow> nat \<Rightarrow> bytes list list \<Rightarrow> 'x world \<Rightarrow> 'x outcome" where
  "recv_chains lw cb pcb [] w = Some (ERR_OK, w)"
| "recv_chains lw cb pcb (p # ps) w = do {
     (e, w) \<leftarrow> session_lwip_recv lw cb pcb (Some p) ERR_OK w;
     if e = ERR_OK then recv_chains lw cb pcb ps w else Some (e, w)
   }"

section \<open>A user that takes what arrives\<close>

text \<open>What receiving relies on: while the segments \<open>ds\<close> are \<open>due\<close>, the session is open and its user takes the first of
  them; neither the processing flag nor the record of lwIP matters to it. Then every cut into chains is taken.\<close>

locale chain_receiver =
  fixes cb :: "'a session_env_scheme session_callback" and due :: "bytes list \<Rightarrow> 'a session_env_scheme world \<Rightarrow> bool"
  assumes due_open: "due ds w \<Longrightarrow> \<exists>s. w_self w = Some s \<and> \<not> s_closing s \<and> s_pcb s \<noteq> None \<and> s_callback s"
    and due_step: "due (d # ds) w \<Longrightarrow> \<exists>w'. sc_on_recv cb d w = (True, w') \<and> due ds w'"
    and due_processing: "w_self w = Some s \<Longrightarrow> due ds (put_self (s\<lparr>s_processing := b\<rparr>) w) = due ds w"
    and due_taken: "due ds (log_events [Recved k, Freed p] w) = due ds w"
begin

lemma loop_due:
  "due (segments its @ ds) w \<Longrightarrow> \<exists>w'. recv_loop lw cb pcb p its w = Some (None, w') \<and> due ds w'"
proof (induction its arbitrary: w)
  case (Cons it its)
  define rest where "rest = (if concat its = [] then ds else segments its @ ds)"
  have "due (it # rest) w" using Cons.prems by (cases "concat its = []") (simp_all add: rest_def del: concat_eq_Nil_conv)
  from due_step [OF this] obtain w1 where w1: "sc_on_recv cb it w = (True, w1)" "due rest w1" by blast
  from due_open [OF w1(2)] obtain s where s: "w_self w1 = Some s" "\<not> s_closing s" "s_pcb s \<noteq> None" by blast
  show ?case
  proof (cases "concat its = []")
    case True
    then have "due ds w1" using w1(2) by (simp add: rest_def)
    then show ?thesis using True w1(1) s by (auto simp: Let_def)
  next
    case False
    then have "due (segments its @ ds) w1" using w1(2) by (simp add: rest_def del: concat_eq_Nil_conv)
    from Cons.IH [OF this] show ?thesis using False w1(1) s by (auto simp: Let_def)
  qed
qed simp

lemma chain_due:
  assumes "due (segments p @ ds) w"
  shows "\<exists>w'. session_lwip_recv (logging_lwip n) cb pcb (Some p) ERR_OK w = Some (ERR_OK, w') \<and> due ds w' \<and>
    map_option s_processing (w_self w') = Some False"
proof -
  obtain s where s: "w_self w = Some s" "\<not> s_closing s" "s_pcb s \<noteq> None" "s_callback s" using due_open [OF assms] by blast
  have "due (segments p @ ds) (put_self (s\<lparr>s_processing := True\<rparr>) w)" using due_processing [OF s(1)] assms by simp
  from loop_due [OF this, of "logging_lwip n" pcb p] obtain w1 where
    w1: "recv_loop (logging_lwip n) cb pcb p p (put_self (s\<lparr>s_processing := True\<rparr>) w) = Some (None, w1)" "due ds w1" by blast
  obtain s1 where s1: "w_self w1 = Some s1" using due_open [OF w1(2)] by blast
  let ?w1 = "put_self (s1\<lparr>s_processing := False\<rparr>) w1"
  let ?w' = "log_events [Recved (length (concat p)), Freed p] ?w1"
  have "session_lwip_recv (logging_lwip n) cb pcb (Some p) ERR_OK w = Some (ERR_OK, ?w')"
    using s s1 w1(1) by (simp add: session_lwip_recv_def put_self_same Let_def ERR_OK_def ERR_ABRT_def)
  moreover have "due ds ?w'"
    using due_processing [OF s1] due_taken w1(2) by (simp del: log_events_simps log_events_put)
  moreover have "map_option s_processing (w_self ?w') = Some False" by (simp add: put_self_def)
  ultimately show ?thesis by blast
qed

lemma chains_due:
  "due (concat (map segments ps)) w \<Longrightarrow> \<exists>w'. recv_chains (logging_lwip n) cb pcb ps w = Some (ERR_OK, w') \<and> due [] w' \<and>
     (map_option s_processing (w_self w) = Some False \<longrightarrow> map_option s_processing (w_self w') = Some False)"
proof (induction ps arbitrary: w)
  case (Cons p ps)
  from Cons.prems have "due (segments p @ concat (map segments ps)) w" by simp
  from chain_due [OF this, of n pcb] obtain w1 where
    w1: "session_lwip_recv (logging_lwip n) cb pcb (Some p) ERR_OK w = Some (ERR_OK, w1)" "due (concat (map segments ps)) w1"
      "map_option s_processing (w_self w1) = Some False" by blast
  from Cons.IH [OF w1(2)] w1(1,3) show ?case by auto
qed simp

end

lemma concat_chain_segments: "concat (concat (map segments ps)) = concat (concat ps)"
  by (induction ps) (simp_all add: concat_segments)

section \<open>The wire\<close>

lemma session_wire_put [simp]:
  "session_wire (put_self s w) = session_wire w"
  by (simp add: session_wire_def)

lemma session_wire_log: "session_wire (log_events evs w) = session_wire w @ concat (map (\<lambda>ev. case ev of Wrote d \<Rightarrow> d | _ \<Rightarrow> []) evs)"
  by (simp add: session_wire_def)

lemma session_wire_log_event: "session_wire (log_event ev w) = session_wire w @ (case ev of Wrote d \<Rightarrow> d | _ \<Rightarrow> [])"
  by (simp add: session_wire_def)

end
