(* ===== verification/Mqtt_Client.thy ===== *)
theory Mqtt_Client
  imports Mqtt_Send_Spec Session_Wire
begin

text \<open>
  An MQTT client from its application to lwIP: a \<open>MQTTSocketHandler\<close> as the callback of its \<open>Session\<close>
  and the session as its downstream, over the recording lwIP. The handler and what the application was told live in
  the environment of the session. The application is a function of the events it is told of, a locale; the
  one of the properties subscribes to a topic whenever the broker accepts its connection.
\<close>

section \<open>One decoder, two applications\<close>

text \<open>\<open>react\<close> is an application that is told the events of \<^const>\<open>mqtt_recorder\<close>.\<close>

definition mqtt_reacting :: "(mqtt_event \<Rightarrow> 'w \<Rightarrow> 'w) \<Rightarrow> ('w \<Rightarrow> 'w) \<Rightarrow> 'w mqtt_socket_interface" where
  "mqtt_reacting react connected =
     \<lparr> on_pub_ack = (\<lambda>i w. (True, react (On_Packet (Pub_Ack i)) w)),
       on_sub_ack = (\<lambda>i w. (True, react (On_Packet (Sub_Ack i)) w)),
       on_conn_ack = (\<lambda>c f w. (True, react (On_Packet (Conn_Ack c f)) w)),
       on_ping_req = (\<lambda>w. (True, react (On_Packet Ping_Req) w)),
       on_ping_resp = (\<lambda>w. (True, react (On_Packet Ping_Resp) w)),
       on_publish_header = (\<lambda>topic n i len w. (True, react (On_Packet (Publish (take (unat n) topic) i (unat len))) w)),
       on_publish_data = (\<lambda>d n final w. (True, react (On_Publish_Data (take (unat n) d) final) w)),
       on_mqtt_sent = (\<lambda>n w. (True, w)), on_mqtt_closed = (\<lambda>w. w), on_mqtt_connected = connected \<rparr>"

definition decoded_map :: "('a \<Rightarrow> 'b) \<Rightarrow> 'a decoded \<Rightarrow> 'b decoded" where
  "decoded_map f r = map_option (\<lambda>(h, w, rest, ok). (h, f w, rest, ok)) r"

lemma decoded_map_simps [simp]:
  "decoded_map f None = None" "decoded_map f (Some (h, w, rest)) = Some (h, f w, rest)"
  "decoded_map f (if c then x else y) = (if c then decoded_map f x else decoded_map f y)"
  by (simp_all add: decoded_map_def case_prod_unfold)

lemma decoded_map_bind: "decoded_map f (Option.bind x g) = Option.bind x (\<lambda>y. decoded_map f (g y))"
  by (cases x) simp_all

text \<open>What an application has done after some events.\<close>

definition reacted :: "(mqtt_event \<Rightarrow> 'w \<Rightarrow> 'w) \<Rightarrow> 'w \<Rightarrow> mqtt_event list \<Rightarrow> 'w" where
  "reacted react w es = fold react es w"

lemma reacted_simps [simp]: "reacted react w [] = w" "reacted react w (es @ es') = reacted react (reacted react w es) es'"
  "reacted react w (e # es) = reacted react (react e w) es"
  by (simp_all add: reacted_def)

lemma finish_message_map: "finish_message h (f w) d m st = decoded_map f (finish_message h w d m st)"
  by (simp add: finish_message_def Let_def case_prod_unfold)

lemma open_publish_map:
  "open_publish (mqtt_reacting react c) h (reacted react w es) d topic n i m pos st =
     decoded_map (reacted react w) (open_publish mqtt_recorder h es d topic n i m pos st)"
  by (simp add: open_publish_def mqtt_recorder_def mqtt_reacting_def Let_def case_prod_unfold)

lemma decode_publish_header_map:
  "decode_publish_header (mqtt_reacting react c) h (reacted react w es) d m pos st =
     decoded_map (reacted react w) (decode_publish_header mqtt_recorder h es d m pos st)"
  by (simp add: decode_publish_header_def open_publish_map Let_def case_prod_unfold decoded_map_bind cong: if_cong)

lemma dispatch_map:
  "dispatch (mqtt_reacting react c) h (reacted react w es) d m pos st type =
     decoded_map (reacted react w) (dispatch mqtt_recorder h es d m pos st type)"
  by (simp add: dispatch_def decode_publish_header_map decode_conn_ack_def decode_pubsub_ack_def decode_ping_def
      decode_unhandled_def finish_message_map [symmetric] decoded_map_bind case_prod_unfold split: option.split bool.split)
    (simp add: mqtt_recorder_def mqtt_reacting_def)

lemma decoded_map_scan: "decoded_map f (case x of Scan_Fault \<Rightarrow> a | Need_More \<Rightarrow> b | Got y \<Rightarrow> g y) =
    (case x of Scan_Fault \<Rightarrow> decoded_map f a | Need_More \<Rightarrow> decoded_map f b | Got y \<Rightarrow> decoded_map f (g y))"
  by (cases x) simp_all

lemma decode_header_map:
  "decode_header (mqtt_reacting react c) h (reacted react w es) d =
     decoded_map (reacted react w) (decode_header mqtt_recorder h es d)"
  by (simp add: decode_header_def dispatch_map Let_def case_prod_unfold decoded_map_bind decoded_map_scan
      cong: if_cong scan.case_cong)

lemma decode_data_map:
  assumes "decode_data mqtt_recorder h es data = Some (h', es', ok)"
  shows "decode_data (mqtt_reacting react c) h (reacted react w es) data = Some (h', reacted react w es', ok)"
proof -
  have "cb = mqtt_recorder \<longrightarrow> decode_data (mqtt_reacting react c) h (reacted react w es) data =
      Some (fst r, reacted react w (fst (snd r)), snd (snd r))"
    if "decode_data cb h es data = Some r" for cb h es data r
    using _ that
  proof (rule decode_data.raw_induct [of "\<lambda>cb h es data r. cb = mqtt_recorder \<longrightarrow>
      decode_data (mqtt_reacting react c) h (reacted react w es) data = Some (fst r, reacted react w (fst (snd r)), snd (snd r))"])
    fix g and cb :: "mqtt_event list mqtt_socket_interface" and h es data and r :: "mqtt_receiver \<times> mqtt_event list \<times> bool"
    assume IH: "\<And>cb h es data r. g cb h es data = Some r \<Longrightarrow> cb = mqtt_recorder \<longrightarrow>
        decode_data (mqtt_reacting react c) h (reacted react w es) data = Some (fst r, reacted react w (fst (snd r)), snd (snd r))"
    assume r: "(if data = [] then Some (h, es, True)
      else if mq_state h = WAIT_PACKET then
        (case decode_header cb h es data of
           None \<Rightarrow> None
         | Some (h', w', data', ok) \<Rightarrow>
             if \<not> ok then Some (h', w', False) else g cb h' w' data')
      else
        (let bytesReceived = min (length data) (unat (mq_pendingDataLen h));
             w' = snd (on_publish_data cb (take bytesReceived data) (of_nat bytesReceived)
                        (bytesReceived = unat (mq_pendingDataLen h)) es);
             pending = mq_pendingDataLen h - of_nat bytesReceived in
         g cb
           (h\<lparr>mq_pendingDataLen := pending,
              mq_state := (if pending = 0 then WAIT_PACKET else mq_state h)\<rparr>)
           w' (drop bytesReceived data))) = Some r"
    show "cb = mqtt_recorder \<longrightarrow> decode_data (mqtt_reacting react c) h (reacted react w es) data =
        Some (fst r, reacted react w (fst (snd r)), snd (snd r))"
    proof
      assume cb: "cb = mqtt_recorder"
      consider "data = []" | "data \<noteq> []" "mq_state h = WAIT_PACKET" | "data \<noteq> []" "mq_state h \<noteq> WAIT_PACKET" by blast
      then show "decode_data (mqtt_reacting react c) h (reacted react w es) data =
          Some (fst r, reacted react w (fst (snd r)), snd (snd r))"
      proof cases
        case 1
        then show ?thesis using r by (subst decode_data.simps) auto
      next
        case 2
        then show ?thesis using r cb
          by (subst decode_data.simps) (auto simp: decode_header_map dest!: IH split: option.splits if_splits)
      next
        case 3
        then show ?thesis using r cb
          by (subst decode_data.simps)
            (auto simp: Let_def mqtt_recorder_def mqtt_reacting_def dest!: IH)
      qed
    qed
  qed
  from this [OF assms] show ?thesis by simp
qed

lemma mqtt_recv_reacts:
  assumes "mqtt_decode h d = Some (h', es, ok)"
  shows "mqtt_on_recv (mqtt_reacting react c) h w d = Some (h', reacted react w es, ok)"
  using decode_data_map [where es = "[]", of h d h' es ok react c w] assms by (simp add: mqtt_decode_def mqtt_on_recv_def)

section \<open>The composed object\<close>

record mqtt_env = session_env +
  mv_receiver :: mqtt_receiver
  mv_transmitter :: mqtt_transmitter
  mv_events :: "mqtt_event list"

definition put_receiver :: "mqtt_receiver \<Rightarrow> mqtt_env world \<Rightarrow> mqtt_env world" where
  "put_receiver h w = w\<lparr>w_env := (w_env w)\<lparr>mv_receiver := h\<rparr>\<rparr>"

definition put_transmitter :: "mqtt_transmitter \<Rightarrow> mqtt_env world \<Rightarrow> mqtt_env world" where
  "put_transmitter t w = w\<lparr>w_env := (w_env w)\<lparr>mv_transmitter := t\<rparr>\<rparr>"

definition note_event :: "mqtt_event \<Rightarrow> mqtt_env world \<Rightarrow> mqtt_env world" where
  "note_event e w = w\<lparr>w_env := (w_env w)\<lparr>mv_events := mv_events (w_env w) @ [e]\<rparr>\<rparr>"

text \<open>The session as the downstream. The recording lwIP reports nothing while bytes are written, so that the callbacks of the
  session do not matter here.\<close>

definition mqtt_downstream :: "nat \<Rightarrow> mqtt_env world session_sender" where
  "mqtt_downstream n = session_as_sender (logging_lwip (Suc n)) (quiet_callback True)"

text \<open>The handler as the callback of its session; \<open>now\<close> is the clock. A new connection resets the handler before the
  application hears of it.\<close>

definition mqtt_callback :: "u64 \<Rightarrow> mqtt_env world mqtt_socket_interface \<Rightarrow> mqtt_env session_callback" where
  "mqtt_callback now app = (quiet_callback True)\<lparr>
     sc_on_recv := (\<lambda>d w. case mqtt_on_recv app (mv_receiver (w_env w)) w d of
         None \<Rightarrow> (False, w\<lparr>w_self := None\<rparr>)
       | Some (h, w', ok) \<Rightarrow> (ok, put_receiver h w')),
     sc_on_connected := (\<lambda>w. case mqtt_reset now (mv_receiver (w_env w)) (mv_transmitter (w_env w)) of
         (h, t) \<Rightarrow> on_mqtt_connected app (put_receiver h (put_transmitter t w)))\<rparr>"

lemma mqtt_env_simps [simp]:
  "w_self (put_receiver h w) = w_self w" "w_self (put_transmitter t w) = w_self w" "w_self (note_event e w) = w_self w"
  "session_wire (put_receiver h w) = session_wire w" "session_wire (put_transmitter t w) = session_wire w"
  "session_wire (note_event e w) = session_wire w"
  "session_open (put_receiver h w) = session_open w" "session_open (put_transmitter t w) = session_open w"
  "session_open (note_event e w) = session_open w"
  "mv_receiver (w_env (put_receiver h w)) = h" "mv_receiver (w_env (put_transmitter t w)) = mv_receiver (w_env w)"
  "mv_receiver (w_env (note_event e w)) = mv_receiver (w_env w)"
  "mv_transmitter (w_env (put_receiver h w)) = mv_transmitter (w_env w)" "mv_transmitter (w_env (put_transmitter t w)) = t"
  "mv_transmitter (w_env (note_event e w)) = mv_transmitter (w_env w)"
  "mv_events (w_env (put_receiver h w)) = mv_events (w_env w)" "mv_events (w_env (put_transmitter t w)) = mv_events (w_env w)"
  "mv_events (w_env (note_event e w)) = mv_events (w_env w) @ [e]"
  by (simp_all add: put_receiver_def put_transmitter_def note_event_def session_wire_def session_open_def)

lemma mqtt_env_log [simp]:
  "mv_receiver (w_env (log_events evs w)) = mv_receiver (w_env w)"
  "mv_transmitter (w_env (log_events evs w)) = mv_transmitter (w_env w)"
  "mv_events (w_env (log_events evs w)) = mv_events (w_env w)"
  by (simp_all add: log_events_env)

section \<open>Applications\<close>

text \<open>What the handler relies on: an application that is \<open>ready\<close> stays so and keeps the session open, and what of it is to be
  seen changes with the events alone.\<close>

locale mqtt_application =
  fixes react :: "mqtt_event \<Rightarrow> mqtt_env world \<Rightarrow> mqtt_env world" and ready :: "mqtt_env world \<Rightarrow> bool"
    and seen :: "mqtt_env world \<Rightarrow> 'v" and effect :: "mqtt_event \<Rightarrow> 'v \<Rightarrow> 'v"
  assumes ready_open: "ready w \<Longrightarrow> session_open w \<and> map_option s_callback (w_self w) = Some True"
    and react_ready: "ready w \<Longrightarrow> ready (react e w) \<and> seen (react e w) = effect e (seen w)"
    and receiver_unseen: "ready (put_receiver h w) = ready w \<and> seen (put_receiver h w) = seen w"
    and processing_unseen: "w_self w = Some s \<Longrightarrow>
      ready (put_self (s\<lparr>s_processing := b\<rparr>) w) = ready w \<and> seen (put_self (s\<lparr>s_processing := b\<rparr>) w) = seen w"
    and taken_unseen: "ready (log_events [Recved k, Freed p] w) = ready w \<and> seen (log_events [Recved k, Freed p] w) = seen w"
begin

lemma ready_self: "ready w \<Longrightarrow> \<exists>s. w_self w = Some s \<and> \<not> s_closing s \<and> s_pcb s \<noteq> None \<and> s_callback s"
  using ready_open [of w] by (auto simp: session_open_def split: option.splits)

lemma reacted_ready: "ready w \<Longrightarrow> ready (reacted react w es) \<and> seen (reacted react w es) = fold effect es (seen w)"
  by (induction es arbitrary: w) (simp_all add: react_ready)

lemma recv_segment:
  assumes "ready w" and "mqtt_decode (mv_receiver (w_env w)) d = Some (h, es, ok)"
  shows "\<exists>w'. sc_on_recv (mqtt_callback now (mqtt_reacting react c)) d w = (ok, w') \<and> ready w' \<and>
    mv_receiver (w_env w') = h \<and> seen w' = fold effect es (seen w)"
  using mqtt_recv_reacts [OF assms(2), of react c w] reacted_ready [OF assms(1), of es] receiver_unseen
  by (simp add: mqtt_callback_def)

end

text \<open>So it takes the segments of the broker's packets, however they are cut.\<close>

sublocale mqtt_application \<subseteq> reading: chain_receiver "mqtt_callback now (mqtt_reacting react c)"
    "\<lambda>ds w. ready w \<and> (\<exists>es. run_segments mqtt_decode (mv_receiver (w_env w)) ds = Some (h, es, True) \<and> fold effect es (seen w) = v)"
  for now c h v
proof
  fix w and d and ds :: "bytes list"
  assume "ready w \<and> (\<exists>es. run_segments mqtt_decode (mv_receiver (w_env w)) (d # ds) = Some (h, es, True) \<and> fold effect es (seen w) = v)"
  then obtain h1 es1 es2 where d: "ready w" "mqtt_decode (mv_receiver (w_env w)) d = Some (h1, es1, True)"
    "run_segments mqtt_decode h1 ds = Some (h, es2, True)" "fold effect (es1 @ es2) (seen w) = v"
    by (fastforce split: option.splits prod.splits if_splits)
  from recv_segment [OF d(1,2), of now c] d(3,4)
  show "\<exists>w'. sc_on_recv (mqtt_callback now (mqtt_reacting react c)) d w = (True, w') \<and>
      ready w' \<and> (\<exists>es. run_segments mqtt_decode (mv_receiver (w_env w')) ds = Some (h, es, True) \<and> fold effect es (seen w') = v)"
    by auto
qed (use ready_self processing_unseen taken_unseen in \<open>auto simp: put_self_def simp del: log_events_simps\<close>)

context mqtt_application begin

lemma chains_delivered:
  assumes "ready w" and "run_segments mqtt_decode (mv_receiver (w_env w)) (concat (map segments ps)) = Some (h, es, True)"
  shows "\<exists>w'. recv_chains (logging_lwip n) (mqtt_callback now (mqtt_reacting react c)) pcb ps w = Some (ERR_OK, w') \<and>
     ready w' \<and> mv_receiver (w_env w') = h \<and> seen w' = fold effect es (seen w)"
  using reading.chains_due [where h = h and v = "fold effect es (seen w)" and ps = ps and w = w, of n now c pcb] assms by auto

end

section \<open>A subscriber\<close>

text \<open>The application notes what it is told; when the broker accepts its connection it subscribes to its topic. A call on
  a handler that faults leaves a deleted session.\<close>

definition with_transmitter ::
    "(mqtt_transmitter \<Rightarrow> mqtt_env world \<Rightarrow> mqtt_env world sent) \<Rightarrow> mqtt_env world \<Rightarrow> mqtt_env world" where
  "with_transmitter send w = (case send (mv_transmitter (w_env w)) w of
     None \<Rightarrow> w\<lparr>w_self := None\<rparr> | Some (_, t, w') \<Rightarrow> put_transmitter t w')"

fun accepts :: "mqtt_packet \<Rightarrow> bool" where
  "accepts (Conn_Ack code flags) = (code = CONNECTION_ACCEPTED)"
| "accepts _ = False"

fun accepting :: "mqtt_event \<Rightarrow> bool" where
  "accepting (On_Packet p) = accepts p"
| "accepting _ = False"

definition subscriber_react :: "nat \<Rightarrow> u64 \<Rightarrow> bytes \<Rightarrow> mqtt_event \<Rightarrow> mqtt_env world \<Rightarrow> mqtt_env world" where
  "subscriber_react n now topic e w =
     (let w = note_event e w in
      if accepting e then with_transmitter (send_subscribe now (mqtt_downstream n) topic) w else w)"

definition subscriber ::
    "nat \<Rightarrow> u64 \<Rightarrow> bool \<Rightarrow> u8 \<Rightarrow> bytes \<Rightarrow> bytes option \<Rightarrow> bytes option \<Rightarrow> bytes option \<Rightarrow> bytes option \<Rightarrow> bytes \<Rightarrow>
     mqtt_env world mqtt_socket_interface" where
  "subscriber n now clean keepalive cid will_topic will_message user pass topic =
     mqtt_reacting (subscriber_react n now topic)
       (with_transmitter (send_connect now (mqtt_downstream n) clean keepalive (Some cid) will_topic will_message user pass))"

lemma sent_topic_short: "length topic < 65536 \<Longrightarrow> sent_topic topic = topic"
  by (simp add: sent_topic_def unsigned_of_nat take_bit_nat_eq_self)

definition subscriber_ready :: "mqtt_env world \<Rightarrow> bool" where
  "subscriber_ready w \<longleftrightarrow> session_open w \<and> map_option s_callback (w_self w) = Some True \<and>
     mt_pendingSendDataLen (mv_transmitter (w_env w)) = 0"

text \<open>What is to be seen: the wire, the next message id, and what the application was told.\<close>

type_synonym subscriber_view = "bytes \<times> u16 \<times> mqtt_event list"

definition subscriber_seen :: "mqtt_env world \<Rightarrow> subscriber_view" where
  "subscriber_seen w = (session_wire w, mt_messageId (mv_transmitter (w_env w)), mv_events (w_env w))"

definition subscriber_effect :: "bytes \<Rightarrow> mqtt_event \<Rightarrow> subscriber_view \<Rightarrow> subscriber_view" where
  "subscriber_effect topic e v = (case v of (wire, i, evs) \<Rightarrow>
     if accepting e \<and> length (sent_topic topic) \<le> 246
     then (wire @ subscribe_packet i (sent_topic topic), next_message_id i, evs @ [e]) else (wire, i, evs @ [e]))"

text \<open>What a send over an open session leaves of the environment.\<close>

lemma mqtt_downstream_sends:
  assumes "session_open w"
  shows "\<exists>w'. ss_send (mqtt_downstream n) d w = (ERR_OK, w') \<and> session_open w' \<and> session_wire w' = session_wire w @ d \<and>
    map_option s_callback (w_self w') = map_option s_callback (w_self w) \<and>
    mv_receiver (w_env w') = mv_receiver (w_env w) \<and> mv_transmitter (w_env w') = mv_transmitter (w_env w) \<and>
    mv_events (w_env w') = mv_events (w_env w)"
proof -
  obtain s where s: "w_self w = Some s" "\<not> s_closing s" "s_pcb s \<noteq> None" "s_sentBytes s = 0" "e_results (w_env w) = []"
    using session_open_self [OF assms] by blast
  let ?w = "put_self (s\<lparr>s_processing := False\<rparr>) (log_events (map Wrote (chunks (Suc n) d) @ [Output]) w)"
  have w: "ss_send (mqtt_downstream n) d w = (ERR_OK, ?w)"
    using send_logged [of "Suc n" w s "quiet_callback True" d] s
    by (simp add: mqtt_downstream_def session_as_sender_def session_result_def)
  then have "session_open ?w \<and> session_wire ?w = session_wire w @ d"
    using session_wire.send_wire [OF assms, of n "quiet_callback True" d] by (simp add: mqtt_downstream_def)
  moreover have "map_option s_callback (w_self ?w) = map_option s_callback (w_self w)" using s(1) by (simp add: put_self_def)
  moreover have "mv_receiver (w_env ?w) = mv_receiver (w_env w)" "mv_transmitter (w_env ?w) = mv_transmitter (w_env w)"
    "mv_events (w_env ?w) = mv_events (w_env w)" by (simp_all add: mqtt_env_log)
  ultimately show ?thesis using w by blast
qed

lemma with_transmitter_subscribe:
  assumes "subscriber_ready w"
  shows "subscriber_ready (with_transmitter (send_subscribe now (mqtt_downstream n) topic) w) \<and>
    subscriber_seen (with_transmitter (send_subscribe now (mqtt_downstream n) topic) w) =
      (if length (sent_topic topic) \<le> 246
       then (session_wire w @ subscribe_packet (mt_messageId (mv_transmitter (w_env w))) (sent_topic topic),
             next_message_id (mt_messageId (mv_transmitter (w_env w))), mv_events (w_env w))
       else subscriber_seen w)"
proof (cases "length (sent_topic topic) \<le> 246")
  case True
  let ?t = "mv_transmitter (w_env w)" and ?q = "subscribe_packet (mt_messageId (mv_transmitter (w_env w))) (sent_topic topic)"
  obtain w' where w': "ss_send (mqtt_downstream n) ?q w = (ERR_OK, w')" "session_open w'" "session_wire w' = session_wire w @ ?q"
    "map_option s_callback (w_self w') = map_option s_callback (w_self w)" "mv_events (w_env w') = mv_events (w_env w)"
    using mqtt_downstream_sends [of w n ?q] assms by (auto simp: subscriber_ready_def)
  have "send_subscribe now (mqtt_downstream n) topic ?t w = Some (bool_of_err ERR_OK,
      ?t\<lparr>mt_messageId := next_message_id (mt_messageId ?t), mt_lastKeepaliveUs := now\<rparr>, w')"
    using send_subscribe_sends [OF _ True w'(1)] assms by (subst send_subscribe_sent_topic) (simp add: subscriber_ready_def)
  then show ?thesis using True w' assms
    by (simp add: with_transmitter_def subscriber_ready_def subscriber_seen_def)
next
  case False
  have "send_subscribe now (mqtt_downstream n) topic t w = Some (False, t, w)" for t
    using False by (auto simp: length_sent_topic send_subscribe_def MQTT_MAX_HEADER_SIZE_def MQTT_BUFFER_SIZE_def Let_def)
  then show ?thesis using False assms by (simp add: with_transmitter_def put_transmitter_def)
qed

interpretation subscriber: mqtt_application "subscriber_react n now topic" subscriber_ready subscriber_seen "subscriber_effect topic"
  for n now topic
proof
  fix w :: "mqtt_env world" and e h s b k p
  show "subscriber_ready w \<Longrightarrow> session_open w \<and> map_option s_callback (w_self w) = Some True"
    by (simp add: subscriber_ready_def)
  show "subscriber_ready w \<Longrightarrow> subscriber_ready (subscriber_react n now topic e w) \<and>
      subscriber_seen (subscriber_react n now topic e w) = subscriber_effect topic e (subscriber_seen w)"
    using with_transmitter_subscribe [of "note_event e w" now n topic]
    by (auto simp: subscriber_react_def subscriber_effect_def Let_def subscriber_ready_def subscriber_seen_def)
  show "subscriber_ready (put_receiver h w) = subscriber_ready w \<and> subscriber_seen (put_receiver h w) = subscriber_seen w"
    by (simp add: subscriber_ready_def subscriber_seen_def)
  show "w_self w = Some s \<Longrightarrow> subscriber_ready (put_self (s\<lparr>s_processing := b\<rparr>) w) = subscriber_ready w \<and>
      subscriber_seen (put_self (s\<lparr>s_processing := b\<rparr>) w) = subscriber_seen w"
    by (simp add: subscriber_ready_def subscriber_seen_def session_open_def put_self_def session_wire_def)
  show "subscriber_ready (log_events [Recved k, Freed p] w) = subscriber_ready w \<and>
      subscriber_seen (log_events [Recved k, Freed p] w) = subscriber_seen w"
    by (simp add: subscriber_ready_def subscriber_seen_def session_open_def session_wire_log del: log_events_simps)
qed

section \<open>From the connection to the messages\<close>

text \<open>\<open>k\<close> SUBSCRIBE packets, the first with the message id \<open>i\<close>.\<close>

fun subscriptions :: "bytes \<Rightarrow> u16 \<Rightarrow> nat \<Rightarrow> bytes" where
  "subscriptions topic i 0 = []"
| "subscriptions topic i (Suc k) = subscribe_packet i topic @ subscriptions topic (next_message_id i) k"

lemma subscriber_effects:
  assumes "length topic \<le> 246"
  shows "fold (subscriber_effect topic) es (wire, i, evs) =
    (wire @ subscriptions topic i (length (filter accepting es)),
     (next_message_id ^^ length (filter accepting es)) i, evs @ es)"
  using assms by (induction es arbitrary: wire i evs) (simp_all add: subscriber_effect_def sent_topic_short funpow_swap1)

fun accepted_output :: "mqtt_output \<Rightarrow> bool" where
  "accepted_output (Packet p) = accepts p"
| "accepted_output _ = False"

lemma accepting_outputs: "length (filter accepting es) = length (filter accepted_output (mqtt_flat es))"
proof (induction es)
  case (Cons e es)
  then show ?case by (cases e) (simp_all add: filter_map comp_def)
qed simp

lemma accepted_messages: "length (filter accepted_output (concat (map message_outputs ms))) =
    length (filter (\<lambda>m. accepts (message_packet m)) ms)"
  by (induction ms) (simp_all add: message_outputs_def filter_map comp_def)

lemma receiver_reset:
  assumes "length (mq_recvBuffer h) = MQTT_BUFFER_SIZE"
  shows "mqtt_inv (mqtt_reset_receiver h)" "mqtt_abs (mqtt_reset_receiver h) = MHeader []"
  using assms by (simp_all add: mqtt_inv_def mqtt_abs_def mqtt_reset_receiver_def mqtt_parse_def MQTT_BUFFER_SIZE_def)

lemma put_self_self: "w_self (put_self s w) = Some s"
  by (simp add: put_self_def)

lemma subscriber_connects:
  assumes "session_open w" and "map_option s_callback (w_self w) = Some True"
    and "connect_args_ok cid wt wm user pass" and "body = connect_body clean keepalive cid wt wm user pass" and "length body \<le> 251"
  shows "\<exists>w'. session_lwip_connected lw (mqtt_callback now (subscriber n now clean keepalive cid wt wm user pass topic)) ERR_OK w =
      Some (ERR_OK, w') \<and> subscriber_ready w' \<and> mv_receiver (w_env w') = mqtt_reset_receiver (mv_receiver (w_env w)) \<and>
    subscriber_seen w' = (session_wire w @ mqtt_frame 0x10 (length body) body, 1, mv_events (w_env w))"
proof -
  obtain s where s: "w_self w = Some s" "s_callback s" using assms(2) by auto
  let ?h = "mqtt_reset_receiver (mv_receiver (w_env w))"
  let ?t = "(mv_transmitter (w_env w))\<lparr>mt_pendingPing := False, mt_messageId := 1, mt_lastKeepaliveUs := now, mt_pendingSendDataLen := 0\<rparr>"
  let ?w = "put_receiver ?h (put_transmitter ?t (put_self (s\<lparr>s_connected := True\<rparr>) w))"
  have "session_open (put_self (s\<lparr>s_connected := True\<rparr>) w)" using assms(1) s(1) by (simp add: session_open_def put_self_def)
  then have "session_open ?w" by simp
  from mqtt_downstream_sends [OF this, of n "mqtt_frame 0x10 (length body) body"] obtain w' where
    w': "ss_send (mqtt_downstream n) (mqtt_frame 0x10 (length body) body) ?w = (ERR_OK, w')" "session_open w'"
    "session_wire w' = session_wire w @ mqtt_frame 0x10 (length body) body"
    "map_option s_callback (w_self w') = Some True" "mv_receiver (w_env w') = ?h" "mv_events (w_env w') = mv_events (w_env w)"
    using s by (auto simp: put_self_self)
  from send_connect_sends [OF _ assms(3,4,5) w'(1), of ?t now]
  have "with_transmitter (send_connect now (mqtt_downstream n) clean keepalive (Some cid) wt wm user pass) ?w =
      put_transmitter (?t\<lparr>mt_messageId := 1, mt_lastKeepaliveUs := now, mt_keepaliveSeconds := keepalive\<rparr>) w'"
    by (simp add: with_transmitter_def)
  then show ?thesis using s w'
    by (simp add: session_lwip_connected_def mqtt_callback_def mqtt_reset_def subscriber_def mqtt_reacting_def ERR_OK_def
        subscriber_ready_def subscriber_seen_def)
qed

section \<open>Properties\<close>


text \<open>A session whose handler is left in the middle of a payload.\<close>

definition mqtt_world :: "mqtt_env world" where
  "mqtt_world = \<lparr> w_self = w_self open_world, w_num_sessions = 1, w_tls_config = True,
     w_env = \<lparr> e_log = [], e_results = [], mv_receiver = mqtt_receiver_init\<lparr>mq_state := WAIT_DATA, mq_pendingDataLen := 7\<rparr>,
       mv_transmitter = mqtt_transmitter_init\<lparr>mt_pendingSendDataLen := 3, mt_messageId := 9\<rparr>, mv_events = [] \<rparr> \<rparr>"


end
