(* ===== verification/Http_Header.thy ===== *)
theory Http_Header
  imports Prelude
begin

text \<open>
  \<open>HTTPHeader\<close> of \<open>pico_http/http_header.h\<close> and \<open>.cpp\<close>: the parser works in place
  on the received bytes, so the memory \<open>m\<close> is part of the result, a \<open>char *\<close> into it is an
  offset, and the strings the accessors return are what the memory holds behind the offset up to
  the next zero byte. \<^const>\<open>None\<close> is an access outside the memory.
\<close>

section \<open>Data\<close>

definition MAX_HEADERS :: nat where "MAX_HEADERS = 20"

abbreviation SP :: u8 where "SP \<equiv> 0x20"
abbreviation LF :: u8 where "LF \<equiv> 0x0A"
abbreviation CR :: u8 where "CR \<equiv> 0x0D"
abbreviation COLON :: u8 where "COLON \<equiv> 0x3A"
abbreviation SLASH :: u8 where "SLASH \<equiv> 0x2F"

record http_header =
  hh_numHeaders :: nat
  hh_headerSize :: u16
  hh_responseCode :: u16
  hh_first :: "nat option"
  hh_second :: "nat option"
  hh_headerName :: "nat option list"
  hh_headerValue :: "nat option list"

definition http_header_init :: http_header where
  "http_header_init =
     \<lparr> hh_numHeaders = 0, hh_headerSize = 0, hh_responseCode = 0, hh_first = None, hh_second = None,
       hh_headerName = replicate MAX_HEADERS None, hh_headerValue = replicate MAX_HEADERS None \<rparr>"

section \<open>Parsing\<close>

text \<open>\<open>for (; i < len && data[i] != c; ++i) {}\<close>\<close>

function scan_to :: "bytes \<Rightarrow> nat \<Rightarrow> u8 \<Rightarrow> nat \<Rightarrow> nat option" where
  "scan_to m len c i =
     (if i < len then do { b \<leftarrow> mem_read m i; if b \<noteq> c then scan_to m len c (i + 1) else Some i }
      else Some i)"
  by pat_completeness auto
termination by (relation "measure (\<lambda>(_, len, _, i). len - i)") auto

declare scan_to.simps [simp del]

text \<open>The loop over the path or response code: the position, \<open>m_responseCode\<close>, and whether
  it ran to its end (\<open>false\<close> is the \<open>return false\<close> inside it).\<close>

function scan_second :: "bytes \<Rightarrow> nat \<Rightarrow> nat \<Rightarrow> nat \<Rightarrow> u16 \<Rightarrow> (nat \<times> u16 \<times> bool) option" where
  "scan_second m len second i code =
     (if i < len then do {
        b \<leftarrow> mem_read m i;
        if b \<noteq> SP then do {
          s \<leftarrow> mem_read m second;
          if s \<noteq> SLASH then
            (if b < 0x30 \<or> b > 0x39 then Some (i, code, False)
             else scan_second m len second (i + 1) (code * 10 + (ucast s - 0x30)))
          else scan_second m len second (i + 1) code
        } else Some (i, code, True)
      } else Some (i, code, True))"
  by pat_completeness auto
termination by (relation "measure (\<lambda>(_, len, _, i, _). len - i)") auto

declare scan_second.simps [simp del]

definition at_crlf :: "bytes \<Rightarrow> nat \<Rightarrow> bool option" where
  "at_crlf m i = do {
     a \<leftarrow> mem_read m i;
     if a = CR then do { b \<leftarrow> mem_read m (i + 1); Some (b = LF) } else Some False
   }"

text \<open>The search for the end of the header behind the last of \<open>MAX_HEADERS\<close> headers.\<close>

function find_end :: "bytes \<Rightarrow> nat \<Rightarrow> nat \<Rightarrow> nat option option" where
  "find_end m len i =
     (if i + 4 \<le> len then do {
        e1 \<leftarrow> at_crlf m i;
        if e1 then do {
          e2 \<leftarrow> at_crlf m (i + 2);
          if e2 then Some (Some (i + 4)) else find_end m len (i + 1)
        } else find_end m len (i + 1)
      } else Some None)"
  by pat_completeness auto
termination by (relation "measure (\<lambda>(_, len, i). len - i)") auto

declare find_end.simps [simp del]

type_synonym http_result = "(bytes \<times> http_header \<times> bool) option"

function parse_headers :: "bytes \<Rightarrow> nat \<Rightarrow> http_header \<Rightarrow> nat \<Rightarrow> http_result" where
  "parse_headers m len h i =
     (if hh_numHeaders h < MAX_HEADERS then
        (let h = h\<lparr>hh_headerName := (hh_headerName h)[hh_numHeaders h := Some i]\<rparr> in
         do {
           i \<leftarrow> scan_to m len COLON i;
           if i \<ge> len then Some (m, h, False)
           else do {
             m \<leftarrow> mem_write m i 0;
             let i = i + 2;
             let h = h\<lparr>hh_headerValue := (hh_headerValue h)[hh_numHeaders h := Some i]\<rparr>;
             i \<leftarrow> scan_to m len CR i;
             if i \<ge> len then Some (m, h, False)
             else do {
               m \<leftarrow> mem_write m i 0;
               let i = i + 1;
               if i \<ge> len then Some (m, h, False)
               else do {
                 b \<leftarrow> mem_read m i;
                 if b \<noteq> LF then Some (m, h, False)
                 else if i + 2 \<ge> len then Some (m, h, False)
                 else do {
                   let i = i + 1;
                   let h = h\<lparr>hh_numHeaders := hh_numHeaders h + 1\<rparr>;
                   e \<leftarrow> at_crlf m i;
                   if e then Some (m, h\<lparr>hh_headerSize := of_nat (i + 2)\<rparr>, True)
                   else parse_headers m len h i
                 }
               }
             }
           }
         })
      else do {
        e \<leftarrow> find_end m len i;
        (case e of
           Some n \<Rightarrow> Some (m, h\<lparr>hh_headerSize := of_nat n\<rparr>, True)
         | None \<Rightarrow> Some (m, h, False))
      })"
  by pat_completeness auto
termination by (relation "measure (\<lambda>(_, _, h, _). MAX_HEADERS - hh_numHeaders h)") auto

declare parse_headers.simps [simp del]

definition http_parse :: "bytes \<Rightarrow> nat \<Rightarrow> http_header \<Rightarrow> http_result" where
  "http_parse m len h =
     (let h = h\<lparr>hh_numHeaders := 0, hh_responseCode := 0, hh_headerSize := 0, hh_first := Some 0\<rparr> in
      do {
        i \<leftarrow> scan_to m len SP 0;
        if i \<ge> len then Some (m, h, False)
        else do {
          m \<leftarrow> mem_write m i 0;
          let i = i + 1;
          (j, code, ok) \<leftarrow> scan_second m len i i 0;
          let h = h\<lparr>hh_second := Some i, hh_responseCode := code\<rparr>;
          if \<not> ok \<or> j \<ge> len then Some (m, h, False)
          else do {
            m \<leftarrow> mem_write m j 0;
            i \<leftarrow> scan_to m len LF (j + 1);
            let i = i + 1;
            if i + 1 \<ge> len then Some (m, h, False)
            else do {
              e \<leftarrow> at_crlf m i;
              if e then Some (m, h\<lparr>hh_headerSize := of_nat (i + 2)\<rparr>, True)
              else parse_headers m len h i
            }
          }
        }
      })"

section \<open>The accessors\<close>

definition http_is_request :: "bytes \<Rightarrow> http_header \<Rightarrow> bool" where
  "http_is_request m h = (case hh_second h of None \<Rightarrow> False | Some i \<Rightarrow> mem_read m i = Some SLASH)"

definition http_is_response :: "bytes \<Rightarrow> http_header \<Rightarrow> bool" where
  "http_is_response m h = (case hh_second h of None \<Rightarrow> False | Some i \<Rightarrow> mem_read m i \<noteq> Some SLASH)"

definition getCommand :: "bytes \<Rightarrow> http_header \<Rightarrow> bytes option" where
  "getCommand m h = (if http_is_request m h then map_option (c_string m) (hh_first h) else None)"

definition getPath :: "bytes \<Rightarrow> http_header \<Rightarrow> bytes option" where
  "getPath m h = (if http_is_request m h then map_option (c_string m) (hh_second h) else None)"

definition getResponseCode :: "bytes \<Rightarrow> http_header \<Rightarrow> u16" where
  "getResponseCode m h = (if http_is_response m h then hh_responseCode h else 0)"

text \<open>\<open>strcasecmp(a, b) == 0\<close> in the C locale.\<close>

definition ascii_lower :: "u8 \<Rightarrow> u8" where
  "ascii_lower b = (if 0x41 \<le> b \<and> b \<le> 0x5A then b + 0x20 else b)"

definition same_name :: "bytes \<Rightarrow> bytes \<Rightarrow> bool" where
  "same_name a b \<longleftrightarrow> map ascii_lower a = map ascii_lower b"

definition header_at :: "bytes \<Rightarrow> nat option list \<Rightarrow> nat \<Rightarrow> bytes" where
  "header_at m offs k = (case offs ! k of None \<Rightarrow> [] | Some i \<Rightarrow> c_string m i)"

fun find_header :: "bytes \<Rightarrow> http_header \<Rightarrow> bytes \<Rightarrow> nat list \<Rightarrow> bytes option" where
  "find_header m h name [] = None"
| "find_header m h name (k # ks) =
     (if same_name (header_at m (hh_headerName h) k) name then Some (header_at m (hh_headerValue h) k)
      else find_header m h name ks)"

definition getHeaderValue :: "bytes \<Rightarrow> http_header \<Rightarrow> bytes \<Rightarrow> bytes option" where
  "getHeaderValue m h name = find_header m h name [0..<hh_numHeaders h]"

end
