(* ===== verification/Mbedtls_Wrapper.thy ===== *)
theory Mbedtls_Wrapper
  imports Prelude
begin

text \<open>
  \<open>pico_tls/mbedtls_wrapper.c\<close>: SHA-1 and Base64 as the WebSocket handshake uses them. The two
  functions of mbedTLS are parameters: each returns its error code and, where that is 0, the bytes it
  stored; \<open>mbedtls_base64_encode\<close> is given the size of the destination.
\<close>

record mbedtls =
  mb_sha1_ret :: "bytes \<Rightarrow> int \<times> bytes"
  mb_base64_encode :: "nat \<Rightarrow> bytes \<Rightarrow> int \<times> bytes"

definition sha1 :: "mbedtls \<Rightarrow> bytes \<Rightarrow> bytes \<Rightarrow> (int \<times> bytes) option" where
  "sha1 mb inp out =
     (case mb_sha1_ret mb inp of
        (r, digest) \<Rightarrow> if r \<noteq> 0 then Some (r, out) else do { out \<leftarrow> mem_copy out 0 digest; Some (0, out) })"

definition base64_encode :: "mbedtls \<Rightarrow> bytes \<Rightarrow> bytes \<Rightarrow> nat \<Rightarrow> (int \<times> bytes) option" where
  "base64_encode mb src dst dlen =
     (case mb_base64_encode mb (dlen - 1) src of
        (r, enc) \<Rightarrow>
          if r \<noteq> 0 then Some (r, dst)
          else do {
            dst \<leftarrow> mem_copy dst 0 enc;
            dst \<leftarrow> mem_write dst (length enc) 0;
            Some (0, dst)
          })"

end
