(* ===== verification/C_Text.thy ===== *)
theory C_Text
  imports Prelude
begin

text \<open>
  The part of the C library the program formats its messages with: \<open>%d\<close> and \<open>snprintf\<close>.
\<close>

section \<open>Decimal numbers\<close>

fun nat_decimal :: "nat \<Rightarrow> bytes" where
  "nat_decimal n = (if n < 10 then [0x30 + of_nat n] else nat_decimal (n div 10) @ [0x30 + of_nat (n mod 10)])"

declare nat_decimal.simps [simp del]

definition decimal :: "int \<Rightarrow> bytes" where
  "decimal i = (if i < 0 then [0x2D] @ nat_decimal (nat (- i)) else nat_decimal (nat i))"

definition digit_value :: "u8 \<Rightarrow> nat" where
  "digit_value b = unat (b - 0x30)"

definition decimal_value :: "bytes \<Rightarrow> nat" where
  "decimal_value = foldl (\<lambda>n b. 10 * n + digit_value b) 0"

definition is_decimal :: "bytes \<Rightarrow> bool" where
  "is_decimal ds \<longleftrightarrow> ds \<noteq> [] \<and> (\<forall>b\<in>set ds. 0x30 \<le> b \<and> b \<le> 0x39)"

lemma digit_byte:
  assumes "n < 10"
  shows "digit_value (0x30 + of_nat n) = n" and "0x30 \<le> 0x30 + (of_nat n :: u8)" and "0x30 + (of_nat n :: u8) \<le> 0x39"
  using assms by (auto simp: digit_value_def unat_of_nat word_le_nat_alt unat_word_ariths)

lemma nat_decimal_value: "decimal_value (nat_decimal n) = n"
proof (induction n rule: nat_decimal.induct)
  case (1 n)
  show ?case
  proof (cases "n < 10")
    case True
    then show ?thesis by (subst nat_decimal.simps) (simp add: decimal_value_def digit_byte)
  next
    case False
    then have "decimal_value (nat_decimal n) = 10 * decimal_value (nat_decimal (n div 10)) + n mod 10"
      by (subst nat_decimal.simps) (simp add: decimal_value_def digit_byte)
    then show ?thesis using 1 False by simp
  qed
qed

lemma nat_decimal_digits: "is_decimal (nat_decimal n)"
proof (induction n rule: nat_decimal.induct)
  case (1 n)
  then show ?case using digit_byte [of n] digit_byte [of "n mod 10"]
    by (subst nat_decimal.simps) (auto simp: is_decimal_def)
qed

lemma decimal_not_special:
  assumes "is_decimal ds" and "b < 0x30 \<or> 0x39 < b"
  shows "b \<notin> set ds"
  using assms by (auto simp: is_decimal_def not_less [symmetric])

section \<open>Widths and hexadecimal numbers\<close>

text \<open>\<open>%3d\<close>: padded with blanks on the left. \<open>%x\<close> and \<open>%08x\<close> of 32 bits.\<close>

definition pad_left :: "nat \<Rightarrow> bytes \<Rightarrow> bytes" where
  "pad_left n s = replicate (n - length s) 0x20 @ s"

definition hex_digit :: "nat \<Rightarrow> u8" where
  "hex_digit d = (if d < 10 then 0x30 + of_nat d else 0x57 + of_nat d)"

definition hex8 :: "u32 \<Rightarrow> bytes" where
  "hex8 x = map (\<lambda>k. hex_digit (unat (drop_bit (4 * k) x AND 0xF))) [7, 6, 5, 4, 3, 2, 1, 0]"

definition hex :: "u32 \<Rightarrow> bytes" where
  "hex x = (case dropWhile (\<lambda>b. b = 0x30) (hex8 x) of [] \<Rightarrow> [0x30] | ds \<Rightarrow> ds)"

lemma length_hex8 [simp]: "length (hex8 x) = 8"
  by (simp add: hex8_def)

section \<open>Format strings\<close>

text \<open>The conversions the program uses: \<open>%s\<close>, \<open>%.*s\<close>, \<open>%d\<close> and \<open>%08x\<close>. A conversion without a
  fitting argument ends the text (it is undefined in C).\<close>

datatype fmt_arg = Str bytes | Word u32 | Num int

fun c_format :: "string \<Rightarrow> fmt_arg list \<Rightarrow> bytes" where
  "c_format [] args = []"
| "c_format (c # cs) args =
     (if c \<noteq> CHR 0x25 then of_char c # c_format cs args
      else if take 1 cs = ''s'' then
        (case args of Str s # args \<Rightarrow> s @ c_format (drop 1 cs) args | _ \<Rightarrow> [])
      else if take 3 cs = ''.*s'' then
        (case args of Num n # Str s # args \<Rightarrow> take (nat n) s @ c_format (drop 3 cs) args | _ \<Rightarrow> [])
      else if take 1 cs = ''d'' then
        (case args of Num n # args \<Rightarrow> decimal n @ c_format (drop 1 cs) args | _ \<Rightarrow> [])
      else if take 3 cs = ''08x'' then
        (case args of Word w # args \<Rightarrow> hex8 w @ c_format (drop 3 cs) args | _ \<Rightarrow> [])
      else [])"

lemma c_format_plain: "CHR 0x25 \<notin> set s \<Longrightarrow> c_format s args = ascii s"
  by (induction s) (auto simp: ascii_def)

section \<open>snprintf\<close>

text \<open>The text to be written is complete; at most \<open>size - 1\<close> bytes of it and a terminator are
  stored, and its length is returned.\<close>

definition snprintf :: "bytes \<Rightarrow> nat \<Rightarrow> nat \<Rightarrow> bytes \<Rightarrow> (bytes \<times> nat) option" where
  "snprintf m at n txt =
     (if n = 0 then Some (m, length txt)
      else do { m \<leftarrow> mem_copy m at (take (n - 1) txt @ [0]); Some (m, length txt) })"

end
