(* ===== verification/Http_Session.thy ===== *)
theory Http_Session
  imports Http_Header Web_Socket Session_Interface Mbedtls_Wrapper C_Text
begin

text \<open>
  \<open>HTTPSession\<close> of \<open>pico_http/http_session.h\<close> and \<open>.cpp\<close>: the server side of a
  connection, which parses the header of a request, hands the request and its body to the virtual
  methods of the application and, once the application has accepted a WebSocket, decodes frames. The
  object is \<open>http_session\<close>; its \<open>Session\<close> and the application's data are the state
  \<open>'d\<close> below. The decoder of the frames is an argument of its own, since the virtual methods
  never change it.
\<close>

section \<open>Data\<close>

datatype http_session_state = INIT | HEADER_RECEIVED | WEBSOCKET_ESTABLISHED | FAIL

text \<open>\<open>ht_memory\<close> is the received data the pointers of \<open>m_header\<close> point into.\<close>

record 'd http_session =
  ht_state :: http_session_state
  ht_header :: http_header
  ht_memory :: bytes
  ht_below :: 'd

definition http_session_create :: "'d \<Rightarrow> 'd http_session" where
  "http_session_create d = \<lparr> ht_state = INIT, ht_header = http_header_init, ht_memory = [], ht_below = d \<rparr>"

text \<open>The virtual methods, and what the base class makes of them.\<close>

record 'd http_handlers =
  onRequestReceived :: "'d http_session \<Rightarrow> bool \<times> 'd http_session"
  onHttpData :: "bytes \<Rightarrow> 'd http_session \<Rightarrow> bool \<times> 'd http_session"
  onHttpWebSocketData :: "bytes \<Rightarrow> 'd http_session \<Rightarrow> bool \<times> 'd http_session"

definition http_session_base :: "'d http_handlers" where
  "http_session_base = \<lparr> onRequestReceived = (\<lambda>s. (False, s)), onHttpData = (\<lambda>d s. (False, s)),
     onHttpWebSocketData = (\<lambda>d s. (False, s)) \<rparr>"

section \<open>Sending\<close>

definition http_session_send :: "'d session_sender \<Rightarrow> bytes \<Rightarrow> 'd http_session \<Rightarrow> err \<times> 'd http_session" where
  "http_session_send snd0 d s = (case ss_send snd0 d (ht_below s) of (e, b) \<Rightarrow> (e, s\<lparr>ht_below := b\<rparr>))"

definition http_encoded_data :: "'d session_sender \<Rightarrow> bytes \<Rightarrow> 'd http_session \<Rightarrow> bool \<times> 'd http_session" where
  "http_encoded_data snd0 d s =
     (case http_session_send snd0 d s of (e, s) \<Rightarrow> if e \<noteq> ERR_OK then (False, s) else (True, s))"

text \<open>The object as the \<open>WebSocketInterface\<close> of its decoder.\<close>

definition http_web_socket ::
    "'d http_handlers \<Rightarrow> 'd session_sender \<Rightarrow> 'd http_session web_socket_interface" where
  "http_web_socket app snd0 = \<lparr> onWebSocketData = onHttpWebSocketData app,
     onWebsocketEncodedData = http_encoded_data snd0, onFinishedPacket = (\<lambda>s. (True, s)) \<rparr>"

definition sendWebSocketData ::
    "'d http_handlers \<Rightarrow> 'd session_sender \<Rightarrow> bytes \<Rightarrow> 'd http_session \<Rightarrow> bool \<times> 'd http_session" where
  "sendWebSocketData app snd0 body s = (case encodeData (http_web_socket app snd0) s body of
     (ok, s) \<Rightarrow> if \<not> ok then (False, s) else (True, s))"

text \<open>\<open>sendHttpReply\<close>; a body is the memory it points to, and sending more of it than there is is
  an access out of bounds. The local buffer holds zeros where C leaves it unset.\<close>

definition http_reply_header :: "bytes \<Rightarrow> int \<Rightarrow> bytes" where
  "http_reply_header extra_headers body_len =
     ascii ''HTTP/1.0 200 OK'' @ [CR, LF] @ extra_headers @ ascii ''Content-Length: '' @ decimal body_len @ [CR, LF, CR, LF]"

definition sendHttpReply ::
    "'d session_sender \<Rightarrow> bytes \<Rightarrow> bytes option \<Rightarrow> int \<Rightarrow> 'd http_session \<Rightarrow> (bool \<times> 'd http_session) option" where
  "sendHttpReply snd0 extra_headers body body_len s = do {
     (buffer, n) \<leftarrow> snprintf (replicate 128 0) 0 128 (http_reply_header extra_headers body_len);
     if n \<ge> 128 then Some (False, s)
     else do {
       header \<leftarrow> mem_slice buffer 0 n;
       (case http_session_send snd0 header s of
          (e, s) \<Rightarrow>
            if e \<noteq> ERR_OK then Some (False, s)
            else (case body of
                    None \<Rightarrow> Some (True, s)
                  | Some b \<Rightarrow> do {
                      d \<leftarrow> (if body_len < 0 then None else mem_slice b 0 (nat body_len));
                      (case http_session_send snd0 d s of
                         (e, s) \<Rightarrow> if e \<noteq> ERR_OK then Some (False, s) else Some (True, s))
                    }))
     }
   }"

section \<open>The WebSocket handshake\<close>

definition websocket_guid :: bytes where
  "websocket_guid = ascii ''258EAFA5-E914-47DA-95CA-C5AB0DC85B11''"

definition websocket_reply :: "bytes \<Rightarrow> bytes" where
  "websocket_reply accept =
     ascii ''HTTP/1.1 101 Switching Protocols'' @ [CR, LF] @ ascii ''Upgrade: websocket'' @ [CR, LF]
     @ ascii ''Connection: Upgrade'' @ [CR, LF] @ ascii ''Sec-WebSocket-Accept: '' @ accept @ [CR, LF, CR, LF]"

definition acceptWebSocket ::
    "mbedtls \<Rightarrow> 'd session_sender \<Rightarrow> 'd http_session \<Rightarrow> (bool \<times> 'd http_session) option" where
  "acceptWebSocket mb snd0 s =
     (case getHeaderValue (ht_memory s) (ht_header s) (ascii ''Sec-WebSocket-Key'') of
        None \<Rightarrow> Some (False, s)
      | Some websocket_key \<Rightarrow>
          (let len = length websocket_key in
           if len + 1 \<ge> 128 - length websocket_guid then Some (False, s)
           else do {
             buffer \<leftarrow> mem_copy (replicate 128 0) 0 websocket_key;
             buffer \<leftarrow> mem_copy buffer len (websocket_guid @ [0]);
             inp \<leftarrow> mem_slice buffer 0 (len + length websocket_guid);
             (e, sha1sum) \<leftarrow> sha1 mb inp (replicate 20 0);
             if e \<noteq> 0 then Some (False, s)
             else do {
               (e, buffer) \<leftarrow> base64_encode mb sha1sum buffer 128;
               if e \<noteq> 0 then Some (False, s)
               else do {
                 (reply, n) \<leftarrow> snprintf (replicate 256 0) 0 256 (websocket_reply (c_string buffer 0));
                 if n \<ge> 256 \<or> n = 0 then Some (False, s)
                 else do {
                   d \<leftarrow> mem_slice reply 0 n;
                   (case http_session_send snd0 d s of
                      (e, s) \<Rightarrow>
                        if e \<noteq> ERR_OK then Some (False, s)
                        else Some (True, s\<lparr>ht_state := WEBSOCKET_ESTABLISHED\<rparr>))
                 }
               }
             }
           }))"

section \<open>The notifications of the session\<close>

definition http_session_on_recv ::
    "'d http_handlers \<Rightarrow> 'd session_sender \<Rightarrow> web_socket_handler \<Rightarrow> 'd http_session \<Rightarrow> bytes \<Rightarrow>
     (web_socket_handler \<times> 'd http_session \<times> bool) option" where
  "http_session_on_recv app snd0 ws s data =
     (case ht_state s of
        INIT \<Rightarrow> do {
          (m, h, parsed) \<leftarrow> http_parse data (length data) (ht_header s);
          let s = s\<lparr>ht_memory := m, ht_header := h\<rparr>;
          if \<not> parsed then Some (ws, s, False)
          else
            (case onRequestReceived app (s\<lparr>ht_state := HEADER_RECEIVED\<rparr>) of
               (ok, s) \<Rightarrow>
                 if \<not> ok then Some (ws, s, False)
                 else
                   (let size = unat (hh_headerSize (ht_header s)) in
                    if size > length data then None
                    else if size < length data then
                      (case onHttpData app (drop size m) s of (ok, s) \<Rightarrow> Some (ws, s, ok))
                    else Some (ws, s, True)))
        }
      | HEADER_RECEIVED \<Rightarrow> (case onHttpData app data s of (ok, s) \<Rightarrow> Some (ws, s, ok))
      | WEBSOCKET_ESTABLISHED \<Rightarrow> decodeData (http_web_socket app snd0) ws s data
      | FAIL \<Rightarrow> Some (ws, s, False))"

definition http_session_on_sent :: "u16 \<Rightarrow> 'd http_session \<Rightarrow> bool \<times> 'd http_session" where
  "http_session_on_sent len s = (True, s)"

definition http_session_close :: "'d session_sender \<Rightarrow> 'd http_session \<Rightarrow> 'd http_session" where
  "http_session_close snd0 s =
     (let s = s\<lparr>ht_state := FAIL\<rparr> in s\<lparr>ht_below := snd (ss_close snd0 (ht_below s))\<rparr>)"

definition http_session_buffer_size :: "'d session_sender \<Rightarrow> 'd http_session \<Rightarrow> u16" where
  "http_session_buffer_size snd0 s = ss_send_buffer_size snd0 (ht_below s)"

end
