(* ===== verification/Http_Request.thy ===== *)
theory Http_Request
  imports Http_Session
begin

text \<open>
  \<open>HTTPRequest\<close> of \<open>pico_http/http_request.h\<close> and \<open>.cpp\<close>: the client side. Host name and
  request are formatted into one 1002-byte buffer, the host as a C string in front, and sent when the
  connection is up. Strings are their characters, \<^const>\<open>None\<close> for a null pointer; the connection
  is the state \<open>'d\<close> below; \<^const>\<open>None\<close> as a result is an access outside the buffer.
\<close>

section \<open>Data\<close>

definition MAX_HEADER_SIZE :: nat where "MAX_HEADER_SIZE = 1000"

record 'd http_request =
  rq_state :: http_session_state
  rq_port :: u16
  rq_headerStart :: u16
  rq_headerIndex :: u16
  rq_header :: bytes
  rq_body :: "bytes option"
  rq_below :: 'd

text \<open>\<open>Session\<close> as the request uses it, and the callbacks of \<open>IHttpCallback\<close>.\<close>

record 'd connection = "'d session_sender" +
  co_set_tls :: "bool \<Rightarrow> 'd \<Rightarrow> 'd"

record 'd http_callback =
  onHeaderReceived :: "bytes \<Rightarrow> http_header \<Rightarrow> 'd http_request \<Rightarrow> bool \<times> 'd http_request"
  onResponseData :: "bytes \<Rightarrow> 'd http_request \<Rightarrow> bool \<times> 'd http_request"
  onRequestDestroyed :: "'d http_request \<Rightarrow> 'd http_request"

section \<open>Building the request\<close>

definition request_line :: "bytes \<Rightarrow> bytes \<Rightarrow> bytes \<Rightarrow> u16 \<Rightarrow> bytes" where
  "request_line command path host port =
     command @ [SP] @ path @ ascii '' HTTP/1.1'' @ [CR, LF] @ ascii ''Host: '' @ host @ [COLON]
     @ decimal (uint port) @ [CR, LF]"

text \<open>The constructor. \<open>m_state\<close> and the buffer have no initialiser: \<open>state0\<close> and \<open>memory0\<close> are
  what the memory of the object held.\<close>

definition http_request_create ::
    "'d connection \<Rightarrow> http_session_state \<Rightarrow> bytes \<Rightarrow> bytes option \<Rightarrow> u16 \<Rightarrow> bool \<Rightarrow> bytes option \<Rightarrow> bytes option \<Rightarrow> 'd \<Rightarrow>
     'd http_request option" where
  "http_request_create co state0 memory0 host0 port tls command0 path0 d =
     (let r = \<lparr> rq_state = state0, rq_port = 443, rq_headerStart = 0, rq_headerIndex = 0, rq_header = memory0,
                rq_body = None, rq_below = co_set_tls co tls d \<rparr> in
      case (host0, command0, path0) of
        (Some host, Some command, Some path) \<Rightarrow>
          if port = 0 then Some (r\<lparr>rq_state := FAIL\<rparr>)
          else do {
            (m, n) \<leftarrow> snprintf (rq_header r) 0 MAX_HEADER_SIZE host;
            let r = r\<lparr>rq_header := m, rq_headerIndex := of_nat n\<rparr>;
            if unat (rq_headerIndex r) \<ge> MAX_HEADER_SIZE - 2 then Some (r\<lparr>rq_state := FAIL\<rparr>)
            else do {
              let r = r\<lparr>rq_headerIndex := rq_headerIndex r + 1\<rparr>;
              let r = r\<lparr>rq_headerStart := rq_headerIndex r, rq_port := port\<rparr>;
              (m, written) \<leftarrow> snprintf (rq_header r) (unat (rq_headerIndex r))
                (MAX_HEADER_SIZE - unat (rq_headerIndex r)) (request_line command path host port);
              let r = r\<lparr>rq_header := m\<rparr>;
              if unat (rq_headerIndex r) + written \<ge> MAX_HEADER_SIZE - 2
              then Some (r\<lparr>rq_headerIndex := of_nat MAX_HEADER_SIZE, rq_state := FAIL\<rparr>)
              else Some (r\<lparr>rq_headerIndex := rq_headerIndex r + of_nat written\<rparr>)
            }
          }
      | _ \<Rightarrow> Some (r\<lparr>rq_state := FAIL\<rparr>))"

text \<open>What \<open>addHeader\<close> and \<open>setBody\<close> end with: a line is appended to the buffer, which counts as
  full once a line did not fit.\<close>

definition append_line :: "bytes \<Rightarrow> 'd http_request \<Rightarrow> (bool \<times> 'd http_request) option" where
  "append_line line r = do {
     (m, written) \<leftarrow> snprintf (rq_header r) (unat (rq_headerIndex r)) (MAX_HEADER_SIZE - unat (rq_headerIndex r)) line;
     let r = r\<lparr>rq_header := m\<rparr>;
     if unat (rq_headerIndex r) + written \<ge> MAX_HEADER_SIZE
     then Some (False, r\<lparr>rq_headerIndex := of_nat MAX_HEADER_SIZE\<rparr>)
     else Some (True, r\<lparr>rq_headerIndex := rq_headerIndex r + of_nat written\<rparr>)
   }"

definition addHeader :: "bytes \<Rightarrow> bytes \<Rightarrow> 'd http_request \<Rightarrow> (bool \<times> 'd http_request) option" where
  "addHeader header value r =
     (if rq_state r = FAIL then Some (False, r)
      else if unat (rq_headerIndex r) \<ge> MAX_HEADER_SIZE then Some (False, r)
      else append_line (header @ [COLON, SP] @ value @ [CR, LF]) r)"

text \<open>\<open>setBody\<close>, where \<open>malloc\<close> succeeds; the length is a \<open>size_t\<close> printed with \<open>%d\<close>.\<close>

definition setBody :: "bytes \<Rightarrow> 'd http_request \<Rightarrow> (bool \<times> 'd http_request) option" where
  "setBody data r =
     (if rq_state r = FAIL then Some (False, r)
      else if unat (rq_headerIndex r) \<ge> MAX_HEADER_SIZE then Some (False, r)
      else if rq_body r \<noteq> None then Some (False, r)
      else append_line (ascii ''Content-Length: '' @ decimal (sint (of_nat (length data) :: u32)) @ [CR, LF])
             (r\<lparr>rq_body := Some data\<rparr>))"

section \<open>Sending it\<close>

definition http_request_send :: "'d connection \<Rightarrow> 'd http_request \<Rightarrow> (bool \<times> 'd http_request) option" where
  "http_request_send co r =
     (if rq_state r = FAIL then Some (False, r)
      else if rq_port r = 0 then Some (False, r)
      else if unat (rq_headerIndex r) \<ge> MAX_HEADER_SIZE - 3 then Some (False, r)
      else do {
        m \<leftarrow> mem_write (rq_header r) (unat (rq_headerIndex r)) CR;
        m \<leftarrow> mem_write m (unat (rq_headerIndex r + 1)) LF;
        m \<leftarrow> mem_write m (unat (rq_headerIndex r + 2)) 0;
        let r = r\<lparr>rq_header := m, rq_headerIndex := rq_headerIndex r + 3\<rparr>;
        (case ss_connect co (c_string m 0) (rq_port r) (rq_below r) of
           (e, d) \<Rightarrow> Some (e = ERR_OK, r\<lparr>rq_below := d\<rparr>))
      })"

definition http_request_on_connected :: "'d connection \<Rightarrow> 'd http_request \<Rightarrow> 'd http_request option" where
  "http_request_on_connected co r = do {
     let n = uint (rq_headerIndex r) - uint (rq_headerStart r) - 1;
     header \<leftarrow> (if n < 0 then None else mem_slice (rq_header r) (unat (rq_headerStart r)) (nat n));
     let d = snd (ss_send co header (rq_below r));
     Some (r\<lparr>rq_below := (case rq_body r of
        None \<Rightarrow> d
      | Some body \<Rightarrow> if length body > 0 then snd (ss_send co body d) else d)\<rparr>)
   }"

section \<open>The response\<close>

definition http_request_on_recv ::
    "'d http_callback option \<Rightarrow> 'd http_request \<Rightarrow> bytes \<Rightarrow> (bool \<times> 'd http_request) option" where
  "http_request_on_recv cb0 r data =
     (case rq_state r of
        INIT \<Rightarrow> do {
          (m, h, parsed) \<leftarrow> http_parse data (length data) http_header_init;
          if \<not> parsed then Some (False, r)
          else
            (let r = r\<lparr>rq_state := HEADER_RECEIVED\<rparr>;
                 (ok, r) = (case cb0 of None \<Rightarrow> (True, r) | Some cb \<Rightarrow> onHeaderReceived cb m h r) in
             if \<not> ok then Some (False, r)
             else
               (let size = unat (hh_headerSize h) in
                if size > length data then None
                else (case cb0 of
                        None \<Rightarrow> Some (True, r)
                      | Some cb \<Rightarrow>
                          if size < length data then Some (onResponseData cb (drop size m) r)
                          else Some (True, r))))
        }
      | HEADER_RECEIVED \<Rightarrow> (case cb0 of None \<Rightarrow> Some (True, r) | Some cb \<Rightarrow> Some (onResponseData cb data r))
      | WEBSOCKET_ESTABLISHED \<Rightarrow> Some (True, r)
      | FAIL \<Rightarrow> Some (False, r))"

text \<open>The destructor, which \<open>on_closed\<close> runs.\<close>

definition http_request_on_closed :: "'d http_callback option \<Rightarrow> 'd http_request \<Rightarrow> 'd http_request" where
  "http_request_on_closed cb0 r =
     (let r = r\<lparr>rq_body := None\<rparr> in case cb0 of None \<Rightarrow> r | Some cb \<Rightarrow> onRequestDestroyed cb r)"

end
