(* ===== verification/Http_Header_Spec.thy ===== *)
theory Http_Header_Spec
  imports Http_Header
begin

text \<open>
  The HTTP header parser: it stays inside the received bytes and terminates on every input, what
  it hands out ends inside the header, and it reads back what a peer renders.
\<close>

section \<open>The loops stay inside the data\<close>

lemma scan_to_total:
  "len \<le> length m \<Longrightarrow> \<exists>j. scan_to m len c i = Some j \<and> i \<le> j \<and> (i \<le> len \<longrightarrow> j \<le> len)"
proof (induction "len - i" arbitrary: i)
  case 0
  then show ?case by (simp add: scan_to.simps [of m len c i])
next
  case (Suc n)
  then have r: "i < len" "mem_read m i = Some (m ! i)" by (simp_all add: mem_read_def)
  from Suc have "n = len - (i + 1)" by simp
  from Suc.hyps(1) [OF this Suc.prems] r show ?case
    by (cases "m ! i = c") (auto simp: scan_to.simps [of m len c i])
qed

lemma scan_second_total:
  "len \<le> length m \<Longrightarrow> second \<le> i \<Longrightarrow>
   \<exists>j code' ok. scan_second m len second i code = Some (j, code', ok) \<and> i \<le> j \<and> (i \<le> len \<longrightarrow> j \<le> len)"
proof (induction "len - i" arbitrary: i code)
  case 0
  then show ?case by (auto simp: scan_second.simps [of m len second i])
next
  case (Suc n)
  then have r: "i < len" "mem_read m i = Some (m ! i)" "mem_read m second = Some (m ! second)"
    by (simp_all add: mem_read_def)
  have n: "n = len - (i + 1)" "second \<le> i + 1" using Suc by simp_all
  note IH = Suc.hyps(1) [OF n(1) Suc.prems(1) n(2)]
  show ?case
    using IH [of code] IH [of "code * 10 + (ucast (m ! second) - 0x30)"] r
    by (auto simp: scan_second.simps [of m len second i])
qed

lemma at_crlf_total: "i + 1 < length m \<Longrightarrow> \<exists>e. at_crlf m i = Some e"
  by (simp add: at_crlf_def mem_read_def)

lemma find_end_total:
  "len \<le> length m \<Longrightarrow> \<exists>e. find_end m len i = Some e \<and> (\<forall>n. e = Some n \<longrightarrow> i + 4 \<le> n \<and> n \<le> len)"
proof (induction "len - i" arbitrary: i)
  case 0
  then show ?case by (simp add: find_end.simps [of m len i])
next
  case (Suc k)
  then have n: "k = len - (i + 1)" by simp
  note IH = Suc.hyps(1) [OF n Suc.prems]
  show ?case
  proof (cases "i + 4 \<le> len")
    case True
    then obtain e1 e2 where "at_crlf m i = Some e1" "at_crlf m (i + 2) = Some e2"
      using Suc.prems at_crlf_total [of i m] at_crlf_total [of "i + 2" m] by auto
    with True IH show ?thesis by (auto simp: find_end.simps [of m len i])
  qed (simp add: find_end.simps [of m len i])
qed

section \<open>What the parser hands out\<close>

text \<open>A string at \<open>off\<close> ends before \<open>n\<close>; writing zero bytes keeps that.\<close>

definition ends_before :: "bytes \<Rightarrow> nat \<Rightarrow> nat \<Rightarrow> bool" where
  "ends_before m n off \<longleftrightarrow> (\<exists>z. off \<le> z \<and> z < n \<and> m ! z = 0)"

lemma ends_before_write: "ends_before m n off \<Longrightarrow> z < length m \<Longrightarrow> ends_before (m[z := 0]) n off"
  by (auto simp: ends_before_def nth_list_update)

lemma ends_before_mono: "ends_before m n off \<Longrightarrow> n \<le> n' \<Longrightarrow> ends_before m n' off"
  by (auto simp: ends_before_def intro: less_le_trans)

lemma ends_before_at: "off \<le> z \<Longrightarrow> z < n \<Longrightarrow> z < length m \<Longrightarrow> ends_before (m[z := 0]) n off"
  by (auto simp: ends_before_def)

text \<open>The parsed headers so far, all of them ending before \<open>n\<close>.\<close>

definition headers_ok :: "bytes \<Rightarrow> nat \<Rightarrow> http_header \<Rightarrow> bool" where
  "headers_ok m n h \<longleftrightarrow>
     hh_numHeaders h \<le> MAX_HEADERS \<and> length (hh_headerName h) = MAX_HEADERS
     \<and> length (hh_headerValue h) = MAX_HEADERS
     \<and> (\<forall>k < hh_numHeaders h. \<exists>a b. hh_headerName h ! k = Some a \<and> hh_headerValue h ! k = Some b
          \<and> ends_before m n a \<and> ends_before m n b)
     \<and> (\<forall>off. hh_first h = Some off \<or> hh_second h = Some off \<longrightarrow> ends_before m n off)"

definition safe_result :: "bytes \<Rightarrow> nat \<Rightarrow> http_result \<Rightarrow> bool" where
  "safe_result m len r \<longleftrightarrow>
     (\<exists>m' h' ok. r = Some (m', h', ok) \<and> length m' = length m \<and> drop len m' = drop len m
        \<and> hh_numHeaders h' \<le> MAX_HEADERS
        \<and> (ok \<longrightarrow> headers_ok m' len h' \<and> (\<exists>n. hh_headerSize h' = of_nat n \<and> n \<le> len \<and> headers_ok m' n h')))"

lemma headers_ok_write: "headers_ok m n h \<Longrightarrow> z < length m \<Longrightarrow> headers_ok (m[z := 0]) n h"
  unfolding headers_ok_def using ends_before_write by blast

lemma headers_ok_mono: "headers_ok m n h \<Longrightarrow> n \<le> n' \<Longrightarrow> headers_ok m n' h"
  unfolding headers_ok_def using ends_before_mono by blast

lemma headers_ok_size [simp]: "headers_ok m n (h\<lparr>hh_headerSize := s\<rparr>) \<longleftrightarrow> headers_ok m n h"
  by (simp add: headers_ok_def)

lemma headers_ok_add:
  assumes "headers_ok m n h" and "hh_numHeaders h < MAX_HEADERS" and "ends_before m n a" and "ends_before m n b"
  shows "headers_ok m n (h\<lparr>hh_headerName := (hh_headerName h)[hh_numHeaders h := Some a],
    hh_headerValue := (hh_headerValue h)[hh_numHeaders h := Some b], hh_numHeaders := hh_numHeaders h + 1\<rparr>)"
  using assms by (auto simp: headers_ok_def less_Suc_eq)

lemma safe_result_false:
  "hh_numHeaders h \<le> MAX_HEADERS \<Longrightarrow> length m' = length m \<Longrightarrow> drop len m' = drop len m \<Longrightarrow>
   safe_result m len (Some (m', h, False))"
  unfolding safe_result_def by blast

lemma safe_result_true:
  assumes "headers_ok m' n h" and "n \<le> len" and "length m' = length m" and "drop len m' = drop len m"
  shows "safe_result m len (Some (m', h\<lparr>hh_headerSize := of_nat n\<rparr>, True))"
proof -
  have "hh_numHeaders h \<le> MAX_HEADERS" using assms(1) by (simp add: headers_ok_def)
  with assms headers_ok_mono [OF assms(1,2)] show ?thesis by (auto simp: safe_result_def)
qed

lemma safe_result_trans:
  "safe_result m' len r \<Longrightarrow> length m' = length m \<Longrightarrow> drop len m' = drop len m \<Longrightarrow> safe_result m len r"
  by (simp add: safe_result_def)

lemma parse_headers_safe:
  "len \<le> length m \<Longrightarrow> headers_ok m i h \<Longrightarrow> i \<le> len \<Longrightarrow> safe_result m len (parse_headers m len h i)"
proof (induction "MAX_HEADERS - hh_numHeaders h" arbitrary: m h i)
  case 0
  then have "\<not> hh_numHeaders h < MAX_HEADERS" by simp
  moreover obtain e where "find_end m len i = Some e" "\<forall>n. e = Some n \<longrightarrow> i + 4 \<le> n \<and> n \<le> len"
    using find_end_total [OF 0(2)] by blast
  ultimately show ?case
    using 0 headers_ok_mono [OF 0(3)]
    by (cases e) (auto simp: parse_headers.simps [of m len h i] headers_ok_def [of m i h]
        intro!: safe_result_false safe_result_true)
next
  case (Suc k)
  then have n: "hh_numHeaders h < MAX_HEADERS" by simp
  obtain j where j: "scan_to m len COLON i = Some j" "i \<le> j" using scan_to_total [OF Suc.prems(1)] by blast
  show ?case
  proof (cases "j < len")
    case False
    with n j show ?thesis by (auto simp: parse_headers.simps [of m len h i] intro!: safe_result_false)
  next
    case jl: True
    let ?m1 = "m[j := 0]"
    have w1: "mem_write m j 0 = Some ?m1" using jl Suc.prems(1) by (simp add: mem_write_def)
    obtain l where l: "scan_to ?m1 len CR (j + 2) = Some l" "j + 2 \<le> l"
      using scan_to_total [of len ?m1 CR "j + 2"] Suc.prems(1) by auto
    show ?thesis
    proof (cases "l < len")
      case False
      with n j w1 l jl show ?thesis
        by (auto simp: parse_headers.simps [of m len h i] intro!: safe_result_false)
    next
      case ll: True
      let ?m2 = "?m1[l := 0]"
      have w2: "mem_write ?m1 l 0 = Some ?m2" using ll Suc.prems(1) by (simp add: mem_write_def)
      let ?h1 = "h\<lparr>hh_headerName := (hh_headerName h)[hh_numHeaders h := Some i],
          hh_headerValue := (hh_headerValue h)[hh_numHeaders h := Some (j + 2)]\<rparr>"
      show ?thesis
      proof (cases "l + 1 < len \<and> ?m2 ! (l + 1) = LF \<and> l + 3 < len")
        case False
        then have "l + 1 < len \<Longrightarrow> mem_read ?m2 (l + 1) = Some (?m2 ! (l + 1))"
          using Suc.prems(1) by (simp add: mem_read_def)
        with False n j w1 l w2 jl ll show ?thesis
          by (cases "l + 1 < len") (auto simp: parse_headers.simps [of m len h i] Let_def intro!: safe_result_false)
      next
        case True
        then have r: "mem_read ?m2 (l + 1) = Some LF" using Suc.prems(1) by (simp add: mem_read_def)
        let ?h2 = "?h1\<lparr>hh_numHeaders := hh_numHeaders h + 1\<rparr>"
        obtain e where e: "at_crlf ?m2 (l + 2) = Some e"
          using at_crlf_total [of "l + 2" ?m2] True Suc.prems(1) by auto
        have "headers_ok ?m2 i h" using Suc.prems(1,2) jl ll by (simp add: headers_ok_write)
        then have ok0: "headers_ok ?m2 (l + 2) h" by (rule headers_ok_mono) (use j l in simp)
        have a: "ends_before ?m2 (l + 2) i" and b: "ends_before ?m2 (l + 2) (j + 2)"
          using j l jl ll Suc.prems(1)
          by (auto intro!: ends_before_write [OF ends_before_at] ends_before_at)
        have ok: "headers_ok ?m2 (l + 2) ?h2" using headers_ok_add [OF ok0 n a b] by simp
        have "parse_headers m len h i =
            (if e then Some (?m2, ?h2\<lparr>hh_headerSize := of_nat (l + 2 + 2)\<rparr>, True) else parse_headers ?m2 len ?h2 (l + 2))"
          using n j w1 l w2 jl ll True r e by (simp add: parse_headers.simps [of m len h i] Let_def del: of_nat_add)
        moreover have "safe_result m len (Some (?m2, ?h2\<lparr>hh_headerSize := of_nat (l + 2 + 2)\<rparr>, True))"
          by (rule safe_result_true [OF headers_ok_mono [OF ok]]) (use True jl ll in auto)
        moreover have "safe_result ?m2 len (parse_headers ?m2 len ?h2 (l + 2))"
          by (rule Suc.hyps(1)) (use Suc n ok True in auto)
        then have "safe_result m len (parse_headers ?m2 len ?h2 (l + 2))"
          by (rule safe_result_trans) (use jl ll in auto)
        ultimately show ?thesis by simp
      qed
    qed
  qed
qed


lemma http_parse_safe:
  assumes len: "len \<le> length m" and h0: "length (hh_headerName h0) = MAX_HEADERS" "length (hh_headerValue h0) = MAX_HEADERS"
  shows "safe_result m len (http_parse m len h0)"
proof -
  let ?h = "h0\<lparr>hh_numHeaders := 0, hh_responseCode := 0, hh_headerSize := 0, hh_first := Some 0\<rparr>"
  obtain i where i: "scan_to m len SP 0 = Some i" using scan_to_total [OF len] by blast
  show ?thesis
  proof (cases "i < len")
    case False
    with i show ?thesis by (auto simp: http_parse_def intro!: safe_result_false)
  next
    case il: True
    let ?m1 = "m[i := 0]"
    have w1: "mem_write m i 0 = Some ?m1" using il len by (simp add: mem_write_def)
    obtain j code ok where j: "scan_second ?m1 len (i + 1) (i + 1) 0 = Some (j, code, ok)" "i + 1 \<le> j"
      using scan_second_total [of len ?m1 "i + 1" "i + 1" 0] len by auto
    let ?h1 = "?h\<lparr>hh_second := Some (i + 1), hh_responseCode := code\<rparr>"
    show ?thesis
    proof (cases "ok \<and> j < len")
      case False
      with i j w1 il show ?thesis by (auto simp: http_parse_def Let_def intro!: safe_result_false)
    next
      case True
      let ?m2 = "?m1[j := 0]"
      have w2: "mem_write ?m1 j 0 = Some ?m2" using True len by (simp add: mem_write_def)
      obtain k where k: "scan_to ?m2 len LF (j + 1) = Some k" "j + 1 \<le> k"
        using scan_to_total [of len ?m2 LF "j + 1"] len by auto
      show ?thesis
      proof (cases "k + 2 < len")
        case False
        with i j w1 il w2 k True show ?thesis by (auto simp: http_parse_def Let_def intro!: safe_result_false)
      next
        case kl: True
        obtain e where e: "at_crlf ?m2 (k + 1) = Some e" using at_crlf_total [of "k + 1" ?m2] kl len by auto
        have b: "ends_before ?m2 (k + 1) 0" "ends_before ?m2 (k + 1) (i + 1)"
          using i j k il True len by (auto intro!: ends_before_write [OF ends_before_at] ends_before_at)
        have ok: "headers_ok ?m2 (k + 1) ?h1" using b h0 by (simp add: headers_ok_def)
        have "http_parse m len h0 = (if e then Some (?m2, ?h1\<lparr>hh_headerSize := of_nat (k + 1 + 2)\<rparr>, True)
            else parse_headers ?m2 len ?h1 (k + 1))"
          using i il w1 j True w2 k kl e by (simp add: http_parse_def Let_def del: of_nat_add)
        moreover have "safe_result m len (Some (?m2, ?h1\<lparr>hh_headerSize := of_nat (k + 1 + 2)\<rparr>, True))"
          by (rule safe_result_true [OF headers_ok_mono [OF ok]]) (use kl True il in auto)
        moreover have "safe_result ?m2 len (parse_headers ?m2 len ?h1 (k + 1))"
          by (rule parse_headers_safe [OF _ ok]) (use len kl in auto)
        then have "safe_result m len (parse_headers ?m2 len ?h1 (k + 1))"
          by (rule safe_result_trans) (use True il in auto)
        ultimately show ?thesis by simp
      qed
    qed
  qed
qed

section \<open>Rendered requests and responses\<close>

definition CRLF :: bytes where "CRLF = [CR, LF]"

fun header_line :: "bytes \<times> bytes \<Rightarrow> bytes" where
  "header_line (n, v) = n @ [COLON, SP] @ v @ CRLF"

definition render :: "bytes \<Rightarrow> bytes \<Rightarrow> bytes \<Rightarrow> (bytes \<times> bytes) list \<Rightarrow> bytes" where
  "render a b c hs = a @ [SP] @ b @ [SP] @ c @ CRLF @ concat (map header_line hs) @ CRLF"

fun header_ok :: "bytes \<times> bytes \<Rightarrow> bool" where
  "header_ok (n, v) \<longleftrightarrow> COLON \<notin> set n \<and> CR \<notin> set n \<and> 0 \<notin> set n \<and> CR \<notin> set v \<and> 0 \<notin> set v"

lemma scan_to_found:
  "c \<notin> set a \<Longrightarrow> length pre + length a < len \<Longrightarrow>
   scan_to (pre @ a @ c # rest) len c (length pre) = Some (length pre + length a)"
proof (induction a arbitrary: pre)
  case Nil
  then show ?case by (simp add: scan_to.simps [of "pre @ c # rest"] mem_read_def)
next
  case (Cons x a)
  have "scan_to ((pre @ [x]) @ a @ c # rest) len c (length (pre @ [x])) = Some (length (pre @ [x]) + length a)"
    using Cons.prems by (intro Cons.IH) auto
  then have "scan_to (pre @ (x # a) @ c # rest) len c (length pre + 1) = Some (length pre + length (x # a))"
    by simp
  with Cons.prems show ?case by (subst scan_to.simps) (auto simp: mem_read_def)
qed

lemma write_at [simp]: "mem_write (pre @ c # rest) (length pre) v = Some (pre @ v # rest)"
  by (simp add: mem_write_def)

lemma read_at [simp]: "mem_read (pre @ c # rest) (length pre) = Some c"
  by (simp add: mem_read_def)

text \<open>One header line behind \<open>pre\<close>.\<close>

definition parsed_line :: "bytes \<times> bytes \<Rightarrow> bytes" where
  "parsed_line f = fst f @ [0, SP] @ snd f @ [0, LF]"

definition store_header :: "http_header \<Rightarrow> nat \<Rightarrow> bytes \<times> bytes \<Rightarrow> http_header" where
  "store_header h i f = h\<lparr>hh_headerName := (hh_headerName h)[hh_numHeaders h := Some i],
     hh_headerValue := (hh_headerValue h)[hh_numHeaders h := Some (i + length (fst f) + 2)],
     hh_numHeaders := hh_numHeaders h + 1\<rparr>"

lemma parse_headers_line:
  assumes ok: "header_ok f" and n: "hh_numHeaders h < MAX_HEADERS" and two: "2 \<le> length rest"
    and len: "len = length (pre @ header_line f @ rest)"
  shows "parse_headers (pre @ header_line f @ rest) len h (length pre) =
    (let m1 = pre @ parsed_line f @ rest; i1 = length (pre @ parsed_line f); h1 = store_header h (length pre) f in
     do { e \<leftarrow> at_crlf m1 i1;
          if e then Some (m1, h1\<lparr>hh_headerSize := of_nat (i1 + 2)\<rparr>, True) else parse_headers m1 len h1 i1 })"
proof -
  obtain a v where f: "f = (a, v)" by (cases f)
  let ?m0 = "pre @ a @ COLON # SP # v @ CR # LF # rest"
  let ?m1 = "pre @ a @ 0 # SP # v @ CR # LF # rest"
  have m0: "pre @ header_line f @ rest = ?m0" by (simp add: f CRLF_def)
  have l: "len = length pre + length a + length v + 4 + length rest" by (simp add: len f CRLF_def)
  have 1: "scan_to ?m0 len COLON (length pre) = Some (length pre + length a)"
    using ok by (intro scan_to_found) (simp_all add: f l)
  have 2: "mem_write ?m0 (length pre + length a) 0 = Some ?m1"
    using write_at [of "pre @ a" COLON "SP # v @ CR # LF # rest" 0] by simp
  have 3: "scan_to ?m1 len CR (length pre + length a + 2) = Some (length pre + length a + 2 + length v)"
    using scan_to_found [of CR v "pre @ a @ [0, SP]" len "LF # rest"] ok by (simp add: f l)
  have 4: "mem_write ?m1 (length pre + length a + 2 + length v) 0 = Some (pre @ parsed_line f @ rest)"
    using write_at [of "pre @ a @ [0, SP] @ v" CR "LF # rest" 0] by (simp add: f parsed_line_def add.assoc)
  have 5: "mem_read (pre @ parsed_line f @ rest) (length pre + length a + 2 + length v + 1) = Some LF"
    using read_at [of "pre @ a @ [0, SP] @ v @ [0]" LF rest] by (simp add: f parsed_line_def add.assoc)
  have 6: "length (pre @ parsed_line f) = length pre + length a + 2 + length v + 1 + 1"
    by (simp add: f parsed_line_def)
  show ?thesis
    unfolding m0 parse_headers.simps [of ?m0] 6 store_header_def
    using n two l 1 2 3 4 5
    by (simp add: f Let_def add.commute add.left_commute cong: if_cong)
qed


text \<open>The whole header block, and the receiver's arrays behind it.\<close>

abbreviation lines :: "(bytes \<times> bytes) list \<Rightarrow> bytes" where
  "lines hs \<equiv> concat (map header_line hs)"

abbreviation parsed_lines :: "(bytes \<times> bytes) list \<Rightarrow> bytes" where
  "parsed_lines hs \<equiv> concat (map parsed_line hs)"

lemma length_parsed_line: "length (parsed_line f) = length (header_line f)"
  by (cases f) (simp add: parsed_line_def CRLF_def)

lemma length_parsed_lines: "length (parsed_lines hs) = length (lines hs)"
  by (induction hs) (simp_all add: length_parsed_line)

fun store_headers :: "http_header \<Rightarrow> nat \<Rightarrow> (bytes \<times> bytes) list \<Rightarrow> http_header" where
  "store_headers h i [] = h"
| "store_headers h i (f # fs) = store_headers (store_header h i f) (i + length (header_line f)) fs"

lemma at_crlf_line: "CR \<notin> set n \<Longrightarrow> at_crlf (pre @ header_line (n, v) @ rest) (length pre) = Some False"
  by (cases n) (simp_all add: at_crlf_def mem_read_def)

lemma at_crlf_end: "at_crlf (pre @ CRLF @ rest) (length pre) = Some True"
  by (simp add: at_crlf_def mem_read_def CRLF_def nth_append)

text \<open>Behind the headers that are kept, the end of the others is found.\<close>

lemma at_crlf_no_cr: "b \<noteq> CR \<Longrightarrow> at_crlf (pre @ b # rest) (length pre) = Some False"
  by (simp add: at_crlf_def)

lemma find_end_skip:
  assumes "CR \<notin> set a" and "length pre + length a + 4 \<le> len"
  shows "find_end (pre @ a @ rest) len (length pre) = find_end (pre @ a @ rest) len (length (pre @ a))"
  using assms
proof (induction a arbitrary: pre)
  case (Cons b a)
  have "find_end ((pre @ [b]) @ a @ rest) len (length (pre @ [b])) =
      find_end ((pre @ [b]) @ a @ rest) len (length ((pre @ [b]) @ a))"
    using Cons.prems by (intro Cons.IH) auto
  moreover have "find_end (pre @ (b # a) @ rest) len (length pre) = find_end (pre @ (b # a) @ rest) len (length pre + 1)"
    using Cons.prems at_crlf_no_cr [of b pre "a @ rest"] by (subst find_end.simps) auto
  ultimately show ?case by simp
qed simp

lemma find_end_lines:
  assumes "list_all header_ok hs" and "hs \<noteq> []" and "len = length (pre @ lines hs @ CRLF @ rest)"
  shows "find_end (pre @ lines hs @ CRLF @ rest) len (length pre) = Some (Some (length pre + length (lines hs) + 2))"
  using assms
proof (induction hs arbitrary: pre)
  case (Cons f hs)
  obtain n v where f: "f = (n, v)" by (cases f)
  let ?m = "pre @ lines (f # hs) @ CRLF @ rest"
  let ?a = "n @ [COLON, SP] @ v"
  have m: "?m = pre @ ?a @ CRLF @ lines hs @ CRLF @ rest" by (simp add: f)
  have skip: "find_end ?m len (length pre) = find_end ?m len (length (pre @ ?a))"
    unfolding m using Cons.prems(1,3) by (intro find_end_skip) (auto simp: f CRLF_def)
  have e1: "at_crlf ?m (length (pre @ ?a)) = Some True"
    unfolding m using at_crlf_end [of "pre @ ?a" "lines hs @ CRLF @ rest"] by simp
  have l4: "length (pre @ ?a) + 4 \<le> len" using Cons.prems(3) by (simp add: f CRLF_def)
  show ?case
  proof (cases hs)
    case Nil
    have "at_crlf ?m (length (pre @ ?a) + 2) = Some True"
      unfolding m using at_crlf_end [of "pre @ ?a @ CRLF" rest] by (simp add: Nil CRLF_def)
    with e1 l4 show ?thesis unfolding skip
      by (subst find_end.simps) (simp add: f Nil CRLF_def)
  next
    case (Cons f2 hs2)
    obtain n2 v2 where f2: "f2 = (n2, v2)" by (cases f2)
    have "at_crlf ?m (length (pre @ ?a) + 2) = Some False"
      using at_crlf_line [of n2 "pre @ ?a @ CRLF" v2 "lines hs2 @ CRLF @ rest"] Cons.prems(1)
      unfolding m by (simp add: Cons f2 CRLF_def)
    then have s1: "find_end ?m len (length (pre @ ?a)) = find_end ?m len (length (pre @ ?a) + 1)"
      using e1 l4 by (subst find_end.simps) simp
    have "at_crlf ?m (length (pre @ ?a) + 1) = Some False"
      using at_crlf_no_cr [of LF "pre @ ?a @ [CR]" "lines hs @ CRLF @ rest"] unfolding m by (simp add: CRLF_def)
    then have s2: "find_end ?m len (length (pre @ ?a) + 1) = find_end ?m len (length (pre @ header_line f))"
      using Cons.prems(3) by (subst find_end.simps) (simp add: f Cons f2 CRLF_def)
    have "find_end ((pre @ header_line f) @ lines hs @ CRLF @ rest) len (length (pre @ header_line f)) =
        Some (Some (length (pre @ header_line f) + length (lines hs) + 2))"
      using Cons.prems by (intro Cons.IH) (simp_all add: Cons)
    then show ?thesis unfolding skip s1 s2 by simp
  qed
qed simp

lemma parse_headers_lines:
  assumes "list_all header_ok hs" and "hs \<noteq> []" and "len = length (pre @ lines hs @ CRLF @ rest)"
    and "hh_numHeaders h \<le> MAX_HEADERS" and "k = MAX_HEADERS - hh_numHeaders h"
  shows "parse_headers (pre @ lines hs @ CRLF @ rest) len h (length pre) =
    Some (pre @ parsed_lines (take k hs) @ lines (drop k hs) @ CRLF @ rest,
      (store_headers h (length pre) (take k hs))\<lparr>hh_headerSize := of_nat (length pre + length (lines hs) + 2)\<rparr>, True)"
  using assms
proof (induction hs arbitrary: pre h k)
  case (Cons f hs)
  show ?case
  proof (cases "hh_numHeaders h < MAX_HEADERS")
    case False
    then have "k = 0" using Cons.prems(4,5) by simp
    with False find_end_lines [OF Cons.prems(1,2,3)] show ?thesis
      by (simp add: parse_headers.simps [of _ len h])
  next
    case True
    then obtain k' where k: "k = Suc k'" "k' = MAX_HEADERS - (hh_numHeaders h + 1)" using Cons.prems(5) by (cases k) auto
    let ?rest = "lines hs @ CRLF @ rest"
    let ?h1 = "store_header h (length pre) f"
    let ?pre = "pre @ parsed_line f"
    have fok: "header_ok f" using Cons.prems(1) by simp
    have two: "2 \<le> length ?rest" by (simp add: CRLF_def)
    have len: "len = length (pre @ header_line f @ ?rest)" using Cons.prems(3) by simp
    have h1: "hh_numHeaders ?h1 = hh_numHeaders h + 1" by (simp add: store_header_def)
    have step: "parse_headers (pre @ header_line f @ ?rest) len h (length pre) =
      (do { e \<leftarrow> at_crlf (?pre @ ?rest) (length ?pre);
          if e then Some (?pre @ ?rest, ?h1\<lparr>hh_headerSize := of_nat (length ?pre + 2)\<rparr>, True)
          else parse_headers (?pre @ ?rest) len ?h1 (length ?pre) })"
      using parse_headers_line [OF fok True two len] by (simp only: Let_def append_assoc)
    show ?thesis
    proof (cases hs)
      case Nil
      then have "at_crlf (?pre @ ?rest) (length ?pre) = Some True" using at_crlf_end [of ?pre rest] by simp
      with step Nil k show ?thesis by (simp add: length_parsed_line)
    next
      case (Cons f2 hs2)
      then have "at_crlf (?pre @ ?rest) (length ?pre) = Some False"
        using at_crlf_line [of "fst f2" ?pre "snd f2" "lines hs2 @ CRLF @ rest"] Cons.prems(1) by (cases f2) auto
      moreover have "parse_headers (?pre @ lines hs @ CRLF @ rest) len ?h1 (length ?pre) =
        Some (?pre @ parsed_lines (take k' hs) @ lines (drop k' hs) @ CRLF @ rest,
          (store_headers ?h1 (length ?pre) (take k' hs))\<lparr>hh_headerSize := of_nat (length ?pre + length (lines hs) + 2)\<rparr>, True)"
        by (rule Cons.IH) (use Cons.prems Cons True k h1 in \<open>auto simp: length_parsed_line\<close>)
      ultimately show ?thesis using step k by (simp add: length_parsed_line add.assoc)
    qed
  qed
qed simp

section \<open>The first line\<close>

lemma scan_second_path:
  assumes "SP \<notin> set b" and "length pre + length b < len" and "mem_read (pre @ b @ SP # rest) second = Some SLASH"
  shows "scan_second (pre @ b @ SP # rest) len second (length pre) code = Some (length pre + length b, code, True)"
  using assms
proof (induction b arbitrary: pre)
  case Nil
  then show ?case by (subst scan_second.simps) simp
next
  case (Cons x b)
  have "scan_second ((pre @ [x]) @ b @ SP # rest) len second (length (pre @ [x])) code =
      Some (length (pre @ [x]) + length b, code, True)"
    using Cons.prems by (intro Cons.IH) auto
  moreover have "mem_read (pre @ (x # b) @ SP # rest) (length pre) = Some x" by simp
  ultimately show ?case using Cons.prems by (subst scan_second.simps) auto
qed

definition code_step :: "u8 \<Rightarrow> u16 \<Rightarrow> u16" where
  "code_step s code = code * 10 + (ucast s - 0x30)"

definition is_digit :: "u8 \<Rightarrow> bool" where
  "is_digit b \<longleftrightarrow> 0x30 \<le> b \<and> b \<le> 0x39"

lemma scan_second_code:
  assumes "list_all is_digit b" and "length pre + length b < len"
    and "mem_read (pre @ b @ SP # rest) second = Some s" and "s \<noteq> SLASH"
  shows "scan_second (pre @ b @ SP # rest) len second (length pre) code =
    Some (length pre + length b, (code_step s ^^ length b) code, True)"
  using assms
proof (induction b arbitrary: pre code)
  case Nil
  then show ?case by (subst scan_second.simps) simp
next
  case (Cons x b)
  have "scan_second ((pre @ [x]) @ b @ SP # rest) len second (length (pre @ [x])) (code_step s code) =
      Some (length (pre @ [x]) + length b, (code_step s ^^ length b) (code_step s code), True)"
    using Cons.prems by (intro Cons.IH) auto
  moreover have "mem_read (pre @ (x # b) @ SP # rest) (length pre) = Some x" by simp
  moreover have "x \<noteq> SP" "\<not> (x < 0x30 \<or> x > 0x39)" using Cons.prems(1) by (auto simp: is_digit_def)
  ultimately show ?case using Cons.prems
    by (subst scan_second.simps) (auto simp: funpow_swap1 code_step_def [of s code])
qed

definition status :: "bytes \<Rightarrow> u16" where
  "status b = (if hd b = SLASH then 0 else (code_step (hd b) ^^ length b) 0)"

definition second_ok :: "bytes \<Rightarrow> bool" where
  "second_ok b \<longleftrightarrow> b \<noteq> [] \<and> SP \<notin> set b \<and> (hd b = SLASH \<or> list_all is_digit b)"

lemma scan_second_ok:
  assumes "second_ok b" and "length pre + length b < len"
  shows "scan_second (pre @ b @ SP # rest) len (length pre) (length pre) 0 = Some (length pre + length b, status b, True)"
proof -
  have "mem_read (pre @ b @ SP # rest) (length pre) = Some (hd b)"
    using assms(1) by (cases b) (auto simp: second_ok_def)
  then show ?thesis
    using assms scan_second_path [of b pre len rest] scan_second_code [of b pre len rest]
    by (cases "hd b = SLASH") (auto simp: second_ok_def status_def)
qed

definition first_line_header :: "http_header \<Rightarrow> bytes \<Rightarrow> bytes \<Rightarrow> http_header" where
  "first_line_header h0 a b = h0\<lparr>hh_numHeaders := 0, hh_headerSize := 0, hh_first := Some 0,
     hh_second := Some (length a + 1), hh_responseCode := status b\<rparr>"

lemma http_parse_render:
  assumes a: "SP \<notin> set a" and b: "second_ok b" and c: "LF \<notin> set c" and hs: "list_all header_ok hs"
    and m: "m = render a b c hs @ body"
  shows "http_parse m (length m) h0 =
    Some ((a @ [0] @ b @ [0] @ c @ CRLF) @ parsed_lines (take MAX_HEADERS hs) @ lines (drop MAX_HEADERS hs) @ CRLF @ body,
      (store_headers (first_line_header h0 a b) (length (a @ [0] @ b @ [0] @ c @ CRLF)) (take MAX_HEADERS hs))
        \<lparr>hh_headerSize := of_nat (length (render a b c hs))\<rparr>, True)"
proof -
  let ?rest = "lines hs @ CRLF @ body"
  let ?h = "h0\<lparr>hh_numHeaders := 0, hh_responseCode := 0, hh_headerSize := 0, hh_first := Some 0\<rparr>"
  let ?m0 = "a @ SP # b @ SP # c @ CR # LF # ?rest"
  let ?m1 = "a @ 0 # b @ SP # c @ CR # LF # ?rest"
  let ?pre = "a @ [0] @ b @ [0] @ c @ CRLF"
  let ?m2 = "?pre @ ?rest"
  let ?len = "length m"
  have m0: "m = ?m0" by (simp add: m render_def CRLF_def)
  have l: "?len = length a + length b + length c + length ?rest + 4" by (simp add: m0)
  have r2: "2 \<le> length ?rest" by (simp add: CRLF_def)
  have 1: "scan_to m ?len SP 0 = Some (length a)"
    using scan_to_found [of SP a "[]" ?len "b @ SP # c @ CR # LF # ?rest"] a l by (simp add: m0)
  have 2: "mem_write m (length a) 0 = Some ?m1"
    unfolding m0 by simp
  have 3: "scan_second ?m1 ?len (length a + 1) (length a + 1) 0 = Some (length a + 1 + length b, status b, True)"
    using scan_second_ok [OF b, of "a @ [0]" ?len "c @ CR # LF # ?rest"] l by simp
  have 4: "mem_write ?m1 (length a + 1 + length b) 0 = Some ?m2"
    using write_at [of "a @ [0] @ b" SP "c @ CR # LF # ?rest" 0] by (simp add: CRLF_def)
  have 5: "scan_to ?m2 ?len LF (length a + 1 + length b + 1) = Some (length a + length b + length c + 3)"
    using scan_to_found [of LF "c @ [CR]" "a @ [0] @ b @ [0]" ?len ?rest] c l
    by (simp add: CRLF_def numeral_3_eq_3)
  have p: "length ?pre = length a + length b + length c + 4" by (simp add: CRLF_def)
  have go: "http_parse m ?len h0 = (do { e \<leftarrow> at_crlf ?m2 (length ?pre);
        if e then Some (?m2, (first_line_header h0 a b)\<lparr>hh_headerSize := of_nat (length ?pre + 2)\<rparr>, True)
        else parse_headers ?m2 ?len (first_line_header h0 a b) (length ?pre) })"
    using 1 2 3 4 5 l r2 unfolding p
    by (simp add: http_parse_def Let_def first_line_header_def eval_nat_numeral cong: if_cong)
  show ?thesis
  proof (cases hs)
    case Nil
    then have "at_crlf ?m2 (length ?pre) = Some True" using at_crlf_end [of ?pre body] by simp
    then show ?thesis unfolding go by (simp add: Nil render_def CRLF_def)
  next
    case (Cons f fs)
    have "at_crlf ?m2 (length ?pre) = Some False"
      using at_crlf_line [of "fst f" ?pre "snd f" "lines fs @ CRLF @ body"] hs Cons by (cases f) auto
    moreover have sz: "length ?pre + length (lines hs) + 2 = length (render a b c hs)"
      by (simp add: render_def CRLF_def)
    have "?len = length (?pre @ lines hs @ CRLF @ body)" by (simp add: m render_def CRLF_def)
    then have "parse_headers (?pre @ lines hs @ CRLF @ body) ?len (first_line_header h0 a b) (length ?pre) =
      Some (?pre @ parsed_lines (take MAX_HEADERS hs) @ lines (drop MAX_HEADERS hs) @ CRLF @ body,
        (store_headers (first_line_header h0 a b) (length ?pre) (take MAX_HEADERS hs))
          \<lparr>hh_headerSize := of_nat (length ?pre + length (lines hs) + 2)\<rparr>, True)"
      by (intro parse_headers_lines) (use hs Cons in \<open>simp_all add: first_line_header_def\<close>)
    note this [unfolded sz]
    ultimately show ?thesis unfolding go by simp
  qed
qed

section \<open>The accessors on a parsed header\<close>

lemma c_string_at: "0 \<notin> set s \<Longrightarrow> c_string (pre @ s @ 0 # rest) (length pre) = s"
  unfolding c_string_def by (simp, subst takeWhile_append2) auto

text \<open>Where the arrays point after \<open>store_headers\<close>.\<close>

lemma store_headers_first [simp]:
  "hh_first (store_headers h i fs) = hh_first h" "hh_second (store_headers h i fs) = hh_second h"
  "hh_responseCode (store_headers h i fs) = hh_responseCode h"
  "hh_numHeaders (store_headers h i fs) = hh_numHeaders h + length fs"
  by (induction h i fs rule: store_headers.induct) (simp_all add: store_header_def)

lemma store_headers_old:
  "k < hh_numHeaders h \<Longrightarrow> hh_headerName (store_headers h i fs) ! k = hh_headerName h ! k
     \<and> hh_headerValue (store_headers h i fs) ! k = hh_headerValue h ! k"
  by (induction h i fs rule: store_headers.induct) (simp_all add: store_header_def)

lemma store_headers_new:
  assumes "j < length fs" and "hh_numHeaders h + length fs \<le> length (hh_headerName h)"
    and "hh_numHeaders h + length fs \<le> length (hh_headerValue h)"
  shows "hh_headerName (store_headers h i fs) ! (hh_numHeaders h + j) = Some (i + length (lines (take j fs)))
     \<and> hh_headerValue (store_headers h i fs) ! (hh_numHeaders h + j) =
         Some (i + length (lines (take j fs)) + length (fst (fs ! j)) + 2)"
  using assms
proof (induction h i fs arbitrary: j rule: store_headers.induct)
  case (2 h i f fs)
  let ?h1 = "store_header h i f"
  have h1: "hh_numHeaders ?h1 = hh_numHeaders h + 1" "length (hh_headerName ?h1) = length (hh_headerName h)"
    "length (hh_headerValue ?h1) = length (hh_headerValue h)"
    by (simp_all add: store_header_def)
  show ?case
  proof (cases j)
    case 0
    then show ?thesis
      using 2(3,4) store_headers_old [of "hh_numHeaders h" ?h1 "i + length (header_line f)" fs]
      by (simp add: h1) (simp add: store_header_def)
  next
    case (Suc j')
    with 2(1) [of j'] 2(2-4) h1 show ?thesis by (simp add: add.assoc)
  qed
qed simp

lemma header_offsets:
  assumes "k < length fs" and "header_ok (fs ! k)"
  shows "c_string (pre @ parsed_lines fs @ rest) (length pre + length (lines (take k fs))) = fst (fs ! k)"
    and "c_string (pre @ parsed_lines fs @ rest) (length pre + length (lines (take k fs)) + length (fst (fs ! k)) + 2)
           = snd (fs ! k)"
proof -
  obtain n v where f: "fs ! k = (n, v)" by (cases "fs ! k")
  have "fs = take k fs @ fs ! k # drop (Suc k) fs" using assms(1) by (rule id_take_nth_drop)
  then have "parsed_lines fs = parsed_lines (take k fs @ fs ! k # drop (Suc k) fs)" by simp
  then have p: "pre @ parsed_lines fs @ rest =
      (pre @ parsed_lines (take k fs)) @ n @ 0 # (SP # v @ 0 # LF # parsed_lines (drop (Suc k) fs) @ rest)"
    by (simp only: map_append concat_append list.map concat.simps f parsed_line_def fst_conv snd_conv append_assoc append_Cons append_Nil)
  have l: "length pre + length (lines (take k fs)) = length (pre @ parsed_lines (take k fs))"
    by (simp add: length_parsed_lines)
  show "c_string (pre @ parsed_lines fs @ rest) (length pre + length (lines (take k fs))) = fst (fs ! k)"
    unfolding p l using assms(2) f by (subst c_string_at) simp_all
  have p2: "pre @ parsed_lines fs @ rest =
      (pre @ parsed_lines (take k fs) @ n @ [0, SP]) @ v @ 0 # (LF # parsed_lines (drop (Suc k) fs) @ rest)"
    unfolding p by simp
  have l2: "length pre + length (lines (take k fs)) + length (fst (fs ! k)) + 2 = length (pre @ parsed_lines (take k fs) @ n @ [0, SP])"
    by (simp add: length_parsed_lines f)
  show "c_string (pre @ parsed_lines fs @ rest) (length pre + length (lines (take k fs)) + length (fst (fs ! k)) + 2) = snd (fs ! k)"
    unfolding p2 l2 using assms(2) f by (subst c_string_at) simp_all
qed

lemma find_header_list:
  assumes "\<And>k. k < length fs \<Longrightarrow> header_at m (hh_headerName h) k = fst (fs ! k) \<and> header_at m (hh_headerValue h) k = snd (fs ! k)"
  shows "find_header m h name [n..<length fs] = map_option snd (find (\<lambda>f. same_name (fst f) name) (drop n fs))"
proof (induction "length fs - n" arbitrary: n)
  case 0
  then show ?case by simp
next
  case (Suc x)
  then have n: "n < length fs" by simp
  with Suc assms [OF n] show ?case by (simp add: upt_conv_Cons Cons_nth_drop_Suc [symmetric])
qed

lemma render_lookup:
  assumes a: "SP \<notin> set a" and b: "second_ok b" and c: "LF \<notin> set c" and hs: "list_all header_ok hs"
    and z: "0 \<notin> set a" "0 \<notin> set b"
  shows "\<exists>m' h'. http_parse (render a b c hs @ body) (length (render a b c hs @ body)) http_header_init = Some (m', h', True)
     \<and> hh_first h' = Some 0 \<and> hh_second h' = Some (length a + 1)
     \<and> c_string m' 0 = a \<and> c_string m' (length a + 1) = b \<and> mem_read m' (length a + 1) = Some (hd b)
     \<and> hh_responseCode h' = status b
     \<and> hh_numHeaders h' = min MAX_HEADERS (length hs) \<and> hh_headerSize h' = of_nat (length (render a b c hs))
     \<and> (\<forall>name. getHeaderValue m' h' name =
          map_option snd (find (\<lambda>f. same_name (fst f) name) (take MAX_HEADERS hs)))
     \<and> drop (length (render a b c hs)) m' = body"
proof -
  let ?fs = "take MAX_HEADERS hs"
  let ?pre = "a @ [0] @ b @ [0] @ c @ CRLF"
  let ?h1 = "first_line_header http_header_init a b"
  let ?m' = "?pre @ parsed_lines ?fs @ lines (drop MAX_HEADERS hs) @ CRLF @ body"
  let ?h' = "(store_headers ?h1 (length ?pre) ?fs)\<lparr>hh_headerSize := of_nat (length (render a b c hs))\<rparr>"
  have n: "hh_numHeaders ?h1 = 0" "length (hh_headerName ?h1) = MAX_HEADERS" "length (hh_headerValue ?h1) = MAX_HEADERS"
    by (simp_all add: first_line_header_def http_header_init_def)
  have bne: "b \<noteq> []" using b by (simp add: second_ok_def)
  have head: "header_at ?m' (hh_headerName ?h') k = fst (?fs ! k) \<and> header_at ?m' (hh_headerValue ?h') k = snd (?fs ! k)"
    if k: "k < length ?fs" for k
  proof -
    have "header_ok (?fs ! k)" using hs k by (simp add: list_all_length)
    then show ?thesis
      using store_headers_new [of k ?fs ?h1 "length ?pre"] header_offsets [of k ?fs ?pre "lines (drop MAX_HEADERS hs) @ CRLF @ body"] k n
      by (simp add: header_at_def)
  qed
  have "getHeaderValue ?m' ?h' name = map_option snd (find (\<lambda>f. same_name (fst f) name) ?fs)" for name
    using find_header_list [of ?fs ?m' ?h' name 0, OF head] n by (simp add: getHeaderValue_def)
  moreover have "c_string ?m' 0 = a"
    using c_string_at [of a "[]"] z by simp
  moreover have "c_string ?m' (length a + 1) = b"
    using c_string_at [of b "a @ [0]"] z by simp
  moreover have "mem_read ?m' (length a + 1) = Some (hd b)"
    using bne by (cases b) (simp_all add: mem_read_def nth_append)
  moreover have "drop (length (render a b c hs)) ?m' = body"
  proof -
    have "length (render a b c hs) = length (?pre @ parsed_lines ?fs @ lines (drop MAX_HEADERS hs) @ CRLF)"
    proof -
      have "lines hs = lines (take MAX_HEADERS hs) @ lines (drop MAX_HEADERS hs)"
        by (metis append_take_drop_id concat_append map_append)
      then have "length (lines hs) = length (lines (take MAX_HEADERS hs)) + length (lines (drop MAX_HEADERS hs))"
        by (simp only: length_append)
      then show ?thesis by (simp add: render_def length_parsed_lines)
    qed
    then show ?thesis by simp
  qed
  ultimately show ?thesis
    using http_parse_render [OF a b c hs refl, of body http_header_init] n
    by (intro exI [of _ ?m'] exI [of _ ?h']) (simp add: first_line_header_def min.commute)
qed

definition request_ok :: "bytes \<Rightarrow> bytes \<Rightarrow> bytes \<Rightarrow> (bytes \<times> bytes) list \<Rightarrow> bool" where
  "request_ok verb path version hs \<longleftrightarrow>
     SP \<notin> set verb \<and> 0 \<notin> set verb \<and> path \<noteq> [] \<and> hd path = SLASH \<and> SP \<notin> set path \<and> 0 \<notin> set path
     \<and> LF \<notin> set version \<and> list_all header_ok hs"

lemma render_request_lookup:
  assumes "request_ok verb path version hs"
  shows "\<exists>m' h'. http_parse (render verb path version hs @ body) (length (render verb path version hs @ body))
         http_header_init = Some (m', h', True)
     \<and> getCommand m' h' = Some verb \<and> getPath m' h' = Some path
     \<and> hh_numHeaders h' = min MAX_HEADERS (length hs)
     \<and> (\<forall>name. getHeaderValue m' h' name =
          map_option snd (find (\<lambda>f. same_name (fst f) name) (take MAX_HEADERS hs)))
     \<and> hh_headerSize h' = of_nat (length (render verb path version hs))
     \<and> drop (length (render verb path version hs)) m' = body"
proof -
  have "second_ok path" using assms by (simp add: request_ok_def second_ok_def)
  then obtain m' h' where r: "http_parse (render verb path version hs @ body)
      (length (render verb path version hs @ body)) http_header_init = Some (m', h', True)"
    "hh_first h' = Some 0" "hh_second h' = Some (length verb + 1)" "c_string m' 0 = verb"
    "c_string m' (length verb + 1) = path" "mem_read m' (length verb + 1) = Some (hd path)"
    "hh_numHeaders h' = min MAX_HEADERS (length hs)"
    "hh_headerSize h' = of_nat (length (render verb path version hs))"
    "\<forall>name. getHeaderValue m' h' name = map_option snd (find (\<lambda>f. same_name (fst f) name) (take MAX_HEADERS hs))"
    "drop (length (render verb path version hs)) m' = body"
    using render_lookup [of verb path version hs body] assms unfolding request_ok_def by blast
  moreover have "http_is_request m' h'" using r assms by (simp add: http_is_request_def request_ok_def)
  ultimately show ?thesis
    by (intro exI [of _ m'] exI [of _ h']) (simp add: getCommand_def getPath_def)
qed

section \<open>Properties\<close>

text \<open>C35. On any received bytes, the parser returns without an access outside the data it was
  given and without changing a byte behind it; it records at most 20 headers; and if it accepts, the
  header size lies within the data and the command, the path and every header name and value it
  hands out end within that header.\<close>

theorem http_parse_memory_safe:
  assumes "len \<le> length m"
  shows "\<exists>m' h' ok. http_parse m len http_header_init = Some (m', h', ok)
     \<and> length m' = length m \<and> drop len m' = drop len m \<and> hh_numHeaders h' \<le> MAX_HEADERS
     \<and> (ok \<longrightarrow> (\<exists>n. hh_headerSize h' = of_nat n \<and> n \<le> len \<and> headers_ok m' n h'))"
  using http_parse_safe [OF assms, of http_header_init] by (auto simp: safe_result_def http_header_init_def)

theorem http_parse_memory_safe_witness:
  "\<exists>m' h' ok. http_parse [0x41, 0x20, 0x2F] 2 http_header_init = Some (m', h', ok)
     \<and> length m' = length [0x41, 0x20, 0x2F :: u8] \<and> drop 2 m' = drop 2 [0x41, 0x20, 0x2F]
     \<and> hh_numHeaders h' \<le> MAX_HEADERS
     \<and> (ok \<longrightarrow> (\<exists>n. hh_headerSize h' = of_nat n \<and> n \<le> 2 \<and> headers_ok m' n h'))"
  by (rule http_parse_memory_safe) simp

text \<open>C15. A rendered request is read back: command, path, the number of headers, the first
  header of any name looked up without regard to case (among the first 20), the size of the header and
  the untouched body behind it.\<close>

theorem http_request_roundtrip:
  assumes "request_ok verb path version hs"
  shows "\<exists>m' h'. http_parse (render verb path version hs @ body) (length (render verb path version hs @ body))
         http_header_init = Some (m', h', True)
     \<and> getCommand m' h' = Some verb \<and> getPath m' h' = Some path
     \<and> hh_numHeaders h' = min MAX_HEADERS (length hs)
     \<and> (\<forall>name. getHeaderValue m' h' name =
          map_option snd (find (\<lambda>f. same_name (fst f) name) (take MAX_HEADERS hs)))
     \<and> hh_headerSize h' = of_nat (length (render verb path version hs))
     \<and> drop (length (render verb path version hs)) m' = body"
  using assms by (rule render_request_lookup)

theorem http_request_roundtrip_witness:
  "\<exists>m' h'. http_parse (render [0x47] [0x2F] [0x48] [([0x41], [0x62])] @ [1, 2])
         (length (render [0x47] [0x2F] [0x48] [([0x41], [0x62])] @ [1, 2])) http_header_init = Some (m', h', True)
     \<and> getCommand m' h' = Some [0x47] \<and> getPath m' h' = Some [0x2F]
     \<and> hh_numHeaders h' = min MAX_HEADERS (length [([0x41 :: u8], [0x62 :: u8])])
     \<and> (\<forall>name. getHeaderValue m' h' name =
          map_option snd (find (\<lambda>f. same_name (fst f) name) (take MAX_HEADERS [([0x41], [0x62])])))
     \<and> hh_headerSize h' = of_nat (length (render [0x47] [0x2F] [0x48] [([0x41], [0x62])]))
     \<and> drop (length (render [0x47] [0x2F] [0x48] [([0x41], [0x62])])) m' = [1, 2]"
  by (rule http_request_roundtrip) (simp add: request_ok_def)

text \<open>Of a response with a three-digit status the parser keeps the first digit three times:
  \<open>404\<close> is read as 444, \<open>200\<close> as 222.\<close>

theorem http_status_repeats_first_digit:
  assumes "SP \<notin> set version" and "0 \<notin> set version" and "d1 < 10" and "d2 < 10" and "d3 < 10"
    and "LF \<notin> set reason" and "list_all header_ok hs"
    and "m = render version [of_nat (48 + d1), of_nat (48 + d2), of_nat (48 + d3)] reason hs @ body"
  shows "\<exists>m' h'. http_parse m (length m) http_header_init = Some (m', h', True)
     \<and> getResponseCode m' h' = of_nat (111 * d1)"
proof -
  let ?b = "[of_nat (48 + d1), of_nat (48 + d2), of_nat (48 + d3)] :: bytes"
  have u: "unat (of_nat (48 + d) :: u8) = 48 + d" if "d < 10" for d
    using that by (simp add: unsigned_of_nat take_bit_nat_eq_self del: of_nat_add)
  have dig: "is_digit (of_nat (48 + d))" if "d < 10" for d
    using u [OF that] that by (simp add: is_digit_def word_le_nat_alt del: of_nat_add)
  have ns: "of_nat (48 + d) \<noteq> SP" "of_nat (48 + d) \<noteq> (0 :: u8)" "of_nat (48 + d) \<noteq> SLASH" if "d < 10" for d
    using u [OF that] by (auto simp: word_unat_eq_iff simp del: of_nat_add)
  have b: "second_ok ?b" using dig ns assms(3-5) by (simp add: second_ok_def del: of_nat_add)
  have z: "0 \<notin> set ?b" using ns assms(3-5) by (auto simp del: of_nat_add)
  have st: "status ?b = of_nat (111 * d1)"
  proof -
    have "(ucast (of_nat (48 + d1) :: u8) :: u16) = of_nat (48 + d1)"
      using u [OF assms(3)] assms(3)
      by (simp add: word_unat_eq_iff unsigned_of_nat take_bit_nat_eq_self del: of_nat_add)
    then show ?thesis using ns(3) [OF assms(3)]
      by (simp add: status_def code_step_def eval_nat_numeral del: of_nat_add) (simp add: algebra_simps)
  qed
  obtain m' h' where r: "http_parse m (length m) http_header_init = Some (m', h', True)"
    "hh_second h' = Some (length version + 1)" "mem_read m' (length version + 1) = Some (of_nat (48 + d1))"
    "hh_responseCode h' = status ?b"
    using render_lookup [OF assms(1) b assms(6,7,2) z, of body] assms(8) by auto
  then have "http_is_response m' h'" using ns(3) [OF assms(3)] by (simp add: http_is_response_def del: of_nat_add)
  with r st show ?thesis by (simp add: getResponseCode_def)
qed

theorem http_status_repeats_first_digit_witness:
  "\<exists>m' h'. http_parse [0x48, 0x20, 0x34, 0x30, 0x34, 0x20, 0x4E, 0x0D, 0x0A, 0x0D, 0x0A]
       (length [0x48, 0x20, 0x34, 0x30, 0x34, 0x20, 0x4E, 0x0D, 0x0A, 0x0D, 0x0A :: u8]) http_header_init = Some (m', h', True)
     \<and> getResponseCode m' h' = 444"
  using http_status_repeats_first_digit [of "[0x48]" 4 0 4 "[0x4E]" "[]"
      "[0x48, 0x20, 0x34, 0x30, 0x34, 0x20, 0x4E, 0x0D, 0x0A, 0x0D, 0x0A]" "[]"]
  by (simp add: render_def CRLF_def)

text \<open>The byte behind a colon is skipped unseen. Where a header has an empty value and no space,
  that byte is the carriage return, and the next header line becomes part of the value.\<close>

theorem http_empty_value_swallows_next_header:
  "map_option (\<lambda>(m, h, ok). (ok, hh_numHeaders h, getHeaderValue m h [0x41], getHeaderValue m h [0x42]))
     (http_parse ([0x47, SP, SLASH, SP, 0x48, CR, LF] @ [0x41, COLON, CR, LF] @ [0x42, COLON, SP, 0x63, CR, LF] @ [CR, LF])
        19 http_header_init)
   = Some (True, 1, Some [LF, 0x42, COLON, SP, 0x63], None)"
  by code_simp

end
