(* ===== verification/Http_Request_Spec.thy ===== *)
theory Http_Request_Spec
  imports Http_Request Http_Header_Spec
begin

text \<open>
  The HTTP request against the header parser: every call stays inside the buffer, and what goes out on
  the wire is the request the caller described, as \<open>HTTPHeader\<close> on the other side reads it.
\<close>

section \<open>The buffer\<close>

definition request_inv :: "'d http_request \<Rightarrow> bool" where
  "request_inv r \<longleftrightarrow> length (rq_header r) = 1002 \<and>
     (rq_state r = FAIL \<or> unat (rq_headerStart r) < unat (rq_headerIndex r) \<and> unat (rq_headerIndex r) \<le> 1000)"

lemma snprintf_fits:
  assumes "at + n \<le> length m" and "0 < n"
  shows "snprintf m at n tx = Some (blit m at (take (n - 1) tx @ [0]), length tx)"
  using assms by (simp add: snprintf_def mem_copy_def)

lemma unat_of_nat_16: "n < 65536 \<Longrightarrow> unat (of_nat n :: u16) = n"
  by (simp add: unat_of_nat)

lemma append_line_safe:
  assumes "request_inv r" and "rq_state r \<noteq> FAIL" and "unat (rq_headerIndex r) < 1000"
  shows "\<exists>ok r'. append_line line r = Some (ok, r') \<and> request_inv r' \<and> rq_state r' = rq_state r"
proof -
  let ?i = "unat (rq_headerIndex r)"
  have i: "?i < 1000" "unat (rq_headerStart r) < ?i" "length (rq_header r) = 1002"
    using assms by (auto simp: request_inv_def)
  have s: "snprintf (rq_header r) ?i (1000 - ?i) line =
      Some (blit (rq_header r) ?i (take (1000 - ?i - 1) line @ [0]), length line)"
    using i by (intro snprintf_fits) auto
  have w: "unat (rq_headerIndex r + of_nat (length line)) = ?i + length line" if "?i + length line < 1000"
    using that by (simp add: unat_word_ariths unat_of_nat)
  show ?thesis
    using i s w assms by (auto simp: append_line_def MAX_HEADER_SIZE_def request_inv_def Let_def)
qed

lemma addHeader_safe:
  "request_inv r \<Longrightarrow> \<exists>ok r'. addHeader a b r = Some (ok, r') \<and> request_inv r'"
  using append_line_safe [of r "a @ [COLON, SP] @ b @ [CR, LF]"] by (auto simp: addHeader_def MAX_HEADER_SIZE_def)

lemma setBody_safe: "request_inv r \<Longrightarrow> \<exists>ok r'. setBody d r = Some (ok, r') \<and> request_inv r'"
proof -
  assume r: "request_inv r"
  let ?r = "r\<lparr>rq_body := Some d\<rparr>"
  have "request_inv ?r" using r by (simp add: request_inv_def)
  then show ?thesis
    using append_line_safe [of ?r "ascii ''Content-Length: '' @ decimal (sint (of_nat (length d) :: u32)) @ [CR, LF]"] r
    unfolding setBody_def MAX_HEADER_SIZE_def by (cases "rq_state r = FAIL"; cases "unat (rq_headerIndex r) < 1000"; cases "rq_body r"; force)
qed

lemma send_bytes:
  assumes "unat i < 997" and "length m = 1002"
  shows "mem_write m (unat i) CR = Some (m[unat i := CR])" and "unat (i + 1) = unat i + 1"
    and "unat (i + 2) = unat i + 2" and "unat (i + 3 :: u16) = unat i + 3"
  using assms by (simp_all add: mem_write_def unat_word_ariths)

lemma on_connected_safe:
  assumes "request_inv r'" and "rq_state r' \<noteq> FAIL"
  shows "\<exists>r''. http_request_on_connected co r' = Some r'' \<and> request_inv r''"
proof -
  have b: "unat (rq_headerStart r') < unat (rq_headerIndex r')" "unat (rq_headerIndex r') \<le> 1000" "length (rq_header r') = 1002"
    using assms by (auto simp: request_inv_def)
  define n where "n = uint (rq_headerIndex r') - uint (rq_headerStart r') - 1"
  have u: "n = int (unat (rq_headerIndex r')) - int (unat (rq_headerStart r')) - 1" by (simp add: n_def)
  have n: "\<not> n < 0" "unat (rq_headerStart r') + nat n \<le> 1002"
    using b unfolding u by linarith+
  show ?thesis
    using n b assms unfolding http_request_on_connected_def n_def [symmetric]
    by (simp add: mem_slice_def request_inv_def Let_def)
qed

lemma http_request_send_safe:
  assumes "request_inv r"
  shows "\<exists>ok r'. http_request_send co r = Some (ok, r') \<and> request_inv r'"
proof -
  show ?thesis
  proof (cases "rq_state r = FAIL \<or> rq_port r = 0 \<or> unat (rq_headerIndex r) \<ge> 997")
    case True
    then show ?thesis using assms by (auto simp: http_request_send_def MAX_HEADER_SIZE_def)
  next
    case False
    let ?i = "rq_headerIndex r"
    have i: "unat ?i < 997" "unat (rq_headerStart r) < unat ?i" "length (rq_header r) = 1002"
      using assms False by (auto simp: request_inv_def)
    obtain e d where c: "ss_connect co (c_string ((rq_header r)[unat ?i := CR, unat ?i + 1 := LF, unat ?i + 2 := 0]) 0)
        (rq_port r) (rq_below r) = (e, d)" by fastforce
    let ?r = "r\<lparr>rq_header := (rq_header r)[unat ?i := CR, unat ?i + 1 := LF, unat ?i + 2 := 0], rq_headerIndex := ?i + 3,
        rq_below := d\<rparr>"
    have "http_request_send co r = Some (e = ERR_OK, ?r)"
      using False i c send_bytes [OF i(1,3)]
      by (simp add: http_request_send_def MAX_HEADER_SIZE_def mem_write_def Let_def)
    moreover have "request_inv ?r"
      using i send_bytes [OF i(1,3)] by (simp add: request_inv_def)
    ultimately show ?thesis by auto
  qed
qed

lemma http_request_create_safe:
  assumes "length memory0 = 1002"
  shows "\<exists>r. http_request_create co state0 memory0 host0 port tls command0 path0 d = Some r \<and> request_inv r"
proof (cases "host0 = None \<or> command0 = None \<or> path0 = None \<or> port = 0")
  case True
  then show ?thesis using assms by (auto simp: http_request_create_def request_inv_def Let_def split: option.splits)
next
  case False
  then obtain host command path where s: "host0 = Some host" "command0 = Some command" "path0 = Some path" "port \<noteq> 0" by auto
  let ?m = "blit memory0 0 (take 999 host @ [0])"
  have m: "snprintf memory0 0 1000 host = Some (?m, length host)" "length ?m = 1002"
    using assms by (simp_all add: snprintf_fits)
  let ?i = "of_nat (length host) :: u16"
  show ?thesis
  proof (cases "unat ?i \<ge> 998")
    case True
    then show ?thesis using s m by (simp add: http_request_create_def MAX_HEADER_SIZE_def request_inv_def Let_def)
  next
    case False
    have i: "unat (?i + 1) = unat ?i + 1" using False by (simp add: unat_word_ariths)
    let ?t = "request_line command path host port"
    have t: "0 < length ?t" by (simp add: request_line_def)
    let ?n = "1000 - unat (?i + 1)"
    have m2: "snprintf ?m (unat (?i + 1)) ?n ?t = Some (blit ?m (unat (?i + 1)) (take (?n - 1) ?t @ [0]), length ?t)"
      using False i m by (intro snprintf_fits) auto
    have w: "unat (?i + 1 + of_nat (length ?t)) = unat ?i + 1 + length ?t" if "unat ?i + 1 + length ?t < 998"
    proof -
      have "unat (of_nat (length ?t) :: u16) = length ?t" using that by (intro unat_of_nat_16) simp
      then show ?thesis using that i by (subst unat_word_ariths) simp
    qed
    show ?thesis
      using s m m2 False i t w
      by (auto simp: http_request_create_def MAX_HEADER_SIZE_def request_inv_def Let_def)
  qed
qed


section \<open>What is in the buffer\<close>

text \<open>A request that has not failed holds its host as a C string and, behind it, the text so far.\<close>

definition holds :: "'d http_request \<Rightarrow> bytes \<Rightarrow> bytes \<Rightarrow> bool" where
  "holds r host tx \<longleftrightarrow> length (rq_header r) = 1002 \<and> rq_state r = INIT \<and>
     unat (rq_headerStart r) = length host + 1 \<and> unat (rq_headerIndex r) = length host + 1 + length tx \<and>
     take (length host + 1 + length tx) (rq_header r) = host @ [0] @ tx"

lemma take_blit_more:
  "at + length src \<le> length m \<Longrightarrow> n \<le> length src \<Longrightarrow> take (at + n) (blit m at src) = take at m @ take n src"
  by (simp add: blit_def min_def)

lemma append_line_holds:
  assumes "holds r host tx" and "length host + 1 + length tx + length line < 1000"
  shows "append_line line r = Some (True, r\<lparr>rq_header := blit (rq_header r) (length host + 1 + length tx) (line @ [0]),
      rq_headerIndex := rq_headerIndex r + of_nat (length line)\<rparr>) \<and>
    holds (r\<lparr>rq_header := blit (rq_header r) (length host + 1 + length tx) (line @ [0]),
      rq_headerIndex := rq_headerIndex r + of_nat (length line)\<rparr>) host (tx @ line)"
proof -
  let ?i = "length host + 1 + length tx"
  have h: "length (rq_header r) = 1002" "unat (rq_headerIndex r) = ?i" "take ?i (rq_header r) = host @ [0] @ tx"
    using assms(1) by (auto simp: holds_def)
  have s: "snprintf (rq_header r) ?i (1000 - ?i) line = Some (blit (rq_header r) ?i (line @ [0]), length line)"
    using assms(2) h by (subst snprintf_fits) auto
  have w: "unat (rq_headerIndex r + of_nat (length line)) = ?i + length line"
  proof -
    have "unat (of_nat (length line) :: u16) = length line" using assms(2) by (intro unat_of_nat_16) simp
    then show ?thesis using assms(2) h by (subst unat_word_ariths) simp
  qed
  have t: "take (?i + length line) (blit (rq_header r) ?i (line @ [0])) = host @ [0] @ tx @ line"
    using take_blit_more [of ?i "line @ [0]" "rq_header r" "length line"] assms(2) h by simp
  show ?thesis
    using assms s w t h by (simp add: append_line_def MAX_HEADER_SIZE_def holds_def Let_def add.assoc)
qed


lemma addHeader_holds:
  assumes "holds r host tx" and "length host + 1 + length tx + length (header_line (a, b)) < 1000"
  shows "\<exists>r'. addHeader a b r = Some (True, r') \<and> holds r' host (tx @ header_line (a, b)) \<and>
    rq_port r' = rq_port r \<and> rq_body r' = rq_body r \<and> rq_below r' = rq_below r"
proof -
  have "header_line (a, b) = a @ [COLON, SP] @ b @ [CR, LF]" by (simp add: CRLF_def)
  then show ?thesis
    using append_line_holds [OF assms] assms
    by (auto simp: addHeader_def MAX_HEADER_SIZE_def holds_def simp del: header_line.simps append_assoc)
qed

fun add_headers :: "(bytes \<times> bytes) list \<Rightarrow> 'd http_request \<Rightarrow> (bool \<times> 'd http_request) option" where
  "add_headers [] r = Some (True, r)"
| "add_headers ((a, b) # hs) r = do {
     (ok, r) \<leftarrow> addHeader a b r;
     if ok then add_headers hs r else Some (False, r)
   }"

lemma add_headers_holds:
  "holds r host tx \<Longrightarrow> length host + 1 + length tx + length (lines hs) < 1000 \<Longrightarrow>
   \<exists>r'. add_headers hs r = Some (True, r') \<and> holds r' host (tx @ lines hs) \<and>
     rq_port r' = rq_port r \<and> rq_body r' = rq_body r \<and> rq_below r' = rq_below r"
proof (induction hs arbitrary: r tx)
  case (Cons f hs)
  obtain a b where f: "f = (a, b)" by fastforce
  obtain r1 where r1: "addHeader a b r = Some (True, r1)" "holds r1 host (tx @ header_line (a, b))"
    "rq_port r1 = rq_port r" "rq_body r1 = rq_body r" "rq_below r1 = rq_below r"
    using addHeader_holds [of r host tx a b] Cons.prems by (auto simp: f)
  show ?case
    using Cons.IH [OF r1(2)] Cons.prems(2) r1 by (auto simp: f)
qed auto

definition content_length :: "bytes \<Rightarrow> bytes \<times> bytes" where
  "content_length body = (ascii ''Content-Length'', nat_decimal (length body))"

lemma setBody_holds:
  assumes "holds r host tx" and "length host + 1 + length tx + length (header_line (content_length body)) < 1000"
    and "rq_body r = None" and "length body < 2 ^ 31"
  shows "\<exists>r'. setBody body r = Some (True, r') \<and> holds r' host (tx @ header_line (content_length body)) \<and>
    rq_port r' = rq_port r \<and> rq_body r' = Some body \<and> rq_below r' = rq_below r"
proof -
  have s: "sint (of_nat (length body) :: u32) = int (length body)"
    using assms(4) by (subst signed_of_nat) (simp add: signed_take_bit_int_eq_self)
  have line: "header_line (content_length body) =
      ascii ''Content-Length: '' @ decimal (sint (of_nat (length body) :: u32)) @ [CR, LF]"
    unfolding s by (simp add: CRLF_def content_length_def decimal_def)
  have "holds (r\<lparr>rq_body := Some body\<rparr>) host tx" using assms(1) by (simp add: holds_def)
  from append_line_holds [OF this assms(2)] show ?thesis
    using assms unfolding line setBody_def by (auto simp: MAX_HEADER_SIZE_def holds_def)
qed


definition host_header :: "bytes \<Rightarrow> u16 \<Rightarrow> bytes \<times> bytes" where
  "host_header host port = (ascii ''Host'', host @ [COLON] @ nat_decimal (unat port))"

definition first_line :: "bytes \<Rightarrow> bytes \<Rightarrow> bytes" where
  "first_line command path = command @ [SP] @ path @ [SP] @ ascii ''HTTP/1.1'' @ CRLF"

lemma request_line_eq: "request_line command path host port = first_line command path @ header_line (host_header host port)"
  by (simp add: request_line_def first_line_def host_header_def CRLF_def decimal_def)

lemma http_request_create_holds:
  assumes "length memory0 = 1002" and "port \<noteq> 0"
    and fits: "length host + 1 + length (request_line command path host port) < 998"
  shows "\<exists>r. http_request_create co INIT memory0 (Some host) port tls (Some command) (Some path) d = Some r \<and>
    holds r host (request_line command path host port) \<and> rq_port r = port \<and> rq_body r = None \<and>
    rq_below r = co_set_tls co tls d"
proof -
  let ?m = "blit memory0 0 (host @ [0])"
  let ?t = "request_line command path host port"
  have m: "snprintf memory0 0 1000 host = Some (?m, length host)" "length ?m = 1002" "take (length host + 1) ?m = host @ [0]"
    using assms take_blit [of 0 "host @ [0]" memory0] by (simp_all add: snprintf_fits)
  let ?i = "of_nat (length host) :: u16"
  have i: "unat ?i = length host" "unat (?i + 1) = length host + 1"
    using fits by (simp_all add: unat_of_nat_16 unat_word_ariths)
  have m2: "snprintf ?m (length host + 1) (1000 - (length host + 1)) ?t =
      Some (blit ?m (length host + 1) (?t @ [0]), length ?t)"
    using fits m by (subst snprintf_fits) auto
  have w: "unat (?i + 1 + of_nat (length ?t)) = length host + 1 + length ?t"
  proof -
    have "unat (of_nat (length ?t) :: u16) = length ?t" using fits by (intro unat_of_nat_16) simp
    then show ?thesis using fits i by (subst unat_word_ariths) simp
  qed
  have t2: "take (length host + 1 + length ?t) (blit ?m (length host + 1) (?t @ [0])) = host @ [0] @ ?t"
    using take_blit_more [of "length host + 1" "?t @ [0]" ?m "length ?t"] fits m by simp
  have "http_request_create co INIT memory0 (Some host) port tls (Some command) (Some path) d =
    Some \<lparr> rq_state = INIT, rq_port = port, rq_headerStart = ?i + 1, rq_headerIndex = ?i + 1 + of_nat (length ?t),
      rq_header = blit ?m (length host + 1) (?t @ [0]), rq_body = None, rq_below = co_set_tls co tls d \<rparr>"
    using assms m m2 i unfolding http_request_create_def MAX_HEADER_SIZE_def by (simp add: Let_def)
  then show ?thesis using i w t2 m(2) fits by (simp add: holds_def)
qed

lemma send_holds:
  assumes h: "holds r host tx" and fits: "length host + 1 + length tx < 997" and z: "0 \<notin> set host"
    and port: "rq_port r \<noteq> 0" and c: "ss_connect co host (rq_port r) (rq_below r) = (e, d)"
  shows "\<exists>r'. http_request_send co r = Some (e = ERR_OK, r') \<and> rq_below r' = d \<and> rq_body r' = rq_body r \<and>
    rq_state r' = INIT \<and> holds r' host (tx @ CRLF @ [0])"
proof -
  let ?i = "rq_headerIndex r" and ?n = "length host + 1 + length tx"
  let ?m = "(rq_header r)[?n := CR, ?n + 1 := LF, ?n + 2 := 0]"
  have i: "unat ?i = ?n" "length (rq_header r) = 1002" "take ?n (rq_header r) = host @ [0] @ tx" "rq_state r = INIT"
    using h by (auto simp: holds_def)
  have i2: "unat ?i < 997" using fits i by simp
  have t: "take (?n + 3) ?m = host @ [0] @ tx @ CRLF @ [0]"
  proof -
    have "?m = take ?n (rq_header r) @ [CR, LF, 0] @ drop (?n + 3) (rq_header r)"
      by (rule three_updates) (use i fits in simp)
    then have "?m = (host @ [0] @ tx @ CRLF @ [0]) @ drop (?n + 3) (rq_header r)"
      using i(3) by (simp only: append.assoc CRLF_def append_Cons append_Nil)
    moreover have "length (host @ [0] @ tx @ CRLF @ [0]) = ?n + 3" by (simp add: CRLF_def)
    ultimately show ?thesis by (metis append_eq_conv_conj)
  qed
  then have "take (length host + 1) (take (?n + 3) ?m) = host @ [0]" by simp
  then have "c_string ?m 0 = host" by (intro c_string_prefix [OF z]) simp
  then have "http_request_send co r = Some (e = ERR_OK, r\<lparr>rq_header := ?m, rq_headerIndex := ?i + 3, rq_below := d\<rparr>)"
    using i port c fits send_bytes [OF i2 i(2)] i2
    by (simp add: http_request_send_def MAX_HEADER_SIZE_def mem_write_def Let_def)
  moreover have "holds (r\<lparr>rq_header := ?m, rq_headerIndex := ?i + 3, rq_below := d\<rparr>) host (tx @ CRLF @ [0])"
    using h t i send_bytes(4) [OF i2 i(2)] by (simp add: holds_def CRLF_def eval_nat_numeral)
  ultimately show ?thesis using i by auto
qed

lemma on_connected_holds:
  assumes h: "holds r host (tx @ [0])"
  shows "http_request_on_connected co r = Some (r\<lparr>rq_below :=
    (let d = snd (ss_send co tx (rq_below r)) in
     case rq_body r of None \<Rightarrow> d | Some body \<Rightarrow> if length body > 0 then snd (ss_send co body d) else d)\<rparr>)"
proof -
  let ?m = "rq_header r"
  have n: "uint (rq_headerIndex r) - uint (rq_headerStart r) - 1 = int (length tx)"
  proof -
    have "uint (rq_headerIndex r) - uint (rq_headerStart r) - 1 =
        int (unat (rq_headerIndex r)) - int (unat (rq_headerStart r)) - 1" by simp
    moreover have "unat (rq_headerStart r) = length host + 1" "unat (rq_headerIndex r) = length host + 2 + length tx"
      using h by (simp_all add: holds_def)
    ultimately show ?thesis by linarith
  qed
  have t: "take (length tx) (drop (length host + 1) ?m) = tx"
  proof -
    have "take (length host + 1 + length tx) ?m = host @ [0] @ tx"
    proof -
      have "take (length host + 1 + length tx) (take (length host + 1 + length (tx @ [0])) ?m) = host @ [0] @ tx"
        using h by (simp add: holds_def)
      then show ?thesis by simp
    qed
    then show ?thesis by (simp add: take_drop add.commute)
  qed
  have "length host + 1 + length (tx @ [0]) \<le> length ?m"
  proof -
    have "length (take (length host + 1 + length (tx @ [0])) ?m) = length host + 1 + length (tx @ [0])"
      using h by (simp add: holds_def)
    then show ?thesis by simp
  qed
  then have "mem_slice ?m (length host + 1) (length tx) = Some tx" using t by (simp add: mem_slice_def)
  then show ?thesis
    using h unfolding http_request_on_connected_def n by (simp add: holds_def Let_def)
qed


section \<open>A request from its construction to the wire\<close>

text \<open>What a caller of the class does: construct, add headers, set a body, send; then the connection
  comes up. The results are those of \<open>addHeader\<close> (all of them), \<open>setBody\<close> and \<open>send\<close>.\<close>

definition prepare_request ::
    "'d connection \<Rightarrow> bytes \<Rightarrow> bytes \<Rightarrow> u16 \<Rightarrow> bool \<Rightarrow> bytes \<Rightarrow> bytes \<Rightarrow> (bytes \<times> bytes) list \<Rightarrow> bytes option \<Rightarrow> 'd \<Rightarrow>
     (bool \<times> bool \<times> bool \<times> 'd http_request) option" where
  "prepare_request co memory0 host port tls command path hs body d = do {
     r \<leftarrow> http_request_create co INIT memory0 (Some host) port tls (Some command) (Some path) d;
     (added, r) \<leftarrow> add_headers hs r;
     (bodied, r) \<leftarrow> (case body of None \<Rightarrow> Some (True, r) | Some b \<Rightarrow> setBody b r);
     (sent, r) \<leftarrow> http_request_send co r;
     Some (added, bodied, sent, r)
   }"

definition issue_request ::
    "'d connection \<Rightarrow> bytes \<Rightarrow> bytes \<Rightarrow> u16 \<Rightarrow> bool \<Rightarrow> bytes \<Rightarrow> bytes \<Rightarrow> (bytes \<times> bytes) list \<Rightarrow> bytes option \<Rightarrow> 'd \<Rightarrow>
     (bool \<times> bool \<times> bool \<times> 'd) option" where
  "issue_request co memory0 host port tls command path hs body d = do {
     (added, bodied, sent, r) \<leftarrow> prepare_request co memory0 host port tls command path hs body d;
     r \<leftarrow> http_request_on_connected co r;
     Some (added, bodied, sent, rq_below r)
   }"

definition request_headers :: "bytes \<Rightarrow> u16 \<Rightarrow> (bytes \<times> bytes) list \<Rightarrow> bytes option \<Rightarrow> (bytes \<times> bytes) list" where
  "request_headers host port hs body =
     host_header host port # hs @ (case body of None \<Rightarrow> [] | Some b \<Rightarrow> [content_length b])"

definition request_text :: "bytes \<Rightarrow> u16 \<Rightarrow> bytes \<Rightarrow> bytes \<Rightarrow> (bytes \<times> bytes) list \<Rightarrow> bytes option \<Rightarrow> bytes" where
  "request_text host port command path hs body =
     render command path (ascii ''HTTP/1.1'') (request_headers host port hs body)"

datatype request_event = Use_Tls bool | Connect_To bytes u16 | Wire bytes

text \<open>A connection that answers \<open>connect\<close> with \<open>e\<close> and takes everything else.\<close>

definition request_log :: "err \<Rightarrow> request_event list connection" where
  "request_log e = \<lparr> ss_connect = (\<lambda>host port w. (e, w @ [Connect_To host port])), ss_send = (\<lambda>d w. (ERR_OK, w @ [Wire d])),
     ss_flush = (\<lambda>w. (ERR_OK, w)), ss_close = (\<lambda>w. (ERR_OK, w)), ss_send_buffer_size = (\<lambda>w. 0xFFFF),
     ss_is_connected = (\<lambda>w. True), co_set_tls = (\<lambda>b w. w @ [Use_Tls b]) \<rparr>"

definition wire_body :: "bytes option \<Rightarrow> request_event list" where
  "wire_body body = (case body of None \<Rightarrow> [] | Some b \<Rightarrow> if b = [] then [] else [Wire b])"

lemma request_text_eq:
  "request_text host port command path hs body =
     ((request_line command path host port @ lines hs)
        @ (case body of None \<Rightarrow> [] | Some b \<Rightarrow> header_line (content_length b))) @ CRLF"
  by (simp add: request_text_def request_headers_def render_def request_line_eq first_line_def split: option.split)

lemma prepare_request_holds:
  assumes "length memory0 = 1002" and "port \<noteq> 0" and z: "0 \<notin> set host"
    and fits: "length host + length (request_text host port command path hs body) < 998"
    and b: "\<forall>b. body = Some b \<longrightarrow> length b < 2 ^ 31" and c: "ss_connect co host port (co_set_tls co tls w) = (e, d)"
  shows "\<exists>r. prepare_request co memory0 host port tls command path hs body w = Some (True, True, e = ERR_OK, r) \<and>
    holds r host (request_text host port command path hs body @ [0]) \<and> rq_body r = body \<and> rq_below r = d"
proof -
  let ?l = "request_line command path host port"
  let ?b = "case body of None \<Rightarrow> [] | Some b \<Rightarrow> header_line (content_length b)"
  have len: "length host + length ?l + length (lines hs) + length ?b < 996"
    using fits unfolding request_text_eq by (simp add: CRLF_def)
  obtain r0 where r0: "http_request_create co INIT memory0 (Some host) port tls (Some command) (Some path) w = Some r0"
    "holds r0 host ?l" "rq_port r0 = port" "rq_body r0 = None" "rq_below r0 = co_set_tls co tls w"
    using http_request_create_holds [OF assms(1,2), of host command path co tls w] len by auto
  obtain r1 where r1: "add_headers hs r0 = Some (True, r1)" "holds r1 host (?l @ lines hs)" "rq_port r1 = port"
    "rq_body r1 = None" "rq_below r1 = co_set_tls co tls w"
    using add_headers_holds [OF r0(2), of hs] r0 len by auto
  obtain r2 where r2: "(case body of None \<Rightarrow> Some (True, r1) | Some b \<Rightarrow> setBody b r1) = Some (True, r2)"
    "holds r2 host ((?l @ lines hs) @ ?b)" "rq_port r2 = port" "rq_body r2 = body" "rq_below r2 = co_set_tls co tls w"
  proof (cases body)
    case None
    then show ?thesis using that [of r1] r1 by simp
  next
    case (Some b)
    then show ?thesis using that setBody_holds [OF r1(2), of b] r1 len assms(5) by auto
  qed
  obtain r3 where r3: "http_request_send co r2 = Some (e = ERR_OK, r3)" "rq_body r3 = body"
    "rq_below r3 = d" "holds r3 host ((((?l @ lines hs) @ ?b) @ CRLF) @ [0])"
    using send_holds [OF r2(2) _ z, of co e d] r2 len assms(2) c by auto
  show ?thesis
    using r0(1) r1(1) r2(1) r3 unfolding prepare_request_def request_text_eq by auto
qed

lemma issue_request_log:
  assumes "length memory0 = 1002" and "port \<noteq> 0" and "0 \<notin> set host"
    and "length host + length (request_text host port command path hs body) < 998"
    and "\<forall>b. body = Some b \<longrightarrow> length b < 2 ^ 31"
  shows "issue_request (request_log e) memory0 host port tls command path hs body w =
    Some (True, True, e = ERR_OK,
      w @ [Use_Tls tls, Connect_To host port, Wire (request_text host port command path hs body)] @ wire_body body)"
proof -
  let ?co = "request_log e"
  have "ss_connect ?co host port (co_set_tls ?co tls w) = (e, w @ [Use_Tls tls, Connect_To host port])"
    by (simp add: request_log_def)
  from prepare_request_holds [OF assms this] obtain r where
    r: "prepare_request ?co memory0 host port tls command path hs body w = Some (True, True, e = ERR_OK, r)"
      "holds r host (request_text host port command path hs body @ [0])" "rq_body r = body"
      "rq_below r = w @ [Use_Tls tls, Connect_To host port]" by blast
  show ?thesis
    using r on_connected_holds [OF r(2), of ?co] unfolding issue_request_def
    by (auto simp: request_log_def wire_body_def Let_def split: option.split)
qed

lemma decimal_header_ok: "b < 0x30 \<or> 0x39 < b \<Longrightarrow> b \<notin> set (nat_decimal n)"
  using decimal_not_special [OF nat_decimal_digits] .

lemma request_headers_ok:
  assumes "CR \<notin> set host" and "0 \<notin> set host" and "list_all header_ok hs"
  shows "list_all header_ok (request_headers host port hs body)"
  using assms decimal_header_ok [of CR] decimal_header_ok [of 0]
  by (auto simp: request_headers_def host_header_def content_length_def of_char_def split: option.split)

text \<open>The calls a program can make on a request, in any order, and the connection coming up. The
  connection of a request that has failed is never asked for, so it does not come up.\<close>

datatype request_call = Add_Header bytes bytes | Set_Body bytes | Send_Request | Connection_Up

fun do_request_call :: "'d connection \<Rightarrow> request_call \<Rightarrow> 'd http_request \<Rightarrow> 'd http_request option" where
  "do_request_call co (Add_Header a b) r = map_option snd (addHeader a b r)"
| "do_request_call co (Set_Body d) r = map_option snd (setBody d r)"
| "do_request_call co Send_Request r = map_option snd (http_request_send co r)"
| "do_request_call co Connection_Up r = (if rq_state r = FAIL then Some r else http_request_on_connected co r)"

fun request_calls :: "'d connection \<Rightarrow> request_call list \<Rightarrow> 'd http_request \<Rightarrow> 'd http_request option" where
  "request_calls co [] r = Some r"
| "request_calls co (c # cs) r = Option.bind (do_request_call co c r) (request_calls co cs)"

lemma request_call_safe: "request_inv r \<Longrightarrow> \<exists>r'. do_request_call co c r = Some r' \<and> request_inv r'"
  using addHeader_safe setBody_safe http_request_send_safe on_connected_safe by (cases c) fastforce+

lemma request_calls_safe: "request_inv r \<Longrightarrow> \<exists>r'. request_calls co cs r = Some r' \<and> request_inv r'"
proof (induction cs arbitrary: r)
  case (Cons c cs)
  then show ?case using request_call_safe [OF Cons.prems, of co c] by auto
qed simp

section \<open>Properties\<close>

text \<open>C18. Whatever the arguments (null pointers, texts of any length) and whatever is called in whatever
  order, the request is never written to or read outside its 1002-byte buffer.\<close>

theorem http_request_memory_safe:
  assumes "length memory0 = 1002"
  shows "\<exists>r r'. http_request_create co state0 memory0 host port tls command path d = Some r \<and>
    request_calls co calls r = Some r' \<and> length (rq_header r') = 1002 \<and>
    (rq_state r' \<noteq> FAIL \<longrightarrow> unat (rq_headerIndex r') \<le> 1000)"
proof -
  obtain r where r: "http_request_create co state0 memory0 host port tls command path d = Some r" "request_inv r"
    using http_request_create_safe [OF assms, of co state0 host port tls command path d] by blast
  then show ?thesis using request_calls_safe [OF r(2), of co calls] by (auto simp: request_inv_def)
qed

theorem http_request_memory_safe_witness:
  "\<exists>r r'. http_request_create (request_log ERR_OK) HEADER_RECEIVED (replicate 1002 7) (Some (replicate 990 0x68)) 80 False
      (Some [0x47]) (Some (replicate 70000 0x2F)) [] = Some r \<and>
    request_calls (request_log ERR_OK) [Set_Body [1], Send_Request, Connection_Up] r = Some r' \<and> length (rq_header r') = 1002 \<and>
    (rq_state r' \<noteq> FAIL \<longrightarrow> unat (rq_headerIndex r') \<le> 1000)"
  by (rule http_request_memory_safe) simp

text \<open>What a request that fits puts on the wire, byte for byte: the connection is asked for with the
  host and the port; once it is up, the request line, the \<open>Host\<close> header, the headers in the order they were
  added, \<open>Content-Length\<close> with the length of the body, an empty line; then the body. \<open>send\<close> returns
  true exactly when \<open>connect\<close> returned \<open>ERR_OK\<close>, so for a name that has to be looked up
  (\<open>ERR_INPROGRESS\<close>) it reports a failure and the request is sent all the same.\<close>

theorem http_request_on_wire:
  assumes "length memory0 = 1002" and "port \<noteq> 0" and "0 \<notin> set host"
    and "length host + length (request_text host port command path hs (Some body)) < 998" and "length body < 2 ^ 31"
  shows "issue_request (request_log e) memory0 host port tls command path hs (Some body) [] =
    Some (True, True, e = ERR_OK,
      [Use_Tls tls, Connect_To host port,
       Wire (command @ [SP] @ path @ [SP] @ ascii ''HTTP/1.1'' @ CRLF
         @ ascii ''Host: '' @ host @ [COLON] @ nat_decimal (unat port) @ CRLF
         @ concat (map (\<lambda>(a, b). a @ [COLON, SP] @ b @ CRLF) hs)
         @ ascii ''Content-Length: '' @ nat_decimal (length body) @ CRLF @ CRLF)]
      @ (if body = [] then [] else [Wire body]))"
proof -
  have "header_line = (\<lambda>(a, b). a @ [COLON, SP] @ b @ CRLF)" by auto
  then show ?thesis
    using issue_request_log [OF assms(1-4), of e tls "[]"] assms(5)
    by (simp add: wire_body_def request_text_def request_headers_def render_def host_header_def content_length_def)
qed

definition demo_memory :: bytes where "demo_memory = replicate 1002 0x55"

theorem http_request_on_wire_witness:
  "issue_request (request_log (-5)) demo_memory [0x68] 80 True [0x47] [0x2F] [([0x41], [0x62])] (Some [1, 2]) [] =
    Some (True, True, False,
      [Use_Tls True, Connect_To [0x68] 80,
       Wire ([0x47] @ [SP] @ [0x2F] @ [SP] @ ascii ''HTTP/1.1'' @ CRLF
         @ ascii ''Host: '' @ [0x68] @ [COLON] @ nat_decimal (unat (80 :: u16)) @ CRLF
         @ concat (map (\<lambda>(a, b). a @ [COLON, SP] @ b @ CRLF) [([0x41], [0x62])])
         @ ascii ''Content-Length: '' @ nat_decimal (length [1 :: u8, 2]) @ CRLF @ CRLF)]
      @ [Wire [1, 2]])"
proof -
  have n: "length (nat_decimal 80) = 2" "length (nat_decimal (Suc (Suc 0))) = 1"
    by (simp_all add: nat_decimal.simps)
  show ?thesis
    using http_request_on_wire [of demo_memory 80 "[0x68]" "[0x47]" "[0x2F]" "[([0x41], [0x62])]" "[1, 2]" "-5" True] n
    by (simp add: demo_memory_def request_text_def request_headers_def render_def host_header_def content_length_def CRLF_def ERR_OK_def
        del: ascii_simps)
qed

text \<open>C17. What \<open>HTTPRequest\<close> sends, \<open>HTTPHeader\<close> reads: the server at the other end gets the
  command, the path, every header by name (among the first 20, \<open>Host\<close> and \<open>Content-Length\<close> with
  them), and the body behind the header.\<close>

theorem http_request_read_by_server:
  assumes "length memory0 = 1002" and "port \<noteq> 0" and "0 \<notin> set host" and "CR \<notin> set host"
    and "request_ok command path (ascii ''HTTP/1.1'') hs"
    and "length host + length (request_text host port command path hs (Some body)) < 998" and "length body < 2 ^ 31"
  shows "\<exists>sent out m h. issue_request (request_log ERR_OK) memory0 host port tls command path hs (Some body) [] =
      Some (True, True, True, Use_Tls tls # Connect_To host port # map Wire out) \<and> concat out = sent \<and>
    http_parse sent (length sent) http_header_init = Some (m, h, True) \<and>
    getCommand m h = Some command \<and> getPath m h = Some path \<and>
    (\<forall>name. getHeaderValue m h name = map_option snd (find (\<lambda>f. same_name (fst f) name)
       (take 20 ((ascii ''Host'', host @ [COLON] @ nat_decimal (unat port)) # hs
          @ [(ascii ''Content-Length'', nat_decimal (length body))])))) \<and>
    drop (unat (hh_headerSize h)) m = body"
proof -
  let ?t = "request_text host port command path hs (Some body)"
  let ?hs = "request_headers host port hs (Some body)"
  have ok: "request_ok command path (ascii ''HTTP/1.1'') ?hs"
    using assms(3-5) request_headers_ok [of host hs port "Some body"] by (simp add: request_ok_def)
  have hs: "?hs = (ascii ''Host'', host @ [COLON] @ nat_decimal (unat port)) # hs
          @ [(ascii ''Content-Length'', nat_decimal (length body))]"
    by (simp add: request_headers_def host_header_def content_length_def)
  obtain m h where p: "http_parse (?t @ body) (length (?t @ body)) http_header_init = Some (m, h, True)"
    "getCommand m h = Some command" "getPath m h = Some path" "hh_headerSize h = of_nat (length ?t)" "drop (length ?t) m = body"
    "\<forall>name. getHeaderValue m h name = map_option snd (find (\<lambda>f. same_name (fst f) name) (take MAX_HEADERS ?hs))"
    using render_request_lookup [OF ok, of body] unfolding request_text_def by blast
  have size: "unat (hh_headerSize h) = length ?t" using p(4) assms(6) by (simp add: unat_of_nat)
  let ?out = "?t # (if body = [] then [] else [body])"
  have "issue_request (request_log ERR_OK) memory0 host port tls command path hs (Some body) [] =
      Some (True, True, True, Use_Tls tls # Connect_To host port # map Wire ?out)"
    using issue_request_log [OF assms(1-3) assms(6), of ERR_OK tls "[]"] assms(7) by (simp add: wire_body_def)
  moreover have "concat ?out = ?t @ body" by simp
  ultimately show ?thesis
    using p size unfolding hs MAX_HEADERS_def
    by (intro exI [of _ "?t @ body"] exI [of _ ?out] exI [of _ m] exI [of _ h] conjI) simp_all
qed

lemma demo_request:
  "request_ok [0x47] [0x2F] (ascii ''HTTP/1.1'') [([0x41], [0x62])]"
  "length [0x68 :: u8] + length (request_text [0x68] 80 [0x47] [0x2F] [([0x41], [0x62])] (Some [1, 2])) < 998"
proof -
  have n: "length (nat_decimal 80) = 2" "length (nat_decimal (Suc (Suc 0))) = 1"
    by (simp_all add: nat_decimal.simps)
  show "length [0x68 :: u8] + length (request_text [0x68] 80 [0x47] [0x2F] [([0x41], [0x62])] (Some [1, 2])) < 998"
    using n by (simp add: request_text_def request_headers_def render_def host_header_def content_length_def CRLF_def)
qed (simp add: request_ok_def of_char_def)

theorem http_request_read_by_server_witness:
  "\<exists>sent out m h. issue_request (request_log ERR_OK) demo_memory [0x68] 80 False [0x47] [0x2F] [([0x41], [0x62])] (Some [1, 2]) [] =
      Some (True, True, True, Use_Tls False # Connect_To [0x68] 80 # map Wire out) \<and> concat out = sent \<and>
    http_parse sent (length sent) http_header_init = Some (m, h, True) \<and>
    getCommand m h = Some [0x47] \<and> getPath m h = Some [0x2F] \<and>
    (\<forall>name. getHeaderValue m h name = map_option snd (find (\<lambda>f. same_name (fst f) name)
       (take 20 ((ascii ''Host'', [0x68] @ [COLON] @ nat_decimal (unat (80 :: u16))) # [([0x41], [0x62])]
          @ [(ascii ''Content-Length'', nat_decimal (length [1 :: u8, 2]))])))) \<and>
    drop (unat (hh_headerSize h)) m = [1, 2]"
  by (rule http_request_read_by_server [OF _ _ _ _ demo_request]) (simp_all add: demo_memory_def)

end
