(* ===== verification/Http_Session_Spec.thy ===== *)
theory Http_Session_Spec
  imports Http_Session Http_Header_Spec Web_Socket_Spec
begin

text \<open>
  The HTTP session over a connection that takes everything, with an application that records what it is
  told: the WebSocket handshake and the frames behind it, and the replies. The decoder's results are
  those of \<open>Web_Socket_Spec\<close>, carried over by a simulation lemma.
\<close>

section \<open>One decoder, two callbacks\<close>

lemma decodeData_map:
  fixes f :: "'a \<Rightarrow> 'b"
  assumes d: "\<And>x w. onWebSocketData cb' x (f w) = map_prod id f (onWebSocketData cb x w)"
    and e: "\<And>w. onFinishedPacket cb' (f w) = map_prod id f (onFinishedPacket cb w)"
    and "decodeData cb h w data = Some (h', w', ok)"
  shows "decodeData cb' h (f w) data = Some (h', f w', ok)"
proof -
  have "cb0 = cb \<longrightarrow> decodeData cb' h (f w) data = Some (fst r, f (fst (snd r)), snd (snd r))"
    if "decodeData cb0 h w data = Some r" for cb0 h w data r
    using _ that
  proof (rule decodeData.raw_induct
      [of "\<lambda>cb0 h w data r. cb0 = cb \<longrightarrow> decodeData cb' h (f w) data = Some (fst r, f (fst (snd r)), snd (snd r))"])
    fix g :: "'a web_socket_interface \<Rightarrow> web_socket_handler \<Rightarrow> 'a \<Rightarrow> bytes \<Rightarrow> (web_socket_handler \<times> 'a \<times> bool) option"
      and cb0 h w data and r :: "web_socket_handler \<times> 'a \<times> bool"
    assume IH: "\<And>cb0 h w data r. g cb0 h w data = Some r \<Longrightarrow>
        cb0 = cb \<longrightarrow> decodeData cb' h (f w) data = Some (fst r, f (fst (snd r)), snd (snd r))"
    assume r: "(if data = [] then Some (h, w, True)
      else if ws_state h = WAIT_PACKET then
        (case decode_packet h data of
           Fault \<Rightarrow> None
         | Wait h' \<Rightarrow> Some (h', w, True)
         | Header h' data' \<Rightarrow> g cb0 h' w data')
      else if is_data_operation (ws_operation h) then
        (case decode_payload h (ws_dataIndex h) data of
           (chunk, idx, rest) \<Rightarrow>
             (case onWebSocketData cb0 chunk w of
                (ok, w') \<Rightarrow>
                  if \<not> ok then Some (h\<lparr>ws_dataIndex := idx\<rparr>, w', False)
                  else if idx = ws_dataLen h then
                    (case onFinishedPacket cb0 w' of
                       (ok', w'') \<Rightarrow>
                         if \<not> ok' then
                           Some (h\<lparr>ws_dataIndex := idx, ws_state := WAIT_PACKET\<rparr>, w'', False)
                         else g cb0 (h\<lparr>ws_dataIndex := idx, ws_state := WAIT_PACKET\<rparr>) w'' rest)
                  else g cb0 (h\<lparr>ws_dataIndex := idx\<rparr>) w' rest))
      else Some (h, w, False)) = Some r"
    show "cb0 = cb \<longrightarrow> decodeData cb' h (f w) data = Some (fst r, f (fst (snd r)), snd (snd r))"
      using r by (subst decodeData.simps)
        (auto simp: d e dest!: IH split: packet_step.splits prod.splits if_splits)
  qed
  from this [OF assms(3)] show ?thesis by simp
qed


section \<open>A recording application\<close>

datatype http_event = Sent bytes | Body bytes | Message bytes

definition http_note :: "http_event list \<Rightarrow> http_event list http_session \<Rightarrow> http_event list http_session" where
  "http_note es s = s\<lparr>ht_below := ht_below s @ es\<rparr>"

definition http_log_sender :: "http_event list session_sender" where
  "http_log_sender = \<lparr> ss_connect = (\<lambda>host port w. (ERR_OK, w)), ss_send = (\<lambda>d w. (ERR_OK, w @ [Sent d])),
     ss_flush = (\<lambda>w. (ERR_OK, w)), ss_close = (\<lambda>w. (ERR_OK, w)), ss_send_buffer_size = (\<lambda>w. 0xFFFF),
     ss_is_connected = (\<lambda>w. True) \<rparr>"

text \<open>It accepts every WebSocket, and notes bodies and messages.\<close>

definition websocket_app :: "mbedtls \<Rightarrow> http_event list http_handlers" where
  "websocket_app mb = \<lparr>
     onRequestReceived = (\<lambda>s. case acceptWebSocket mb http_log_sender s of None \<Rightarrow> (False, s) | Some r \<Rightarrow> r),
     onHttpData = (\<lambda>d s. (True, http_note [Body d] s)),
     onHttpWebSocketData = (\<lambda>d s. (True, http_note [Message d] s)) \<rparr>"

fun http_run ::
    "'d http_handlers \<Rightarrow> 'd session_sender \<Rightarrow> web_socket_handler \<Rightarrow> 'd http_session \<Rightarrow> bytes list \<Rightarrow>
     (web_socket_handler \<times> 'd http_session \<times> bool) option" where
  "http_run app snd0 ws s [] = Some (ws, s, True)"
| "http_run app snd0 ws s (d # ds) = do {
     (ws, s, ok) \<leftarrow> http_session_on_recv app snd0 ws s d;
     if ok then http_run app snd0 ws s ds else Some (ws, s, False)
   }"

lemma http_note_simps [simp]:
  "ht_state (http_note es s) = ht_state s" "ht_below (http_note es s) = ht_below s @ es"
  "http_note es' (http_note es s) = http_note (es @ es') s" "http_note [] s = s"
  by (simp_all add: http_note_def)

lemma http_session_send_log [simp]: "http_session_send http_log_sender d s = (ERR_OK, http_note [Sent d] s)"
  by (simp add: http_session_send_def http_log_sender_def http_note_def)

section \<open>Frames\<close>

fun message_event :: "ws_event \<Rightarrow> http_event list" where
  "message_event (Data d) = [Message d]"
| "message_event _ = []"

definition message_events :: "ws_event list \<Rightarrow> http_event list" where
  "message_events es = concat (map message_event es)"

definition message_bytes :: "http_event list \<Rightarrow> bytes" where
  "message_bytes es = concat (map (\<lambda>e. case e of Message d \<Rightarrow> d | _ \<Rightarrow> []) es)"

definition payload_bytes :: "ws_output list \<Rightarrow> bytes" where
  "payload_bytes os = concat (map (\<lambda>out. case out of Byte b \<Rightarrow> [b] | Finished \<Rightarrow> []) os)"

lemma payload_bytes_simps [simp]:
  "payload_bytes [] = []" "payload_bytes (xs @ ys) = payload_bytes xs @ payload_bytes ys"
  "payload_bytes (map Byte d) = d" "payload_bytes [Finished] = []" "payload_bytes (Finished # xs) = payload_bytes xs"
  by (simp_all add: payload_bytes_def comp_def)

lemma message_bytes_flat: "message_bytes (message_events es) = payload_bytes (ws_flat es)"
proof (induction es)
  case (Cons e es)
  then show ?case by (cases e) (simp_all add: message_bytes_def message_events_def ws_flat_def)
qed (simp add: message_bytes_def message_events_def ws_flat_def)

lemma payload_bytes_messages: "payload_bytes (ws_messages fs) = concat (map (\<lambda>f. snd (snd f)) fs)"
  by (induction fs) (auto simp: ws_messages_def)

text \<open>The end of an empty frame carries no byte.\<close>

lemma payload_bytes_reported: "payload_bytes (reported fs) = concat (map (\<lambda>f. snd (snd f)) fs)"
proof (cases "ends_empty fs")
  case True
  then obtain gs g where "fs = gs @ [g]" "snd (snd g) = []" by (cases fs rule: rev_cases) (auto simp: ends_empty_def)
  then have "payload_bytes (butlast (ws_messages fs)) = payload_bytes (ws_messages fs)"
    by (cases g) (simp add: ws_messages_def butlast_append)
  then show ?thesis using True by (simp add: reported_def payload_bytes_messages)
qed (simp add: reported_def payload_bytes_messages)

lemma established_recv:
  assumes "ht_state s = WEBSOCKET_ESTABLISHED" and "ws_decode ws data = Some (ws', es, ok)"
  shows "http_session_on_recv (websocket_app mb) http_log_sender ws s data = Some (ws', http_note (message_events es) s, ok)"
proof -
  let ?f = "\<lambda>es. http_note (message_events es) s"
  have "decodeData (http_web_socket (websocket_app mb) http_log_sender) ws (?f []) data = Some (ws', ?f es, ok)"
    by (rule decodeData_map [where cb = ws_recorder])
      (use assms(2) in \<open>simp_all add: ws_recorder_def http_web_socket_def websocket_app_def message_events_def ws_decode_def\<close>)
  then show ?thesis using assms(1) by (simp add: http_session_on_recv_def message_events_def)
qed

lemma established_run:
  "ht_state s = WEBSOCKET_ESTABLISHED \<Longrightarrow> run_segments ws_decode ws segs = Some (ws', es, True) \<Longrightarrow>
   http_run (websocket_app mb) http_log_sender ws s segs = Some (ws', http_note (message_events es) s, True)"
proof (induction segs arbitrary: s ws es)
  case Nil
  then show ?case by (simp add: message_events_def)
next
  case (Cons d ds)
  from Cons.prems(2) obtain ws1 es1 es2 where 1: "ws_decode ws d = Some (ws1, es1, True)"
    "run_segments ws_decode ws1 ds = Some (ws', es2, True)" "es = es1 @ es2"
    by (auto split: option.splits prod.splits if_splits)
  show ?case
    using established_recv [OF Cons.prems(1) 1(1), of mb] Cons.IH [of "http_note (message_events es1) s" ws1 es2] 1 Cons.prems(1)
    by (simp add: message_events_def)
qed

section \<open>The handshake\<close>

lemma length_guid [simp]: "length websocket_guid = 36"
  by (simp add: websocket_guid_def)

lemma length_websocket_reply [simp]: "length (websocket_reply a) = 101 + length a"
  by (simp add: websocket_reply_def)

text \<open>What mbedTLS answers in the handshake for a key: SHA-1 succeeds with 20 bytes, Base64 with the 28
  characters of 20 bytes.\<close>

definition handshake_digest :: "mbedtls \<Rightarrow> bytes \<Rightarrow> bytes \<Rightarrow> bytes \<Rightarrow> bool" where
  "handshake_digest mb key digest accept \<longleftrightarrow>
     mb_sha1_ret mb (key @ websocket_guid) = (0, digest) \<and> length digest = 20 \<and>
     mb_base64_encode mb 127 digest = (0, accept) \<and> length accept = 28 \<and> 0 \<notin> set accept"

lemma acceptWebSocket_sends:
  assumes key: "getHeaderValue (ht_memory s) (ht_header s) (ascii ''Sec-WebSocket-Key'') = Some key"
    and len: "length key \<le> 90" and mb: "handshake_digest mb key digest accept"
    and sent: "http_session_send snd0 (websocket_reply accept) s = (ERR_OK, s1)"
  shows "acceptWebSocket mb snd0 s = Some (True, s1\<lparr>ht_state := WEBSOCKET_ESTABLISHED\<rparr>)"
proof -
  let ?b1 = "blit (replicate 128 0) 0 key"
  let ?b2 = "blit ?b1 (length key) (websocket_guid @ [0])"
  have l1: "length ?b1 = 128" using len by simp
  then have l2: "length ?b2 = 128" using len by simp
  have t: "take (length key + 36) ?b2 = key @ websocket_guid"
    using take_blit [of "length key" "websocket_guid" ?b1] len l1 by (simp add: blit_def)
  have s: "sha1 mb (key @ websocket_guid) (replicate 20 0) = Some (0, digest)"
    using mb by (simp add: sha1_def handshake_digest_def mem_copy_def blit_def)
  let ?b3 = "(blit ?b2 0 accept)[28 := 0]"
  have b: "base64_encode mb digest ?b2 128 = Some (0, ?b3)"
    using mb l2 by (simp add: base64_encode_def handshake_digest_def mem_copy_def mem_write_def)
  have "takeWhile (\<lambda>b. b \<noteq> 0) (accept @ 0 # xs) = accept" for xs
    using mb by (simp add: handshake_digest_def takeWhile_zero)
  moreover have "(blit m 0 accept)[28 := 0] = accept @ 0 # drop 29 m" if "length m = 128" for m
    using mb that Cons_nth_drop_Suc [of 28 m, symmetric] by (simp add: blit_def handshake_digest_def list_update_append)
  ultimately have c: "c_string ?b3 0 = accept" unfolding c_string_def using l2 by (metis drop0)
  have n: "length accept = 28" using mb by (simp add: handshake_digest_def)
  show ?thesis
    using key len l1 l2 t s b c n sent
    by (simp add: acceptWebSocket_def Let_def mem_copy_def mem_slice_def snprintf_def blit_def [of "replicate 256 0"])
qed


text \<open>The request of a handshake: its \<open>Sec-WebSocket-Key\<close>, the first of that name among the first 20
  headers, is short enough for the local buffer, and the header is shorter than 64 KiB.\<close>

definition handshake_request ::
    "bytes \<Rightarrow> bytes \<Rightarrow> bytes \<Rightarrow> (bytes \<times> bytes) list \<Rightarrow> bytes \<Rightarrow> bool" where
  "handshake_request verb path version hs key \<longleftrightarrow> request_ok verb path version hs \<and>
     map_option snd (find (\<lambda>f. same_name (fst f) (ascii ''Sec-WebSocket-Key'')) (take MAX_HEADERS hs)) = Some key \<and>
     length key \<le> 90 \<and> length (render verb path version hs) < 65536"

lemma handshake_recv:
  assumes req: "handshake_request verb path version hs key" and mb: "handshake_digest mb key digest accept"
    and app: "\<And>s. onRequestReceived app s = (case acceptWebSocket mb snd0 s of None \<Rightarrow> (False, s) | Some r \<Rightarrow> r)"
    and sent: "ss_send snd0 (websocket_reply accept) d = (ERR_OK, d1)"
  shows "\<exists>h m. http_session_on_recv app snd0 ws (http_session_create d) (render verb path version hs @ body) =
    (let s = \<lparr> ht_state = WEBSOCKET_ESTABLISHED, ht_header = h, ht_memory = m, ht_below = d1 \<rparr> in
     if body = [] then Some (ws, s, True) else (case onHttpData app body s of (ok, s) \<Rightarrow> Some (ws, s, ok)))"
proof -
  let ?r = "render verb path version hs"
  have ok: "request_ok verb path version hs" and len: "length key \<le> 90" "length ?r < 65536"
    using req by (simp_all add: handshake_request_def)
  have "second_ok path" using ok by (simp add: request_ok_def second_ok_def)
  then obtain m h where p: "http_parse (?r @ body) (length (?r @ body)) http_header_init = Some (m, h, True)"
    "getHeaderValue m h (ascii ''Sec-WebSocket-Key'') = Some key"
    "hh_headerSize h = of_nat (length ?r)" "drop (length ?r) m = body"
    using render_lookup [of verb path version hs body] req unfolding handshake_request_def request_ok_def by metis
  let ?s = "\<lparr> ht_state = HEADER_RECEIVED, ht_header = h, ht_memory = m, ht_below = d \<rparr>"
  have "http_session_send snd0 (websocket_reply accept) ?s = (ERR_OK, ?s\<lparr>ht_below := d1\<rparr>)"
    using sent by (simp add: http_session_send_def)
  then have a: "acceptWebSocket mb snd0 ?s = Some (True, ?s\<lparr>ht_below := d1, ht_state := WEBSOCKET_ESTABLISHED\<rparr>)"
    using acceptWebSocket_sends [OF _ len(1) mb, of ?s snd0] p(2) by simp
  have size: "unat (hh_headerSize h) = length ?r" using len p(3) by (simp add: unat_of_nat)
  show ?thesis
    by (intro exI [of _ h] exI [of _ m])
      (use p a size app in \<open>auto simp: http_session_on_recv_def http_session_create_def Let_def\<close>)
qed

lemma handshake_logged:
  assumes "handshake_request verb path version hs key" and "handshake_digest mb key digest accept"
  shows "\<exists>s. http_session_on_recv (websocket_app mb) http_log_sender ws (http_session_create [])
       (render verb path version hs @ body) = Some (ws, s, True) \<and> ht_state s = WEBSOCKET_ESTABLISHED \<and>
     ht_below s = Sent (websocket_reply accept) # (if body = [] then [] else [Body body])"
proof -
  obtain h m where "http_session_on_recv (websocket_app mb) http_log_sender ws (http_session_create []) (render verb path version hs @ body) =
    (let s = \<lparr> ht_state = WEBSOCKET_ESTABLISHED, ht_header = h, ht_memory = m, ht_below = [Sent (websocket_reply accept)] \<rparr> in
     if body = [] then Some (ws, s, True) else (case onHttpData (websocket_app mb) body s of (ok, s) \<Rightarrow> Some (ws, s, ok)))"
    using handshake_recv [OF assms, of "websocket_app mb" http_log_sender "[]" "[Sent (websocket_reply accept)]" ws body]
    by (auto simp: websocket_app_def http_log_sender_def)
  then show ?thesis by (cases "body = []") (auto simp: websocket_app_def Let_def http_note_def)
qed

section \<open>The HTTP session as a client of the connection\<close>

text \<open>Messages sent one after the other, until one fails.\<close>

fun send_messages ::
    "'d http_handlers \<Rightarrow> 'd session_sender \<Rightarrow> bytes list \<Rightarrow> 'd http_session \<Rightarrow> bool \<times> 'd http_session" where
  "send_messages app snd0 [] s = (True, s)"
| "send_messages app snd0 (m # ms) s =
     (case sendWebSocketData app snd0 m s of (ok, s) \<Rightarrow> if ok then send_messages app snd0 ms s else (False, s))"

context wire_sender begin

lemma http_send_wire:
  assumes "up (ht_below s)"
  shows "\<exists>b. http_session_send snd0 d s = (ERR_OK, s\<lparr>ht_below := b\<rparr>) \<and> up b \<and> wire b = wire (ht_below s) @ d"
  using send_wire [OF assms, of d] by (cases "ss_send snd0 d (ht_below s)") (auto simp: http_session_send_def)

lemma reply_wire:
  assumes "up (ht_below s)" and "length (http_reply_header extra (int (length body))) < 128"
  shows "\<exists>b. sendHttpReply snd0 extra (Some body) (int (length body)) s = Some (True, s\<lparr>ht_below := b\<rparr>) \<and> up b \<and>
    wire b = wire (ht_below s) @ http_reply_header extra (int (length body)) @ body"
proof -
  let ?h = "http_reply_header extra (int (length body))"
  have "take (length ?h) (blit (replicate 128 0) 0 (take 127 ?h @ [0])) = ?h"
    using assms(2) by (simp add: blit_def)
  note h = this
  obtain b1 where b1: "http_session_send snd0 ?h s = (ERR_OK, s\<lparr>ht_below := b1\<rparr>)" "up b1" "wire b1 = wire (ht_below s) @ ?h"
    using http_send_wire [OF assms(1)] by blast
  have "up (ht_below (s\<lparr>ht_below := b1\<rparr>))" using b1(2) by simp
  from http_send_wire [OF this, of body] obtain b2 where
    b2: "http_session_send snd0 body (s\<lparr>ht_below := b1\<rparr>) = (ERR_OK, s\<lparr>ht_below := b2\<rparr>)" "up b2"
      "wire b2 = wire b1 @ body" by auto
  have len: "length (blit (replicate 128 0) 0 (take 127 ?h @ [0])) = 128" using assms(2) by simp
  show ?thesis using assms(2) h b1 b2 len
    by (intro exI [of _ b2]) (simp add: sendHttpReply_def snprintf_def mem_copy_def mem_slice_def)
qed

lemma websocket_message_wire:
  assumes "up (ht_below s)"
  shows "\<exists>b. sendWebSocketData app snd0 body s = (True, s\<lparr>ht_below := b\<rparr>) \<and> up b \<and>
    wire b = wire (ht_below s) @ encode_header (of_nat (length body)) @ body"
proof -
  obtain b1 where b1: "http_session_send snd0 (encode_header (of_nat (length body))) s = (ERR_OK, s\<lparr>ht_below := b1\<rparr>)" "up b1"
    "wire b1 = wire (ht_below s) @ encode_header (of_nat (length body))"
    using http_send_wire [OF assms] by blast
  have "up (ht_below (s\<lparr>ht_below := b1\<rparr>))" using b1(2) by simp
  from http_send_wire [OF this, of body] obtain b2 where
    b2: "http_session_send snd0 body (s\<lparr>ht_below := b1\<rparr>) = (ERR_OK, s\<lparr>ht_below := b2\<rparr>)" "up b2"
      "wire b2 = wire b1 @ body" by auto
  show ?thesis using b1 b2
    by (intro exI [of _ b2]) (simp add: sendWebSocketData_def encodeData_def http_web_socket_def http_encoded_data_def)
qed

lemma websocket_messages_wire:
  "up (ht_below s) \<Longrightarrow> \<exists>b. send_messages app snd0 ms s = (True, s\<lparr>ht_below := b\<rparr>) \<and> up b \<and> wire b = wire (ht_below s) @ concat (map (\<lambda>m. encode_header (of_nat (length m)) @ m) ms)"
proof (induction ms arbitrary: s)
  case Nil
  then show ?case by (intro exI [of _ "ht_below s"]) simp
next
  case (Cons m ms)
  obtain b1 where b1: "sendWebSocketData app snd0 m s = (True, s\<lparr>ht_below := b1\<rparr>)" "up b1"
    "wire b1 = wire (ht_below s) @ encode_header (of_nat (length m)) @ m"
    using websocket_message_wire [OF Cons.prems] by blast
  have "up (ht_below (s\<lparr>ht_below := b1\<rparr>))" using b1(2) by simp
  from Cons.IH [OF this] b1 show ?case by auto
qed

end

section \<open>Properties\<close>

text \<open>A WebSocket connection from its first byte. A request with a \<open>Sec-WebSocket-Key\<close> is answered
  with the accept value mbedTLS computes for the key and the GUID, and nothing else is sent; from then on
  the payload bytes of the frames that follow, cut into segments anywhere, reach the application
  completely and in order.\<close>

theorem http_websocket_connection:
  assumes "handshake_request verb path version hs key" and "handshake_digest mb key digest accept"
    and "list_all data_frame fs" and "concat segs = ws_frames fs"
  shows "\<exists>ws s es. http_run (websocket_app mb) http_log_sender web_socket_init (http_session_create [])
       (render verb path version hs # segs) = Some (ws, s, True) \<and> ht_state s = WEBSOCKET_ESTABLISHED \<and>
     ht_below s = Sent (websocket_reply accept) # es \<and> (\<forall>e\<in>set es. \<exists>d. e = Message d) \<and>
     message_bytes es = concat (map (\<lambda>f. snd (snd f)) fs)"
proof -
  from handshake_logged [OF assms(1,2), of web_socket_init "[]"] obtain s where
    r: "http_session_on_recv (websocket_app mb) http_log_sender web_socket_init (http_session_create [])
       (render verb path version hs) = Some (web_socket_init, s, True)" "ht_state s = WEBSOCKET_ESTABLISHED"
      "ht_below s = [Sent (websocket_reply accept)]" by auto
  from frames_decode [OF assms(3,4)] obtain ws es where
    f: "run_segments ws_decode web_socket_init segs = Some (ws, es, True)" "ws_flat es = reported fs" by blast
  have all: "\<forall>e\<in>set (message_events es). \<exists>d. e = Message d"
  proof -
    have "\<exists>d. e = Message d" if "e \<in> set (message_event x)" for e x using that by (cases x) auto
    then show ?thesis by (auto simp: message_events_def)
  qed
  show ?thesis
    using r established_run [OF r(2) f(1), of mb] all f(2) message_bytes_flat [of es]
    by (intro exI [of _ ws] exI [of _ "http_note (message_events es) s"] exI [of _ "message_events es"])
      (simp add: payload_bytes_reported)
qed

definition demo_mbedtls :: mbedtls where
  "demo_mbedtls = \<lparr> mb_sha1_ret = (\<lambda>d. (0, take 20 (d @ replicate 20 1))),
     mb_base64_encode = (\<lambda>n d. (0, take 28 (d @ replicate 28 0x3D))) \<rparr>"

lemma demo_handshake:
  "handshake_request [0x47] [0x2F] [0x48] [(ascii ''sec-websocket-key'', [0x61, 0x62])] [0x61, 0x62]"
  "handshake_digest demo_mbedtls [0x61, 0x62] (0x61 # 0x62 # take 18 websocket_guid)
     (0x61 # 0x62 # take 18 websocket_guid @ replicate 8 0x3D)"
  by (simp_all add: handshake_request_def request_ok_def same_name_def ascii_lower_def MAX_HEADERS_def render_def CRLF_def
      of_char_def)
    (simp add: handshake_digest_def demo_mbedtls_def websocket_guid_def)

theorem http_websocket_connection_witness:
  "\<exists>ws s es. http_run (websocket_app demo_mbedtls) http_log_sender web_socket_init (http_session_create [])
       [render [0x47] [0x2F] [0x48] [(ascii ''sec-websocket-key'', [0x61, 0x62])], [0x81], [0x83, 1, 2], [3, 4, 0x49, 0x4b, 0x22]] =
       Some (ws, s, True) \<and> ht_state s = WEBSOCKET_ESTABLISHED \<and>
     ht_below s = Sent (websocket_reply (0x61 # 0x62 # take 18 websocket_guid @ replicate 8 0x3D)) # es \<and>
     (\<forall>e\<in>set es. \<exists>d. e = Message d) \<and>
     message_bytes es = concat (map (\<lambda>f. snd (snd f)) [(0x81 :: u8, Some [1, 2, 3, 4 :: u8], [0x48, 0x49, 0x21])])"
  by (rule http_websocket_connection [OF demo_handshake])
    (simp_all add: data_frame_def operation_of_def is_data_operation_def ws_frames_def encode_header_cases)

text \<open>Bytes behind the request of a handshake that arrive in the same segment are handed to
  \<open>onHttpData\<close> instead of the frame decoder, which does not see them: frames a client sends without
  waiting for the reply are lost.\<close>

theorem http_frames_behind_handshake_lost:
  assumes "handshake_request verb path version hs key" and "handshake_digest mb key digest accept" and "body \<noteq> []"
  shows "\<exists>s. http_session_on_recv (websocket_app mb) http_log_sender web_socket_init (http_session_create [])
       (render verb path version hs @ body) = Some (web_socket_init, s, True) \<and> ht_state s = WEBSOCKET_ESTABLISHED \<and>
     ht_below s = [Sent (websocket_reply accept), Body body]"
  using handshake_logged [OF assms(1,2), of web_socket_init body] assms(3) by simp

theorem http_frames_behind_handshake_lost_witness:
  "\<exists>s. http_session_on_recv (websocket_app demo_mbedtls) http_log_sender web_socket_init (http_session_create [])
       (render [0x47] [0x2F] [0x48] [(ascii ''sec-websocket-key'', [0x61, 0x62])] @ [0x81, 0x01, 0x78]) =
       Some (web_socket_init, s, True) \<and> ht_state s = WEBSOCKET_ESTABLISHED \<and>
     ht_below s = [Sent (websocket_reply (0x61 # 0x62 # take 18 websocket_guid @ replicate 8 0x3D)), Body [0x81, 0x01, 0x78]]"
  by (rule http_frames_behind_handshake_lost [OF demo_handshake]) simp

text \<open>\<open>sendHttpReply\<close> sends a header with the length of the body, then the body; a header that does not
  fit into its 128-byte buffer is refused before anything is sent.\<close>

theorem http_reply_sent:
  "sendHttpReply http_log_sender extra_headers (Some body) (int (length body)) s =
     (let header = ascii ''HTTP/1.0 200 OK'' @ [CR, LF] @ extra_headers @ ascii ''Content-Length: ''
            @ nat_decimal (length body) @ [CR, LF, CR, LF]
      in if length header < 128 then Some (True, http_note [Sent header, Sent body] s) else Some (False, s))"
proof -
  let ?h = "http_reply_header extra_headers (int (length body))"
  have h: "?h = ascii ''HTTP/1.0 200 OK'' @ [CR, LF] @ extra_headers @ ascii ''Content-Length: ''
            @ nat_decimal (length body) @ [CR, LF, CR, LF]"
    by (simp add: http_reply_header_def decimal_def)
  have "take (length ?h) (blit (replicate 128 0) 0 (take 127 ?h @ [0])) = ?h" if "length ?h < 128"
    using that by (simp add: blit_def)
  then show ?thesis
    unfolding h [symmetric]
    by (auto simp: sendHttpReply_def snprintf_def mem_copy_def mem_slice_def Let_def)
qed

end
