(* ===== verification/Http_Over_Session.thy ===== *)
theory Http_Over_Session
  imports Http_Request_Spec Http_Session_Spec Session_Wire
begin

text \<open>
  A client from its request to lwIP: an \<open>HTTPRequest\<close> over the \<open>Session\<close> it owns, over the recording lwIP of
  \<^verbatim>\<open>Session_Trace\<close>, whose resolver answers later.
\<close>

lemmas session_messages_wire = wire_sender.websocket_messages_wire [OF session_wire.wire_sender_axioms]

section \<open>The connection of a request\<close>

definition session_connection :: "'x lwip \<Rightarrow> 'x session_callback \<Rightarrow> 'x world connection" where
  "session_connection lw cb = session_sender.extend (session_as_sender lw cb) (connection.fields
     (\<lambda>b w. case session_set_tls b w of None \<Rightarrow> w\<lparr>w_self := None\<rparr> | Some w \<Rightarrow> w))"

lemma session_connection_simps [simp]:
  "ss_connect (session_connection lw cb) = (\<lambda>host port w. session_result w (session_connect lw cb host port w))"
  "ss_send (session_connection lw cb) = (\<lambda>d w. session_result w (session_send lw cb (Some d) w))"
  "co_set_tls (session_connection lw cb) = (\<lambda>b w. case session_set_tls b w of None \<Rightarrow> w\<lparr>w_self := None\<rparr> | Some w \<Rightarrow> w)"
  by (simp_all add: session_connection_def session_as_sender_def session_sender.extend_def connection.defs)

text \<open>The request as the callback of its session. It only notes that bytes were sent and, deleted when the
  session is closed, takes the session with it. While it sends, \<open>on_connected\<close> is not called.\<close>

definition request_connection :: "nat \<Rightarrow> 'a session_env_scheme world connection" where
  "request_connection n = session_connection (logging_lwip n) (quiet_callback True)"

definition request_callback :: "nat \<Rightarrow> session_env world http_request \<Rightarrow> session_env session_callback" where
  "request_callback n r = (quiet_callback True)\<lparr>
     sc_on_connected := (\<lambda>w. case http_request_on_connected (request_connection n) (r\<lparr>rq_below := w\<rparr>) of
        None \<Rightarrow> w\<lparr>w_self := None\<rparr> | Some r \<Rightarrow> rq_below r)\<rparr>"

section \<open>The steps\<close>

definition fresh_session :: "bool \<Rightarrow> u16 \<Rightarrow> nat option \<Rightarrow> bool \<Rightarrow> session" where
  "fresh_session tls port pcb connected = \<lparr> s_connected = connected, s_closing = False, s_processing = False, s_tls = tls,
     s_sentBytes = 0, s_port = port, s_callback = True, s_pcb = pcb \<rparr>"

definition wrote_out :: "nat \<Rightarrow> bytes \<Rightarrow> event list" where
  "wrote_out n d = map Wrote (chunks n d) @ [Output]"

lemma connection_send:
  assumes "0 < n" and "w_self w = Some (fresh_session tls port (Some p) True)" and "e_results (w_env w) = []"
  shows "ss_send (request_connection n) d w = (ERR_OK, log_events (wrote_out n d) w)"
proof -
  have "put_self (fresh_session tls port (Some p) True) (log_events (wrote_out n d) w) = log_events (wrote_out n d) w"
    using assms(2) by (simp add: put_self_def)
  then show ?thesis
    using send_logged [OF assms(1,2), of "quiet_callback True" d] assms(3)
    by (simp add: request_connection_def session_result_def fresh_session_def wrote_out_def)
qed

lemma connection_connect:
  assumes "w_self w = Some (fresh_session tls0 port0 None False)"
  shows "ss_connect (request_connection n) host port (co_set_tls (request_connection n) tls w) =
    (ERR_INPROGRESS, put_self (fresh_session tls port None False) w)"
  using assms by (simp add: request_connection_def session_result_def fresh_session_def
      session_set_tls_def session_connect_def put_self_def ERR_INPROGRESS_def ERR_OK_def)

lemma resolver_answers:
  assumes "w_self w = Some (fresh_session tls port None False)" and "tls \<longrightarrow> w_tls_config w"
  shows "session_dns_callback (logging_lwip n) cb host (Some ip) w =
    Some (put_self (fresh_session tls port (Some 1) False) (log_events [Opened, Registered True] w))"
  using assms by (simp add: session_dns_callback_def session_connect_ip_def fresh_session_def session_init_pcb_def
      put_self_def log_event_def ERR_OK_def Let_def)

lemma connection_up:
  assumes "0 < n" and "w_self w = Some (fresh_session tls port (Some p) False)" and "e_results (w_env w) = []"
    and "holds r host (tx @ [0])" and "rq_body r = Some body"
  shows "session_lwip_connected (logging_lwip n) (request_callback n r) ERR_OK w = Some (ERR_OK,
    put_self (fresh_session tls port (Some p) True)
      (log_events (wrote_out n tx @ (if body = [] then [] else wrote_out n body)) w))"
proof -
  let ?s = "fresh_session tls port (Some p) True"
  let ?w = "put_self ?s w"
  have s: "w_self ?w = Some ?s" "e_results (w_env ?w) = []" using assms(3) by (simp_all add: put_self_def)
  have 1: "ss_send (request_connection n) tx ?w = (ERR_OK, log_events (wrote_out n tx) ?w)"
    by (rule connection_send [OF assms(1) s])
  have "w_self (log_events (wrote_out n tx) ?w) = Some ?s" "e_results (w_env (log_events (wrote_out n tx) ?w)) = []"
    using s by simp_all
  from connection_send [OF assms(1) this]
  have 2: "ss_send (request_connection n) body (log_events (wrote_out n tx) ?w) =
      (ERR_OK, log_events (wrote_out n tx @ wrote_out n body) ?w)" by simp
  have "holds (r\<lparr>rq_below := ?w\<rparr>) host (tx @ [0])" using assms(4) by (simp add: holds_def)
  from on_connected_holds [OF this, of "request_connection n"]
  have "http_request_on_connected (request_connection n) (r\<lparr>rq_below := ?w\<rparr>) =
      Some (r\<lparr>rq_below := log_events (wrote_out n tx @ (if body = [] then [] else wrote_out n body)) ?w\<rparr>)"
    using 1 2 assms(5) by (simp add: Let_def)
  moreover have "put_self ((fresh_session tls port (Some p) False)\<lparr>s_connected := True\<rparr>) w = ?w"
    by (simp add: fresh_session_def)
  ultimately show ?thesis
    using assms(2) by (simp add: session_lwip_connected_def request_callback_def ERR_OK_def) (simp add: fresh_session_def)
qed

section \<open>Properties\<close>

text \<open>A request over a session, from the caller to lwIP. \<open>send\<close> reports a failure, because the name is still being
  looked up; when the resolver answers, the session opens a connection, and when that is up, lwIP is handed
  the request and then the body, completely and in order, in writes of at most
  \<open>MBEDTLS_SSL_OUT_CONTENT_LEN\<close> bytes, and asked to send after each.\<close>

theorem client_request_reaches_lwip:
  assumes "length memory0 = 1002" and "port \<noteq> 0" and "0 \<notin> set host"
    and "length host + length (request_text host port command path hs (Some body)) < 998" and "length body < 2 ^ 31"
    and "0 < n" and "w_self w = Some (fresh_session False 0 None False)" and "e_results (w_env w) = []" and "w_tls_config w"
  shows "\<exists>r w1 w2 cs bs.
    prepare_request (request_connection n) memory0 host port tls command path hs (Some body) w = Some (True, True, False, r) \<and>
    session_dns_callback (logging_lwip n) (request_callback n r) host (Some ip) (rq_below r) = Some w1 \<and>
    session_lwip_connected (logging_lwip n) (request_callback n r) ERR_OK w1 = Some (ERR_OK, w2) \<and>
    e_log (w_env w2) = e_log (w_env w) @ [Opened, Registered True] @ map Wrote cs @ [Output] @
      (if body = [] then [] else map Wrote bs @ [Output]) \<and>
    concat cs = render command path (ascii ''HTTP/1.1'') (request_headers host port hs (Some body)) \<and>
    concat bs = body \<and> (\<forall>c\<in>set (cs @ bs). 0 < length c \<and> length c \<le> n) \<and>
    map_option s_connected (w_self w2) = Some True"
proof -
  let ?tx = "request_text host port command path hs (Some body)" and ?co = "request_connection n"
  let ?w0 = "put_self (fresh_session tls port None False) w"
  obtain r where r: "prepare_request ?co memory0 host port tls command path hs (Some body) w = Some (True, True, False, r)"
    "holds r host (?tx @ [0])" "rq_body r = Some body" "rq_below r = ?w0"
    using prepare_request_holds [OF assms(1-4) _ connection_connect [OF assms(7), of n host port tls]] assms(5)
    by (auto simp: ERR_INPROGRESS_def ERR_OK_def)
  let ?w1 = "put_self (fresh_session tls port (Some 1) False) (log_events [Opened, Registered True] ?w0)"
  have 1: "session_dns_callback (logging_lwip n) (request_callback n r) host (Some ip) (rq_below r) = Some ?w1"
    unfolding r(4) by (rule resolver_answers) (use assms(9) in \<open>simp_all add: put_self_def\<close>)
  have "w_self ?w1 = Some (fresh_session tls port (Some 1) False)" "e_results (w_env ?w1) = []"
    using assms(8) by (simp_all add: put_self_def)
  from connection_up [OF assms(6) this r(2,3)]
  have 2: "session_lwip_connected (logging_lwip n) (request_callback n r) ERR_OK ?w1 = Some (ERR_OK,
      put_self (fresh_session tls port (Some 1) True)
        (log_events (wrote_out n ?tx @ (if body = [] then [] else wrote_out n body)) ?w1))" .
  show ?thesis
    by (intro exI [of _ r] exI [of _ ?w1] exI [of _ "put_self (fresh_session tls port (Some 1) True)
        (log_events (wrote_out n ?tx @ (if body = [] then [] else wrote_out n body)) ?w1)"]
        exI [of _ "chunks n ?tx"] exI [of _ "chunks n body"] conjI, rule r(1), rule 1, rule 2)
      (use chunk_sizes [of _ n] assms(6) in \<open>auto simp: wrote_out_def put_self_def fresh_session_def request_text_def
         simp del: ascii_simps\<close>)
qed

definition client_world :: "session_env world" where
  "client_world = \<lparr> w_self = Some (fresh_session False 0 None False), w_num_sessions = 1, w_tls_config = True,
     w_env = \<lparr> e_log = [], e_results = [] \<rparr> \<rparr>"

theorem client_request_reaches_lwip_witness:
  "\<exists>r w1 w2 cs bs.
    prepare_request (request_connection 8) demo_memory [0x68] 80 True [0x47] [0x2F] [([0x41], [0x62])] (Some [1, 2]) client_world =
      Some (True, True, False, r) \<and>
    session_dns_callback (logging_lwip 8) (request_callback 8 r) [0x68] (Some 7) (rq_below r) = Some w1 \<and>
    session_lwip_connected (logging_lwip 8) (request_callback 8 r) ERR_OK w1 = Some (ERR_OK, w2) \<and>
    e_log (w_env w2) = e_log (w_env client_world) @ [Opened, Registered True] @ map Wrote cs @ [Output] @
      (if [1 :: u8, 2] = [] then [] else map Wrote bs @ [Output]) \<and>
    concat cs = render [0x47] [0x2F] (ascii ''HTTP/1.1'') (request_headers [0x68] 80 [([0x41], [0x62])] (Some [1, 2])) \<and>
    concat bs = [1, 2] \<and> (\<forall>c\<in>set (cs @ bs). 0 < length c \<and> length c \<le> 8) \<and>
    map_option s_connected (w_self w2) = Some True"
  by (rule client_request_reaches_lwip [OF _ _ _ demo_request(2)]) (simp_all add: demo_memory_def client_world_def)

text \<open>C16. WebSocket messages from a server to its peer, through the session: whatever messages shorter than 4 GiB, empty
  ones included, \<open>sendWebSocketData\<close> is given over an open session, lwIP is handed frames, and a decoder at the other end that
  gets the bytes written since, in whatever segments, reads back the messages, each with its end; only the end of an empty last
  message is reported when another byte arrives.\<close>

theorem server_messages_reach_peer:
  assumes "session_open (ht_below s)" and "list_all (\<lambda>m. length m < 2 ^ 32) ms"
    and "send_messages app (session_as_sender (logging_lwip (Suc n)) cb) ms s = (ok, s')"
    and "session_wire (ht_below s') = session_wire (ht_below s) @ concat segs"
  shows "ok \<and> session_open (ht_below s') \<and> (\<exists>h es. run_segments ws_decode web_socket_init segs = Some (h, es, True) \<and>
    ws_flat es = (if ms \<noteq> [] \<and> last ms = [] then butlast (concat (map (\<lambda>m. map Byte m @ [Finished]) ms))
      else concat (map (\<lambda>m. map Byte m @ [Finished]) ms)))"
proof -
  obtain b where b: "ok" "s' = s\<lparr>ht_below := b\<rparr>" "session_open b"
    "session_wire b = session_wire (ht_below s) @ concat (map (\<lambda>m. encode_header (of_nat (length m)) @ m) ms)"
    using session_messages_wire [OF assms(1), of app n cb ms] assms(3) by auto
  have "concat segs = concat (map (\<lambda>m. encode_header (of_nat (length m)) @ m) ms)" using assms(4) b(2,4) by simp
  with encoded_any_decode [OF assms(2)] b show ?thesis by simp
qed

theorem server_messages_reach_peer_witness:
  "\<exists>s'. send_messages http_session_base (session_as_sender (logging_lwip (Suc 2)) (quiet_callback False)) [[7, 8], [9]]
       (http_session_create open_world) = (True, s') \<and> session_open (ht_below s') \<and>
     (\<exists>h es. run_segments ws_decode web_socket_init [[0x82], [0x02, 7, 8, 0x82, 0x01], [9]] = Some (h, es, True) \<and>
       ws_flat es = concat (map (\<lambda>m. map Byte m @ [Finished]) [[7, 8], [9]]))"
proof -
  let ?snd = "session_as_sender (logging_lwip (Suc 2)) (quiet_callback False)" and ?s = "http_session_create open_world"
  have up: "session_open (ht_below ?s)" by (simp add: http_session_create_def session_open_def open_world_def)
  obtain b where b: "send_messages http_session_base ?snd [[7, 8], [9]] ?s = (True, ?s\<lparr>ht_below := b\<rparr>)"
    "session_wire b = session_wire (ht_below ?s) @ concat (map (\<lambda>m. encode_header (of_nat (length m)) @ m) [[7, 8], [9]])"
    using session_messages_wire [OF up, of http_session_base 2 "quiet_callback False" "[[7, 8], [9]]"] by blast
  have "session_wire (ht_below (?s\<lparr>ht_below := b\<rparr>)) =
      session_wire (ht_below ?s) @ concat [[0x82], [0x02, 7, 8, 0x82, 0x01], [9]]"
    using b(2) by (simp add: encode_header_cases)
  note w = this
  have "list_all (\<lambda>m. length m < 2 ^ 32) [[7, 8], [9 :: u8]]" by simp
  moreover have "\<not> ([[7, 8], [9 :: u8]] \<noteq> [] \<and> last [[7, 8], [9 :: u8]] = [])" by simp
  ultimately show ?thesis using server_messages_reach_peer [OF up _ b(1) w] b(1) by (metis (no_types, lifting))
qed

end
