(* ===== verification/Web_Server.thy ===== *)
theory Web_Server
  imports Http_Over_Session
begin

text \<open>
  A server from lwIP to the application and back: an \<open>HTTPSession\<close> as the callback of its \<open>Session\<close>, over the
  recording lwIP, with an application that accepts every WebSocket and notes what it is told. The \<open>HTTPSession\<close>, its
  decoder and the application live in the environment of the session.
\<close>

section \<open>The composed object\<close>

record server_env = session_env +
  sv_ws :: web_socket_handler
  sv_http :: "unit http_session"
  sv_events :: "http_event list"

definition with_below :: "'d \<Rightarrow> 'c http_session \<Rightarrow> 'd http_session" where
  "with_below d s = \<lparr> ht_state = ht_state s, ht_header = ht_header s, ht_memory = ht_memory s, ht_below = d \<rparr>"

definition store_http :: "web_socket_handler \<Rightarrow> server_env world http_session \<Rightarrow> server_env world" where
  "store_http ws s = (let w = ht_below s in w\<lparr>w_env := (w_env w)\<lparr>sv_ws := ws, sv_http := with_below () s\<rparr>\<rparr>)"

definition note_events :: "http_event list \<Rightarrow> server_env world \<Rightarrow> server_env world" where
  "note_events es w = w\<lparr>w_env := (w_env w)\<lparr>sv_events := sv_events (w_env w) @ es\<rparr>\<rparr>"

definition server_sender :: "nat \<Rightarrow> server_env world session_sender" where
  "server_sender n = session_as_sender (logging_lwip (Suc n)) (quiet_callback True)"

definition server_app :: "nat \<Rightarrow> mbedtls \<Rightarrow> server_env world http_handlers" where
  "server_app n mb = \<lparr>
     onRequestReceived = (\<lambda>s. case acceptWebSocket mb (server_sender n) s of None \<Rightarrow> (False, s) | Some r \<Rightarrow> r),
     onHttpData = (\<lambda>d s. (True, s\<lparr>ht_below := note_events [Body d] (ht_below s)\<rparr>)),
     onHttpWebSocketData = (\<lambda>d s. (True, s\<lparr>ht_below := note_events [Message d] (ht_below s)\<rparr>)) \<rparr>"

text \<open>Construction and destruction. An \<open>HTTPSession\<close> owns its session from its constructor to its destructor, so that the two live
  and die together: \<open>on_closed\<close> deletes the object, and its destructor the session, which by then has no control block any more or
  gives it up without a callback.\<close>

definition http_session_new :: "'x lwip \<Rightarrow> nat \<Rightarrow> bool \<Rightarrow> (unit http_session \<Rightarrow> 'x world \<Rightarrow> 'x world) \<Rightarrow> 'x world \<Rightarrow> 'x world option" where
  "http_session_new lw pcb tls store w = do {
     w \<leftarrow> session_create lw (Some pcb) tls w;
     w \<leftarrow> session_set_callback True w;
     Some (store (http_session_create ()) w)
   }"

definition http_session_delete :: "'x lwip \<Rightarrow> 'x session_callback \<Rightarrow> 'x world \<Rightarrow> 'x world option" where
  "http_session_delete lw cb w = session_delete lw cb w"

definition http_session_on_closed :: "'x lwip \<Rightarrow> 'x session_callback \<Rightarrow> 'x world \<Rightarrow> 'x world option" where
  "http_session_on_closed lw cb w = http_session_delete lw cb w"

text \<open>The callback of the session; its notification of the end is noted, and then runs \<open>on_closed\<close>.\<close>

definition http_server_callback :: "nat \<Rightarrow> server_env world http_handlers \<Rightarrow> server_env session_callback" where
  "http_server_callback n app = (quiet_callback True)\<lparr>
     sc_on_recv := (\<lambda>d w.
       case http_session_on_recv app (server_sender n) (sv_ws (w_env w)) (with_below w (sv_http (w_env w))) d of
         None \<Rightarrow> (False, w\<lparr>w_self := None\<rparr>)
       | Some (ws, s, ok) \<Rightarrow> (ok, store_http ws s)),
     sc_on_closed := (\<lambda>w. case http_session_on_closed (logging_lwip (Suc n)) (quiet_callback True) (log_event On_Closed w) of
         None \<Rightarrow> w\<lparr>w_self := None\<rparr> | Some w \<Rightarrow> w)\<rparr>"

definition server_callback :: "nat \<Rightarrow> mbedtls \<Rightarrow> server_env session_callback" where
  "server_callback n mb = http_server_callback n (server_app n mb)"

section \<open>One segment\<close>

lemma note_events_simps [simp]:
  "w_self (note_events es w) = w_self w" "session_wire (note_events es w) = session_wire w"
  "sv_ws (w_env (note_events es w)) = sv_ws (w_env w)" "sv_http (w_env (note_events es w)) = sv_http (w_env w)"
  "sv_events (w_env (note_events es w)) = sv_events (w_env w) @ es"
  "note_events es' (note_events es w) = note_events (es @ es') w" "note_events [] w = w"
  by (simp_all add: note_events_def session_wire_def)

definition server_established :: "server_env world \<Rightarrow> bool" where
  "server_established w \<longleftrightarrow> session_open w \<and> map_option s_callback (w_self w) = Some True \<and>
     ht_state (sv_http (w_env w)) = WEBSOCKET_ESTABLISHED"

definition framed :: "web_socket_handler \<Rightarrow> ws_event list \<Rightarrow> server_env world \<Rightarrow> server_env world" where
  "framed ws es w = w\<lparr>w_env := (w_env w)\<lparr>sv_ws := ws, sv_events := sv_events (w_env w) @ message_events es\<rparr>\<rparr>"

lemma framed_simps [simp]:
  "w_self (framed ws es w) = w_self w" "session_wire (framed ws es w) = session_wire w"
  "session_open (framed ws es w) = session_open w"
  "sv_ws (w_env (framed ws es w)) = ws" "sv_events (w_env (framed ws es w)) = sv_events (w_env w) @ message_events es"
  "server_established (framed ws es w) = server_established w"
  "framed ws' es' (framed ws es w) = framed ws' (es @ es') w"
  by (simp_all add: framed_def session_wire_def session_open_def server_established_def message_events_def)

lemma framed_nothing [simp]: "framed (sv_ws (w_env w)) [] w = w"
  by (simp add: framed_def message_events_def)

lemma server_segment:
  assumes "ht_state (sv_http (w_env w)) = WEBSOCKET_ESTABLISHED" and "ws_decode (sv_ws (w_env w)) d = Some (ws, es, ok)"
  shows "sc_on_recv (server_callback n mb) d w = (ok, framed ws es w)"
proof -
  let ?s = "with_below w (sv_http (w_env w))"
  let ?f = "\<lambda>es. ?s\<lparr>ht_below := note_events (message_events es) (ht_below ?s)\<rparr>"
  have "decodeData (http_web_socket (server_app n mb) (server_sender n)) (sv_ws (w_env w)) (?f []) d = Some (ws, ?f es, ok)"
    by (rule decodeData_map [where cb = ws_recorder])
      (use assms(2) in \<open>simp_all add: ws_recorder_def http_web_socket_def server_app_def message_events_def ws_decode_def\<close>)
  then have "http_session_on_recv (server_app n mb) (server_sender n) (sv_ws (w_env w)) ?s d = Some (ws, ?f es, ok)"
    using assms(1) by (simp add: http_session_on_recv_def message_events_def with_below_def)
  then show ?thesis
    by (simp add: server_callback_def http_server_callback_def store_http_def Let_def with_below_def framed_def note_events_def)
qed


section \<open>One chain\<close>

lemma server_established_self:
  "server_established w \<Longrightarrow> \<exists>s. w_self w = Some s \<and> \<not> s_closing s \<and> s_pcb s \<noteq> None \<and> s_callback s"
  by (auto simp: server_established_def session_open_def split: option.splits)

text \<open>What a chain changes besides the decoder and the application: the processing flag and the record.\<close>

lemma server_env_log [simp]:
  "sv_ws (w_env (log_events evs w)) = sv_ws (w_env w)" "sv_http (w_env (log_events evs w)) = sv_http (w_env w)"
  "sv_events (w_env (log_events evs w)) = sv_events (w_env w)"
  "sv_ws (w_env (log_event ev w)) = sv_ws (w_env w)" "sv_http (w_env (log_event ev w)) = sv_http (w_env w)"
  "sv_events (w_env (log_event ev w)) = sv_events (w_env w)"
  by (simp_all add: log_events_env log_event_def)

lemma server_established_processing:
  "w_self w = Some s \<Longrightarrow> server_established (put_self (s\<lparr>s_processing := b\<rparr>) w) = server_established w"
  by (simp add: server_established_def session_open_def put_self_def)

lemma server_established_log [simp]:
  "server_established (log_events evs w) = server_established w" "server_established (log_event ev w) = server_established w"
  by (simp_all add: server_established_def session_open_def)

text \<open>After a chain no call is running in the session, and the number of sessions is as before.\<close>

definition rested :: "server_env world \<Rightarrow> server_env world \<Rightarrow> bool" where
  "rested w w' \<longleftrightarrow> w_num_sessions w' = w_num_sessions w \<and> map_option s_processing (w_self w') = Some False"

lemma rested_trans: "rested w w' \<Longrightarrow> rested w' w'' \<Longrightarrow> rested w w''"
  by (simp add: rested_def)

lemma server_num_sessions [simp]:
  "w_num_sessions (log_events evs w) = w_num_sessions w" "w_num_sessions (log_event ev w) = w_num_sessions w"
  "w_num_sessions (put_self s w) = w_num_sessions w" "w_num_sessions (framed ws es w) = w_num_sessions w"
  by (simp_all add: log_events_env log_event_def put_self_def framed_def)

text \<open>The frames that are still to come, and what will be seen in the end.\<close>

definition frames_due ::
    "int \<Rightarrow> bytes \<Rightarrow> web_socket_handler \<Rightarrow> http_event list \<Rightarrow> bytes list \<Rightarrow> server_env world \<Rightarrow> bool" where
  "frames_due k wire ws evs ds w \<longleftrightarrow> server_established w \<and> w_num_sessions w = k \<and> session_wire w = wire \<and>
     (\<exists>es. run_segments ws_decode (sv_ws (w_env w)) ds = Some (ws, es, True) \<and> sv_events (w_env w) @ message_events es = evs)"

interpretation frames: chain_receiver "server_callback n mb" "frames_due k wire ws evs"
  for n mb k wire ws evs
proof
  fix w and d and ds :: "bytes list"
  assume "frames_due k wire ws evs (d # ds) w"
  then obtain ws1 es1 es2 where d: "ws_decode (sv_ws (w_env w)) d = Some (ws1, es1, True)"
    "run_segments ws_decode ws1 ds = Some (ws, es2, True)" "sv_events (w_env w) @ message_events (es1 @ es2) = evs"
    "server_established w" "w_num_sessions w = k" "session_wire w = wire"
    by (fastforce simp: frames_due_def split: option.splits prod.splits if_splits)
  then have "sc_on_recv (server_callback n mb) d w = (True, framed ws1 es1 w)"
    using server_segment [of w d] by (simp add: server_established_def)
  with d show "\<exists>w'. sc_on_recv (server_callback n mb) d w = (True, w') \<and> frames_due k wire ws evs ds w'"
    by (auto simp: frames_due_def message_events_def)
qed (auto simp: frames_due_def server_established_processing server_established_self session_wire_log
    simp del: log_events_simps dest: server_established_self)

lemma server_chains:
  assumes "server_established w" and "map_option s_processing (w_self w) = Some False"
    and "run_segments ws_decode (sv_ws (w_env w)) (concat (map segments ps)) = Some (ws, es, True)"
  shows "\<exists>w'. recv_chains (logging_lwip (Suc n)) (server_callback n mb) pcb ps w = Some (ERR_OK, w') \<and> server_established w' \<and>
    sv_ws (w_env w') = ws \<and> sv_events (w_env w') = sv_events (w_env w) @ message_events es \<and> session_wire w' = session_wire w \<and>
    rested w w'"
proof -
  have "frames_due (w_num_sessions w) (session_wire w) ws (sv_events (w_env w) @ message_events es) (concat (map segments ps)) w"
    using assms(1,3) by (auto simp: frames_due_def)
  from frames.chains_due [OF this, of "Suc n" n mb pcb] assms(2) show ?thesis
    by (auto simp: frames_due_def rested_def message_events_def)
qed

section \<open>The handshake\<close>

text \<open>A server that has just been connected.\<close>

definition server_ready :: "server_env world \<Rightarrow> bool" where
  "server_ready w \<longleftrightarrow> session_open w \<and> map_option s_callback (w_self w) = Some True \<and>
     sv_http (w_env w) = http_session_create () \<and> sv_ws (w_env w) = web_socket_init \<and> sv_events (w_env w) = []"

lemma server_handshake:
  assumes "server_ready w" and "handshake_request verb path version hs key" and "handshake_digest mb key digest accept"
  shows "\<exists>w'. session_lwip_recv (logging_lwip (Suc n)) (server_callback n mb) pcb (Some [render verb path version hs]) ERR_OK w =
      Some (ERR_OK, w') \<and> server_established w' \<and> sv_ws (w_env w') = web_socket_init \<and> sv_events (w_env w') = [] \<and>
    session_wire w' = session_wire w @ websocket_reply accept \<and> rested w w'"
proof -
  obtain s where s: "w_self w = Some s" "\<not> s_closing s" "s_pcb s \<noteq> None" "s_callback s" "s_sentBytes s = 0" "e_results (w_env w) = []"
    using assms(1) session_open_self by (fastforce simp: server_ready_def)
  let ?w = "put_self (s\<lparr>s_processing := True\<rparr>) w" and ?reply = "websocket_reply accept"
  let ?w1 = "put_self (s\<lparr>s_processing := False\<rparr>) (log_events (map Wrote (chunks (Suc n) ?reply) @ [Output]) ?w)"
  have w1: "ss_send (server_sender n) ?reply ?w = (ERR_OK, ?w1)"
    using send_logged [of "Suc n" ?w "s\<lparr>s_processing := True\<rparr>" "quiet_callback True" ?reply] s
    by (simp add: server_sender_def session_as_sender_def session_result_def put_self_def)
  have below: "with_below ?w (sv_http (w_env ?w)) = http_session_create ?w"
    using assms(1) by (simp add: server_ready_def with_below_def http_session_create_def)
  obtain h m where h: "http_session_on_recv (server_app n mb) (server_sender n) (sv_ws (w_env ?w)) (http_session_create ?w)
      (render verb path version hs) = Some (sv_ws (w_env ?w),
        \<lparr> ht_state = WEBSOCKET_ESTABLISHED, ht_header = h, ht_memory = m, ht_below = ?w1 \<rparr>, True)"
    using handshake_recv [OF assms(2,3) _ w1, of "server_app n mb" "sv_ws (w_env ?w)" "[]"] by (auto simp: server_app_def)
  let ?w2 = "?w1\<lparr>w_env := (w_env ?w1)\<lparr>sv_ws := sv_ws (w_env w),
      sv_http := \<lparr> ht_state = WEBSOCKET_ESTABLISHED, ht_header = h, ht_memory = m, ht_below = () \<rparr>\<rparr>\<rparr>"
  have r: "sc_on_recv (server_callback n mb) (render verb path version hs) ?w = (True, ?w2)"
    using h below by (simp add: server_callback_def http_server_callback_def store_http_def with_below_def Let_def del: put_self_put)
  have self: "w_self ?w2 = Some (s\<lparr>s_processing := False\<rparr>)" by (simp add: put_self_def)
  let ?w' = "log_events [Recved (length (render verb path version hs)), Freed [render verb path version hs]] ?w2"
  have "session_lwip_recv (logging_lwip (Suc n)) (server_callback n mb) pcb (Some [render verb path version hs]) ERR_OK w =
      Some (ERR_OK, ?w')"
    using s r self by (simp add: session_lwip_recv_def put_self_same Let_def ERR_OK_def ERR_ABRT_def)
  moreover have "server_established ?w2"
    using s self by (simp add: server_established_def session_open_def put_self_def)
  moreover have "session_wire ?w2 = session_wire w @ ?reply"
  proof -
    have "session_wire ?w2 = session_wire ?w1" by (simp add: session_wire_def)
    then show ?thesis using wire_of_chunks [of "Suc n" ?reply] by (simp add: session_wire_log)
  qed
  moreover have "rested w ?w'" using self by (simp add: rested_def)
  ultimately show ?thesis
    using assms(1) by (intro exI [of _ ?w']) (simp add: session_wire_log_event server_ready_def put_self_def)
qed

lemma server_conversation:
  assumes "server_ready w" and "handshake_request verb path version hs key" and "handshake_digest mb key digest accept"
    and "list_all data_frame fs" and "concat (concat ps) = ws_frames fs"
  shows "\<exists>w'. recv_chains (logging_lwip (Suc n)) (server_callback n mb) pcb ([render verb path version hs] # ps) w =
      Some (ERR_OK, w') \<and> session_open w' \<and> session_wire w' = session_wire w @ websocket_reply accept \<and>
    (\<forall>e\<in>set (sv_events (w_env w')). \<exists>d. e = Message d) \<and>
    message_bytes (sv_events (w_env w')) = concat (map (\<lambda>f. snd (snd f)) fs) \<and> server_established w' \<and> rested w w'"
proof -
  obtain w1 where w1: "session_lwip_recv (logging_lwip (Suc n)) (server_callback n mb) pcb (Some [render verb path version hs]) ERR_OK w =
      Some (ERR_OK, w1)" "server_established w1" "sv_ws (w_env w1) = web_socket_init" "sv_events (w_env w1) = []"
    "session_wire w1 = session_wire w @ websocket_reply accept" "rested w w1"
    using server_handshake [OF assms(1-3), of n pcb] by blast
  have "concat (concat (map segments ps)) = ws_frames fs"
    unfolding assms(5) [symmetric] by (induction ps) (simp_all add: concat_segments)
  from frames_decode [OF assms(4) this] obtain ws es where
    f: "run_segments ws_decode web_socket_init (concat (map segments ps)) = Some (ws, es, True)" "ws_flat es = reported fs" by blast
  obtain w2 where w2: "recv_chains (logging_lwip (Suc n)) (server_callback n mb) pcb ps w1 = Some (ERR_OK, w2)"
    "server_established w2" "sv_events (w_env w2) = message_events es" "session_wire w2 = session_wire w1"
    "rested w1 w2"
    using server_chains [OF w1(2), of ps ws es n mb pcb] w1(3,4,6) f(1) by (auto simp: rested_def)
  have "\<exists>d. e = Message d" if "e \<in> set (message_event x)" for e x using that by (cases x) auto
  then have "\<forall>e\<in>set (message_events es). \<exists>d. e = Message d" by (auto simp: message_events_def)
  then show ?thesis
    using w1 w2 f(2) message_bytes_flat [of es] payload_bytes_reported [of fs] rested_trans [OF w1(6) w2(5)]
    by (intro exI [of _ w2]) (auto simp: server_established_def)
qed

section \<open>Properties\<close>

text \<open>C3. A WebSocket server from lwIP to the application. A client connects, its handshake request arrives whole, in one
  pbuf of its own (a header that is cut ends the connection, as \<open>Http_Cut\<close> shows), and then its data frames arrive, cut into
  pbufs and pbuf chains anywhere. Every chain is accepted, the only bytes written to lwIP are the reply to the handshake, and the
  application is told exactly the payload of the frames, in order; the session stays open.\<close>

theorem websocket_server_over_lwip:
  assumes "server_ready w" and "handshake_request verb path version hs key" and "handshake_digest mb key digest accept"
    and "list_all data_frame fs" and "concat (concat ps) = ws_frames fs"
  shows "\<exists>w'. recv_chains (logging_lwip (Suc n)) (server_callback n mb) pcb ([render verb path version hs] # ps) w =
      Some (ERR_OK, w') \<and> session_open w' \<and> session_wire w' = session_wire w @ websocket_reply accept \<and>
    (\<forall>e\<in>set (sv_events (w_env w')). \<exists>d. e = Message d) \<and>
    message_bytes (sv_events (w_env w')) = concat (map (\<lambda>f. snd (snd f)) fs)"
  using server_conversation [OF assms, of n pcb] by blast

definition server_world :: "server_env world" where
  "server_world = \<lparr> w_self = w_self open_world, w_num_sessions = 1, w_tls_config = True,
     w_env = \<lparr> e_log = [], e_results = [], sv_ws = web_socket_init, sv_http = http_session_create (), sv_events = [] \<rparr> \<rparr>"

theorem websocket_server_over_lwip_witness:
  "\<exists>w'. recv_chains (logging_lwip (Suc 9)) (server_callback 9 demo_mbedtls) 1
       [[render [0x47] [0x2F] [0x48] [(ascii ''sec-websocket-key'', [0x61, 0x62])]], [[0x81], [0x83, 1, 2]], [[3, 4, 0x49, 0x4b, 0x22]]]
       server_world = Some (ERR_OK, w') \<and> session_open w' \<and>
     session_wire w' = session_wire server_world @ websocket_reply (0x61 # 0x62 # take 18 websocket_guid @ replicate 8 0x3D) \<and>
     (\<forall>e\<in>set (sv_events (w_env w')). \<exists>d. e = Message d) \<and>
     message_bytes (sv_events (w_env w')) = concat (map (\<lambda>f. snd (snd f)) [(0x81 :: u8, Some [1, 2, 3, 4 :: u8], [0x48, 0x49, 0x21])])"
  by (rule websocket_server_over_lwip [OF _ demo_handshake])
    (simp_all add: server_ready_def server_world_def session_open_def open_world_def data_frame_def operation_of_def
      is_data_operation_def ws_frames_def encode_header_cases)

end
