(* ===== verification/Http_Exchange.thy ===== *)
theory Http_Exchange
  imports Web_Server
begin

text \<open>
  A request and its reply from end to end: an \<open>HTTPRequest\<close> as the callback of its \<open>Session\<close>, an \<open>HTTPSession\<close>
  as the callback of its own, each over a recording lwIP of its own, and an application on both sides. What one side writes
  the other is given, cut into pbufs and chains.
\<close>

section \<open>The client as a whole\<close>

text \<open>The application notes the header, as it is handed to it, and the data behind it.\<close>

datatype response_event = Header_Received bytes http_header | Response_Data bytes

record client_env = session_env +
  cl_request :: "unit http_request"
  cl_events :: "response_event list"

definition request_over :: "'d \<Rightarrow> 'c http_request \<Rightarrow> 'd http_request" where
  "request_over d r = \<lparr> rq_state = rq_state r, rq_port = rq_port r, rq_headerStart = rq_headerStart r,
     rq_headerIndex = rq_headerIndex r, rq_header = rq_header r, rq_body = rq_body r, rq_below = d \<rparr>"

definition store_request :: "client_env world http_request \<Rightarrow> client_env world" where
  "store_request r = (let w = rq_below r in w\<lparr>w_env := (w_env w)\<lparr>cl_request := request_over () r\<rparr>\<rparr>)"

definition note_response :: "response_event \<Rightarrow> client_env world \<Rightarrow> client_env world" where
  "note_response e w = w\<lparr>w_env := (w_env w)\<lparr>cl_events := cl_events (w_env w) @ [e]\<rparr>\<rparr>"

definition response_app :: "client_env world http_callback" where
  "response_app = \<lparr>
     onHeaderReceived = (\<lambda>m h r. (True, r\<lparr>rq_below := note_response (Header_Received m h) (rq_below r)\<rparr>)),
     onResponseData = (\<lambda>d r. (True, r\<lparr>rq_below := note_response (Response_Data d) (rq_below r)\<rparr>)),
     onRequestDestroyed = (\<lambda>r. r) \<rparr>"

text \<open>\<open>HTTPRequest\<close> as the \<open>ISessionCallback\<close> of the session it contains. \<open>on_closed\<close> deletes the request, and with it
  the session.\<close>

definition client_callback :: "nat \<Rightarrow> client_env session_callback" where
  "client_callback n = (quiet_callback True)\<lparr>
     sc_on_recv := (\<lambda>d w.
       case http_request_on_recv (Some response_app) (request_over w (cl_request (w_env w))) d of
         None \<Rightarrow> (False, w\<lparr>w_self := None\<rparr>)
       | Some (ok, r) \<Rightarrow> (ok, store_request r)),
     sc_on_closed := (\<lambda>w.
       case session_delete (logging_lwip (Suc n)) (quiet_callback True)
              (rq_below (http_request_on_closed (Some response_app) (request_over (log_event On_Closed w) (cl_request (w_env w))))) of
         None \<Rightarrow> w\<lparr>w_self := None\<rparr> | Some w \<Rightarrow> w),
     sc_on_connected := (\<lambda>w.
       case http_request_on_connected (request_connection (Suc n)) (request_over w (cl_request (w_env w))) of
         None \<Rightarrow> w\<lparr>w_self := None\<rparr> | Some r \<Rightarrow> store_request r)\<rparr>"

lemma client_env_simps [simp]:
  "w_self (note_response e w) = w_self w" "session_wire (note_response e w) = session_wire w"
  "e_results (w_env (note_response e w)) = e_results (w_env w)" "cl_request (w_env (note_response e w)) = cl_request (w_env w)"
  "cl_events (w_env (note_response e w)) = cl_events (w_env w) @ [e]"
  "w_self (store_request r) = w_self (rq_below r)" "session_wire (store_request r) = session_wire (rq_below r)"
  "e_results (w_env (store_request r)) = e_results (w_env (rq_below r))" "cl_request (w_env (store_request r)) = request_over () r"
  "cl_events (w_env (store_request r)) = cl_events (w_env (rq_below r))"
  "session_open (note_response e w) = session_open w" "session_open (store_request r) = session_open (rq_below r)"
  by (simp_all add: note_response_def store_request_def session_wire_def session_open_def Let_def)

lemma client_env_log [simp]:
  "cl_request (w_env (log_events evs w)) = cl_request (w_env w)" "cl_events (w_env (log_events evs w)) = cl_events (w_env w)"
  "cl_request (w_env (log_event ev w)) = cl_request (w_env w)" "cl_events (w_env (log_event ev w)) = cl_events (w_env w)"
  by (simp_all add: log_events_env log_event_def)

lemma request_over_simps [simp]:
  "rq_state (request_over d r) = rq_state r" "rq_body (request_over d r) = rq_body r" "rq_below (request_over d r) = d"
  "(request_over d r)\<lparr>rq_below := d'\<rparr> = request_over d' r"
  "request_over () q = q" "(request_over d r)\<lparr>rq_state := s\<rparr> = request_over d (r\<lparr>rq_state := s\<rparr>)"
  "holds (request_over d r) host tx = holds r host tx"
  by (simp_all add: request_over_def holds_def)

lemma request_over_again [simp]: "request_over d' (request_over d r) = request_over d' r"
  by (simp add: request_over_def)

lemma store_request_same [simp]: "q = cl_request (w_env w) \<Longrightarrow> store_request (request_over w q) = w"
  by (simp add: store_request_def Let_def)

section \<open>The connection comes up\<close>

lemma client_up:
  assumes "w_self w = Some (fresh_session tls port (Some p) False)" and "e_results (w_env w) = []"
    and "holds (cl_request (w_env w)) host (tx @ [0])" and "rq_body (cl_request (w_env w)) = Some body"
  shows "session_lwip_connected (logging_lwip (Suc n)) (client_callback n) ERR_OK w = Some (ERR_OK,
    put_self (fresh_session tls port (Some p) True)
      (log_events (wrote_out (Suc n) tx @ (if body = [] then [] else wrote_out (Suc n) body)) w))"
proof -
  let ?s = "fresh_session tls port (Some p) True" and ?q = "cl_request (w_env w)" and ?N = "Suc n"
  let ?w = "put_self ?s w"
  let ?w' = "log_events (wrote_out ?N tx @ (if body = [] then [] else wrote_out ?N body)) ?w"
  have s: "w_self ?w = Some ?s" "e_results (w_env ?w) = []" using assms(2) by (simp_all add: put_self_def)
  have 1: "ss_send (request_connection ?N) tx ?w = (ERR_OK, log_events (wrote_out ?N tx) ?w)"
    by (rule connection_send [OF _ s]) simp
  have "w_self (log_events (wrote_out ?N tx) ?w) = Some ?s" "e_results (w_env (log_events (wrote_out ?N tx) ?w)) = []"
    using s by simp_all
  from connection_send [OF _ this]
  have 2: "ss_send (request_connection ?N) body (log_events (wrote_out ?N tx) ?w) =
      (ERR_OK, log_events (wrote_out ?N tx @ wrote_out ?N body) ?w)" by simp
  have "holds (request_over ?w ?q) host (tx @ [0])" using assms(3) by simp
  from on_connected_holds [OF this, of "request_connection ?N"]
  have "http_request_on_connected (request_connection ?N) (request_over ?w ?q) = Some (request_over ?w' ?q)"
    using 1 2 assms(4) by (simp add: Let_def del: log_events_put)
  moreover have "store_request (request_over ?w' ?q) = ?w'" by (rule store_request_same) simp
  moreover have "put_self ((fresh_session tls port (Some p) False)\<lparr>s_connected := True\<rparr>) w = ?w"
    by (simp add: fresh_session_def)
  ultimately show ?thesis
    using assms(1) by (simp add: session_lwip_connected_def client_callback_def ERR_OK_def) (simp add: fresh_session_def)
qed

section \<open>The response arrives\<close>

definition response_ok :: "bytes \<Rightarrow> bytes \<Rightarrow> bytes \<Rightarrow> (bytes \<times> bytes) list \<Rightarrow> bool" where
  "response_ok version code reason hs \<longleftrightarrow> SP \<notin> set version \<and> 0 \<notin> set version \<and> second_ok code \<and> hd code \<noteq> SLASH \<and>
     0 \<notin> set code \<and> LF \<notin> set reason \<and> list_all header_ok hs \<and> length (render version code reason hs) < 65536"

text \<open>What an application reads from the header it is handed.\<close>

definition response_read :: "bytes \<Rightarrow> (bytes \<times> bytes) list \<Rightarrow> bytes \<Rightarrow> http_header \<Rightarrow> bool" where
  "response_read code hs m h \<longleftrightarrow> getResponseCode m h = status code \<and>
     (\<forall>name. getHeaderValue m h name = map_option snd (find (\<lambda>f. same_name (fst f) name) (take MAX_HEADERS hs)))"

lemma response_parsed:
  assumes "response_ok version code reason hs"
  shows "\<exists>m h. http_parse (render version code reason hs @ rest) (length (render version code reason hs @ rest)) http_header_init =
      Some (m, h, True) \<and> response_read code hs m h \<and> unat (hh_headerSize h) = length (render version code reason hs) \<and>
    drop (length (render version code reason hs)) m = rest"
proof -
  let ?r = "render version code reason hs"
  obtain m h where r: "http_parse (?r @ rest) (length (?r @ rest)) http_header_init = Some (m, h, True)"
    "hh_second h = Some (length version + 1)" "mem_read m (length version + 1) = Some (hd code)" "hh_responseCode h = status code"
    "hh_headerSize h = of_nat (length ?r)" "drop (length ?r) m = rest"
    "\<forall>name. getHeaderValue m h name = map_option snd (find (\<lambda>f. same_name (fst f) name) (take MAX_HEADERS hs))"
    using render_lookup [of version code reason hs rest] assms unfolding response_ok_def by blast
  have "http_is_response m h" using r(2,3) assms by (simp add: http_is_response_def response_ok_def)
  then have "response_read code hs m h" using r(4,7) by (simp add: response_read_def getResponseCode_def)
  moreover have "unat (hh_headerSize h) = length ?r" using r(5) assms by (simp add: unat_of_nat_16 response_ok_def)
  ultimately show ?thesis using r(1,6) by blast
qed

lemma first_segment:
  assumes "concat (d # ds) = text @ body" and "length text \<le> length d"
  shows "\<exists>rest. d = text @ rest \<and> rest @ concat ds = body"
proof -
  have "take (length text) d = text" using arg_cong [OF assms(1), of "take (length text)"] assms(2) by simp
  then have "d = text @ drop (length text) d" by (metis append_take_drop_id)
  moreover have "drop (length text) d @ concat ds = body" using arg_cong [OF assms(1), of "drop (length text)"] assms(2) by simp
  ultimately show ?thesis by blast
qed

text \<open>The segments of a response that are still to come.\<close>

definition response_due ::
    "bytes \<Rightarrow> bytes \<Rightarrow> bytes \<Rightarrow> (bytes \<times> bytes) list \<Rightarrow> bytes \<Rightarrow> bytes \<Rightarrow> bytes list \<Rightarrow> client_env world \<Rightarrow> bool" where
  "response_due version code reason hs body wire ds w \<longleftrightarrow>
     response_ok version code reason hs \<and> session_open w \<and> map_option s_callback (w_self w) = Some True \<and> session_wire w = wire \<and>
     (rq_state (cl_request (w_env w)) = INIT \<and> cl_events (w_env w) = [] \<and> ds \<noteq> [] \<and>
        concat ds = render version code reason hs @ body \<and> length (render version code reason hs) \<le> length (hd ds) \<or>
      rq_state (cl_request (w_env w)) = HEADER_RECEIVED \<and>
        (\<exists>m h es. cl_events (w_env w) = Header_Received m h # map Response_Data es \<and> response_read code hs m h \<and>
           concat es @ concat ds = body))"

lemma response_header_segment:
  assumes "response_ok version code reason hs" and "rq_state (cl_request (w_env w)) = INIT"
  shows "\<exists>m h w'. sc_on_recv (client_callback n) (render version code reason hs @ rest) w = (True, w') \<and>
    response_read code hs m h \<and> w_self w' = w_self w \<and> session_wire w' = session_wire w \<and> session_open w' = session_open w \<and>
    rq_state (cl_request (w_env w')) = HEADER_RECEIVED \<and>
    cl_events (w_env w') = cl_events (w_env w) @ Header_Received m h # map Response_Data (if rest = [] then [] else [rest])"
proof -
  let ?d = "render version code reason hs @ rest" and ?q = "cl_request (w_env w)"
  obtain m h where r: "http_parse ?d (length ?d) http_header_init = Some (m, h, True)" "response_read code hs m h"
    "unat (hh_headerSize h) = length (render version code reason hs)" "drop (length (render version code reason hs)) m = rest"
    using response_parsed [OF assms(1)] by blast
  let ?w1 = "note_response (Header_Received m h) w"
  let ?w2 = "if rest = [] then ?w1 else note_response (Response_Data rest) ?w1"
  have "http_request_on_recv (Some response_app) (request_over w ?q) ?d =
      Some (True, request_over ?w2 (?q\<lparr>rq_state := HEADER_RECEIVED\<rparr>))"
    using r(1,3,4) assms(2) by (simp add: http_request_on_recv_def response_app_def Let_def)
  then show ?thesis using r(2)
    by (intro exI [of _ m] exI [of _ h]) (simp add: client_callback_def)
qed

lemma response_data_segment:
  assumes "rq_state (cl_request (w_env w)) = HEADER_RECEIVED"
  shows "sc_on_recv (client_callback n) d w = (True, note_response (Response_Data d) w)"
proof -
  have "http_request_on_recv (Some response_app) (request_over w (cl_request (w_env w))) d =
      Some (True, request_over (note_response (Response_Data d) w) (cl_request (w_env w)))"
    using assms by (simp add: http_request_on_recv_def response_app_def)
  then show ?thesis by (simp add: client_callback_def)
qed

lemma open_self:
  "session_open w \<Longrightarrow> map_option s_callback (w_self w) = Some True \<Longrightarrow>
   \<exists>s. w_self w = Some s \<and> \<not> s_closing s \<and> s_pcb s \<noteq> None \<and> s_callback s"
  by (auto simp: session_open_def split: option.splits)

lemma open_processing:
  "w_self w = Some s \<Longrightarrow> session_open (put_self (s\<lparr>s_processing := b\<rparr>) w) = session_open w"
  "w_self w = Some s \<Longrightarrow> map_option s_callback (w_self (put_self (s\<lparr>s_processing := b\<rparr>) w)) = map_option s_callback (w_self w)"
  by (simp_all add: session_open_def put_self_def)

lemma open_taken: "session_open (log_events evs w) = session_open w" "session_wire (log_events [Recved k, Freed p] w) = session_wire w"
  by (simp add: session_open_def, simp add: session_wire_log del: log_events_simps)

interpretation response: chain_receiver "client_callback n" "response_due version code reason hs body wire"
  for n version code reason hs body wire
proof
  fix w and d and ds :: "bytes list"
  assume due: "response_due version code reason hs body wire (d # ds) w"
  show "\<exists>w'. sc_on_recv (client_callback n) d w = (True, w') \<and> response_due version code reason hs body wire ds w'"
  proof (cases "rq_state (cl_request (w_env w)) = INIT")
    case True
    then have h: "response_ok version code reason hs" "concat (d # ds) = render version code reason hs @ body"
      "length (render version code reason hs) \<le> length d" "cl_events (w_env w) = []"
      using due by (simp_all add: response_due_def)
    obtain rest where rest: "d = render version code reason hs @ rest" "rest @ concat ds = body"
      using first_segment [OF h(2,3)] by blast
    obtain m x w' where w': "sc_on_recv (client_callback n) d w = (True, w')" "response_read code hs m x" "w_self w' = w_self w"
      "session_wire w' = session_wire w" "session_open w' = session_open w" "rq_state (cl_request (w_env w')) = HEADER_RECEIVED"
      "cl_events (w_env w') = Header_Received m x # map Response_Data (if rest = [] then [] else [rest])"
      using response_header_segment [OF h(1) True, of n rest] h(4) unfolding rest(1) by auto
    have "concat (if rest = [] then [] else [rest]) @ concat ds = body" using rest(2) by auto
    with w' due show ?thesis unfolding response_due_def by metis
  next
    case False
    then obtain m h es where e: "rq_state (cl_request (w_env w)) = HEADER_RECEIVED"
      "cl_events (w_env w) = Header_Received m h # map Response_Data es" "response_read code hs m h" "concat es @ d @ concat ds = body"
      using due by (auto simp: response_due_def)
    then have "cl_events (w_env (note_response (Response_Data d) w)) = Header_Received m h # map Response_Data (es @ [d])"
      "concat (es @ [d]) @ concat ds = body" by simp_all
    with e due response_data_segment [OF e(1), of n d] show ?thesis
      by (auto simp: response_due_def intro!: exI [of _ m] exI [of _ h] exI [of _ "es @ [d]"])
  qed
qed (auto simp: response_due_def open_processing open_taken simp del: log_events_simps dest: open_self)

section \<open>The end of the connection\<close>

text \<open>When the peer closes the connection, request and session are deleted, once.\<close>

lemma client_peer_closes:
  assumes "session_open w" and "map_option s_callback (w_self w) = Some True" and "map_option s_processing (w_self w) = Some False"
  shows "\<exists>w'. session_lwip_recv (logging_lwip (Suc n)) (client_callback n) pcb None ERR_OK w = Some (ERR_ABRT, w') \<and>
    w_self w' = None \<and> w_num_sessions w' = w_num_sessions w - 1 \<and> cl_events (w_env w') = cl_events (w_env w) \<and>
    e_log (w_env w') = e_log (w_env w) @ [Registered False, Aborted, On_Closed]"
proof -
  obtain s where s: "w_self w = Some s" "\<not> s_closing s" "s_pcb s \<noteq> None" "s_callback s" "\<not> s_processing s"
    using open_self [OF assms(1,2)] assms(3) by auto
  then show ?thesis
    by (auto simp: session_lwip_recv_def session_close_def call_on_closed_def client_callback_def put_self_same session_delete_def
        http_request_on_closed_def response_app_def request_over_def put_self_def log_event_def Let_def ERR_OK_def ERR_ABRT_def)
qed

section \<open>A server of pages\<close>

text \<open>The application answers a request with the page of its path, and notes the data behind the header.\<close>

definition page_app :: "nat \<Rightarrow> bytes \<Rightarrow> (bytes \<Rightarrow> bytes) \<Rightarrow> server_env world http_handlers" where
  "page_app n extra_headers page = \<lparr>
     onRequestReceived = (\<lambda>s. case getPath (ht_memory s) (ht_header s) of
         None \<Rightarrow> (False, s)
       | Some path \<Rightarrow>
           (case sendHttpReply (server_sender n) extra_headers (Some (page path)) (int (length (page path))) s of
              None \<Rightarrow> (False, s\<lparr>ht_below := (ht_below s)\<lparr>w_self := None\<rparr>\<rparr>)
            | Some r \<Rightarrow> r)),
     onHttpData = (\<lambda>d s. (True, s\<lparr>ht_below := note_events [Body d] (ht_below s)\<rparr>)),
     onHttpWebSocketData = (\<lambda>d s. (True, s\<lparr>ht_below := note_events [Message d] (ht_below s)\<rparr>)) \<rparr>"

definition page_request ::
    "bytes \<Rightarrow> (bytes \<Rightarrow> bytes) \<Rightarrow> bytes \<Rightarrow> bytes \<Rightarrow> bytes \<Rightarrow> (bytes \<times> bytes) list \<Rightarrow> bool" where
  "page_request extra_headers page verb path version hs \<longleftrightarrow> request_ok verb path version hs \<and>
     length (render verb path version hs) < 65536 \<and>
     length (http_reply_header extra_headers (int (length (page path)))) < 128"

definition page_reply :: "bytes \<Rightarrow> bytes \<Rightarrow> bytes" where
  "page_reply extra_headers page = http_reply_header extra_headers (int (length page)) @ page"

definition request_due ::
    "bytes \<Rightarrow> (bytes \<Rightarrow> bytes) \<Rightarrow> bytes \<Rightarrow> bytes \<Rightarrow> bytes \<Rightarrow> (bytes \<times> bytes) list \<Rightarrow> bytes \<Rightarrow> bytes \<Rightarrow> bytes list \<Rightarrow>
     server_env world \<Rightarrow> bool" where
  "request_due extra page verb path version hs body wire ds w \<longleftrightarrow> page_request extra page verb path version hs \<and>
     session_open w \<and> map_option s_callback (w_self w) = Some True \<and>
     (sv_http (w_env w) = http_session_create () \<and> sv_events (w_env w) = [] \<and> session_wire w = wire \<and> ds \<noteq> [] \<and>
        concat ds = render verb path version hs @ body \<and> length (render verb path version hs) \<le> length (hd ds) \<or>
      ht_state (sv_http (w_env w)) = HEADER_RECEIVED \<and> session_wire w = wire @ page_reply extra (page path) \<and>
        (\<exists>es. sv_events (w_env w) = map Body es \<and> concat es @ concat ds = body))"

text \<open>Sending leaves alone what the application has noted.\<close>

definition server_up :: "http_event list \<Rightarrow> server_env world \<Rightarrow> bool" where
  "server_up evs w \<longleftrightarrow> session_open w \<and> map_option s_callback (w_self w) = Some True \<and> sv_events (w_env w) = evs"

interpretation page_sender: wire_sender "server_sender n" "server_up evs" session_wire
  for n evs
proof
  fix w and d :: bytes
  assume up: "server_up evs w"
  then obtain s where s: "w_self w = Some s" "\<not> s_closing s" "s_pcb s \<noteq> None" "s_sentBytes s = 0" "s_callback s" "e_results (w_env w) = []"
    using session_open_self by (fastforce simp: server_up_def)
  let ?w = "put_self (s\<lparr>s_processing := False\<rparr>) (log_events (map Wrote (chunks (Suc n) d) @ [Output]) w)"
  have "ss_send (server_sender n) d w = (ERR_OK, ?w)"
    using send_logged [of "Suc n" w s "quiet_callback True" d] s by (simp add: server_sender_def session_as_sender_def session_result_def)
  moreover have "server_up evs ?w" using s up by (simp add: server_up_def session_open_def put_self_def)
  moreover have "session_wire ?w = session_wire w @ d"
    using wire_of_chunks [of "Suc n" d] by (simp add: session_wire_log)
  ultimately show "fst (ss_send (server_sender n) d w) = ERR_OK \<and> server_up evs (snd (ss_send (server_sender n) d w)) \<and>
      session_wire (snd (ss_send (server_sender n) d w)) = session_wire w @ d"
    by simp
qed

lemma request_header_segment:
  assumes ok: "page_request extra page verb path version hs" and up: "server_up evs w"
    and fresh: "sv_http (w_env w) = http_session_create ()"
  shows "\<exists>w'. sc_on_recv (http_server_callback n (page_app n extra page)) (render verb path version hs @ rest) w = (True, w') \<and>
    server_up (evs @ map Body (if rest = [] then [] else [rest])) w' \<and> ht_state (sv_http (w_env w')) = HEADER_RECEIVED \<and>
    session_wire w' = session_wire w @ page_reply extra (page path)"
proof -
  let ?t = "render verb path version hs" and ?d = "render verb path version hs @ rest"
  obtain m h where r: "http_parse ?d (length ?d) http_header_init = Some (m, h, True)" "getPath m h = Some path"
    "hh_headerSize h = of_nat (length ?t)" "drop (length ?t) m = rest"
    using render_request_lookup [of verb path version hs rest] ok by (auto simp: page_request_def)
  have size: "unat (hh_headerSize h) = length ?t" using r(3) ok by (simp add: unat_of_nat_16 page_request_def)
  let ?s = "\<lparr> ht_state = HEADER_RECEIVED, ht_header = h, ht_memory = m, ht_below = w \<rparr>"
  have "server_up evs (ht_below ?s)" using up by simp
  from page_sender.reply_wire [OF this, of extra "page path" n] ok obtain b where
    b: "sendHttpReply (server_sender n) extra (Some (page path)) (int (length (page path))) ?s = Some (True, ?s\<lparr>ht_below := b\<rparr>)"
      "server_up evs b" "session_wire b = session_wire w @ page_reply extra (page path)"
    by (auto simp: page_request_def page_reply_def)
  let ?b = "note_events (map Body (if rest = [] then [] else [rest])) b"
  have below: "with_below w (sv_http (w_env w)) = http_session_create w" using fresh by (simp add: with_below_def http_session_create_def)
  have "http_session_on_recv (page_app n extra page) (server_sender n) (sv_ws (w_env w)) (http_session_create w) ?d =
      Some (sv_ws (w_env w), ?s\<lparr>ht_below := ?b\<rparr>, True)"
    using r size b(1) by (simp add: http_session_on_recv_def http_session_create_def page_app_def Let_def)
  then have "sc_on_recv (http_server_callback n (page_app n extra page)) ?d w = (True, store_http (sv_ws (w_env w)) (?s\<lparr>ht_below := ?b\<rparr>))"
    using below by (simp add: http_server_callback_def)
  then show ?thesis using b(2,3)
    by (simp add: store_http_def Let_def with_below_def server_up_def session_open_def session_wire_def note_events_def)
qed

lemma request_data_segment:
  assumes "ht_state (sv_http (w_env w)) = HEADER_RECEIVED"
  shows "sc_on_recv (http_server_callback n (page_app n extra page)) d w = (True, note_events [Body d] w)"
  using assms
  by (simp add: http_server_callback_def http_session_on_recv_def with_below_def page_app_def store_http_def Let_def note_events_def)

interpretation request: chain_receiver "http_server_callback n (page_app n extra page)"
    "request_due extra page verb path version hs body wire"
  for n extra page verb path version hs body wire
proof
  fix w and d and ds :: "bytes list"
  assume due: "request_due extra page verb path version hs body wire (d # ds) w"
  show "\<exists>w'. sc_on_recv (http_server_callback n (page_app n extra page)) d w = (True, w') \<and>
      request_due extra page verb path version hs body wire ds w'"
  proof (cases "ht_state (sv_http (w_env w)) = HEADER_RECEIVED")
    case False
    then have h: "page_request extra page verb path version hs" "concat (d # ds) = render verb path version hs @ body"
      "length (render verb path version hs) \<le> length d" "sv_http (w_env w) = http_session_create ()" "server_up [] w"
      "session_wire w = wire"
      using due by (simp_all add: request_due_def server_up_def)
    obtain rest where rest: "d = render verb path version hs @ rest" "rest @ concat ds = body"
      using first_segment [OF h(2,3)] by blast
    have "concat (if rest = [] then [] else [rest]) @ concat ds = body" using rest(2) by auto
    with request_header_segment [OF h(1,5,4), of n rest] h(1,6) show ?thesis
      unfolding rest(1) request_due_def server_up_def append_Nil by metis
  next
    case True
    then obtain es where e: "sv_events (w_env w) = map Body es" "concat es @ d @ concat ds = body"
      using due by (auto simp: request_due_def http_session_create_def)
    then have "sv_events (w_env (note_events [Body d] w)) = map Body (es @ [d])" "concat (es @ [d]) @ concat ds = body"
      by simp_all
    moreover have "session_open (note_events [Body d] w) = session_open w" by (simp add: session_open_def note_events_def)
    ultimately show ?thesis using due True request_data_segment [OF True, of n extra page d]
      by (auto simp: request_due_def http_session_create_def intro!: exI [of _ "es @ [d]"])
  qed
qed (auto simp: request_due_def open_processing open_taken simp del: log_events_simps dest: open_self)

section \<open>The exchange\<close>

lemma reply_rendered:
  "http_reply_header (lines xs) (int (length page)) = render (ascii ''HTTP/1.0'') (ascii ''200'') (ascii ''OK'') (xs @ [content_length page])"
  by (simp add: http_reply_header_def render_def content_length_def decimal_def CRLF_def)

lemma status_200: "second_ok (ascii ''200'')" "hd (ascii ''200'') \<noteq> SLASH" "0 \<notin> set (ascii ''200'')" "status (ascii ''200'') = 222"
  by code_simp+

lemma reply_ok:
  assumes "list_all header_ok xs" and "length (http_reply_header (lines xs) (int (length page))) < 128"
  shows "response_ok (ascii ''HTTP/1.0'') (ascii ''200'') (ascii ''OK'') (xs @ [content_length page])"
proof -
  have "header_ok (content_length page)"
    using decimal_header_ok [of CR] decimal_header_ok [of 0] by (simp add: content_length_def of_char_def)
  then show ?thesis
    using assms status_200 unfolding reply_rendered response_ok_def by (simp add: of_char_def)
qed

text \<open>A cut into chains whose first pbuf holds the first \<open>k\<close> bytes.\<close>

definition whole_in_first :: "nat \<Rightarrow> bytes list list \<Rightarrow> bool" where
  "whole_in_first k ps \<longleftrightarrow> ps \<noteq> [] \<and> hd ps \<noteq> [] \<and> k \<le> length (hd (hd ps))"

lemma whole_in_first_segments:
  assumes "whole_in_first k ps"
  shows "concat (map segments ps) \<noteq> [] \<and> k \<le> length (hd (concat (map segments ps)))"
proof -
  obtain it its ps' where "ps = (it # its) # ps'" using assms by (auto simp: whole_in_first_def neq_Nil_conv)
  then show ?thesis using assms by (simp add: whole_in_first_def)
qed

text \<open>The client, from its construction to the request on the wire.\<close>

lemma client_requests:
  assumes "length memory0 = 1002" and "port \<noteq> 0" and "0 \<notin> set host"
    and "length host + length (request_text host port command path hs (Some body)) < 998" and "length body < 2 ^ 31"
    and "w_self w = Some (fresh_session False 0 None False)" and "e_results (w_env w) = []" and "w_tls_config w"
    and "cl_events (w_env w) = []"
  shows "\<exists>r w1 w2.
    prepare_request (request_connection (Suc n)) memory0 host port tls command path hs (Some body) w = Some (True, True, False, r) \<and>
    session_dns_callback (logging_lwip (Suc n)) (client_callback n) host (Some ip) (store_request r) = Some w1 \<and>
    session_lwip_connected (logging_lwip (Suc n)) (client_callback n) ERR_OK w1 = Some (ERR_OK, w2) \<and>
    session_wire w2 = session_wire w @ request_text host port command path hs (Some body) @ body \<and>
    session_open w2 \<and> map_option s_callback (w_self w2) = Some True \<and> map_option s_processing (w_self w2) = Some False \<and>
    rq_state (cl_request (w_env w2)) = INIT \<and> cl_events (w_env w2) = []"
proof -
  let ?tx = "request_text host port command path hs (Some body)" and ?co = "request_connection (Suc n)"
  let ?w0 = "put_self (fresh_session tls port None False) w"
  obtain r where r: "prepare_request ?co memory0 host port tls command path hs (Some body) w = Some (True, True, False, r)"
    "holds r host (?tx @ [0])" "rq_body r = Some body" "rq_below r = ?w0"
    using prepare_request_holds [OF assms(1-4) _ connection_connect [OF assms(6), of "Suc n" host port tls]] assms(5)
    by (auto simp: ERR_INPROGRESS_def ERR_OK_def)
  let ?w1 = "put_self (fresh_session tls port (Some 1) False) (log_events [Opened, Registered True] (store_request r))"
  have "w_self (store_request r) = Some (fresh_session tls port None False)" "w_tls_config (store_request r)"
    using r(4) assms(8) by (simp_all add: put_self_def store_request_def Let_def)
  then have 1: "session_dns_callback (logging_lwip (Suc n)) (client_callback n) host (Some ip) (store_request r) = Some ?w1"
    by (intro resolver_answers) simp_all
  let ?w2 = "put_self (fresh_session tls port (Some 1) True)
      (log_events (wrote_out (Suc n) ?tx @ (if body = [] then [] else wrote_out (Suc n) body)) ?w1)"
  have q: "cl_request (w_env ?w1) = request_over () r" "e_results (w_env ?w1) = []" "cl_events (w_env ?w1) = []"
    "session_wire ?w1 = session_wire w"
    using r(4) assms(7,9) by (simp_all add: session_wire_log_event)
  have "w_self ?w1 = Some (fresh_session tls port (Some 1) False)" by (simp add: put_self_def)
  from client_up [OF this q(2), of host ?tx body n] have
    2: "session_lwip_connected (logging_lwip (Suc n)) (client_callback n) ERR_OK ?w1 = Some (ERR_OK, ?w2)"
    using r(2,3) q(1) by simp
  have "session_wire ?w2 = session_wire w @ ?tx @ body"
    using q(4) wire_of_chunks [of "Suc n"] by (simp add: session_wire_log wrote_out_def)
  moreover have "session_open ?w2" "map_option s_callback (w_self ?w2) = Some True" "map_option s_processing (w_self ?w2) = Some False"
    "rq_state (cl_request (w_env ?w2)) = INIT"
    "cl_events (w_env ?w2) = []"
    using q r(2) by (simp_all add: session_open_def put_self_def fresh_session_def holds_def)
  ultimately show ?thesis using r(1) 1 2 by blast
qed

lemma page_served:
  assumes "CR \<notin> set host" and "0 \<notin> set host" and "request_ok command path (ascii ''HTTP/1.1'') hs"
    and "length (request_text host port command path hs (Some body)) < 65536" and "server_ready v"
    and "length (http_reply_header extra (int (length (page path)))) < 128"
    and "concat (concat ps) = request_text host port command path hs (Some body) @ body"
    and "whole_in_first (length (request_text host port command path hs (Some body))) ps"
  shows "\<exists>v' es. recv_chains (logging_lwip (Suc k)) (http_server_callback k (page_app k extra page)) pcb ps v = Some (ERR_OK, v') \<and>
    session_wire v' = session_wire v @ page_reply extra (page path) \<and> sv_events (w_env v') = map Body es \<and> concat es = body"
proof -
  let ?hs = "request_headers host port hs (Some body)"
  have tx: "request_text host port command path hs (Some body) = render command path (ascii ''HTTP/1.1'') ?hs"
    by (simp add: request_text_def)
  have "page_request extra page command path (ascii ''HTTP/1.1'') ?hs"
    using assms(1-4,6) request_headers_ok [of host hs port "Some body"] unfolding page_request_def tx [symmetric] by (simp add: request_ok_def)
  then have "request_due extra page command path (ascii ''HTTP/1.1'') ?hs body (session_wire v) (concat (map segments ps)) v"
    using assms(5,7) whole_in_first_segments [OF assms(8)]
    unfolding request_due_def tx server_ready_def by (simp add: concat_chain_segments)
  from request.chains_due [OF this, of "Suc k" k pcb] show ?thesis by (auto simp: request_due_def)
qed

lemma page_received:
  assumes "list_all header_ok xs" and "length (http_reply_header (lines xs) (int (length page))) < 128"
    and "session_open w" and "map_option s_callback (w_self w) = Some True" and "map_option s_processing (w_self w) = Some False"
    and "rq_state (cl_request (w_env w)) = INIT" and "cl_events (w_env w) = []"
    and "concat (concat qs) = page_reply (lines xs) page"
    and "whole_in_first (length (http_reply_header (lines xs) (int (length page)))) qs"
  shows "\<exists>w' w'' m h ds. recv_chains (logging_lwip (Suc n)) (client_callback n) pcb qs w = Some (ERR_OK, w') \<and>
    session_lwip_recv (logging_lwip (Suc n)) (client_callback n) pcb None ERR_OK w' = Some (ERR_ABRT, w'') \<and>
    w_self w'' = None \<and> cl_events (w_env w'') = cl_events (w_env w') \<and>
    cl_events (w_env w') = Header_Received m h # map Response_Data ds \<and> concat ds = page \<and> getResponseCode m h = 222 \<and>
    (\<forall>name. getHeaderValue m h name = map_option snd (find (\<lambda>f. same_name (fst f) name)
       (take 20 (xs @ [(ascii ''Content-Length'', nat_decimal (length page))]))))"
proof -
  let ?xs = "xs @ [content_length page]" and ?v = "ascii ''HTTP/1.0''" and ?c = "ascii ''200''" and ?o = "ascii ''OK''"
  have reply: "page_reply (lines xs) page = render ?v ?c ?o ?xs @ page" unfolding page_reply_def reply_rendered ..
  have "response_due ?v ?c ?o ?xs page (session_wire w) (concat (map segments qs)) w"
    using reply_ok [OF assms(1,2)] assms(3,4,6,7) whole_in_first_segments [OF assms(9)] assms(8)
    unfolding response_due_def reply reply_rendered by (simp add: concat_chain_segments)
  from response.chains_due [OF this, of "Suc n" n pcb] obtain w' m h ds where w':
    "recv_chains (logging_lwip (Suc n)) (client_callback n) pcb qs w = Some (ERR_OK, w')"
    "cl_events (w_env w') = Header_Received m h # map Response_Data ds" "response_read ?c ?xs m h" "concat ds = page"
    "session_open w'" "map_option s_callback (w_self w') = Some True" "map_option s_processing (w_self w') = Some False"
    using assms(5) by (auto simp: response_due_def)
  moreover from client_peer_closes [OF w'(5-7), of n pcb] obtain w'' where
    "session_lwip_recv (logging_lwip (Suc n)) (client_callback n) pcb None ERR_OK w' = Some (ERR_ABRT, w'')" "w_self w'' = None"
    "cl_events (w_env w'') = cl_events (w_env w')" by blast
  moreover have "getResponseCode m h = 222" "\<forall>name. getHeaderValue m h name = map_option snd (find (\<lambda>f. same_name (fst f) name)
       (take 20 (xs @ [(ascii ''Content-Length'', nat_decimal (length page))])))"
    using w'(3) status_200(4) by (simp_all add: response_read_def MAX_HEADERS_def content_length_def del: ascii_simps)
  ultimately show ?thesis by blast
qed

definition client_start :: "client_env world" where
  "client_start = \<lparr> w_self = Some (fresh_session False 0 None False), w_num_sessions = 1, w_tls_config = True,
     w_env = \<lparr> e_log = [], e_results = [],
       cl_request = \<lparr> rq_state = INIT, rq_port = 443, rq_headerStart = 0, rq_headerIndex = 0, rq_header = [], rq_body = None, rq_below = () \<rparr>,
       cl_events = [] \<rparr> \<rparr>"

text \<open>The header in one pbuf, the data cut behind it and inside it.\<close>

definition demo_request_chains :: "bytes list list" where
  "demo_request_chains = [[request_text [0x68] 80 [0x47] [0x2F] [([0x41], [0x62])] (Some [1, 2]) @ [1]], [[2]]]"

definition demo_reply_chains :: "bytes list list" where
  "demo_reply_chains = [[http_reply_header (lines [([0x42], [0x63])]) (int (length (rev [0x2F :: u8]))), [0x2F]]]"

lemma demo_reply_length: "length (http_reply_header (lines [([0x42], [0x63])]) (int (length (rev [0x2F :: u8])))) < 128"
  by code_simp

section \<open>Properties\<close>

text \<open>C5. A request and its reply over two sessions. The client sends a request with a body, which the wire carries to the
  server cut into chains, the header whole in the first pbuf; the reply of the server comes back in the same way. The server is
  told the path and the body and nothing else is on the wire but request and reply; the client is told the headers
  of the reply with its \<open>Content-Length\<close>, and exactly the page; and when the server closes the connection, request and
  session are deleted. The status it reads is 222, not 200: \<open>HTTPHeader\<close> repeats the
  first digit.\<close>

theorem http_exchange:
  assumes "length memory0 = 1002" and "port \<noteq> 0" and "0 \<notin> set host" and "CR \<notin> set host"
    and "request_ok command path (ascii ''HTTP/1.1'') hs"
    and "length host + length (request_text host port command path hs (Some body)) < 998" and "length body < 2 ^ 31"
    and "w_self w = Some (fresh_session False 0 None False)" and "e_results (w_env w) = []" and "w_tls_config w"
    and "cl_events (w_env w) = []" and "server_ready v"
    and "list_all header_ok xs" and "length (http_reply_header (lines xs) (int (length (page path)))) < 128"
    and "concat (concat ps) = request_text host port command path hs (Some body) @ body"
    and "whole_in_first (length (request_text host port command path hs (Some body))) ps"
    and "concat (concat qs) = page_reply (lines xs) (page path)"
    and "whole_in_first (length (http_reply_header (lines xs) (int (length (page path))))) qs"
  shows "\<exists>r w1 w2 v' w3 w4 es m h ds.
    prepare_request (request_connection (Suc n)) memory0 host port tls command path hs (Some body) w = Some (True, True, False, r) \<and>
    session_dns_callback (logging_lwip (Suc n)) (client_callback n) host (Some ip) (store_request r) = Some w1 \<and>
    session_lwip_connected (logging_lwip (Suc n)) (client_callback n) ERR_OK w1 = Some (ERR_OK, w2) \<and>
    session_wire w2 = session_wire w @ concat (concat ps) \<and>
    recv_chains (logging_lwip (Suc k)) (http_server_callback k (page_app k (lines xs) page)) pcb ps v = Some (ERR_OK, v') \<and>
    session_wire v' = session_wire v @ concat (concat qs) \<and> sv_events (w_env v') = map Body es \<and> concat es = body \<and>
    recv_chains (logging_lwip (Suc n)) (client_callback n) pcb' qs w2 = Some (ERR_OK, w3) \<and>
    session_lwip_recv (logging_lwip (Suc n)) (client_callback n) pcb' None ERR_OK w3 = Some (ERR_ABRT, w4) \<and>
    w_self w4 = None \<and> cl_events (w_env w4) = cl_events (w_env w3) \<and>
    cl_events (w_env w3) = Header_Received m h # map Response_Data ds \<and> concat ds = page path \<and> getResponseCode m h = 222 \<and>
    (\<forall>name. getHeaderValue m h name = map_option snd (find (\<lambda>f. same_name (fst f) name)
       (take 20 (xs @ [(ascii ''Content-Length'', nat_decimal (length (page path)))]))))"
proof -
  let ?tx = "request_text host port command path hs (Some body)"
  obtain r w1 w2 where w2:
    "prepare_request (request_connection (Suc n)) memory0 host port tls command path hs (Some body) w = Some (True, True, False, r)"
    "session_dns_callback (logging_lwip (Suc n)) (client_callback n) host (Some ip) (store_request r) = Some w1"
    "session_lwip_connected (logging_lwip (Suc n)) (client_callback n) ERR_OK w1 = Some (ERR_OK, w2)"
    "session_wire w2 = session_wire w @ ?tx @ body"
    "session_open w2" "map_option s_callback (w_self w2) = Some True" "map_option s_processing (w_self w2) = Some False"
    "rq_state (cl_request (w_env w2)) = INIT" "cl_events (w_env w2) = []"
    using client_requests [OF assms(1-3,6-11), of n tls ip] by blast
  have "length ?tx < 65536" using assms(6) by simp
  from page_served [where page = page, OF assms(4,3,5) this assms(12,14-16), of k pcb] obtain v' es where v':
    "recv_chains (logging_lwip (Suc k)) (http_server_callback k (page_app k (lines xs) page)) pcb ps v = Some (ERR_OK, v')"
    "session_wire v' = session_wire v @ concat (concat qs)" "sv_events (w_env v') = map Body es" "concat es = body"
    unfolding assms(17) by blast
  have w: "session_wire w2 = session_wire w @ concat (concat ps)" using w2(4) assms(15) by simp
  from page_received [OF assms(13,14) w2(5-9) assms(17,18), of n pcb'] show ?thesis
    by (elim exE) (rule exI [of _ r], rule exI [of _ w1], rule exI [of _ w2], rule exI [of _ v'], use w2(1-3) w v' in blast)
qed

theorem http_exchange_witness:
  "\<exists>r w1 w2 v' w3 w4 es m h ds.
    prepare_request (request_connection (Suc 7)) demo_memory [0x68] 80 True [0x47] [0x2F] [([0x41], [0x62])] (Some [1, 2]) client_start =
      Some (True, True, False, r) \<and>
    session_dns_callback (logging_lwip (Suc 7)) (client_callback 7) [0x68] (Some 9) (store_request r) = Some w1 \<and>
    session_lwip_connected (logging_lwip (Suc 7)) (client_callback 7) ERR_OK w1 = Some (ERR_OK, w2) \<and>
    session_wire w2 = session_wire client_start @ concat (concat demo_request_chains) \<and>
    recv_chains (logging_lwip (Suc 9)) (http_server_callback 9 (page_app 9 (lines [([0x42], [0x63])]) rev)) 1 demo_request_chains
      server_world = Some (ERR_OK, v') \<and>
    session_wire v' = session_wire server_world @ concat (concat demo_reply_chains) \<and> sv_events (w_env v') = map Body es \<and>
    concat es = [1, 2] \<and>
    recv_chains (logging_lwip (Suc 7)) (client_callback 7) 1 demo_reply_chains w2 = Some (ERR_OK, w3) \<and>
    session_lwip_recv (logging_lwip (Suc 7)) (client_callback 7) 1 None ERR_OK w3 = Some (ERR_ABRT, w4) \<and>
    w_self w4 = None \<and> cl_events (w_env w4) = cl_events (w_env w3) \<and>
    cl_events (w_env w3) = Header_Received m h # map Response_Data ds \<and> concat ds = rev [0x2F] \<and> getResponseCode m h = 222 \<and>
    (\<forall>name. getHeaderValue m h name = map_option snd (find (\<lambda>f. same_name (fst f) name)
       (take 20 ([([0x42], [0x63])] @ [(ascii ''Content-Length'', nat_decimal (length (rev [0x2F :: u8])))]))))"
  by (rule http_exchange [OF _ _ _ _ demo_request(1) demo_request(2)])
    (use demo_reply_length in \<open>simp_all add: demo_memory_def client_start_def server_ready_def server_world_def session_open_def
      open_world_def demo_request_chains_def demo_reply_chains_def whole_in_first_def page_reply_def del: ascii_simps\<close>)

end
