(* ===== verification/Listener.thy ===== *)
theory Listener
  imports Session
begin

text \<open>
  \<open>Listener\<close> and \<open>TLSListener\<close> of \<open>pico_tls\<close>: a port is bound once, and every client that is accepted
  is handed to the session factory. lwIP is a parameter, acting on the state \<open>'x\<close> of everything else; a control
  block is an address, \<^const>\<open>None\<close> for a null pointer.
\<close>

section \<open>Data\<close>

type_synonym 'x session_factory = "nat \<Rightarrow> bool \<Rightarrow> 'x \<Rightarrow> 'x"

record 'x altcp =
  al_new :: "bool \<Rightarrow> 'x \<Rightarrow> nat option \<times> 'x"
  al_setprio :: "nat option \<Rightarrow> 'x \<Rightarrow> 'x"
  al_bind :: "nat option \<Rightarrow> u16 \<Rightarrow> 'x \<Rightarrow> err \<times> 'x"
  al_listen :: "nat option \<Rightarrow> 'x \<Rightarrow> nat option \<times> 'x"
  al_accept :: "nat \<Rightarrow> 'x \<Rightarrow> 'x"
  al_tls_config :: "'x \<Rightarrow> bool \<times> 'x"
  al_alpn :: "bytes list \<Rightarrow> 'x \<Rightarrow> 'x"

record 'x listener =
  ls_session_factory :: "'x session_factory option"
  ls_bind_pcb :: "nat option"
  ls_listen_pcb :: "nat option"

record 'x tls_listener = "'x listener" +
  ls_conf :: bool

definition listener_create :: "int \<Rightarrow> 'x listener \<times> int" where
  "listener_create num_listeners =
     (\<lparr> ls_session_factory = None, ls_bind_pcb = None, ls_listen_pcb = None \<rparr>, num_listeners + 1)"

definition tls_listener_create :: "'x tls_listener" where
  "tls_listener_create = \<lparr> ls_session_factory = None, ls_bind_pcb = None, ls_listen_pcb = None, ls_conf = False \<rparr>"

section \<open>Listening\<close>

text \<open>What both \<open>listen\<close> do with a new control block; \<open>al_accept\<close> is \<open>altcp_arg\<close> and \<open>altcp_accept\<close>.\<close>

definition bind_and_listen ::
    "'x altcp \<Rightarrow> u16 \<Rightarrow> ('x, 'm) listener_scheme \<Rightarrow> 'x \<Rightarrow> int \<times> ('x, 'm) listener_scheme \<times> 'x" where
  "bind_and_listen al port l x =
     (let x = al_setprio al (ls_bind_pcb l) x;
          (e, x) = al_bind al (ls_bind_pcb l) port x in
      if e \<noteq> ERR_OK then (e, l, x)
      else
        (let (pcb, x) = al_listen al (ls_bind_pcb l) x;
             l = l\<lparr>ls_listen_pcb := pcb\<rparr> in
         case pcb of
           None \<Rightarrow> (-1, l, x)
         | Some p \<Rightarrow> (0, l, al_accept al p x)))"

definition listener_listen ::
    "'x altcp \<Rightarrow> u16 \<Rightarrow> 'x session_factory option \<Rightarrow> 'x listener \<Rightarrow> 'x \<Rightarrow> int \<times> 'x listener \<times> 'x" where
  "listener_listen al port factory l x =
     (if ls_session_factory l \<noteq> None then (-1, l, x)
      else
        (let (pcb, x) = al_new al False x in
         bind_and_listen al port (l\<lparr>ls_session_factory := factory, ls_bind_pcb := pcb\<rparr>) x))"

definition alpn_strings :: "bytes list" where
  "alpn_strings = [ascii ''http/1.1'']"

definition tls_listener_listen ::
    "'x altcp \<Rightarrow> u16 \<Rightarrow> 'x session_factory option \<Rightarrow> 'x tls_listener \<Rightarrow> 'x \<Rightarrow> int \<times> 'x tls_listener \<times> 'x" where
  "tls_listener_listen al port factory l x =
     (if ls_session_factory l \<noteq> None then (-1, l, x)
      else
        (let (conf, x) = al_tls_config al x;
             x = al_alpn al alpn_strings x;
             (pcb, x) = al_new al True x in
         bind_and_listen al port (l\<lparr>ls_session_factory := factory, ls_conf := conf, ls_bind_pcb := pcb\<rparr>) x))"

section \<open>Accepting\<close>

text \<open>\<open>http_accept\<close> of either class; a null factory is called (\<^const>\<open>None\<close>).\<close>

definition accept_client ::
    "bool \<Rightarrow> ('x, 'm) listener_scheme \<Rightarrow> nat option \<Rightarrow> err \<Rightarrow> 'x \<Rightarrow> (err \<times> 'x) option" where
  "accept_client tls l pcb e x =
     (if e \<noteq> ERR_OK then Some (ERR_VAL, x)
      else
        (case pcb of
           None \<Rightarrow> Some (ERR_VAL, x)
         | Some p \<Rightarrow> map_option (\<lambda>f. (ERR_OK, f p tls x)) (ls_session_factory l)))"

definition listener_http_accept :: "'x listener \<Rightarrow> nat option \<Rightarrow> err \<Rightarrow> 'x \<Rightarrow> (err \<times> 'x) option" where
  "listener_http_accept = accept_client False"

definition tls_listener_http_accept :: "'x tls_listener \<Rightarrow> nat option \<Rightarrow> err \<Rightarrow> 'x \<Rightarrow> (err \<times> 'x) option" where
  "tls_listener_http_accept = accept_client True"

section \<open>A listener listens once\<close>

text \<open>\<open>bind_and_listen\<close> keeps the factory, whatever happens in it.\<close>

lemma bind_and_listen_factory:
  "bind_and_listen al port l x = (r, l', x') \<Longrightarrow> ls_session_factory l' = ls_session_factory l"
  by (auto simp: bind_and_listen_def Let_def split: prod.splits if_splits option.splits)

lemma listener_listen_factory:
  "ls_session_factory l = None \<Longrightarrow> listener_listen al port (Some f) l x = (r, l', x') \<Longrightarrow> ls_session_factory l' = Some f"
  by (auto simp: listener_listen_def Let_def split: prod.splits dest!: bind_and_listen_factory)

lemma tls_listener_listen_factory:
  "ls_session_factory l = None \<Longrightarrow> tls_listener_listen al port (Some f) l x = (r, l', x') \<Longrightarrow> ls_session_factory l' = Some f"
  by (auto simp: tls_listener_listen_def Let_def split: prod.splits dest!: bind_and_listen_factory)

text \<open>A listener listens once: after a call of \<open>listen\<close>, whatever it returned, every further call returns -1 and
  changes nothing (so one that failed to bind cannot be retried), and a client that lwIP accepts is handed to
  the factory of the first call, once, with the right kind of connection; one it does not accept to nobody.\<close>

theorem listener_listens_once:
  assumes "listener_listen al port (Some f) (fst (listener_create n)) x = (r, l, x')"
    and "tls_listener_listen al tls_port (Some g) tls_listener_create y = (s, t, y')"
  shows "listener_listen al port2 f2 l z = (-1, l, z) \<and> tls_listener_listen al tls_port2 g2 t z = (-1, t, z) \<and>
    listener_http_accept l (Some pcb) ERR_OK z = Some (ERR_OK, f pcb False z) \<and>
    tls_listener_http_accept t (Some pcb) ERR_OK z = Some (ERR_OK, g pcb True z) \<and>
    listener_http_accept l None e z = Some (ERR_VAL, z) \<and> tls_listener_http_accept t None e z = Some (ERR_VAL, z)"
proof -
  have l: "ls_session_factory l = Some f"
    by (rule listener_listen_factory [OF _ assms(1)]) (simp add: listener_create_def)
  have t: "ls_session_factory t = Some g"
    by (rule tls_listener_listen_factory [OF _ assms(2)]) (simp add: tls_listener_create_def)
  show ?thesis
    using l t by (simp add: listener_listen_def tls_listener_listen_def listener_http_accept_def tls_listener_http_accept_def
        accept_client_def)
qed

text \<open>A lwIP whose second port is taken, and factories that note the clients.\<close>

definition demo_altcp :: "(nat \<times> bool) list altcp" where
  "demo_altcp = \<lparr> al_new = (\<lambda>b x. (Some 1, x)), al_setprio = (\<lambda>p x. x),
     al_bind = (\<lambda>p port x. (if port = 443 then -8 else ERR_OK, x)), al_listen = (\<lambda>p x. (Some 2, x)),
     al_accept = (\<lambda>p x. x), al_tls_config = (\<lambda>x. (True, x)), al_alpn = (\<lambda>s x. x) \<rparr>"

theorem listener_listens_once_witness:
  "\<exists>l t. listener_listen demo_altcp 80 (Some (\<lambda>p b x. (p, b) # x)) (fst (listener_create 0)) [] = (0, l, []) \<and>
    tls_listener_listen demo_altcp 443 (Some (\<lambda>p b x. (p, b) # x)) tls_listener_create [] = (-8, t, []) \<and>
    listener_listen demo_altcp 81 None l [] = (-1, l, []) \<and> tls_listener_listen demo_altcp 8443 None t [] = (-1, t, []) \<and>
    listener_http_accept l (Some 7) ERR_OK [] = Some (ERR_OK, [(7, False)]) \<and>
    tls_listener_http_accept t (Some 7) ERR_OK [] = Some (ERR_OK, [(7, True)]) \<and>
    listener_http_accept l None ERR_OK [] = Some (ERR_VAL, []) \<and> tls_listener_http_accept t None ERR_OK [] = Some (ERR_VAL, [])"
proof -
  obtain l where l: "listener_listen demo_altcp 80 (Some (\<lambda>p b x. (p, b) # x)) (fst (listener_create 0)) [] = (0, l, [])"
    by (simp add: listener_listen_def listener_create_def bind_and_listen_def demo_altcp_def Let_def)
  obtain t where t: "tls_listener_listen demo_altcp 443 (Some (\<lambda>p b x. (p, b) # x)) tls_listener_create [] = (-8, t, [])"
    by (simp add: tls_listener_listen_def tls_listener_create_def bind_and_listen_def demo_altcp_def Let_def ERR_OK_def)
  show ?thesis
    using listener_listens_once [OF l t, of 81 None "[]" 8443 None 7 ERR_OK] l t by blast
qed

end
