(* ===== verification/Server_Life.thy ===== *)
theory Server_Life
  imports Web_Server Listener
begin

text \<open>
  The life of a connection to the server of \<open>Web_Server\<close>: a \<open>Listener\<close> accepts a client and has its factory
  build an \<open>HTTPSession\<close> over a \<open>Session\<close>; request, handshake and frames pass; and when the peer closes
  the connection, lwIP reports an error or a frame is refused, both objects are deleted.
\<close>

section \<open>The beginning\<close>

definition server_store :: "unit http_session \<Rightarrow> server_env world \<Rightarrow> server_env world" where
  "server_store s w = w\<lparr>w_env := (w_env w)\<lparr>sv_ws := web_socket_init, sv_http := s\<rparr>\<rparr>"

text \<open>\<open>HTTPSession::create\<close> as the session factory of a listener.\<close>

definition http_session_factory :: "nat \<Rightarrow> server_env world session_factory" where
  "http_session_factory n pcb tls w =
     (case http_session_new (logging_lwip (Suc n)) pcb tls server_store w of None \<Rightarrow> w\<lparr>w_self := None\<rparr> | Some w \<Rightarrow> w)"

lemma http_session_created:
  assumes "e_results (w_env w) = []" and "sv_events (w_env w) = []"
  shows "server_ready (http_session_factory n pcb tls w) \<and>
    w_num_sessions (http_session_factory n pcb tls w) = w_num_sessions w + 1 \<and>
    session_wire (http_session_factory n pcb tls w) = session_wire w \<and>
    e_log (w_env (http_session_factory n pcb tls w)) = e_log (w_env w) @ [Registered True]"
  using assms
  by (simp add: http_session_factory_def http_session_new_def session_create_def session_set_callback_def session_init_pcb_def
      server_store_def server_ready_def session_open_def session_wire_def put_self_def log_event_def Let_def)

section \<open>The end\<close>

lemma http_session_closed:
  assumes "w_self w = Some s" and "s_pcb s = None"
  shows "http_session_on_closed lw cb w = Some (w\<lparr>w_num_sessions := w_num_sessions w - 1, w_self := None\<rparr>)"
  using assms by (simp add: http_session_on_closed_def http_session_delete_def session_delete_def)

text \<open>Two ways a connection ends from below: the peer closes it (a null pbuf), or lwIP gives it up.\<close>

lemma peer_closes:
  assumes "server_established w" and "map_option s_processing (w_self w) = Some False"
  shows "\<exists>w'. session_lwip_recv (logging_lwip (Suc n)) (server_callback n mb) pcb None ERR_OK w = Some (ERR_ABRT, w') \<and>
    w_self w' = None \<and> w_num_sessions w' = w_num_sessions w - 1 \<and>
    e_log (w_env w') = e_log (w_env w) @ [Registered False, Aborted, On_Closed]"
proof -
  obtain s where s: "w_self w = Some s" "\<not> s_closing s" "s_pcb s \<noteq> None" "s_callback s" "\<not> s_processing s"
    using server_established_self [OF assms(1)] assms(2) by auto
  then show ?thesis
    by (auto simp: session_lwip_recv_def session_close_def call_on_closed_def server_callback_def http_server_callback_def
        put_self_same
        http_session_closed [where s = "s\<lparr>s_connected := False, s_closing := True, s_pcb := None\<rparr>"] put_self_def
        log_event_def Let_def ERR_OK_def ERR_ABRT_def)
qed

lemma lwip_gives_up:
  assumes "server_established w" and "map_option s_processing (w_self w) = Some False"
  shows "\<exists>w'. session_lwip_err (logging_lwip (Suc n)) (server_callback n mb) w = Some w' \<and>
    w_self w' = None \<and> w_num_sessions w' = w_num_sessions w - 1 \<and>
    e_log (w_env w') = e_log (w_env w) @ [Registered False, On_Closed]"
proof -
  obtain s where s: "w_self w = Some s" "\<not> s_closing s" "s_pcb s \<noteq> None" "s_callback s" "\<not> s_processing s"
    using server_established_self [OF assms(1)] assms(2) by auto
  then show ?thesis
    by (auto simp: session_lwip_err_def session_close_def call_on_closed_def server_callback_def http_server_callback_def
        http_session_closed [where s = "s\<lparr>s_connected := False, s_closing := True, s_pcb := None\<rparr>"] put_self_def
        log_event_def Let_def)
qed

section \<open>Properties\<close>

text \<open>C4. The life of a WebSocket connection. A listener that listens accepts a client; its handshake arrives whole, in one pbuf, and its
  data frames, cut into pbufs and chains anywhere; the peer closes the connection, or lwIP gives it up. Nothing accesses a deleted
  object; the application gets exactly the payload, the wire exactly the reply to the handshake; and in the end the control block is given back, aborted at
  most once, the application is told of the end exactly once and last, session and \<open>HTTPSession\<close> are deleted, and the count of
  sessions is what it was before.\<close>

theorem web_server_lifecycle:
  assumes "listener_listen al port (Some (http_session_factory n)) (fst (listener_create k)) x = (r, l, x')"
    and "e_results (w_env w) = []" and "sv_events (w_env w) = []"
    and "handshake_request verb path version hs key" and "handshake_digest mb key digest accept"
    and "list_all data_frame fs" and "concat (concat ps) = ws_frames fs"
  shows "\<exists>w1 w2 w3 w4. listener_http_accept l (Some pcb) ERR_OK w = Some (ERR_OK, w1) \<and>
    w_num_sessions w1 = w_num_sessions w + 1 \<and>
    recv_chains (logging_lwip (Suc n)) (server_callback n mb) pcb ([render verb path version hs] # ps) w1 = Some (ERR_OK, w2) \<and>
    session_wire w2 = session_wire w @ websocket_reply accept \<and>
    message_bytes (sv_events (w_env w2)) = concat (map (\<lambda>f. snd (snd f)) fs) \<and>
    session_lwip_recv (logging_lwip (Suc n)) (server_callback n mb) pcb None ERR_OK w2 = Some (ERR_ABRT, w3) \<and>
    w_self w3 = None \<and> w_num_sessions w3 = w_num_sessions w \<and>
    e_log (w_env w3) = e_log (w_env w2) @ [Registered False, Aborted, On_Closed] \<and>
    session_lwip_err (logging_lwip (Suc n)) (server_callback n mb) w2 = Some w4 \<and>
    w_self w4 = None \<and> w_num_sessions w4 = w_num_sessions w \<and>
    e_log (w_env w4) = e_log (w_env w2) @ [Registered False, On_Closed]"
proof -
  let ?w1 = "http_session_factory n pcb False w"
  have l: "ls_session_factory l = Some (http_session_factory n)"
    by (rule listener_listen_factory [OF _ assms(1)]) (simp add: listener_create_def)
  have w1: "server_ready ?w1" "w_num_sessions ?w1 = w_num_sessions w + 1" "session_wire ?w1 = session_wire w"
    using http_session_created [OF assms(2,3)] by simp_all
  obtain w2 where w2: "recv_chains (logging_lwip (Suc n)) (server_callback n mb) pcb ([render verb path version hs] # ps) ?w1 =
      Some (ERR_OK, w2)" "session_wire w2 = session_wire ?w1 @ websocket_reply accept"
    "message_bytes (sv_events (w_env w2)) = concat (map (\<lambda>f. snd (snd f)) fs)" "server_established w2" "rested ?w1 w2"
    using server_conversation [OF w1(1) assms(4-7), of n pcb] by blast
  then have "map_option s_processing (w_self w2) = Some False" "w_num_sessions w2 = w_num_sessions w + 1"
    using w1(2) by (simp_all add: rested_def)
  with peer_closes [OF w2(4), of n mb pcb] lwip_gives_up [OF w2(4), of n mb] l w1 w2 show ?thesis
    by (auto simp: listener_http_accept_def accept_client_def)
qed

definition idle_server :: "server_env world" where
  "idle_server = server_world\<lparr>w_self := None, w_num_sessions := 0\<rparr>"

definition quiet_altcp :: "server_env world altcp" where
  "quiet_altcp = \<lparr> al_new = (\<lambda>b x. (Some 1, x)), al_setprio = (\<lambda>p x. x), al_bind = (\<lambda>p port x. (ERR_OK, x)),
     al_listen = (\<lambda>p x. (Some 2, x)), al_accept = (\<lambda>p x. x), al_tls_config = (\<lambda>x. (True, x)), al_alpn = (\<lambda>s x. x) \<rparr>"

theorem web_server_lifecycle_witness:
  "\<exists>l w1 w2 w3. listener_listen quiet_altcp 80 (Some (http_session_factory 9)) (fst (listener_create 0)) idle_server = (0, l, idle_server) \<and>
    listener_http_accept l (Some 7) ERR_OK idle_server = Some (ERR_OK, w1) \<and>
    recv_chains (logging_lwip (Suc 9)) (server_callback 9 demo_mbedtls) 7
      ([render [0x47] [0x2F] [0x48] [(ascii ''sec-websocket-key'', [0x61, 0x62])]] # [[[0x81], [0x83, 1, 2]], [[3, 4, 0x49, 0x4b, 0x22]]])
      w1 = Some (ERR_OK, w2) \<and> message_bytes (sv_events (w_env w2)) = [0x48, 0x49, 0x21] \<and>
    session_lwip_recv (logging_lwip (Suc 9)) (server_callback 9 demo_mbedtls) 7 None ERR_OK w2 = Some (ERR_ABRT, w3) \<and>
    w_self w3 = None \<and> w_num_sessions w3 = 0"
proof -
  obtain l where l: "listener_listen quiet_altcp 80 (Some (http_session_factory 9)) (fst (listener_create 0)) idle_server =
      (0, l, idle_server)"
    by (simp add: listener_listen_def listener_create_def bind_and_listen_def quiet_altcp_def Let_def)
  have "list_all data_frame [(0x81 :: u8, Some [1, 2, 3, 4 :: u8], [0x48, 0x49, 0x21])]"
    "concat (concat [[[0x81], [0x83, 1, 2]], [[3, 4, 0x49, 0x4b, 0x22]]]) = ws_frames [(0x81 :: u8, Some [1, 2, 3, 4 :: u8], [0x48, 0x49, 0x21])]"
    by (simp_all add: data_frame_def operation_of_def is_data_operation_def ws_frames_def encode_header_cases)
  from web_server_lifecycle [where pcb = 7 and w = idle_server, OF l _ _ demo_handshake this] obtain w1 w2 w3 where
    "listener_http_accept l (Some 7) ERR_OK idle_server = Some (ERR_OK, w1)"
    "recv_chains (logging_lwip (Suc 9)) (server_callback 9 demo_mbedtls) 7
      ([render [0x47] [0x2F] [0x48] [(ascii ''sec-websocket-key'', [0x61, 0x62])]] # [[[0x81], [0x83, 1, 2]], [[3, 4, 0x49, 0x4b, 0x22]]])
      w1 = Some (ERR_OK, w2)"
    "message_bytes (sv_events (w_env w2)) = [0x48, 0x49, 0x21]"
    "session_lwip_recv (logging_lwip (Suc 9)) (server_callback 9 demo_mbedtls) 7 None ERR_OK w2 = Some (ERR_ABRT, w3)"
    "w_self w3 = None" "w_num_sessions w3 = 0"
    by (auto simp: idle_server_def server_world_def)
  with l show ?thesis by blast
qed

end
