(* ===== verification/Http_Cut.thy ===== *)
theory Http_Cut
  imports Http_Exchange Server_Life
begin

text \<open>
  A header that does not arrive in one piece. \<open>HTTPHeader::parse\<close> accepts only data in which a line is followed by an empty one,
  so a beginning of a request is refused, and \<open>HTTPSession\<close> keeps nothing of it for the next segment: the connection ends.
\<close>

section \<open>What the parser accepts\<close>

definition ends_header :: "bytes \<Rightarrow> nat \<Rightarrow> bool" where
  "ends_header m len \<longleftrightarrow> (\<exists>k. k + 2 < len \<and> m ! k = LF \<and> m ! (k + 1) = CR \<and> m ! (k + 2) = LF)"

text \<open>The parser writes nothing but zeros.\<close>

lemma zeroed_nth: "m[i := 0] ! k = v \<Longrightarrow> v \<noteq> 0 \<Longrightarrow> k < length m \<Longrightarrow> m ! k = (v :: u8)"
  by (cases "i = k") auto

lemma ends_header_zeroed:
  assumes "ends_header (m[i := 0]) len" and "len \<le> length m"
  shows "ends_header m len"
proof -
  obtain k where k: "k + 2 < len" "m[i := 0] ! k = LF" "m[i := 0] ! (k + 1) = CR" "m[i := 0] ! (k + 2) = LF"
    using assms(1) by (auto simp: ends_header_def)
  then show ?thesis
    using assms(2) zeroed_nth [of m i k] zeroed_nth [of m i "k + 1"] zeroed_nth [of m i "k + 2"]
    unfolding ends_header_def by (intro exI [of _ k]) auto
qed

lemma mem_write_eq: "mem_write m i v = Some m' \<longleftrightarrow> i < length m \<and> m' = m[i := v]"
  by (auto simp: mem_write_def)

lemma mem_read_eq: "mem_read m i = Some v \<longleftrightarrow> i < length m \<and> v = m ! i"
  by (auto simp: mem_read_def)

lemma at_crlf_True: "at_crlf m i = Some True \<Longrightarrow> m ! i = CR \<and> m ! (i + 1) = LF"
  by (auto simp: at_crlf_def mem_read_eq bind_eq_Some_conv split: if_splits)

lemma scan_to_hit: "scan_to m len c i = Some j \<Longrightarrow> j < len \<Longrightarrow> m ! j = c"
  by (induction m len c i rule: scan_to.induct)
    (subst (asm) (2) scan_to.simps, auto simp: bind_eq_Some_conv mem_read_eq split: if_splits)

lemma find_end_hit: "find_end m len i = Some (Some n) \<Longrightarrow> ends_header m len"
proof (induction m len i rule: find_end.induct)
  case (1 m len i)
  show ?case
  proof (cases "at_crlf m i = Some True \<and> at_crlf m (i + 2) = Some True \<and> i + 4 \<le> len")
    case True
    then have "m ! (i + 1) = LF" "m ! (i + 2) = CR" "m ! (i + 3) = LF"
      using at_crlf_True [of m i] at_crlf_True [of m "i + 2"] by (simp_all add: eval_nat_numeral)
    then show ?thesis using True unfolding ends_header_def by (intro exI [of _ "i + 1"]) (simp add: eval_nat_numeral)
  next
    case False
    with 1(3) 1(1,2) show ?thesis
      by (subst (asm) find_end.simps) (auto simp: bind_eq_Some_conv split: if_splits)
  qed
qed

lemma parse_headers_hit:
  "parse_headers m len h i = Some (m', h', True) \<Longrightarrow> len \<le> length m \<Longrightarrow> ends_header m len"
proof (induction "MAX_HEADERS - hh_numHeaders h" arbitrary: m h i rule: less_induct)
  case less
  show ?case
  proof (cases "hh_numHeaders h < MAX_HEADERS")
    case False
    then show ?thesis using less.prems
      by (subst (asm) parse_headers.simps) (auto simp: bind_eq_Some_conv split: option.splits dest: find_end_hit)
  next
    case True
    let ?h1 = "\<lambda>j. h\<lparr>hh_headerName := (hh_headerName h)[hh_numHeaders h := Some i],
      hh_headerValue := (hh_headerValue h)[hh_numHeaders h := Some (j + 2)], hh_numHeaders := hh_numHeaders h + 1\<rparr>"
    obtain j k e where j: "scan_to m len COLON i = Some j" "j < len" "scan_to (m[j := 0]) len CR (j + 2) = Some k" "k < len"
      and lf: "k + 3 < len" "m[j := 0, k := 0] ! (k + 1) = LF" and e: "at_crlf (m[j := 0, k := 0]) (k + 2) = Some e"
      and rest: "\<not> e \<longrightarrow> parse_headers (m[j := 0, k := 0]) len (?h1 j) (k + 2) = Some (m', h', True)"
      using less.prems(1) True
      by (subst (asm) parse_headers.simps) (auto simp: bind_eq_Some_conv Let_def mem_write_eq mem_read_eq split: if_splits)
    show ?thesis
    proof (cases e)
      case True
      then have "ends_header (m[j := 0, k := 0]) len"
        using at_crlf_True [of "m[j := 0, k := 0]" "k + 2"] lf e unfolding ends_header_def
        by (intro exI [of _ "k + 1"]) (simp add: eval_nat_numeral)
      then show ?thesis using less.prems(2) by (auto dest!: ends_header_zeroed)
    next
      case False
      have "ends_header (m[j := 0, k := 0]) len"
        by (rule less.hyps [of "?h1 j"]) (use rest False True less.prems(2) in auto)
      then show ?thesis using less.prems(2) by (auto dest!: ends_header_zeroed)
    qed
  qed
qed

lemma http_parse_hit:
  assumes "http_parse m len h0 = Some (m', h', True)" and "len \<le> length m"
  shows "ends_header m len"
proof -
  obtain i j k code e h1 where i: "scan_to (m[i := 0, j := 0]) len LF (j + 1) = Some k" "k + 2 < len"
    and e: "at_crlf (m[i := 0, j := 0]) (k + 1) = Some e"
    and rest: "\<not> e \<longrightarrow> parse_headers (m[i := 0, j := 0]) len (h1 i code) (k + 1) = Some (m', h', True)"
    using assms(1) by (auto simp: http_parse_def bind_eq_Some_conv Let_def mem_write_eq mem_read_eq split: if_splits)
  have "ends_header (m[i := 0, j := 0]) len"
  proof (cases e)
    case True
    have "m[i := 0, j := 0] ! k = LF" using scan_to_hit [OF i(1)] i(2) by simp
    then show ?thesis
      using at_crlf_True [of "m[i := 0, j := 0]" "k + 1"] e True i(2) unfolding ends_header_def
      by (intro exI [of _ k]) (simp add: eval_nat_numeral)
  next
    case False
    with rest assms(2) parse_headers_hit show ?thesis by auto
  qed
  then show ?thesis using assms(2) by (auto dest!: ends_header_zeroed)
qed

section \<open>The beginning of a header\<close>

text \<open>Lines without line ends in them, none of them empty: an empty line is at the very end only.\<close>

fun line_text :: "bytes list \<Rightarrow> bytes" where
  "line_text [] = CRLF"
| "line_text (l # ls) = l @ CRLF @ line_text ls"

definition plain_line :: "bytes \<Rightarrow> bool" where
  "plain_line l \<longleftrightarrow> l \<noteq> [] \<and> CR \<notin> set l \<and> LF \<notin> set l"

lemma line_text_end:
  "list_all plain_line ls \<Longrightarrow> k + 2 < length (line_text ls) \<Longrightarrow>
   line_text ls ! k = LF \<Longrightarrow> line_text ls ! (k + 1) = CR \<Longrightarrow> k + 3 = length (line_text ls)"
proof (induction ls arbitrary: k)
  case Nil
  then show ?case by (simp add: CRLF_def)
next
  case (Cons l ls)
  have l: "CR \<notin> set l" "LF \<notin> set l" using Cons.prems(1) by (simp_all add: plain_line_def)
  have "k \<noteq> i" if "i < length l" for i 
  proof
    assume "k = i"
    then have "l ! i = LF" using Cons.prems(3) that by (simp add: nth_append)
    then show False using l(2) that by (metis nth_mem)
  qed
  then have "\<not> k < length l" by blast
  then have "length l \<le> k" by simp
  moreover have "k \<noteq> length l" using Cons.prems(3) by (auto simp: nth_append CRLF_def)
  ultimately obtain j where j: "k = length l + 1 + j" by (metis Suc_eq_plus1 add.commute add_Suc_right le_neq_implies_less less_iff_Suc_add)
  show ?case
  proof (cases j)
    case 0
    show ?thesis
    proof (cases ls)
      case Nil
      then show ?thesis using j 0 by (simp add: CRLF_def)
    next
      case ls: (Cons l2 ls2)
      then obtain b bs where "l2 = b # bs" "b \<noteq> CR" using Cons.prems(1) by (cases l2) (auto simp: plain_line_def)
      then show ?thesis using Cons.prems(4) ls j 0 by (simp add: nth_append CRLF_def)
    qed
  next
    case (Suc i)
    then show ?thesis using Cons.IH [of i] Cons.prems j by (simp add: nth_append CRLF_def)
  qed
qed

definition header_text :: "bytes \<times> bytes \<Rightarrow> bytes" where
  "header_text f = fst f @ [COLON, SP] @ snd f"

lemma render_line_text:
  "render a b c hs = line_text ((a @ [SP] @ b @ [SP] @ c) # map header_text hs)"
proof -
  have "lines hs @ CRLF = line_text (map header_text hs)" by (induction hs) (auto simp: header_text_def)
  then show ?thesis by (simp add: render_def)
qed

definition single_lines :: "bytes \<Rightarrow> bytes \<Rightarrow> bytes \<Rightarrow> (bytes \<times> bytes) list \<Rightarrow> bool" where
  "single_lines a b c hs \<longleftrightarrow> (\<forall>s\<in>{a, b, c} \<union> fst ` set hs \<union> snd ` set hs. CR \<notin> set s \<and> LF \<notin> set s)"

lemma beginning_refused:
  assumes "single_lines a b c hs" and "d @ rest = render a b c hs @ body" and "length d < length (render a b c hs)"
  shows "\<exists>m h. http_parse d (length d) http_header_init = Some (m, h, False)"
proof -
  let ?t = "render a b c hs"
  have ls: "list_all plain_line ((a @ [SP] @ b @ [SP] @ c) # map header_text hs)"
    using assms(1) by (auto simp: single_lines_def plain_line_def header_text_def list_all_iff)
  have d: "d ! k = ?t ! k" if "k < length d" for k
    using arg_cong [OF assms(2), of "\<lambda>x. x ! k"] that assms(3) by (simp add: nth_append)
  have "\<not> ends_header d (length d)"
  proof
    assume "ends_header d (length d)"
    then obtain k where k: "k + 2 < length d" "?t ! k = LF" "?t ! (k + 1) = CR" unfolding ends_header_def using d by auto
    then have "k + 3 = length ?t" using line_text_end [OF ls, of k] assms(3) unfolding render_line_text by simp
    then show False using k(1) assms(3) by simp
  qed
  moreover obtain m h ok where "http_parse d (length d) http_header_init = Some (m, h, ok)"
    using http_parse_safe [of "length d" d http_header_init] by (auto simp: safe_result_def http_header_init_def)
  ultimately show ?thesis using http_parse_hit [of d "length d" http_header_init m h] by (cases ok) auto
qed

section \<open>The end of the connection\<close>

text \<open>A segment the user of a session refuses: lwIP gets back the bytes and the chain, and the session is closed.\<close>

lemma refused_segment:
  assumes "w_self w = Some s" and "\<not> s_closing s" and "s_pcb s \<noteq> None" and "s_callback s"
    and "sc_on_recv cb d (put_self (s\<lparr>s_processing := True\<rparr>) w) = (False, w1)"
    and "w_self w1 = Some (s\<lparr>s_processing := True\<rparr>)"
  shows "session_lwip_recv (logging_lwip n) cb pcb (Some (d # its)) ERR_OK w = Some (ERR_ABRT,
    sc_on_closed cb (put_self (s\<lparr>s_processing := False, s_connected := False, s_closing := True, s_pcb := None\<rparr>)
      (log_events [Recved (length (concat (d # its))), Freed (d # its), Registered False, Aborted] w1)))"
  using assms
  by (auto simp: session_lwip_recv_def session_close_def call_on_closed_def put_self_same Let_def ERR_OK_def ERR_ABRT_def)

section \<open>Properties\<close>

text \<open>C32. A request whose header does not arrive whole in the first pbuf. Whatever the application, it is not told: the bytes are
  given back to lwIP, the connection is aborted, and session and \<open>HTTPSession\<close> are deleted, once. What was
  received is not kept for the next segment, although TCP may cut a request anywhere.\<close>

theorem http_cut_header_aborts:
  assumes "server_ready w" and "single_lines verb path version hs"
    and "d @ rest = render verb path version hs @ body" and "length d < length (render verb path version hs)"
  shows "\<exists>w'. session_lwip_recv (logging_lwip (Suc n)) (http_server_callback n app) pcb (Some (d # its)) ERR_OK w = Some (ERR_ABRT, w') \<and>
    w_self w' = None \<and> w_num_sessions w' = w_num_sessions w - 1 \<and> sv_events (w_env w') = [] \<and>
    session_wire w' = session_wire w \<and>
    e_log (w_env w') = e_log (w_env w) @ [Recved (length (concat (d # its))), Freed (d # its), Registered False, Aborted, On_Closed]"
proof -
  obtain s where s: "w_self w = Some s" "\<not> s_closing s" "s_pcb s \<noteq> None" "s_callback s"
    using assms(1) session_open_self by (fastforce simp: server_ready_def)
  let ?w = "put_self (s\<lparr>s_processing := True\<rparr>) w"
  obtain m h where "http_parse d (length d) http_header_init = Some (m, h, False)"
    using beginning_refused [OF assms(2-4)] by blast
  moreover have "with_below ?w (sv_http (w_env ?w)) = http_session_create ?w"
    using assms(1) by (simp add: server_ready_def with_below_def http_session_create_def)
  ultimately have r: "sc_on_recv (http_server_callback n app) d ?w =
      (False, store_http (sv_ws (w_env ?w)) ((http_session_create ?w)\<lparr>ht_memory := m, ht_header := h\<rparr>))" (is "_ = (False, ?w1)")
    by (simp add: http_server_callback_def http_session_on_recv_def) (simp add: http_session_create_def)
  have w1: "w_self ?w1 = Some (s\<lparr>s_processing := True\<rparr>)" "w_num_sessions ?w1 = w_num_sessions w" "sv_events (w_env ?w1) = []"
    "e_log (w_env ?w1) = e_log (w_env w)"
    using assms(1) by (simp_all add: store_http_def http_session_create_def put_self_def Let_def server_ready_def)
  let ?s = "s\<lparr>s_processing := False, s_connected := False, s_closing := True, s_pcb := None\<rparr>"
  let ?w2 = "put_self ?s (log_events [Recved (length (concat (d # its))), Freed (d # its), Registered False, Aborted] ?w1)"
  have "w_self (log_event On_Closed ?w2) = Some ?s" by (simp add: put_self_def)
  from http_session_closed [OF this] have
    "sc_on_closed (http_server_callback n app) ?w2 =
      (log_event On_Closed ?w2)\<lparr>w_num_sessions := w_num_sessions ?w2 - 1, w_self := None\<rparr>" (is "_ = ?w3")
    by (simp add: http_server_callback_def del: log_events_simps log_events_put log_event_put)
  moreover have "session_wire ?w3 = session_wire w"
    using w1(4) by (simp add: session_wire_def)
  ultimately show ?thesis
    using refused_segment [OF s r w1(1), of "Suc n" pcb its] w1 by (intro exI [of _ ?w3]) simp
qed

theorem http_cut_header_aborts_witness:
  "\<exists>w'. session_lwip_recv (logging_lwip (Suc 9)) (http_server_callback 9 http_session_base) 1
      (Some ([0x47, SP, SLASH, SP, 0x48, CR, LF, CR] # [[LF]])) ERR_OK server_world = Some (ERR_ABRT, w') \<and>
    w_self w' = None \<and> w_num_sessions w' = w_num_sessions server_world - 1 \<and> sv_events (w_env w') = [] \<and>
    session_wire w' = session_wire server_world \<and>
    e_log (w_env w') = e_log (w_env server_world) @ [Recved (length (concat ([0x47, SP, SLASH, SP, 0x48, CR, LF, CR] # [[LF :: u8]]))),
      Freed ([0x47, SP, SLASH, SP, 0x48, CR, LF, CR] # [[LF]]), Registered False, Aborted, On_Closed]"
  by (rule http_cut_header_aborts [of _ "[0x47]" "[SLASH]" "[0x48]" "[]" _ "[LF]" "[]"])
    (simp_all add: server_ready_def server_world_def session_open_def open_world_def single_lines_def render_def CRLF_def)

end
