(* ===== verification/Ota.thy ===== *)
theory Ota
  imports Prelude
begin

text \<open>
  \<open>UpgradeHelper\<close> of \<open>pico_simple_ota/upgrade_helper.h\<close> and \<open>.cpp\<close> and the block
  format of \<open>uf2.h\<close>: the stream of a UF2 file is cut into 512-byte blocks, each is checked and
  written to the buffer half of the flash, and \<open>upgrade\<close> copies the sectors written so far over the
  running program. The flash and the functions of the SDK that act on it are parameters.
\<close>

section \<open>Constants and the hardware\<close>

definition OTA_FLASH_BUFFER_OFFSET :: u32 where "OTA_FLASH_BUFFER_OFFSET = 0x100000"
definition MAX_BINARY_SIZE :: u32 where "MAX_BINARY_SIZE = 256 * 4096"
definition BLOCK_SIZE :: u32 where "BLOCK_SIZE = 512"
definition UF2_MAGIC_END :: u32 where "UF2_MAGIC_END = 0x0AB16F30"
definition UF2_FLAG_NOFLASH :: u32 where "UF2_FLAG_NOFLASH = 0x00000001"
definition UF2_FLAG_EXTENSION_TAGS :: u32 where "UF2_FLAG_EXTENSION_TAGS = 0x00008000"

definition PICO_OK :: int where "PICO_OK = 0"

text \<open>The flash by offset; it is mapped into memory at \<open>XIP_BASE\<close>.\<close>

type_synonym flash = "nat \<Rightarrow> u8"

text \<open>The helper: \<open>u_address\<close> is the address of the object, whose first member is the buffer.\<close>

record upgrade_helper =
  u_address :: u32
  m_buffer :: bytes
  m_regionErased :: bytes
  m_index :: u32

type_synonym ota = "upgrade_helper \<times> flash"

text \<open>The SDK: \<open>FLASH_SECTOR_SIZE\<close>, \<open>XIP_BASE\<close>, \<open>flash_range_erase\<close>,
  \<open>flash_range_program\<close> and \<open>flash_safe_execute\<close>, which runs a function while nothing else
  runs from flash.\<close>

record flash_sdk =
  fs_FLASH_SECTOR_SIZE :: u32
  fs_XIP_BASE :: u32
  fs_erase :: "u32 \<Rightarrow> u32 \<Rightarrow> flash \<Rightarrow> flash"
  fs_program :: "u32 \<Rightarrow> bytes \<Rightarrow> flash \<Rightarrow> flash"
  fs_safe_execute :: "(ota \<Rightarrow> ota option) \<Rightarrow> ota \<Rightarrow> (int \<times> ota) option"

definition NUM_REGIONS :: "flash_sdk \<Rightarrow> u32" where
  "NUM_REGIONS sdk = MAX_BINARY_SIZE div fs_FLASH_SECTOR_SIZE sdk"

section \<open>The fields of a UF2 block\<close>

text \<open>Little-endian words of the buffer. \<open>data\<close> is an array of 476 bytes; reading more of it is out of
  bounds.\<close>

definition le32 :: "bytes \<Rightarrow> nat \<Rightarrow> u32" where
  "le32 m k = ucast (m ! k) OR push_bit 8 (ucast (m ! (k + 1))) OR
     push_bit 16 (ucast (m ! (k + 2))) OR push_bit 24 (ucast (m ! (k + 3)))"

definition le32_bytes :: "u32 \<Rightarrow> bytes" where
  "le32_bytes x = [ucast x, ucast (drop_bit 8 x), ucast (drop_bit 16 x), ucast (drop_bit 24 x)]"

definition uf2_flags :: "bytes \<Rightarrow> u32" where "uf2_flags m = le32 m 8"
definition uf2_targetAddr :: "bytes \<Rightarrow> u32" where "uf2_targetAddr m = le32 m 12"
definition uf2_payloadSize :: "bytes \<Rightarrow> u32" where "uf2_payloadSize m = le32 m 16"
definition uf2_magicEnd :: "bytes \<Rightarrow> u32" where "uf2_magicEnd m = le32 m 508"

definition uf2_set_targetAddr :: "u32 \<Rightarrow> bytes \<Rightarrow> bytes" where
  "uf2_set_targetAddr v m = blit m 12 (le32_bytes v)"

definition uf2_data :: "bytes \<Rightarrow> u32 \<Rightarrow> bytes option" where
  "uf2_data m n = (if unat n \<le> 476 then mem_slice m 32 (unat n) else None)"

section \<open>Regions\<close>

definition setRegionErased :: "u32 \<Rightarrow> upgrade_helper \<Rightarrow> upgrade_helper option" where
  "setRegionErased region u = do {
     b \<leftarrow> mem_read (m_regionErased u) (unat (region div 8));
     m \<leftarrow> mem_write (m_regionErased u) (unat (region div 8)) (b OR push_bit (unat (region mod 8)) 1);
     Some (u\<lparr>m_regionErased := m\<rparr>)
   }"

definition getRegionErased :: "u32 \<Rightarrow> upgrade_helper \<Rightarrow> bool option" where
  "getRegionErased region u = do {
     b \<leftarrow> mem_read (m_regionErased u) (unat (region div 8));
     Some (b AND push_bit (unat (region mod 8)) 1 \<noteq> 0)
   }"

definition ota_clear :: "flash_sdk \<Rightarrow> upgrade_helper \<Rightarrow> upgrade_helper" where
  "ota_clear sdk u = u\<lparr>m_regionErased := replicate (unat (NUM_REGIONS sdk div 8)) 0, m_index := 0\<rparr>"

text \<open>\<open>create\<close> allocates at a 32-byte aligned address; the buffer is zeroed.\<close>

definition ota_create :: "flash_sdk \<Rightarrow> u32 \<Rightarrow> upgrade_helper" where
  "ota_create sdk address = ota_clear sdk \<lparr> u_address = address, m_buffer = replicate 512 0,
     m_regionErased = replicate (unat (NUM_REGIONS sdk div 8)) 0, m_index = 0 \<rparr>"

section \<open>Storing\<close>

definition writeToFlash :: "flash_sdk \<Rightarrow> ota \<Rightarrow> ota option" where
  "writeToFlash sdk = (\<lambda>(u, fl). do {
     let target = uf2_targetAddr (m_buffer u);
     let region = (target - OTA_FLASH_BUFFER_OFFSET) div fs_FLASH_SECTOR_SIZE sdk;
     let offset = target - (target mod fs_FLASH_SECTOR_SIZE sdk);
     erased \<leftarrow> getRegionErased region u;
     (u, fl) \<leftarrow> (if \<not> erased then do {
         u \<leftarrow> setRegionErased region u;
         Some (u, fs_erase sdk offset (fs_FLASH_SECTOR_SIZE sdk) fl)
       } else Some (u, fl));
     d \<leftarrow> uf2_data (m_buffer u) (uf2_payloadSize (m_buffer u));
     Some (u, fs_program sdk target d fl)
   })"

text \<open>The comparison of the flash with the block.\<close>

definition flash_matches :: "flash \<Rightarrow> nat \<Rightarrow> bytes \<Rightarrow> bool" where
  "flash_matches fl at d = (\<forall>i < length d. fl (at + i) = d ! i)"

text \<open>What \<open>storeData\<close> does with a complete block; false is its early return.\<close>

definition handle_block :: "flash_sdk \<Rightarrow> ota \<Rightarrow> (bool \<times> ota) option" where
  "handle_block sdk = (\<lambda>(u, fl).
     if uf2_magicEnd (m_buffer u) \<noteq> UF2_MAGIC_END then Some (False, (u, fl))
     else if uf2_flags (m_buffer u) AND UF2_FLAG_NOFLASH \<noteq> 0 then Some (True, (u, fl))
     else if uf2_flags (m_buffer u) AND UF2_FLAG_EXTENSION_TAGS \<noteq> 0 then Some (True, (u, fl))
     else do {
       let target = uf2_targetAddr (m_buffer u) - fs_XIP_BASE sdk;
       let u = u\<lparr>m_buffer := uf2_set_targetAddr target (m_buffer u)\<rparr>;
       if target \<ge> MAX_BINARY_SIZE then Some (False, (u, fl))
       else do {
         let target = target + OTA_FLASH_BUFFER_OFFSET;
         let u = u\<lparr>m_buffer := uf2_set_targetAddr target (m_buffer u)\<rparr>;
         if target mod 256 \<noteq> 0 then Some (False, (u, fl))
         else if uf2_payloadSize (m_buffer u) mod 256 \<noteq> 0 then Some (False, (u, fl))
         else if (u_address u + 32) mod 32 \<noteq> 0 then Some (False, (u, fl))
         else if (target - OTA_FLASH_BUFFER_OFFSET) div fs_FLASH_SECTOR_SIZE sdk \<ge> NUM_REGIONS sdk
         then Some (False, (u, fl))
         else do {
           (rc, (u, fl)) \<leftarrow> fs_safe_execute sdk (writeToFlash sdk) (u, fl);
           if rc \<noteq> PICO_OK then Some (False, (u, fl))
           else do {
             d \<leftarrow> uf2_data (m_buffer u) (uf2_payloadSize (m_buffer u));
             Some (flash_matches fl (unat (uf2_targetAddr (m_buffer u))) d, (u, fl))
           }
         }
       }
     })"

text \<open>The \<open>while\<close> loop of \<open>storeData\<close>. A copy of no bytes leaves a full buffer to be handled; an
  index beyond the buffer makes the copy fail.\<close>

partial_function (option) storeData :: "flash_sdk \<Rightarrow> bytes \<Rightarrow> ota \<Rightarrow> (bool \<times> ota) option" where
  "storeData sdk data s =
     (if data = [] then Some (True, s)
      else do {
        let (u, fl) = s;
        let count = min (length data) (unat (BLOCK_SIZE - m_index u));
        m \<leftarrow> mem_copy (m_buffer u) (unat (m_index u)) (take count data);
        let u = u\<lparr>m_buffer := m, m_index := m_index u + of_nat count\<rparr>;
        if m_index u = BLOCK_SIZE then do {
          (ok, s) \<leftarrow> handle_block sdk (u\<lparr>m_index := 0\<rparr>, fl);
          if ok then storeData sdk (drop count data) s else Some (False, s)
        }
        else if m_index u > BLOCK_SIZE then Some (False, (u, fl))
        else storeData sdk (drop count data) (u, fl)
      })"

declare storeData.simps [code]

section \<open>Upgrading\<close>

text \<open>The two loops of \<open>upgrade_binary\<close>, up to the reset that ends it. \<open>getRegionErased\<close> is the
  same expression as its own test of the bitmap; an unset bit skips the region.\<close>

fun upgrade_erase :: "flash_sdk \<Rightarrow> upgrade_helper \<Rightarrow> u32 list \<Rightarrow> flash \<Rightarrow> flash option" where
  "upgrade_erase sdk u [] fl = Some fl"
| "upgrade_erase sdk u (i # is) fl = do {
     b \<leftarrow> getRegionErased i u;
     upgrade_erase sdk u is
       (if b then fs_erase sdk (i * fs_FLASH_SECTOR_SIZE sdk) (fs_FLASH_SECTOR_SIZE sdk) fl else fl)
   }"

definition flash_sector :: "flash_sdk \<Rightarrow> nat \<Rightarrow> flash \<Rightarrow> bytes" where
  "flash_sector sdk at fl = map (\<lambda>j. fl (at + j)) [0..<unat (fs_FLASH_SECTOR_SIZE sdk)]"

fun upgrade_program :: "flash_sdk \<Rightarrow> upgrade_helper \<Rightarrow> u32 list \<Rightarrow> flash \<Rightarrow> flash option" where
  "upgrade_program sdk u [] fl = Some fl"
| "upgrade_program sdk u (i # is) fl = do {
     b \<leftarrow> getRegionErased i u;
     upgrade_program sdk u is
       (if b then fs_program sdk (i * fs_FLASH_SECTOR_SIZE sdk)
          (flash_sector sdk (unat (OTA_FLASH_BUFFER_OFFSET + i * fs_FLASH_SECTOR_SIZE sdk)) fl) fl
        else fl)
   }"

definition upgrade_binary :: "flash_sdk \<Rightarrow> ota \<Rightarrow> flash option" where
  "upgrade_binary sdk = (\<lambda>(u, fl). do {
     let regions = map of_nat [0..<unat (NUM_REGIONS sdk)];
     fl \<leftarrow> upgrade_erase sdk u regions fl;
     upgrade_program sdk u regions fl
   })"

end
