(* ===== verification/Ota_Flash.thy ===== *)
theory Ota_Flash
  imports Ota
begin

text \<open>
  What the upgrade helper promises: the stream may be cut anywhere, only the buffer half of the flash
  is written while an image is received, and an image that was stored completely ends up, after the
  upgrade, where its blocks say, every other sector of the program being left alone.
\<close>

section \<open>The flash device\<close>

text \<open>The documented behaviour of the SDK: erasing fills a range with ones, programming clears the bits
  that are clear in the data, and a function that \<open>flash_safe_execute\<close> reports as executed has been.\<close>

locale flash_device =
  fixes sdk :: flash_sdk
  assumes sector_size: "fs_FLASH_SECTOR_SIZE sdk = 4096"
    and erase: "fs_erase sdk off n fl =
      (\<lambda>x. if unat off \<le> x \<and> x < unat off + unat n then 0xFF else fl x)"
    and program: "fs_program sdk off d fl =
      (\<lambda>x. if unat off \<le> x \<and> x < unat off + length d then fl x AND d ! (x - unat off) else fl x)"
    and executed: "fs_safe_execute sdk f s = Some (rc, s') \<Longrightarrow> s' = s \<and> rc \<noteq> PICO_OK \<or> f s = Some s'"

text \<open>A device on which execution never fails.\<close>

locale reliable_flash = flash_device +
  assumes execute: "fs_safe_execute sdk f s = map_option (Pair PICO_OK) (f s)"

definition nor_erase :: "u32 \<Rightarrow> u32 \<Rightarrow> flash \<Rightarrow> flash" where
  "nor_erase off n fl = (\<lambda>x. if unat off \<le> x \<and> x < unat off + unat n then 0xFF else fl x)"

definition nor_program :: "u32 \<Rightarrow> bytes \<Rightarrow> flash \<Rightarrow> flash" where
  "nor_program off d fl =
     (\<lambda>x. if unat off \<le> x \<and> x < unat off + length d then fl x AND d ! (x - unat off) else fl x)"

definition rp2040 :: flash_sdk where
  "rp2040 = \<lparr> fs_FLASH_SECTOR_SIZE = 4096, fs_XIP_BASE = 0x10000000, fs_erase = nor_erase,
     fs_program = nor_program, fs_safe_execute = (\<lambda>f s. map_option (Pair PICO_OK) (f s)) \<rparr>"

interpretation rp: reliable_flash rp2040
  by unfold_locales (auto simp: rp2040_def nor_erase_def nor_program_def)

section \<open>Words in the buffer\<close>

lemma nth_blit: "j < length m \<Longrightarrow> at + length src \<le> length m \<Longrightarrow>
    blit m at src ! j = (if at \<le> j \<and> j < at + length src then src ! (j - at) else m ! j)"
  by (auto simp: blit_def nth_append min_def)

lemma length_le32_bytes [simp]: "length (le32_bytes x) = 4"
  by (simp add: le32_bytes_def)

lemma le32_round: "(ucast (ucast (x :: u32) :: u8) OR push_bit 8 (ucast (ucast (drop_bit 8 x) :: u8)) OR
    push_bit 16 (ucast (ucast (drop_bit 16 x) :: u8)) OR push_bit 24 (ucast (ucast (drop_bit 24 x) :: u8)) :: u32) = x"
proof (rule bit_word_eqI)
  fix n assume "n < LENGTH(32)"
  then show "bit (ucast (ucast x :: u8) OR push_bit 8 (ucast (ucast (drop_bit 8 x) :: u8)) OR
      push_bit 16 (ucast (ucast (drop_bit 16 x) :: u8)) OR push_bit 24 (ucast (ucast (drop_bit 24 x) :: u8)) :: u32) n = bit x n"
    by (cases "n < 8"; cases "n < 16"; cases "n < 24") (auto simp: bit_simps)
qed

lemma le32_eqI:
  assumes "m ! k = ucast x" "m ! (k + 1) = ucast (drop_bit 8 x)" "m ! (k + 2) = ucast (drop_bit 16 x)"
    "m ! (k + 3) = ucast (drop_bit 24 x)"
  shows "le32 m k = x"
  unfolding le32_def assms by (rule le32_round)

lemma nth_le32_bytes [simp]:
  "le32_bytes x ! 0 = ucast x" "le32_bytes x ! Suc 0 = ucast (drop_bit 8 x)"
  "le32_bytes x ! 2 = ucast (drop_bit 16 x)" "le32_bytes x ! 3 = ucast (drop_bit 24 x)"
  by (simp_all add: le32_bytes_def eval_nat_numeral)

lemma le32_append [simp]: "length pre = k \<Longrightarrow> le32 (pre @ le32_bytes x @ post) k = x"
  by (rule le32_eqI) (auto simp: nth_append)

lemma le32_cong: "(\<And>i. k \<le> i \<Longrightarrow> i < k + 4 \<Longrightarrow> m ! i = m' ! i) \<Longrightarrow> le32 m k = le32 m' k"
  by (simp add: le32_def)

lemma set_target_fields [simp]:
  assumes "length m = 512"
  shows "uf2_targetAddr (uf2_set_targetAddr v m) = v"
    and "uf2_payloadSize (uf2_set_targetAddr v m) = uf2_payloadSize m"
    and "uf2_data (uf2_set_targetAddr v m) n = uf2_data m n"
    and "length (uf2_set_targetAddr v m) = 512"
proof -
  show "uf2_targetAddr (uf2_set_targetAddr v m) = v"
    unfolding uf2_targetAddr_def uf2_set_targetAddr_def
    by (rule le32_eqI) (use assms in \<open>simp_all add: nth_blit\<close>)
  show "uf2_payloadSize (uf2_set_targetAddr v m) = uf2_payloadSize m"
    unfolding uf2_payloadSize_def uf2_set_targetAddr_def
    by (rule le32_cong) (use assms in \<open>simp add: nth_blit\<close>)
  show "uf2_data (uf2_set_targetAddr v m) n = uf2_data m n"
    using assms by (simp add: uf2_data_def uf2_set_targetAddr_def mem_slice_def blit_def)
  show "length (uf2_set_targetAddr v m) = 512" using assms by (simp add: uf2_set_targetAddr_def)
qed

section \<open>The bitmap\<close>

definition region_set :: "upgrade_helper \<Rightarrow> nat \<Rightarrow> bool" where
  "region_set u r = bit (m_regionErased u ! (r div 8)) (r mod 8)"

lemma and_bit_iff: "(b :: u8) AND push_bit n 1 \<noteq> 0 \<longleftrightarrow> bit b n"
  using and_exp_eq_0_iff_not_bit [of b n] by simp

lemma bit_or_bit: "bit ((b :: u8) OR 2 ^ n) k \<longleftrightarrow> bit b k \<or> k = n \<and> n < 8"
  by (auto simp: bit_simps)

lemma unat_div_mod_8 [simp]: "unat ((r :: u32) div 8) = unat r div 8" "unat (r mod 8) = unat r mod 8"
  by (simp_all add: unat_div unat_mod)

lemma getRegionErased_region:
  "length (m_regionErased u) = 32 \<Longrightarrow> unat r < 256 \<Longrightarrow> getRegionErased r u = Some (region_set u (unat r))"
  using and_bit_iff [of "m_regionErased u ! (unat r div 8)" "unat r mod 8"]
  by (auto simp: getRegionErased_def mem_read_def region_set_def)

lemma setRegionErased_region:
  assumes "length (m_regionErased u) = 32" and "unat r < 256"
  obtains m where "setRegionErased r u = Some (u\<lparr>m_regionErased := m\<rparr>)" and "length m = 32"
    and "\<And>k. k < 256 \<Longrightarrow> region_set (u\<lparr>m_regionErased := m\<rparr>) k \<longleftrightarrow> k = unat r \<or> region_set u k"
proof -
  let ?b = "m_regionErased u ! (unat r div 8) OR push_bit (unat r mod 8) 1"
  let ?m = "(m_regionErased u)[unat r div 8 := ?b]"
  have "setRegionErased r u = Some (u\<lparr>m_regionErased := ?m\<rparr>)"
    using assms by (simp add: setRegionErased_def mem_read_def mem_write_def)
  moreover have "region_set (u\<lparr>m_regionErased := ?m\<rparr>) k \<longleftrightarrow> k = unat r \<or> region_set u k" if "k < 256" for k
  proof -
    have "k div 8 = unat r div 8 \<and> k mod 8 = unat r mod 8 \<longleftrightarrow> k = unat r" by (metis div_mult_mod_eq)
    then show ?thesis using assms that by (auto simp: region_set_def nth_list_update bit_or_bit)
  qed
  ultimately show thesis using that [of ?m] assms by simp
qed


section \<open>The stream byte by byte\<close>

fun store_bytes :: "flash_sdk \<Rightarrow> bytes \<Rightarrow> ota \<Rightarrow> (bool \<times> ota) option" where
  "store_bytes sdk [] s = Some (True, s)"
| "store_bytes sdk (b # bs) (u, fl) = do {
     m \<leftarrow> mem_write (m_buffer u) (unat (m_index u)) b;
     let u = u\<lparr>m_buffer := m, m_index := m_index u + 1\<rparr>;
     if m_index u = BLOCK_SIZE then do {
       (ok, s) \<leftarrow> handle_block sdk (u\<lparr>m_index := 0\<rparr>, fl);
       if ok then store_bytes sdk bs s else Some (False, s)
     }
     else store_bytes sdk bs (u, fl)
   }"

definition ota_ready :: "ota \<Rightarrow> bool" where
  "ota_ready s \<longleftrightarrow> length (m_buffer (fst s)) = 512 \<and> unat (m_index (fst s)) < 512"

lemma blit_step: "at < length m \<Longrightarrow> blit (m[at := x]) (Suc at) xs = blit m at (x # xs)"
  by (simp add: blit_def upd_conv_take_nth_drop add.commute)

lemma blit_snoc: "at + length xs < length m \<Longrightarrow> (blit m at xs)[at + length xs := x] = blit m at (xs @ [x])"
  by (auto simp: blit_def list_update_append Cons_nth_drop_Suc [symmetric])

lemma store_fill:
  assumes "length (m_buffer u) = 512" and "unat (m_index u) + length xs < 512"
  shows "store_bytes sdk (xs @ ys) (u, fl) = store_bytes sdk ys
    (u\<lparr>m_buffer := blit (m_buffer u) (unat (m_index u)) xs, m_index := m_index u + of_nat (length xs)\<rparr>, fl)"
  using assms
proof (induction xs arbitrary: u)
  case (Cons x xs)
  have n: "unat (m_index u + 1) = Suc (unat (m_index u))" using Cons.prems by (simp add: unat_word_ariths)
  then have ne: "m_index u + 1 \<noteq> BLOCK_SIZE" using Cons.prems by (auto simp: BLOCK_SIZE_def)
  show ?case
    using Cons.prems n ne
      Cons.IH [of "u\<lparr>m_buffer := (m_buffer u)[unat (m_index u) := x], m_index := m_index u + 1\<rparr>"]
    by (simp add: mem_write_def Let_def blit_step ac_simps)
qed simp

lemma store_complete:
  assumes "length (m_buffer u) = 512" and "unat (m_index u) + length xs = 512" and "unat (m_index u) < 512"
  shows "store_bytes sdk (xs @ ys) (u, fl) = do {
     (ok, s) \<leftarrow> handle_block sdk (u\<lparr>m_buffer := blit (m_buffer u) (unat (m_index u)) xs, m_index := 0\<rparr>, fl);
     if ok then store_bytes sdk ys s else Some (False, s)
   }"
proof -
  obtain zs z where xs: "xs = zs @ [z]" using assms by (cases xs rule: rev_cases) auto
  let ?n = "m_index u + of_nat (length zs)"
  have n: "unat ?n = unat (m_index u) + length zs" using assms xs
    by (simp add: unat_word_ariths unat_of_nat)
  then have "unat (?n + 1) = 512" using assms xs by (simp add: unat_word_ariths)
  then have b: "?n + 1 = BLOCK_SIZE" by (simp add: BLOCK_SIZE_def word_unat_eq_iff)
  have "(blit (m_buffer u) (unat (m_index u)) zs)[511 := z] = blit (m_buffer u) (unat (m_index u)) (zs @ [z])"
    using blit_snoc [of "unat (m_index u)" zs "m_buffer u" z] assms xs by simp
  then show ?thesis
    using assms xs n b by (simp add: store_fill mem_write_def Let_def)
qed

context flash_device
begin

lemma writeToFlash_cases:
  assumes "writeToFlash sdk (u, fl) = Some (u', fl')"
  obtains d fl1 where "uf2_data (m_buffer u) (uf2_payloadSize (m_buffer u)) = Some d"
    and "fl' = fs_program sdk (uf2_targetAddr (m_buffer u)) d fl1"
    and "fl1 = fl \<or> fl1 = fs_erase sdk (uf2_targetAddr (m_buffer u) - uf2_targetAddr (m_buffer u) mod 4096) 4096 fl"
    and "m_buffer u' = m_buffer u" and "m_index u' = m_index u" and "u_address u' = u_address u"
proof -
  let ?t = "uf2_targetAddr (m_buffer u)"
  from assms obtain e u1 fl1 where
    p: "(if \<not> e then Option.bind (setRegionErased ((?t - OTA_FLASH_BUFFER_OFFSET) div 4096) u)
          (\<lambda>u. Some (u, fs_erase sdk (?t - ?t mod 4096) 4096 fl)) else Some (u, fl)) = Some (u1, fl1)"
    and q: "Option.bind (uf2_data (m_buffer u1) (uf2_payloadSize (m_buffer u1))) (\<lambda>d. Some (u1, fs_program sdk ?t d fl1)) =
      Some (u', fl')"
    unfolding writeToFlash_def Let_def sector_size prod.case by (elim bind_eq_Some_conv [THEN iffD1, elim_format] exE conjE) auto
  have u1: "m_buffer u1 = m_buffer u" "m_index u1 = m_index u" "u_address u1 = u_address u"
    and fl1: "fl1 = fl \<or> fl1 = fs_erase sdk (?t - ?t mod 4096) 4096 fl"
    using p by (auto simp: setRegionErased_def split: if_splits bind_splits)
  show thesis
    using q u1 fl1 that by (auto split: bind_splits)
qed

lemma handle_block_frame:
  assumes "handle_block sdk (u, fl) = Some (ok, (u', fl'))" and "length (m_buffer u) = 512"
  shows "length (m_buffer u') = 512" and "m_index u' = m_index u" and "u_address u' = u_address u"
proof -
  have *: "m_buffer u2 = m_buffer u1 \<and> m_index u2 = m_index u1 \<and> u_address u2 = u_address u1"
    if "fs_safe_execute sdk (writeToFlash sdk) (u1, fl1) = Some (rc, (u2, fl2))" for u1 fl1 rc u2 fl2
    using executed [OF that] by (auto elim: writeToFlash_cases)
  have "length (m_buffer u') = 512 \<and> m_index u' = m_index u \<and> u_address u' = u_address u"
    using assms by (auto simp: handle_block_def Let_def dest!: * split: bind_splits if_splits)
  then show "length (m_buffer u') = 512" "m_index u' = m_index u" "u_address u' = u_address u" by auto
qed

lemma storeData_bytes: "ota_ready s \<Longrightarrow> storeData sdk data s = store_bytes sdk data s"
proof (induction "length data" arbitrary: data s rule: less_induct)
  case less
  obtain u fl where s: "s = (u, fl)" by fastforce
  have r: "length (m_buffer u) = 512" "unat (m_index u) < 512" using less.prems by (simp_all add: s ota_ready_def)
  let ?c = "min (length data) (unat (BLOCK_SIZE - m_index u))"
  have a: "unat (BLOCK_SIZE - m_index u) = 512 - unat (m_index u)"
    using r by (subst unat_sub) (simp_all add: BLOCK_SIZE_def word_le_nat_alt)
  show ?case
  proof (cases "data = []")
    case True
    then show ?thesis by (simp add: storeData.simps)
  next
    case False
    have shorter: "length (drop ?c data) < length data" using False r a by simp
    have n: "unat (m_index u + of_nat ?c) = unat (m_index u) + ?c"
      using r a by (simp add: unat_word_ariths unat_of_nat min_def)
    have copy: "mem_copy (m_buffer u) (unat (m_index u)) (take ?c data) =
        Some (blit (m_buffer u) (unat (m_index u)) (take ?c data))"
      using r a by (simp add: mem_copy_def)
    show ?thesis
    proof (cases "512 - unat (m_index u) \<le> length data")
      case True
      then have c: "?c = 512 - unat (m_index u)" using a by simp
      then have full: "m_index u + of_nat ?c = BLOCK_SIZE" using n r by (simp add: BLOCK_SIZE_def word_unat_eq_iff)
      have "store_bytes sdk data (u, fl) = store_bytes sdk (take ?c data @ drop ?c data) (u, fl)" by simp
      also have "\<dots> = do {
          (ok, s) \<leftarrow> handle_block sdk (u\<lparr>m_buffer := blit (m_buffer u) (unat (m_index u)) (take ?c data), m_index := 0\<rparr>, fl);
          if ok then store_bytes sdk (drop ?c data) s else Some (False, s)
        }"
        by (rule store_complete) (use r c True in simp_all)
      finally have b: "store_bytes sdk data (u, fl) = \<dots>" .
      have "storeData sdk (drop ?c data) s' = store_bytes sdk (drop ?c data) s'"
        if "handle_block sdk (u\<lparr>m_buffer := blit (m_buffer u) (unat (m_index u)) (take ?c data), m_index := 0\<rparr>, fl) = Some (ok, s')"
        for ok s'
        using that handle_block_frame [of _ fl ok "fst s'" "snd s'"] r a
        by (intro less.hyps [OF shorter]) (auto simp: ota_ready_def)
      then have "Option.bind (handle_block sdk (u\<lparr>m_buffer := blit (m_buffer u) (unat (m_index u)) (take ?c data), m_index := 0\<rparr>, fl))
          (\<lambda>(ok, s). if ok then storeData sdk (drop ?c data) s else Some (False, s)) = store_bytes sdk data (u, fl)"
        unfolding b
        by (cases "handle_block sdk (u\<lparr>m_buffer := blit (m_buffer u) (unat (m_index u)) (take ?c data), m_index := 0\<rparr>, fl)")
          auto
      then show ?thesis
        unfolding s by (subst storeData.simps) (use \<open>data \<noteq> []\<close> copy full in \<open>simp add: Let_def\<close>)
    next
      case False
      then have c: "?c = length data" using a by simp
      have lt: "unat (m_index u + of_nat ?c) < 512" using n c False r by simp
      then have "m_index u + of_nat ?c < BLOCK_SIZE" by (simp add: BLOCK_SIZE_def word_less_nat_alt)
      then have o: "m_index u + of_nat ?c \<noteq> BLOCK_SIZE" "\<not> m_index u + of_nat ?c > BLOCK_SIZE" by auto
      have "store_bytes sdk (data @ []) (u, fl) = store_bytes sdk []
          (u\<lparr>m_buffer := blit (m_buffer u) (unat (m_index u)) data, m_index := m_index u + of_nat (length data)\<rparr>, fl)"
        by (rule store_fill) (use r False in simp_all)
      then show ?thesis
        unfolding s by (subst storeData.simps) (use \<open>data \<noteq> []\<close> copy o c in \<open>simp add: Let_def storeData.simps [of sdk "[]"]\<close>)
    qed
  qed
qed

lemma store_bytes_ready:
  "ota_ready s \<Longrightarrow> store_bytes sdk bs s = Some (ok, s') \<Longrightarrow> ota_ready s'"
proof (induction bs arbitrary: s)
  case (Cons b bs)
  obtain u fl where s: "s = (u, fl)" by fastforce
  have r: "length (m_buffer u) = 512" "unat (m_index u) < 512" using Cons.prems by (simp_all add: s ota_ready_def)
  let ?u = "u\<lparr>m_buffer := (m_buffer u)[unat (m_index u) := b], m_index := m_index u + 1\<rparr>"
  have n: "unat (m_index u + 1) = Suc (unat (m_index u))" using r by (simp add: unat_word_ariths)
  show ?case
  proof (cases "m_index u + 1 = BLOCK_SIZE")
    case True
    then obtain ok1 u1 fl1 where h: "handle_block sdk (?u\<lparr>m_index := 0\<rparr>, fl) = Some (ok1, (u1, fl1))"
      and rest: "(if ok1 then store_bytes sdk bs (u1, fl1) else Some (False, (u1, fl1))) = Some (ok, s')"
      using Cons.prems(2) r by (auto simp: s mem_write_def Let_def split: bind_splits)
    have "ota_ready (u1, fl1)" using handle_block_frame [OF h] r by (simp add: ota_ready_def)
    with rest Cons.IH show ?thesis by (auto split: if_splits)
  next
    case False
    then have "Suc (unat (m_index u)) \<noteq> 512" using n by (auto simp: BLOCK_SIZE_def word_unat_eq_iff)
    with False Cons.prems(2) r n Cons.IH [of "(?u, fl)"] show ?thesis
      by (simp add: s mem_write_def Let_def ota_ready_def)
  qed
qed simp

lemma store_bytes_append:
  "store_bytes sdk (xs @ ys) s = do {
     (ok, s) \<leftarrow> store_bytes sdk xs s; if ok then store_bytes sdk ys s else Some (False, s) }"
proof (induction xs arbitrary: s)
  case (Cons x xs)
  obtain u fl where s: "s = (u, fl)" by fastforce
  show ?case
    unfolding s append_Cons store_bytes.simps Let_def
    by (cases "mem_write (m_buffer u) (unat (m_index u)) x";
        cases "handle_block sdk (u\<lparr>m_buffer := (m_buffer u)[unat (m_index u) := x], m_index := 0\<rparr>, fl)")
      (auto simp: Cons.IH mem_write_def split: if_splits)
qed simp

end

section \<open>Where the flash is written\<close>

definition ota_end :: nat where "ota_end = 0x200000"

lemma target_facts:
  assumes "t < MAX_BINARY_SIZE"
  shows "unat t < 0x100000" and "unat (t + OTA_FLASH_BUFFER_OFFSET) = unat t + 0x100000"
    and "t + OTA_FLASH_BUFFER_OFFSET - OTA_FLASH_BUFFER_OFFSET = t"
    and "unat (t div 4096) = unat t div 4096" and "unat t div 4096 < 256"
    and "unat (t + OTA_FLASH_BUFFER_OFFSET - (t + OTA_FLASH_BUFFER_OFFSET) mod 4096) = 0x100000 + 4096 * (unat t div 4096)"
proof -
  show 1: "unat t < 0x100000" using assms by (simp add: MAX_BINARY_SIZE_def word_less_nat_alt)
  then show 2: "unat (t + OTA_FLASH_BUFFER_OFFSET) = unat t + 0x100000"
    by (simp add: OTA_FLASH_BUFFER_OFFSET_def unat_word_ariths)
  show "t + OTA_FLASH_BUFFER_OFFSET - OTA_FLASH_BUFFER_OFFSET = t" by simp
  show "unat (t div 4096) = unat t div 4096" by (simp add: unat_div)
  show "unat t div 4096 < 256" using 1 by simp
  have m: "unat ((t + OTA_FLASH_BUFFER_OFFSET) mod 4096) = unat t mod 4096"
    using 2 mod_mult_self1 [of "unat t" 256 4096] by (simp add: unat_mod)
  have "unat (t + OTA_FLASH_BUFFER_OFFSET - (t + OTA_FLASH_BUFFER_OFFSET) mod 4096) =
      unat t + 0x100000 - unat t mod 4096"
    using m 2 by (subst unat_sub) (simp_all add: word_le_nat_alt)
  then show "unat (t + OTA_FLASH_BUFFER_OFFSET - (t + OTA_FLASH_BUFFER_OFFSET) mod 4096) = 0x100000 + 4096 * (unat t div 4096)"
    by (simp add: minus_mod_eq_mult_div [symmetric])
qed

lemma dvd_256: "256 dvd (x :: u32) \<Longrightarrow> unat x mod 256 = 0"
  by (auto simp: dvd_def unat_word_ariths mod_mod_cancel)

context flash_device
begin

lemma writeToFlash_confined:
  assumes w: "writeToFlash sdk (u, fl) = Some (u', fl')"
    and t: "uf2_targetAddr (m_buffer u) = t + OTA_FLASH_BUFFER_OFFSET" "t < MAX_BINARY_SIZE"
    and al: "unat t mod 256 = 0" "256 dvd uf2_payloadSize (m_buffer u)"
    and x: "x < unat OTA_FLASH_BUFFER_OFFSET \<or> ota_end \<le> x"
  shows "fl' x = fl x"
proof -
  note tf = target_facts [OF t(2)]
  let ?n = "uf2_payloadSize (m_buffer u)"
  obtain d fl1 where d: "uf2_data (m_buffer u) ?n = Some d"
    and fl': "fl' = fs_program sdk (t + OTA_FLASH_BUFFER_OFFSET) d fl1"
    and fl1: "fl1 = fl \<or> fl1 = fs_erase sdk (t + OTA_FLASH_BUFFER_OFFSET - (t + OTA_FLASH_BUFFER_OFFSET) mod 4096) 4096 fl"
    using writeToFlash_cases [OF w] unfolding t by metis
  from d have "length d = unat ?n" "unat ?n \<le> 476" by (auto simp: uf2_data_def mem_slice_def split: if_splits)
  moreover have "unat ?n mod 256 = 0" using dvd_256 [OF al(2)] .
  ultimately have len: "length d \<le> 256" by (auto simp: mod_eq_0_iff_dvd dvd_def)
  have sec: "0x100000 + 4096 * (unat t div 4096) + 4096 \<le> (0x200000 :: nat)" using tf(5) by simp
  obtain k where "unat t = 256 * k" using al(1) by (auto simp: mod_eq_0_iff_dvd)
  then have top: "unat t + 256 \<le> 0x100000" using tf(1) by simp
  have x': "x < 0x100000 \<or> 0x200000 \<le> x" using x by (simp add: OTA_FLASH_BUFFER_OFFSET_def ota_end_def)
  have prg: "fs_program sdk (t + OTA_FLASH_BUFFER_OFFSET) d f x = f x" for f
    using x' top len tf(2) by (auto simp: program)
  have ers: "fs_erase sdk (t + OTA_FLASH_BUFFER_OFFSET - (t + OTA_FLASH_BUFFER_OFFSET) mod 4096) 4096 f x = f x" for f
    using x' sec tf(6) by (auto simp: erase)
  show ?thesis
    using fl' fl1 prg ers by auto
qed

lemma handle_block_confined:
  assumes h: "handle_block sdk (u, fl) = Some (ok, (u', fl'))" and len: "length (m_buffer u) = 512"
    and x: "x < unat OTA_FLASH_BUFFER_OFFSET \<or> ota_end \<le> x"
  shows "fl' x = fl x"
proof -
  have w: "fl2 x = fl x"
    if e: "fs_safe_execute sdk (writeToFlash sdk) (u1, fl) = Some (rc, (u2, fl2))"
      and t: "uf2_targetAddr (m_buffer u1) = t + OTA_FLASH_BUFFER_OFFSET" "t < MAX_BINARY_SIZE"
      "256 dvd t + OTA_FLASH_BUFFER_OFFSET" "256 dvd uf2_payloadSize (m_buffer u1)" for u1 rc u2 fl2 t
  proof -
    have "unat t mod 256 = 0" using dvd_256 [OF t(3)] target_facts(2) [OF t(2)] mod_mult_self1 [of "unat t" 4096 256]
      by simp
    then show ?thesis using executed [OF e] writeToFlash_confined [OF _ t(1,2) _ t(4) x] by auto
  qed
  show ?thesis
    using h len
    by (auto simp: handle_block_def Let_def linorder_not_le split: bind_splits if_splits dest!: w)
qed

lemma store_bytes_confined:
  assumes x: "x < unat OTA_FLASH_BUFFER_OFFSET \<or> ota_end \<le> x"
  shows "ota_ready s \<Longrightarrow> store_bytes sdk bs s = Some (ok, s') \<Longrightarrow> snd s' x = snd s x"
proof (induction bs arbitrary: s)
  case (Cons b bs)
  obtain u fl where s: "s = (u, fl)" by fastforce
  have r: "length (m_buffer u) = 512" "unat (m_index u) < 512" using Cons.prems by (simp_all add: s ota_ready_def)
  obtain ok1 s1 where s1: "store_bytes sdk [b] s = Some (ok1, s1)"
    and rest: "(if ok1 then store_bytes sdk bs s1 else Some (False, s1)) = Some (ok, s')"
    using Cons.prems(2) store_bytes_append [of "[b]" bs s] by (auto split: bind_splits)
  have "snd s1 x = snd s x"
    using s1 r handle_block_confined [OF _ _ x]
    by (auto simp: s mem_write_def Let_def split: bind_splits if_splits)
  with rest Cons.IH [OF store_bytes_ready [OF Cons.prems(1) s1]] show ?case by (auto split: if_splits)
qed simp

end

end
