(* ===== verification/Ota_Image.thy ===== *)
theory Ota_Image
  imports Ota_Flash
begin

text \<open>
  A UF2 file from its blocks to the running program: the blocks of an image are stored in the buffer
  half of the flash, and the upgrade moves the sectors they lie in.
\<close>

section \<open>Images\<close>

text \<open>An image is a list of 256-byte payloads with their offsets in the program; a block of the file as
  UF2 lays it out.\<close>

type_synonym image = "(u32 \<times> bytes) list"

definition uf2_encode :: "flash_sdk \<Rightarrow> u32 \<Rightarrow> u32 \<Rightarrow> u32 \<times> bytes \<Rightarrow> bytes" where
  "uf2_encode sdk blockNo numBlocks = (\<lambda>(a, p).
     le32_bytes 0x0A324655 @ le32_bytes 0x9E5D5157 @ le32_bytes 0x00002000 @ le32_bytes (fs_XIP_BASE sdk + a)
     @ le32_bytes 256 @ le32_bytes blockNo @ le32_bytes numBlocks @ le32_bytes 0xE48BFF56
     @ p @ replicate (476 - length p) 0 @ le32_bytes UF2_MAGIC_END)"

fun uf2_blocks :: "flash_sdk \<Rightarrow> nat \<Rightarrow> nat \<Rightarrow> image \<Rightarrow> bytes list" where
  "uf2_blocks sdk k n [] = []"
| "uf2_blocks sdk k n (b # bs) = uf2_encode sdk (of_nat k) (of_nat n) b # uf2_blocks sdk (Suc k) n bs"

definition uf2_file :: "flash_sdk \<Rightarrow> image \<Rightarrow> bytes" where
  "uf2_file sdk img = concat (uf2_blocks sdk 0 (length img) img)"

definition block_ok :: "u32 \<times> bytes \<Rightarrow> bool" where
  "block_ok = (\<lambda>(a, p). a < MAX_BINARY_SIZE \<and> unat a mod 256 = 0 \<and> length p = 256)"

definition image_ok :: "image \<Rightarrow> bool" where
  "image_ok img \<longleftrightarrow> distinct (map fst img) \<and> list_all block_ok img"

text \<open>The flash after the image has been stored at a base: the sectors it touches hold its bytes, and
  ones where it has none.\<close>

definition covers :: "nat \<Rightarrow> u32 \<times> bytes \<Rightarrow> bool" where
  "covers x = (\<lambda>(a, p). unat a \<le> x \<and> x < unat a + 256)"

definition image_byte :: "image \<Rightarrow> nat \<Rightarrow> u8" where
  "image_byte img x = (case find (covers x) img of None \<Rightarrow> 0xFF | Some (a, p) \<Rightarrow> p ! (x - unat a))"

definition touched :: "image \<Rightarrow> nat \<Rightarrow> bool" where
  "touched img r \<longleftrightarrow> (\<exists>b\<in>set img. unat (fst b) div 4096 = r)"

definition image_flash :: "image \<Rightarrow> nat \<Rightarrow> flash \<Rightarrow> flash" where
  "image_flash img base fl x =
     (if base \<le> x \<and> touched img ((x - base) div 4096) then image_byte img (x - base) else fl x)"

lemma covers_disjoint:
  assumes "covers x b" "covers x b'" "unat (fst b) mod 256 = 0" "unat (fst b') mod 256 = 0"
  shows "fst b = fst b'"
proof -
  obtain k k' where "unat (fst b) = 256 * k" "unat (fst b') = 256 * k'"
    using assms by (metis mod_eq_0_iff_dvd dvd_def)
  then have "k = k'" using assms(1,2) by (auto simp: covers_def)
  then show ?thesis using \<open>unat (fst b) = 256 * k\<close> \<open>unat (fst b') = 256 * k'\<close> by (simp add: word_unat_eq_iff)
qed

lemma covers_sector: "covers x b \<Longrightarrow> unat (fst b) mod 256 = 0 \<Longrightarrow> x div 4096 = unat (fst b) div 4096"
proof -
  assume c: "covers x b" and "unat (fst b) mod 256 = 0"
  then obtain k where k: "unat (fst b) = 256 * k" by (metis mod_eq_0_iff_dvd dvd_def)
  then have "x div 256 = k" using c by (auto simp: covers_def div_nat_eqI)
  then have "x div 4096 = k div 16" using div_mult2_eq [of x 256 16] by simp
  moreover have "unat (fst b) div 4096 = k div 16" using k div_mult2_eq [of "256 * k" 256 16] by simp
  ultimately show ?thesis by simp
qed

lemma touched_simps [simp]:
  "\<not> touched [] r" "touched (img @ [b]) r \<longleftrightarrow> touched img r \<or> unat (fst b) div 4096 = r"
  by (auto simp: touched_def)

lemma image_flash_Nil [simp]: "image_flash [] base fl = fl"
  by (simp add: image_flash_def fun_eq_iff)

lemma image_ok_snoc: "image_ok (img @ [b]) \<longleftrightarrow> image_ok img \<and> block_ok b \<and> fst b \<notin> fst ` set img"
  by (auto simp: image_ok_def)

lemma image_find:
  assumes "image_ok img" "block_ok b" "fst b \<notin> fst ` set img" "covers x b"
  shows "find (covers x) img = None"
proof (rule ccontr)
  assume "find (covers x) img \<noteq> None"
  then obtain b' where b': "b' \<in> set img" "covers x b'" by (auto simp: find_None_iff)
  then have "block_ok b'" using assms(1) by (simp add: image_ok_def list_all_iff)
  then have "fst b = fst b'"
    using covers_disjoint [OF assms(4) b'(2)] assms(2) by (auto simp: block_ok_def)
  then show False using assms(3) b'(1) by auto
qed

lemma find_append: "find P (xs @ ys) = (case find P xs of None \<Rightarrow> find P ys | Some x \<Rightarrow> Some x)"
  by (induction xs) simp_all

lemma image_flash_snoc:
  assumes "image_ok (img @ [(a, p)])"
  shows "image_flash (img @ [(a, p)]) base fl x =
    (if base \<le> x \<and> covers (x - base) (a, p) then p ! (x - base - unat a)
     else if base \<le> x \<and> \<not> touched img (unat a div 4096) \<and> (x - base) div 4096 = unat a div 4096 then 0xFF
     else image_flash img base fl x)"
proof -
  have ok: "image_ok img" "block_ok (a, p)" "a \<notin> fst ` set img" using assms by (simp_all add: image_ok_snoc)
  have f: "find (covers y) (img @ [(a, p)]) =
      (if covers y (a, p) then Some (a, p) else find (covers y) img)" for y
    using image_find [OF ok(1,2), of y] ok(3) by (cases "find (covers y) img") (auto simp: find_append)
  have s: "covers y (a, p) \<Longrightarrow> y div 4096 = unat a div 4096" for y
    using covers_sector [of y "(a, p)"] ok(2) by (simp add: block_ok_def)
  have u: "find (covers y) img = None" if "\<not> touched img (y div 4096)" for y
    using that covers_sector [of y] ok(1)
    by (fastforce simp: find_None_iff touched_def image_ok_def list_all_iff block_ok_def)
  let ?y = "x - base"
  show ?thesis
  proof (cases "base \<le> x")
    case True
    consider "covers ?y (a, p)" | "\<not> covers ?y (a, p)" "touched img (?y div 4096)"
      | "\<not> covers ?y (a, p)" "\<not> touched img (?y div 4096)" by blast
    then show ?thesis
    proof cases
      case 1
      then show ?thesis using True s [OF 1] by (simp add: image_flash_def image_byte_def f)
    next
      case 2
      then show ?thesis using True by (auto simp: image_flash_def image_byte_def f)
    next
      case 3
      then show ?thesis using True u [OF 3(2)] by (simp add: image_flash_def image_byte_def f eq_commute)
    qed
  qed (simp add: image_flash_def)
qed

lemma image_byte_at:
  assumes "image_ok img" "(a, p) \<in> set img" "i < 256"
  shows "image_flash img base fl (base + unat a + i) = p ! i"
proof -
  have b: "block_ok (a, p)" using assms by (auto simp: image_ok_def list_all_iff)
  have c: "covers (unat a + i) (a, p)" using assms by (simp add: covers_def)
  then have t: "touched img ((unat a + i) div 4096)"
    using covers_sector [OF c] assms(2) b by (force simp: touched_def block_ok_def)
  have "find (covers (unat a + i)) img \<noteq> None" using c assms(2) by (metis find_None_iff)
  then obtain a' p' where f: "find (covers (unat a + i)) img = Some (a', p')" by fastforce
  then have m: "(a', p') \<in> set img" "covers (unat a + i) (a', p')" by (auto simp: find_Some_iff)
  then have "a' = a" using covers_disjoint [OF m(2) c] assms(1) b by (auto simp: image_ok_def list_all_iff block_ok_def)
  then have "p' = p" using assms m by (auto simp: image_ok_def dest: eq_key_imp_eq_value)
  with f t \<open>a' = a\<close> show ?thesis by (simp add: image_flash_def image_byte_def add.assoc)
qed


section \<open>One block\<close>

lemma aligned_add_32: "(v :: u32) mod 32 = 0 \<Longrightarrow> (v + 32) mod 32 = 0"
  by (simp add: word_unat_eq_iff unat_mod unat_word_ariths mod_mod_cancel)

lemma FF_and [simp]: "(0xFF :: u8) AND b = b"
  using u8_and_0xFF [of b] by (simp add: and.commute)

lemma div_4096_iff: "(y :: nat) div 4096 = r \<longleftrightarrow> 4096 * r \<le> y \<and> y < 4096 * r + 4096"
  using dividend_less_times_div [of 4096 y] times_div_less_eq_dividend [of 4096 y]
  by (auto intro: div_nat_eqI)

definition block_in :: "flash_sdk \<Rightarrow> bytes \<Rightarrow> u32 \<times> bytes \<Rightarrow> bool" where
  "block_in sdk m = (\<lambda>(a, p). length m = 512 \<and> uf2_magicEnd m = UF2_MAGIC_END \<and>
     uf2_flags m AND UF2_FLAG_NOFLASH = 0 \<and> uf2_flags m AND UF2_FLAG_EXTENSION_TAGS = 0 \<and>
     uf2_targetAddr m = fs_XIP_BASE sdk + a \<and> uf2_payloadSize m = 256 \<and> uf2_data m 256 = Some p)"

context reliable_flash
begin

lemma num_regions: "NUM_REGIONS sdk = 256"
  by (simp add: NUM_REGIONS_def MAX_BINARY_SIZE_def sector_size)

lemma write_block:
  assumes t: "uf2_targetAddr (m_buffer u) = a + OTA_FLASH_BUFFER_OFFSET" "a < MAX_BINARY_SIZE"
    and n: "uf2_data (m_buffer u) (uf2_payloadSize (m_buffer u)) = Some p"
    and r: "length (m_regionErased u) = 32"
  obtains m where "length m = 32"
    and "\<And>k. k < 256 \<Longrightarrow> region_set (u\<lparr>m_regionErased := m\<rparr>) k \<longleftrightarrow> k = unat a div 4096 \<or> region_set u k"
    and "writeToFlash sdk (u, fl) = Some (u\<lparr>m_regionErased := m\<rparr>,
      fs_program sdk (a + OTA_FLASH_BUFFER_OFFSET) p
        (if region_set u (unat a div 4096) then fl
         else fs_erase sdk (a + OTA_FLASH_BUFFER_OFFSET - (a + OTA_FLASH_BUFFER_OFFSET) mod 4096) 4096 fl))"
proof -
  note tf = target_facts [OF t(2)]
  have k: "unat (a div 4096) < 256" using tf by simp
  note get = getRegionErased_region [OF r k]
  show thesis
  proof (cases "region_set u (unat a div 4096)")
    case True
    show thesis
      by (rule that [of "m_regionErased u"]) (use r True get n tf in \<open>auto simp: writeToFlash_def t sector_size Let_def\<close>)
  next
    case False
    obtain m where m: "setRegionErased (a div 4096) u = Some (u\<lparr>m_regionErased := m\<rparr>)" "length m = 32"
      "\<And>k. k < 256 \<Longrightarrow> region_set (u\<lparr>m_regionErased := m\<rparr>) k \<longleftrightarrow> k = unat (a div 4096) \<or> region_set u k"
      using setRegionErased_region [OF r k] by metis
    show thesis
      by (rule that [of m]) (use m False get n tf in \<open>simp_all add: writeToFlash_def t sector_size Let_def\<close>)
  qed
qed

lemma handle_block_stores:
  assumes b: "block_in sdk (m_buffer u) (a, p)" "block_ok (a, p)"
    and u: "length (m_regionErased u) = 32" "u_address u mod 32 = 0"
    and free: "region_set u (unat a div 4096) \<Longrightarrow> (\<And>i. i < 256 \<Longrightarrow> fl (0x100000 + unat a + i) = 0xFF)"
  obtains m m' where "length m = 32" "length m' = 512"
    and "\<And>k. k < 256 \<Longrightarrow> region_set (u\<lparr>m_regionErased := m\<rparr>) k \<longleftrightarrow> k = unat a div 4096 \<or> region_set u k"
    and "handle_block sdk (u, fl) = Some (True, (u\<lparr>m_buffer := m', m_regionErased := m\<rparr>,
      (\<lambda>x. if 0x100000 \<le> x \<and> covers (x - 0x100000) (a, p) then p ! (x - 0x100000 - unat a)
           else if 0x100000 \<le> x \<and> \<not> region_set u (unat a div 4096) \<and> (x - 0x100000) div 4096 = unat a div 4096 then 0xFF
           else fl x)))"
proof -
  let ?m' = "uf2_set_targetAddr (a + OTA_FLASH_BUFFER_OFFSET) (uf2_set_targetAddr a (m_buffer u))"
  let ?u = "u\<lparr>m_buffer := ?m'\<rparr>"
  let ?r = "unat a div 4096"
  let ?fl = "\<lambda>x. if 0x100000 \<le> x \<and> covers (x - 0x100000) (a, p) then p ! (x - 0x100000 - unat a)
           else if 0x100000 \<le> x \<and> \<not> region_set u ?r \<and> (x - 0x100000) div 4096 = ?r then 0xFF
           else fl x"
  have a: "a < MAX_BINARY_SIZE" "unat a mod 256 = 0" "length p = 256" using b(2) by (auto simp: block_ok_def)
  note tf = target_facts [OF a(1)]
  have m: "length (m_buffer u) = 512" using b(1) by (simp add: block_in_def)
  then have m': "uf2_targetAddr ?m' = a + OTA_FLASH_BUFFER_OFFSET" "uf2_payloadSize ?m' = 256"
    "uf2_data ?m' 256 = Some p" "length ?m' = 512" using b(1) by (simp_all add: block_in_def)
  have set_eq: "region_set (v\<lparr>m_buffer := x\<rparr>) k = region_set v k" for v x k by (simp add: region_set_def)
  obtain q where q: "length q = 32"
    "\<And>k. k < 256 \<Longrightarrow> region_set (?u\<lparr>m_regionErased := q\<rparr>) k \<longleftrightarrow> k = ?r \<or> region_set ?u k"
    "writeToFlash sdk (?u, fl) = Some (?u\<lparr>m_regionErased := q\<rparr>,
      fs_program sdk (a + OTA_FLASH_BUFFER_OFFSET) p
        (if region_set ?u ?r then fl
         else fs_erase sdk (a + OTA_FLASH_BUFFER_OFFSET - (a + OTA_FLASH_BUFFER_OFFSET) mod 4096) 4096 fl))"
    using write_block [of ?u a p fl] a m' u by auto
  have al: "(a + OTA_FLASH_BUFFER_OFFSET) mod 256 = 0"
    using tf(2) a(2) mod_mult_self1 [of "unat a" 4096 256] by (simp add: word_unat_eq_iff unat_mod)
  have fl: "fs_program sdk (a + OTA_FLASH_BUFFER_OFFSET) p
      (if region_set ?u ?r then fl
       else fs_erase sdk (a + OTA_FLASH_BUFFER_OFFSET - (a + OTA_FLASH_BUFFER_OFFSET) mod 4096) 4096 fl) = ?fl"
  proof
    fix x :: nat
    let ?y = "x - 0x100000"
    let ?off = "a + OTA_FLASH_BUFFER_OFFSET - (a + OTA_FLASH_BUFFER_OFFSET) mod 4096"
    let ?fl1 = "if region_set ?u ?r then fl else fs_erase sdk ?off 4096 fl"
    have in_sector: "unat ?off \<le> x \<and> x < unat ?off + unat (4096 :: u32) \<longleftrightarrow> 0x100000 \<le> x \<and> ?y div 4096 = ?r"
      unfolding tf(6) div_4096_iff by auto
    have erased: "?fl1 x = (if \<not> region_set u ?r \<and> 0x100000 \<le> x \<and> ?y div 4096 = ?r then 0xFF else fl x)"
    proof (cases "region_set u ?r")
      case False
      then have "?fl1 x = (if unat ?off \<le> x \<and> x < unat ?off + unat (4096 :: u32) then 0xFF else fl x)"
        by (simp add: erase set_eq)
      then show ?thesis unfolding in_sector using False by simp
    qed (simp add: set_eq)
    have in_block: "unat (a + OTA_FLASH_BUFFER_OFFSET) \<le> x \<and> x < unat (a + OTA_FLASH_BUFFER_OFFSET) + length p \<longleftrightarrow>
        0x100000 \<le> x \<and> covers ?y (a, p)"
      unfolding tf(2) a(3) covers_def by auto
    have at: "x - unat (a + OTA_FLASH_BUFFER_OFFSET) = ?y - unat a" unfolding tf(2) by simp
    have "?fl1 x = 0xFF" if c: "0x100000 \<le> x \<and> covers ?y (a, p)"
    proof (cases "region_set u ?r")
      case True
      obtain i where "x = 0x100000 + unat a + i" "i < 256"
        using c by (auto simp: covers_def le_iff_add)
      then show ?thesis using True free [OF True, of i] by (simp add: set_eq)
    next
      case False
      then show ?thesis using c covers_sector [of ?y "(a, p)"] a(2) unfolding erased by simp
    qed
    then show "fs_program sdk (a + OTA_FLASH_BUFFER_OFFSET) p ?fl1 x = ?fl x"
      unfolding program in_block at by (simp add: erased)
  qed
  have match: "flash_matches ?fl (unat (a + OTA_FLASH_BUFFER_OFFSET)) p"
    using a tf(2) by (simp add: flash_matches_def covers_def)
  have "handle_block sdk (u, fl) = Some (True, (?u\<lparr>m_regionErased := q\<rparr>, ?fl))"
    using b(1) a(1) m m' al q(3) fl match tf(4,5) aligned_add_32 [OF u(2)] num_regions
    unfolding handle_block_def block_in_def Let_def prod.case
    by (simp add: execute sector_size PICO_OK_def linorder_not_le [symmetric] word_le_nat_alt)
  then show thesis
    using that [of q ?m'] q(1,2) m'(4) by (simp add: set_eq region_set_def)
qed

end

section \<open>A whole file\<close>

lemma length_uf2_encode [simp]: "length p = 256 \<Longrightarrow> length (uf2_encode sdk k n (a, p)) = 512"
  by (simp add: uf2_encode_def)

lemma uf2_encode_block:
  assumes "length p = 256"
  shows "block_in sdk (uf2_encode sdk k n (a, p)) (a, p)"
proof -
  let ?m = "uf2_encode sdk k n (a, p)"
  let ?s0 = "le32_bytes 0x0A324655" and ?s1 = "le32_bytes 0x9E5D5157" and ?f = "le32_bytes 0x00002000"
    and ?t = "le32_bytes (fs_XIP_BASE sdk + a)" and ?n = "le32_bytes 256" and ?k = "le32_bytes k"
    and ?nn = "le32_bytes n" and ?r = "le32_bytes 0xE48BFF56" and ?e = "le32_bytes UF2_MAGIC_END"
    and ?z = "replicate (476 - length p) (0 :: u8)"
  have m: "?m = ?s0 @ ?s1 @ ?f @ ?t @ ?n @ ?k @ ?nn @ ?r @ p @ ?z @ ?e" by (simp add: uf2_encode_def)
  have "uf2_flags ?m = 0x00002000"
    using le32_append [of "?s0 @ ?s1" 8 "0x00002000" "?t @ ?n @ ?k @ ?nn @ ?r @ p @ ?z @ ?e"] by (simp add: uf2_flags_def m)
  moreover have "uf2_targetAddr ?m = fs_XIP_BASE sdk + a"
    using le32_append [of "?s0 @ ?s1 @ ?f" 12 "fs_XIP_BASE sdk + a" "?n @ ?k @ ?nn @ ?r @ p @ ?z @ ?e"]
    by (simp add: uf2_targetAddr_def m)
  moreover have "uf2_payloadSize ?m = 256"
    using le32_append [of "?s0 @ ?s1 @ ?f @ ?t" 16 256 "?k @ ?nn @ ?r @ p @ ?z @ ?e"] by (simp add: uf2_payloadSize_def m)
  moreover have "uf2_magicEnd ?m = UF2_MAGIC_END"
    using le32_append [of "?s0 @ ?s1 @ ?f @ ?t @ ?n @ ?k @ ?nn @ ?r @ p @ ?z" 508 UF2_MAGIC_END "[]"] assms
    by (simp add: uf2_magicEnd_def m)
  moreover have "uf2_data ?m 256 = Some p" using assms by (simp add: uf2_data_def mem_slice_def m)
  moreover have "length ?m = 512" using assms by simp
  ultimately show ?thesis by (simp add: block_in_def UF2_FLAG_NOFLASH_def UF2_FLAG_EXTENSION_TAGS_def)
qed

definition stored :: "image \<Rightarrow> flash \<Rightarrow> ota \<Rightarrow> bool" where
  "stored img fl0 = (\<lambda>(u, fl). length (m_buffer u) = 512 \<and> m_index u = 0 \<and> length (m_regionErased u) = 32 \<and>
     u_address u mod 32 = 0 \<and> (\<forall>k < 256. region_set u k \<longleftrightarrow> touched img k) \<and> fl = image_flash img 0x100000 fl0)"

context reliable_flash
begin

lemma stored_create: "address mod 32 = 0 \<Longrightarrow> stored [] fl (ota_create sdk address, fl)"
  by (simp add: stored_def ota_create_def ota_clear_def num_regions region_set_def)

lemma store_block:
  assumes s: "stored img fl0 s" and ok: "image_ok (img @ [b])"
  shows "\<exists>s'. store_bytes sdk (uf2_encode sdk k n b @ ys) s = store_bytes sdk ys s' \<and> stored (img @ [b]) fl0 s'"
proof -
  obtain a p u fl where ap: "b = (a, p)" "s = (u, fl)" by fastforce
  have b: "block_ok (a, p)" "image_ok img" "a \<notin> fst ` set img" using ok ap by (simp_all add: image_ok_snoc)
  then have p: "length p = 256" and a: "unat a mod 256 = 0" by (simp_all add: block_ok_def)
  have u: "length (m_buffer u) = 512" "m_index u = 0" "length (m_regionErased u) = 32" "u_address u mod 32 = 0"
    "\<And>k. k < 256 \<Longrightarrow> region_set u k \<longleftrightarrow> touched img k" and fl: "fl = image_flash img 0x100000 fl0"
    using s ap by (auto simp: stored_def)
  let ?e = "uf2_encode sdk k n (a, p)" and ?r = "unat a div 4096"
  let ?u = "u\<lparr>m_buffer := ?e, m_index := 0\<rparr>"
  have r: "?r < 256" using b(1) target_facts(5) by (simp add: block_ok_def)
  have set_eq: "region_set (v\<lparr>m_buffer := x, m_index := i\<rparr>) k = region_set v k" for v x i k by (simp add: region_set_def)
  have free: "fl (0x100000 + unat a + i) = 0xFF" if "region_set ?u ?r" "i < 256" for i
  proof -
    have c: "covers (unat a + i) (a, p)" using that by (simp add: covers_def)
    have "find (covers (unat a + i)) img = None" using image_find [OF b(2,1)] b(3) c by simp
    moreover have "touched img ((unat a + i) div 4096)"
      using that(1) u(5) [OF r] covers_sector [OF c] a by (simp add: set_eq)
    ultimately show ?thesis by (simp add: fl image_flash_def image_byte_def add.assoc)
  qed
  obtain m m' where m: "length m = 32" "length m' = 512"
    "\<And>k. k < 256 \<Longrightarrow> region_set (?u\<lparr>m_regionErased := m\<rparr>) k \<longleftrightarrow> k = ?r \<or> region_set ?u k"
    "handle_block sdk (?u, fl) = Some (True, (?u\<lparr>m_buffer := m', m_regionErased := m\<rparr>,
      (\<lambda>x. if 0x100000 \<le> x \<and> covers (x - 0x100000) (a, p) then p ! (x - 0x100000 - unat a)
           else if 0x100000 \<le> x \<and> \<not> region_set ?u ?r \<and> (x - 0x100000) div 4096 = ?r then 0xFF
           else fl x)))"
    using handle_block_stores [of ?u a p fl] uf2_encode_block [OF p] b(1) u free by auto
  have "(\<lambda>x. if 0x100000 \<le> x \<and> covers (x - 0x100000) (a, p) then p ! (x - 0x100000 - unat a)
           else if 0x100000 \<le> x \<and> \<not> region_set ?u ?r \<and> (x - 0x100000) div 4096 = ?r then 0xFF
           else fl x) = image_flash (img @ [(a, p)]) 0x100000 fl0"
    using image_flash_snoc [where img = img and a = a and p = p and base = "0x100000" and fl = fl0] ok ap u(5) [OF r] by (auto simp: fl set_eq fun_eq_iff)
  then have h: "handle_block sdk (?u, fl) = Some (True, (?u\<lparr>m_buffer := m', m_regionErased := m\<rparr>,
      image_flash (img @ [(a, p)]) 0x100000 fl0))" using m(4) by simp
  have "blit (m_buffer u) 0 ?e = ?e" using u p by (simp add: blit_def)
  then have "store_bytes sdk (?e @ ys) (u, fl) = store_bytes sdk ys (?u\<lparr>m_buffer := m', m_regionErased := m\<rparr>,
      image_flash (img @ [(a, p)]) 0x100000 fl0)"
    using store_complete [of u ?e sdk ys fl] u p h by simp
  moreover have "stored (img @ [(a, p)]) fl0 (?u\<lparr>m_buffer := m', m_regionErased := m\<rparr>, image_flash (img @ [(a, p)]) 0x100000 fl0)"
    using m u by (auto simp: stored_def region_set_def)
  ultimately show ?thesis unfolding ap by blast
qed

lemma store_blocks:
  "stored img fl0 s \<Longrightarrow> image_ok (img @ bs) \<Longrightarrow>
   \<exists>s'. store_bytes sdk (concat (uf2_blocks sdk k n bs)) s = Some (True, s') \<and> stored (img @ bs) fl0 s'"
proof (induction bs arbitrary: img s k)
  case (Cons b bs)
  have "image_ok (img @ [b])" using Cons.prems(2) by (auto simp: image_ok_def)
  from store_block [OF Cons.prems(1) this, of "of_nat k" "of_nat n" "concat (uf2_blocks sdk (Suc k) n bs)"]
  obtain s1 where "store_bytes sdk (uf2_encode sdk (of_nat k) (of_nat n) b @ concat (uf2_blocks sdk (Suc k) n bs)) s =
      store_bytes sdk (concat (uf2_blocks sdk (Suc k) n bs)) s1" "stored (img @ [b]) fl0 s1" by blast
  with Cons.IH [of "img @ [b]" s1 "Suc k"] Cons.prems(2) show ?case by simp
qed simp

end

end
