(* ===== verification/Ota_Return.thy ===== *)
theory Ota_Return
  imports Ota_Image
begin

text \<open>
  When \<open>storeData\<close> returns. Whatever the blocks of an upload hold, as long as none announces a payload that does not fit into a
  block, every access of the helper is inside its buffer and its bitmap.
\<close>

section \<open>The device\<close>

text \<open>\<open>flash_safe_execute\<close> returns if the function it is given does.\<close>

locale returning_flash = flash_device +
  assumes returns: "f s \<noteq> None \<Longrightarrow> fs_safe_execute sdk f s \<noteq> None"

sublocale reliable_flash \<subseteq> returning_flash
  by unfold_locales (simp add: execute)

section \<open>The blocks of an upload\<close>

text \<open>The complete blocks of a stream.\<close>

function upload_blocks :: "bytes \<Rightarrow> bytes list" where
  "upload_blocks d = (if length d < 512 then [] else take 512 d # upload_blocks (drop 512 d))"
  by pat_completeness auto
termination by (relation "measure length") auto

declare upload_blocks.simps [simp del]

lemma upload_blocks_short: "length d < 512 \<Longrightarrow> upload_blocks d = []"
  by (simp add: upload_blocks.simps)

lemma upload_blocks_append: "length b = 512 \<Longrightarrow> upload_blocks (b @ d) = b # upload_blocks d"
  by (subst upload_blocks.simps) simp

text \<open>What a helper has of the stream already, and what it is given.\<close>

definition stream_of :: "ota \<Rightarrow> bytes \<Rightarrow> bytes" where
  "stream_of s data = take (unat (m_index (fst s))) (m_buffer (fst s)) @ data"

definition payloads_fit :: "bytes \<Rightarrow> bool" where
  "payloads_fit d \<longleftrightarrow> list_all (\<lambda>b. unat (uf2_payloadSize b) \<le> 476) (upload_blocks d)"

section \<open>Storing returns\<close>

lemma uf2_data_fits: "length m = 512 \<Longrightarrow> unat n \<le> 476 \<Longrightarrow> \<exists>d. uf2_data m n = Some d"
  by (simp add: uf2_data_def mem_slice_def)

context returning_flash
begin

lemma writeToFlash_returns:
  assumes "length (m_buffer u) = 512" and "length (m_regionErased u) = 32" and "unat (uf2_payloadSize (m_buffer u)) \<le> 476"
    and "uf2_targetAddr (m_buffer u) = t + OTA_FLASH_BUFFER_OFFSET" and "t < MAX_BINARY_SIZE"
  shows "\<exists>s'. writeToFlash sdk (u, fl) = Some s' \<and> length (m_regionErased (fst s')) = 32"
proof -
  let ?r = "(uf2_targetAddr (m_buffer u) - OTA_FLASH_BUFFER_OFFSET) div 4096"
  have r: "unat ?r < 256" using target_facts(4,5) [OF assms(5)] assms(4) by simp
  obtain m where m: "setRegionErased ?r u = Some (u\<lparr>m_regionErased := m\<rparr>)" "length m = 32"
    using setRegionErased_region [OF assms(2) r] by metis
  obtain d where "uf2_data (m_buffer u) (uf2_payloadSize (m_buffer u)) = Some d" using uf2_data_fits [OF assms(1,3)] by blast
  then show ?thesis
    using getRegionErased_region [OF assms(2) r] m assms(2) by (simp add: writeToFlash_def sector_size Let_def)
qed

lemma handle_block_returns:
  assumes "length (m_buffer u) = 512" and "length (m_regionErased u) = 32" and "unat (uf2_payloadSize (m_buffer u)) \<le> 476"
  shows "\<exists>ok s'. handle_block sdk (u, fl) = Some (ok, s') \<and> length (m_regionErased (fst s')) = 32"
proof -
  let ?t = "uf2_targetAddr (m_buffer u) - fs_XIP_BASE sdk"
  let ?u = "u\<lparr>m_buffer := uf2_set_targetAddr (?t + OTA_FLASH_BUFFER_OFFSET) (uf2_set_targetAddr ?t (m_buffer u))\<rparr>"
  have b: "length (m_buffer ?u) = 512" "length (m_regionErased ?u) = 32"
    "uf2_payloadSize (m_buffer ?u) = uf2_payloadSize (m_buffer u)" "uf2_targetAddr (m_buffer ?u) = ?t + OTA_FLASH_BUFFER_OFFSET"
    using assms by simp_all
  have x: "\<exists>rc u' fl' d. fs_safe_execute sdk (writeToFlash sdk) (?u, fl) = Some (rc, (u', fl')) \<and>
      uf2_data (m_buffer u') (uf2_payloadSize (m_buffer u')) = Some d \<and> length (m_regionErased u') = 32"
    if t: "?t < MAX_BINARY_SIZE"
  proof -
    have "unat (uf2_payloadSize (m_buffer ?u)) \<le> 476" using b(3) assms(3) by simp
    from writeToFlash_returns [OF b(1,2) this b(4) t, of fl]
    obtain s1 where s1: "writeToFlash sdk (?u, fl) = Some s1" "length (m_regionErased (fst s1)) = 32" by blast
    obtain rc u' fl' where e: "fs_safe_execute sdk (writeToFlash sdk) (?u, fl) = Some (rc, (u', fl'))"
      using returns [of "writeToFlash sdk" "(?u, fl)"] s1(1) by auto
    have "m_buffer u' = m_buffer ?u \<and> length (m_regionErased u') = 32"
    proof (cases "(u', fl') = (?u, fl)")
      case False
      then have w: "writeToFlash sdk (?u, fl) = Some (u', fl')" using executed [OF e] by blast
      moreover have "m_buffer u' = m_buffer ?u" by (rule writeToFlash_cases [OF w]) simp
      ultimately show ?thesis using s1 by simp
    qed (use b in simp)
    then show ?thesis using e uf2_data_fits [OF b(1), of "uf2_payloadSize (m_buffer u)"] b(3) assms(3) by auto
  qed
  have e: "length (m_regionErased (u\<lparr>m_buffer := m\<rparr>)) = 32" for m using assms(2) by simp
  show ?thesis
  proof (cases "?t < MAX_BINARY_SIZE")
    case False
    then show ?thesis using e assms(2) by (simp add: handle_block_def Let_def not_less)
  next
    case True
    from x [OF True] obtain rc u' fl' d where
      "fs_safe_execute sdk (writeToFlash sdk) (?u, fl) = Some (rc, (u', fl'))"
      "uf2_data (m_buffer u') (uf2_payloadSize (m_buffer u')) = Some d" "length (m_regionErased u') = 32" by blast
    then show ?thesis using e assms(2) by (simp add: handle_block_def Let_def)
  qed
qed

lemma store_bytes_returns:
  "ota_ready s \<Longrightarrow> length (m_regionErased (fst s)) = 32 \<Longrightarrow> payloads_fit (stream_of s data) \<Longrightarrow>
   \<exists>ok s'. store_bytes sdk data s = Some (ok, s')"
proof (induction "length data" arbitrary: data s rule: less_induct)
  case less
  obtain u fl where s: "s = (u, fl)" by fastforce
  have r: "length (m_buffer u) = 512" "unat (m_index u) < 512" "length (m_regionErased u) = 32"
    using less.prems by (simp_all add: s ota_ready_def)
  show ?case
  proof (cases "unat (m_index u) + length data < 512")
    case True
    from store_fill [OF r(1) True, of sdk "[]" fl] show ?thesis by (simp add: s)
  next
    case False
    let ?k = "512 - unat (m_index u)"
    let ?xs = "take ?k data" and ?ys = "drop ?k data"
    let ?b = "take (unat (m_index u)) (m_buffer u) @ ?xs"
    have k: "unat (m_index u) + length ?xs = 512" "?xs @ ?ys = data" using False r by simp_all
    have b: "blit (m_buffer u) (unat (m_index u)) ?xs = ?b" "length ?b = 512"
      using k r by (simp_all add: blit_def)
    have fit: "unat (uf2_payloadSize ?b) \<le> 476" "payloads_fit ?ys"
      using less.prems(3) upload_blocks_append [OF b(2), of ?ys] k(2) by (simp_all add: payloads_fit_def stream_of_def s)
    let ?u = "u\<lparr>m_buffer := ?b, m_index := 0\<rparr>"
    have "length (m_buffer ?u) = 512" "length (m_regionErased ?u) = 32" "unat (uf2_payloadSize (m_buffer ?u)) \<le> 476"
      using r(3) b(2) fit(1) by simp_all
    from handle_block_returns [OF this, of fl] obtain ok s1 where
      "handle_block sdk (?u, fl) = Some (ok, s1)" "length (m_regionErased (fst s1)) = 32" by blast
    then obtain u1 fl1 where h: "handle_block sdk (?u, fl) = Some (ok, (u1, fl1))" "length (m_regionErased u1) = 32"
      by (cases s1) simp
    have u1: "length (m_buffer u1) = 512" "m_index u1 = 0" using handle_block_frame [OF h(1)] b(2) by simp_all
    have "\<exists>ok s'. store_bytes sdk ?ys (u1, fl1) = Some (ok, s')"
      by (rule less.hyps) (use False r u1 h(2) fit(2) in \<open>simp_all add: ota_ready_def stream_of_def\<close>)
    moreover have "store_bytes sdk data s = (if ok then store_bytes sdk ?ys (u1, fl1) else Some (False, (u1, fl1)))"
      using store_complete [OF r(1) k(1) r(2), of sdk ?ys fl] k(2) h(1) b(1) by (simp add: s)
    ultimately show ?thesis by simp
  qed
qed

end

end
