(* ===== verification/Ota_Upgrade.thy ===== *)
theory Ota_Upgrade
  imports Ota_Return
begin

text \<open>
  The upgrade itself, and the properties of the upgrade helper: independence of the segmentation, where
  the flash is written, which blocks are refused, and the way of an image from its UF2 file to the
  running program.
\<close>

section \<open>A file in segments\<close>

text \<open>The calls of \<open>storeData\<close> for the segments of an upload, up to the first that fails.\<close>

fun store_segments :: "flash_sdk \<Rightarrow> bytes list \<Rightarrow> ota \<Rightarrow> (bool \<times> ota) option" where
  "store_segments sdk [] s = Some (True, s)"
| "store_segments sdk (d # ds) s = do {
     (ok, s) \<leftarrow> storeData sdk d s;
     if ok then store_segments sdk ds s else Some (False, s)
   }"

context flash_device
begin

lemma store_segments_bytes: "ota_ready s \<Longrightarrow> store_segments sdk ds s = store_bytes sdk (concat ds) s"
proof (induction ds arbitrary: s)
  case (Cons d ds)
  then have "storeData sdk d s = store_bytes sdk d s" by (simp add: storeData_bytes)
  with Cons store_bytes_ready [of s d] show ?case
    by (cases "store_bytes sdk d s") (auto simp: store_bytes_append)
qed simp

end

section \<open>The upgrade\<close>

lemma region_bounds: "k < 256 \<Longrightarrow> unat (of_nat k :: u32) = k"
  by (simp add: unat_of_nat)

lemma region_offset: "k < 256 \<Longrightarrow> unat (of_nat k * 4096 :: u32) = k * 4096"
  by (simp add: unat_word_ariths unat_of_nat)

lemma region_source: "k < 256 \<Longrightarrow> unat (OTA_FLASH_BUFFER_OFFSET + of_nat k * 4096) = 0x100000 + k * 4096"
  by (simp add: OTA_FLASH_BUFFER_OFFSET_def unat_word_ariths unat_of_nat)

lemma in_region: "k * 4096 \<le> x \<and> x < k * 4096 + 4096 \<longleftrightarrow> x div 4096 = (k :: nat)"
  unfolding div_4096_iff by (simp add: mult.commute)

context reliable_flash
begin

lemma upgrade_erase_regions:
  assumes "length (m_regionErased u) = 32"
  shows "set ks \<subseteq> {..<256} \<Longrightarrow> upgrade_erase sdk u (map of_nat ks) fl =
    Some (\<lambda>x. if x div 4096 \<in> set ks \<and> region_set u (x div 4096) then 0xFF else fl x)"
proof (induction ks arbitrary: fl)
  case (Cons k ks)
  then have k: "k < 256" by simp
  have e: "fs_erase sdk (of_nat k * 4096) 4096 fl = (\<lambda>x. if x div 4096 = k then 0xFF else fl x)"
    using in_region [of k] by (simp add: erase region_offset [OF k] fun_eq_iff)
  have "getRegionErased (of_nat k) u = Some (region_set u k)"
    using getRegionErased_region [OF assms, of "of_nat k"] k by (simp add: region_bounds)
  with Cons e show ?case by (auto simp: sector_size fun_eq_iff)
qed simp

lemma upgrade_program_regions:
  assumes "length (m_regionErased u) = 32"
  shows "set ks \<subseteq> {..<256} \<Longrightarrow> distinct ks \<Longrightarrow> upgrade_program sdk u (map of_nat ks) fl =
    Some (\<lambda>x. if x div 4096 \<in> set ks \<and> region_set u (x div 4096) then fl x AND fl (0x100000 + x) else fl x)"
proof (induction ks arbitrary: fl)
  case (Cons k ks)
  then have k: "k < 256" by simp
  have len: "length (flash_sector sdk n fl) = 4096" for n
    by (simp add: flash_sector_def sector_size)
  have nth: "flash_sector sdk (0x100000 + k * 4096) fl ! (x - k * 4096) = fl (0x100000 + x)" if "x div 4096 = k" for x
    using that in_region [of k x] by (auto simp: flash_sector_def sector_size)
  let ?fl = "\<lambda>x. if x div 4096 = k then fl x AND fl (0x100000 + x) else fl x"
  have p: "fs_program sdk (of_nat k * 4096) (flash_sector sdk (0x100000 + k * 4096) fl) fl = ?fl"
    unfolding program region_offset [OF k] len in_region using nth by (simp add: fun_eq_iff)
  have g: "getRegionErased (of_nat k) u = Some (region_set u k)"
    using getRegionErased_region [OF assms, of "of_nat k"] k by (simp add: region_bounds)
  have far: "(0x100000 + x) div 4096 \<noteq> k" for x using k by (simp add: div_4096_iff)
  have ks: "set ks \<subseteq> {..<256}" "distinct ks" "k \<notin> set ks" using Cons.prems by auto
  show ?case
  proof (cases "region_set u k")
    case True
    have "upgrade_program sdk u (map of_nat (k # ks)) fl = upgrade_program sdk u (map of_nat ks) ?fl"
      using g True by (simp add: sector_size region_source [OF k] p)
    also have "\<dots> = Some (\<lambda>x. if x div 4096 \<in> set ks \<and> region_set u (x div 4096) then ?fl x AND ?fl (0x100000 + x) else ?fl x)"
      by (rule Cons.IH) (use ks in auto)
    also have "(\<lambda>x. if x div 4096 \<in> set ks \<and> region_set u (x div 4096) then ?fl x AND ?fl (0x100000 + x) else ?fl x) =
        (\<lambda>x. if x div 4096 \<in> set (k # ks) \<and> region_set u (x div 4096) then fl x AND fl (0x100000 + x) else fl x)"
      using ks(3) far True by (auto simp: fun_eq_iff)
    finally show ?thesis .
  next
    case False
    then have "upgrade_program sdk u (map of_nat (k # ks)) fl = upgrade_program sdk u (map of_nat ks) fl"
      using g by simp
    also have "\<dots> = Some (\<lambda>x. if x div 4096 \<in> set ks \<and> region_set u (x div 4096) then fl x AND fl (0x100000 + x) else fl x)"
      by (rule Cons.IH) (use ks in auto)
    finally show ?thesis using False by (auto simp: fun_eq_iff)
  qed
qed simp

lemma upgrade_sectors:
  assumes "length (m_regionErased u) = 32"
  shows "upgrade_binary sdk (u, fl) =
    Some (\<lambda>x. if x < 0x100000 \<and> region_set u (x div 4096) then fl (0x100000 + x) else fl x)"
proof -
  let ?e = "\<lambda>x. if x div 4096 < 256 \<and> region_set u (x div 4096) then 0xFF else fl x"
  have sub: "set [0..<256] \<subseteq> {..<256 :: nat}" by auto
  have e: "upgrade_erase sdk u (map of_nat [0..<256]) fl = Some ?e"
    using upgrade_erase_regions [OF assms sub, of fl] by simp
  have p: "upgrade_program sdk u (map of_nat [0..<256]) ?e =
      Some (\<lambda>x. if x div 4096 < 256 \<and> region_set u (x div 4096) then ?e x AND ?e (0x100000 + x) else ?e x)"
    using upgrade_program_regions [OF assms sub, of ?e] by simp
  have lt: "x div 4096 < 256 \<longleftrightarrow> x < 0x100000" for x :: nat by (simp add: div_less_iff_less_mult)
  have "?e (0x100000 + x) = fl (0x100000 + x)" for x by (simp add: lt)
  then show ?thesis
    unfolding upgrade_binary_def Let_def prod.case num_regions
    using e p by (simp add: lt cong: if_cong)
qed

end


section \<open>Properties\<close>

context reliable_flash
begin

lemma image_installed:
  assumes "address mod 32 = 0" and ok: "image_ok img" and "concat segs = uf2_file sdk img"
  shows "\<exists>u fl. store_segments sdk segs (ota_create sdk address, fl0) = Some (True, (u, fl)) \<and>
     fl = image_flash img 0x100000 fl0 \<and>
     (\<exists>fl'. upgrade_binary sdk (u, fl) = Some fl' \<and>
        (\<forall>(a, p) \<in> set img. \<forall>i < 256. fl' (unat a + i) = p ! i) \<and>
        (\<forall>x. \<not> touched img (x div 4096) \<longrightarrow> fl' x = fl x))"
proof -
  note create = stored_create [OF assms(1), of fl0]
  have "ota_ready (ota_create sdk address, fl0)" using create by (simp add: stored_def ota_ready_def)
  then have "store_segments sdk segs (ota_create sdk address, fl0) =
      store_bytes sdk (uf2_file sdk img) (ota_create sdk address, fl0)"
    by (simp add: store_segments_bytes assms(3))
  moreover obtain u fl where "store_bytes sdk (uf2_file sdk img) (ota_create sdk address, fl0) = Some (True, (u, fl))"
    and s: "stored img fl0 (u, fl)"
    using store_blocks [OF create, of img 0 "length img"] ok by (auto simp: uf2_file_def)
  ultimately have st: "store_segments sdk segs (ota_create sdk address, fl0) = Some (True, (u, fl))" by simp
  have u: "length (m_regionErased u) = 32" "\<And>k. k < 256 \<Longrightarrow> region_set u k \<longleftrightarrow> touched img k"
    and fl: "fl = image_flash img 0x100000 fl0" using s by (auto simp: stored_def)
  let ?fl = "\<lambda>x. if x < 0x100000 \<and> region_set u (x div 4096) then fl (0x100000 + x) else fl x"
  have "?fl (unat a + i) = p ! i" if b: "(a, p) \<in> set img" "i < 256" for a p i
  proof -
    have bo: "a < MAX_BINARY_SIZE" "unat a mod 256 = 0" using ok b by (auto simp: image_ok_def list_all_iff block_ok_def)
    note tf = target_facts [OF bo(1)]
    have c: "(unat a + i) div 4096 = unat a div 4096"
      using covers_sector [of "unat a + i" "(a, p)"] bo(2) b(2) by (simp add: covers_def)
    then have "region_set u ((unat a + i) div 4096)" using u(2) tf(5) b(1) by (force simp: touched_def)
    moreover obtain k where "unat a = 256 * k" using bo(2) by (metis mod_eq_0_iff_dvd dvd_def)
    then have "unat a + i < 0x100000" using tf(1) b(2) by simp
    ultimately show ?thesis using image_byte_at [OF ok b, of "0x100000" fl0] fl by (simp add: add.assoc)
  qed
  then have blocks: "\<forall>(a, p) \<in> set img. \<forall>i < 256. ?fl (unat a + i) = p ! i" by blast
  have rest: "\<forall>x. \<not> touched img (x div 4096) \<longrightarrow> ?fl x = fl x"
    using u(2) by (auto simp: div_less_iff_less_mult)
  show ?thesis
    by (intro exI [of _ u] exI [of _ fl] conjI exI [of _ ?fl] st fl upgrade_sectors [OF u(1)] blocks rest)
qed

lemma oversized_payload:
  assumes "m_index u = 0" and "length m = 512" and "length (m_buffer u) = 512" and "u_address u mod 32 = 0"
    and "length (m_regionErased u) = 32"
    and "uf2_magicEnd m = UF2_MAGIC_END" and "uf2_flags m AND UF2_FLAG_NOFLASH = 0"
    and "uf2_flags m AND UF2_FLAG_EXTENSION_TAGS = 0" and "uf2_targetAddr m - fs_XIP_BASE sdk < MAX_BINARY_SIZE"
    and "unat (uf2_targetAddr m - fs_XIP_BASE sdk) mod 256 = 0"
    and "uf2_payloadSize m mod 256 = 0" and "unat (uf2_payloadSize m) > 476"
  shows "storeData sdk m (u, fl) = None"
proof -
  let ?a = "uf2_targetAddr m - fs_XIP_BASE sdk"
  let ?m = "uf2_set_targetAddr (?a + OTA_FLASH_BUFFER_OFFSET) (uf2_set_targetAddr ?a m)"
  let ?u = "u\<lparr>m_index := 0, m_buffer := ?m\<rparr>"
  note tf = target_facts [OF assms(9)]
  have m: "length ?m = 512" "uf2_targetAddr ?m = ?a + OTA_FLASH_BUFFER_OFFSET" "uf2_payloadSize ?m = uf2_payloadSize m"
    "uf2_data ?m (uf2_payloadSize m) = None"
    using assms(2,12) by (simp_all add: uf2_data_def)
  have al: "(?a + OTA_FLASH_BUFFER_OFFSET) mod 256 = 0"
    using tf(2) assms(10) mod_mult_self1 [of "unat ?a" 4096 256] by (simp add: word_unat_eq_iff unat_mod)
  have "writeToFlash sdk (?u, fl) = None"
  proof (rule ccontr)
    assume "writeToFlash sdk (?u, fl) \<noteq> None"
    then obtain u' fl' where "writeToFlash sdk (?u, fl) = Some (u', fl')" by fastforce
    then show False by (rule writeToFlash_cases) (use m in auto)
  qed
  then have "handle_block sdk (u\<lparr>m_buffer := m, m_index := 0\<rparr>, fl) = None"
    using assms m al tf(4,5) aligned_add_32 [OF assms(4)] num_regions
    unfolding handle_block_def Let_def prod.case
    by (simp add: execute sector_size linorder_not_le [symmetric] word_le_nat_alt)
  then have "store_bytes sdk (m @ []) (u, fl) = None"
    by (subst store_complete) (use assms in \<open>simp_all add: blit_def\<close>)
  then show ?thesis using assms(1,3) by (simp add: storeData_bytes ota_ready_def)
qed

end

text \<open>From the file to the running program. However an upload of the UF2 file of an image (distinct,
  256-byte aligned blocks within the program, in any order) is cut into segments, \<open>storeData\<close> accepts
  all of it and leaves the image in the buffer half of the flash, everything else untouched; the upgrade
  then puts every block at its address, and leaves every sector no block lies in as it was.\<close>

theorem ota_image_installed:
  assumes "reliable_flash sdk" and "address mod 32 = 0" and "image_ok img" and "concat segs = uf2_file sdk img"
  shows "\<exists>u fl. store_segments sdk segs (ota_create sdk address, fl0) = Some (True, (u, fl)) \<and>
     fl = image_flash img 0x100000 fl0 \<and>
     (\<exists>fl'. upgrade_binary sdk (u, fl) = Some fl' \<and>
        (\<forall>(a, p) \<in> set img. \<forall>i < 256. fl' (unat a + i) = p ! i) \<and>
        (\<forall>x. \<not> touched img (x div 4096) \<longrightarrow> fl' x = fl x))"
  using reliable_flash.image_installed [OF assms] .

text \<open>Two blocks, the later one first.\<close>

definition small_image :: image where
  "small_image = [(0x1100, replicate 256 0xAB), (0, replicate 256 0xCD)]"

theorem ota_image_installed_witness:
  "\<exists>u fl. store_segments rp2040 [take 700 (uf2_file rp2040 small_image), drop 700 (uf2_file rp2040 small_image)]
       (ota_create rp2040 0x20001000, \<lambda>_. 0) = Some (True, (u, fl)) \<and>
     fl = image_flash small_image 0x100000 (\<lambda>_. 0) \<and>
     (\<exists>fl'. upgrade_binary rp2040 (u, fl) = Some fl' \<and>
        (\<forall>(a, p) \<in> set small_image. \<forall>i < 256. fl' (unat a + i) = p ! i) \<and>
        (\<forall>x. \<not> touched small_image (x div 4096) \<longrightarrow> fl' x = fl x))"
  by (rule ota_image_installed [OF rp.reliable_flash_axioms])
    (simp_all add: small_image_def image_ok_def block_ok_def MAX_BINARY_SIZE_def)

text \<open>C29. The segmentation of an upload does not matter: any sequence of \<open>storeData\<close> calls on a helper
  with a well-formed buffer does what one call on the whole stream does, also where it fails, and
  that is what handling it byte by byte does.\<close>

theorem ota_store_bytewise:
  assumes "flash_device sdk" and "ota_ready s"
  shows "store_segments sdk ds s = storeData sdk (concat ds) s \<and> storeData sdk (concat ds) s = store_bytes sdk (concat ds) s"
  using flash_device.store_segments_bytes [OF assms] flash_device.storeData_bytes [OF assms] by simp

theorem ota_store_bytewise_witness:
  "store_segments rp2040 [[1, 2], [], [3]] (ota_create rp2040 0, \<lambda>_. 0xFF) =
     storeData rp2040 [1, 2, 3] (ota_create rp2040 0, \<lambda>_. 0xFF) \<and>
   storeData rp2040 [1, 2, 3] (ota_create rp2040 0, \<lambda>_. 0xFF) = store_bytes rp2040 [1, 2, 3] (ota_create rp2040 0, \<lambda>_. 0xFF)"
  using ota_store_bytewise [OF rp.flash_device_axioms, of "(ota_create rp2040 0, \<lambda>_. 0xFF)" "[[1, 2], [], [3]]"]
  by (simp add: ota_ready_def ota_create_def ota_clear_def)

text \<open>C28. An upload stays in the buffer half of the flash. An upload none of whose complete blocks announces more payload than the
  476 bytes a block has room for makes \<open>storeData\<close> return, without an access outside the helper's buffer or bitmap; and whenever
  it returns, also early, it has written nothing outside the buffer half, from \<open>OTA_FLASH_BUFFER_OFFSET\<close> to 2 MiB, so that a bad
  upload cannot damage the running program. A block that announces more is the exception, since the code has no check for it: it is
  read out of bounds, and \<open>flash_range_program\<close> gets its size, so that at the end of the buffer half it goes beyond 2 MiB.\<close>

theorem ota_flash_confined:
  assumes "returning_flash sdk" and "ota_ready s" and "length (m_regionErased (fst s)) = 32"
  shows "(payloads_fit (stream_of s data) \<longrightarrow> (\<exists>ok s'. storeData sdk data s = Some (ok, s'))) \<and>
    (\<forall>ok s'. storeData sdk data s = Some (ok, s') \<longrightarrow> ota_ready s' \<and>
       (\<forall>x. x < unat OTA_FLASH_BUFFER_OFFSET \<or> ota_end \<le> x \<longrightarrow> snd s' x = snd s x))"
proof -
  have d: "flash_device sdk" using assms(1) by (simp add: returning_flash_def)
  have "storeData sdk data s = store_bytes sdk data s" by (rule flash_device.storeData_bytes [OF d assms(2)])
  then show ?thesis
    using returning_flash.store_bytes_returns [OF assms] flash_device.store_bytes_confined [OF d _ assms(2)]
      flash_device.store_bytes_ready [OF d assms(2)] by metis
qed

definition fitting_block :: bytes where
  "fitting_block = le32_bytes 0x0A324655 @ le32_bytes 0x9E5D5157 @ le32_bytes 0 @ le32_bytes 0x10000000
     @ le32_bytes 256 @ replicate 488 0 @ le32_bytes UF2_MAGIC_END"

theorem ota_flash_confined_witness:
  "\<exists>ok s'. storeData rp2040 fitting_block (ota_create rp2040 0, \<lambda>_. 1) = Some (ok, s') \<and> ota_ready s' \<and> snd s' 5 = 1"
proof -
  let ?s = "(ota_create rp2040 0, \<lambda>_. 1) :: ota"
  have l: "length fitting_block = 512" by (simp add: fitting_block_def)
  have "uf2_payloadSize fitting_block = 256"
    using le32_append [of "le32_bytes 0x0A324655 @ le32_bytes 0x9E5D5157 @ le32_bytes 0 @ le32_bytes 0x10000000" 16 256
        "replicate 488 (0 :: u8) @ le32_bytes UF2_MAGIC_END"]
    by (simp add: uf2_payloadSize_def fitting_block_def)
  then have fit: "payloads_fit (stream_of ?s fitting_block)"
    using upload_blocks_append [OF l, of "[]"]
    by (simp add: payloads_fit_def stream_of_def ota_create_def ota_clear_def upload_blocks_short)
  have "ota_ready ?s" "length (m_regionErased (fst ?s)) = 32"
    by (simp_all add: ota_ready_def ota_create_def ota_clear_def NUM_REGIONS_def MAX_BINARY_SIZE_def rp2040_def)
  from ota_flash_confined [OF rp.returning_flash_axioms this, of fitting_block] fit
  show ?thesis by (auto simp: OTA_FLASH_BUFFER_OFFSET_def)
qed

text \<open>C38. A block that announces a payload of 512 bytes or more passes every check of \<open>storeData\<close>, and the
  476 bytes of its data field are read past their end: the upload of one such block is an access out of
  bounds.\<close>

theorem ota_oversized_payload:
  assumes "reliable_flash sdk" and "m_index u = 0" and "length m = 512" and "length (m_buffer u) = 512"
    and "u_address u mod 32 = 0" and "length (m_regionErased u) = 32"
    and "uf2_magicEnd m = UF2_MAGIC_END" and "uf2_flags m AND UF2_FLAG_NOFLASH = 0"
    and "uf2_flags m AND UF2_FLAG_EXTENSION_TAGS = 0" and "uf2_targetAddr m - fs_XIP_BASE sdk < MAX_BINARY_SIZE"
    and "unat (uf2_targetAddr m - fs_XIP_BASE sdk) mod 256 = 0"
    and "uf2_payloadSize m mod 256 = 0" and "unat (uf2_payloadSize m) > 476"
  shows "storeData sdk m (u, fl) = None"
  using reliable_flash.oversized_payload [OF assms] .

definition oversized_block :: bytes where
  "oversized_block = le32_bytes 0x0A324655 @ le32_bytes 0x9E5D5157 @ le32_bytes 0 @ le32_bytes 0x10000000
     @ le32_bytes 512 @ replicate 488 0 @ le32_bytes UF2_MAGIC_END"

theorem ota_oversized_payload_witness:
  "storeData rp2040 oversized_block (ota_create rp2040 0, \<lambda>_. 0xFF) = None"
proof -
  let ?s0 = "le32_bytes 0x0A324655" and ?s1 = "le32_bytes 0x9E5D5157" and ?f = "le32_bytes 0"
    and ?t = "le32_bytes 0x10000000" and ?n = "le32_bytes 512" and ?z = "replicate 488 (0 :: u8)"
    and ?e = "le32_bytes UF2_MAGIC_END"
  have "uf2_flags oversized_block = 0"
    using le32_append [of "?s0 @ ?s1" 8 0 "?t @ ?n @ ?z @ ?e"] by (simp add: uf2_flags_def oversized_block_def)
  moreover have "uf2_targetAddr oversized_block = 0x10000000"
    using le32_append [of "?s0 @ ?s1 @ ?f" 12 "0x10000000" "?n @ ?z @ ?e"] by (simp add: uf2_targetAddr_def oversized_block_def)
  moreover have "uf2_payloadSize oversized_block = 512"
    using le32_append [of "?s0 @ ?s1 @ ?f @ ?t" 16 512 "?z @ ?e"] by (simp add: uf2_payloadSize_def oversized_block_def)
  moreover have "uf2_magicEnd oversized_block = UF2_MAGIC_END"
    using le32_append [of "?s0 @ ?s1 @ ?f @ ?t @ ?n @ ?z" 508 UF2_MAGIC_END "[]"] by (simp add: uf2_magicEnd_def oversized_block_def)
  moreover have "length oversized_block = 512" by (simp add: oversized_block_def)
  ultimately show ?thesis
    by (intro ota_oversized_payload [OF rp.reliable_flash_axioms])
      (simp_all add: rp2040_def ota_create_def ota_clear_def MAX_BINARY_SIZE_def NUM_REGIONS_def)
qed

end
