(* ===== verification/Ota_Xip.thy ===== *)
theory Ota_Xip
  imports Ota_Upgrade
begin

text \<open>
  \<open>upgrade_binary\<close> of \<open>pico_simple_ota/upgrade_helper.cpp\<close> with the interface of the flash: the chip
  is either mapped into memory (XIP) or takes commands. It runs from RAM and calls functions of the boot ROM only; on the
  RP2040 it maps the flash again for every sector it reads, by calling the code that did so at boot, of which it has taken a
  copy before it erases anything. \<^const>\<open>None\<close> is a read of a flash that is not mapped, or a command to one that is.
\<close>

section \<open>The boot ROM\<close>

definition FLASH_BLOCK_ERASE_CMD :: u8 where "FLASH_BLOCK_ERASE_CMD = 0xd8"
definition XIP_ENTRY_SIZE :: nat where "XIP_ENTRY_SIZE = 64"

text \<open>\<open>'m\<close> is the state of the interface. \<open>br_call_xip\<close> runs a copy of code as a function.\<close>

record 'm boot_rom =
  br_FLASH_BLOCK_SIZE :: u32
  br_mapped :: "'m \<Rightarrow> bool"
  br_takes_commands :: "'m \<Rightarrow> bool"
  br_flush_cache :: "'m \<Rightarrow> 'm"
  br_connect_internal :: "'m \<Rightarrow> 'm"
  br_exit_xip :: "'m \<Rightarrow> 'm"
  br_call_xip :: "u32 list \<Rightarrow> 'm \<Rightarrow> 'm"
  br_range_erase :: "u32 \<Rightarrow> u32 \<Rightarrow> u32 \<Rightarrow> u8 \<Rightarrow> flash \<Rightarrow> flash"
  br_range_program :: "u32 \<Rightarrow> bytes \<Rightarrow> flash \<Rightarrow> flash"

text \<open>The machine the upgrade runs on, with the crash record of the logger and the interrupts.\<close>

record 'm upgrade_machine =
  um_flash :: flash
  um_interface :: 'm
  um_last_command :: u32
  um_interrupts :: bool

type_synonym 'm upgrade_step = "'m upgrade_machine \<Rightarrow> 'm upgrade_machine option"

definition flash_word :: "flash \<Rightarrow> nat \<Rightarrow> u32" where
  "flash_word fl at = ucast (fl at) OR push_bit 8 (ucast (fl (at + 1))) OR push_bit 16 (ucast (fl (at + 2)))
     OR push_bit 24 (ucast (fl (at + 3)))"

text \<open>\<open>xip[i] = ((uint32_t *) XIP_BASE)[i]\<close>.\<close>

definition read_xip_entry :: "'m boot_rom \<Rightarrow> 'm upgrade_machine \<Rightarrow> u32 list option" where
  "read_xip_entry rom s =
     (if br_mapped rom (um_interface s)
      then Some (map (\<lambda>i. flash_word (um_flash s) (4 * i)) [0..<XIP_ENTRY_SIZE]) else None)"

section \<open>Steps\<close>

definition leave_xip :: "'m boot_rom \<Rightarrow> 'm upgrade_machine \<Rightarrow> 'm upgrade_machine" where
  "leave_xip rom s = s\<lparr>um_interface := br_exit_xip rom (br_connect_internal rom (br_flush_cache rom (um_interface s)))\<rparr>"

definition enter_xip :: "'m boot_rom \<Rightarrow> u32 list \<Rightarrow> 'm upgrade_machine \<Rightarrow> 'm upgrade_machine" where
  "enter_xip rom xip s = s\<lparr>um_interface := br_call_xip rom xip (br_flush_cache rom (um_interface s))\<rparr>"

text \<open>\<open>(regionErased[i/8] & (1 << (i % 8))) != 0\<close>.\<close>

definition region_marked :: "bytes \<Rightarrow> u32 \<Rightarrow> bool option" where
  "region_marked regions i = do {
     b \<leftarrow> mem_read regions (unat (i div 8));
     Some (b AND push_bit (unat (i mod 8)) 1 \<noteq> 0)
   }"

definition erase_region :: "'m boot_rom \<Rightarrow> flash_sdk \<Rightarrow> bytes \<Rightarrow> u32 \<Rightarrow> 'm upgrade_step" where
  "erase_region rom sdk regions i s = do {
     marked \<leftarrow> region_marked regions i;
     if marked then
       (if br_takes_commands rom (um_interface s)
        then Some (s\<lparr>um_flash := br_range_erase rom (i * fs_FLASH_SECTOR_SIZE sdk) (fs_FLASH_SECTOR_SIZE sdk)
               (br_FLASH_BLOCK_SIZE rom) FLASH_BLOCK_ERASE_CMD (um_flash s)\<rparr>)
        else None)
     else Some s
   }"

definition program_region :: "bool \<Rightarrow> 'm boot_rom \<Rightarrow> flash_sdk \<Rightarrow> u32 list \<Rightarrow> bytes \<Rightarrow> u32 \<Rightarrow> 'm upgrade_step" where
  "program_region on_rp2040 rom sdk xip regions i s = do {
     marked \<leftarrow> region_marked regions i;
     if marked then do {
       let s = (if on_rp2040 then enter_xip rom xip s else s);
       let offset = i * fs_FLASH_SECTOR_SIZE sdk;
       buffer \<leftarrow> (if br_mapped rom (um_interface s)
         then Some (flash_sector sdk (unat (OTA_FLASH_BUFFER_OFFSET + offset)) (um_flash s)) else None);
       let s = (if on_rp2040 then leave_xip rom s else s);
       if br_takes_commands rom (um_interface s)
       then Some (s\<lparr>um_flash := br_range_program rom offset buffer (um_flash s)\<rparr>)
       else None
     } else Some s
   }"

fun for_regions :: "(u32 \<Rightarrow> 'm upgrade_step) \<Rightarrow> u32 list \<Rightarrow> 'm upgrade_step" where
  "for_regions f [] s = Some s"
| "for_regions f (i # is) s = Option.bind (f i s) (for_regions f is)"

text \<open>\<open>upgrade_binary\<close>, up to the reset.\<close>

definition upgrade_machine_run :: "bool \<Rightarrow> 'm boot_rom \<Rightarrow> flash_sdk \<Rightarrow> upgrade_helper \<Rightarrow> 'm upgrade_step" where
  "upgrade_machine_run on_rp2040 rom sdk u s = do {
     let s = s\<lparr>um_last_command := 0\<rparr>;
     xip \<leftarrow> (if on_rp2040 then read_xip_entry rom s else Some []);
     let regions = m_regionErased u;
     let s = s\<lparr>um_interrupts := False\<rparr>;
     let s = leave_xip rom s;
     s \<leftarrow> for_regions (erase_region rom sdk regions) (map of_nat [0..<unat (NUM_REGIONS sdk)]) s;
     for_regions (program_region on_rp2040 rom sdk xip regions) (map of_nat [0..<unat (NUM_REGIONS sdk)]) s
   }"

section \<open>A ROM that does what it documents\<close>

text \<open>Leaving XIP makes the chip take commands; on the RP2350 it can still be read. Code that enters XIP at boot does so when a
  copy of it is called. The functions of the ROM change the flash as those of the SDK do, which call them.\<close>

locale upgrade_rom =
  fixes on_rp2040 :: bool and rom :: "'m boot_rom" and sdk :: flash_sdk and xip_code :: "u32 list \<Rightarrow> bool"
  assumes left: "br_takes_commands rom (br_exit_xip rom (br_connect_internal rom (br_flush_cache rom m)))"
    and left_rp2350: "\<not> on_rp2040 \<Longrightarrow> br_mapped rom (br_exit_xip rom (br_connect_internal rom (br_flush_cache rom m)))"
    and entered: "on_rp2040 \<Longrightarrow> xip_code code \<Longrightarrow> br_mapped rom (br_call_xip rom code (br_flush_cache rom m))"
    and rom_erase: "br_range_erase rom off n (br_FLASH_BLOCK_SIZE rom) FLASH_BLOCK_ERASE_CMD fl = fs_erase sdk off n fl"
    and rom_program: "br_range_program rom off d fl = fs_program sdk off d fl"
begin

text \<open>Between the regions the flash takes commands, and on the RP2350 it can be read.\<close>

definition left_xip :: "'m upgrade_machine \<Rightarrow> bool" where
  "left_xip s \<longleftrightarrow> br_takes_commands rom (um_interface s) \<and> (on_rp2040 \<or> br_mapped rom (um_interface s))"

lemma leave_xip_left: "left_xip (leave_xip rom s)"
  using left left_rp2350 by (auto simp: left_xip_def leave_xip_def)

lemma region_marked_eq: "region_marked (m_regionErased u) i = getRegionErased i u"
  by (simp add: region_marked_def getRegionErased_def)

lemma erase_regions:
  "left_xip s \<Longrightarrow> upgrade_erase sdk u is (um_flash s) = Some fl \<Longrightarrow>
   for_regions (erase_region rom sdk (m_regionErased u)) is s = Some (s\<lparr>um_flash := fl\<rparr>)"
proof (induction "is" arbitrary: s)
  case (Cons i "is")
  let ?fl = "\<lambda>b. if b then fs_erase sdk (i * fs_FLASH_SECTOR_SIZE sdk) (fs_FLASH_SECTOR_SIZE sdk) (um_flash s) else um_flash s"
  obtain b where b: "getRegionErased i u = Some b" "upgrade_erase sdk u is (?fl b) = Some fl"
    using Cons.prems(2) by (auto split: Option.bind_splits)
  have "erase_region rom sdk (m_regionErased u) i s = Some (s\<lparr>um_flash := ?fl b\<rparr>)"
    using b(1) Cons.prems(1) by (simp add: erase_region_def region_marked_eq rom_erase left_xip_def)
  moreover have "left_xip (s\<lparr>um_flash := ?fl b\<rparr>)" using Cons.prems(1) by (simp add: left_xip_def)
  ultimately show ?case using Cons.IH [of "s\<lparr>um_flash := ?fl b\<rparr>"] b(2) by simp
qed simp

lemma program_regions:
  assumes "on_rp2040 \<Longrightarrow> xip_code xip"
  shows "left_xip s \<Longrightarrow> upgrade_program sdk u is (um_flash s) = Some fl \<Longrightarrow>
    \<exists>m. for_regions (program_region on_rp2040 rom sdk xip (m_regionErased u)) is s = Some (s\<lparr>um_flash := fl, um_interface := m\<rparr>)"
proof (induction "is" arbitrary: s)
  case Nil
  then show ?case by (intro exI [of _ "um_interface s"]) simp
next
  case (Cons i "is")
  let ?off = "i * fs_FLASH_SECTOR_SIZE sdk"
  let ?fl = "\<lambda>b. if b then fs_program sdk ?off (flash_sector sdk (unat (OTA_FLASH_BUFFER_OFFSET + ?off)) (um_flash s)) (um_flash s)
    else um_flash s"
  obtain b where b: "getRegionErased i u = Some b" "upgrade_program sdk u is (?fl b) = Some fl"
    using Cons.prems(2) by (auto split: Option.bind_splits)
  let ?s = "if b \<and> on_rp2040 then leave_xip rom (enter_xip rom xip s) else s"
  have "program_region on_rp2040 rom sdk xip (m_regionErased u) i s = Some (?s\<lparr>um_flash := ?fl b\<rparr>)"
    using b(1) Cons.prems(1) assms entered left
    by (auto simp: program_region_def region_marked_eq rom_program left_xip_def enter_xip_def leave_xip_def Let_def)
  moreover have "left_xip (?s\<lparr>um_flash := ?fl b\<rparr>)"
    using Cons.prems(1) leave_xip_left [of "enter_xip rom xip s"] by (auto simp: left_xip_def)
  moreover have "\<exists>m. ?s = s\<lparr>um_interface := m\<rparr>"
    by (auto simp: leave_xip_def enter_xip_def intro: exI [of _ "um_interface s"])
  ultimately show ?case using Cons.IH [of "?s\<lparr>um_flash := ?fl b\<rparr>"] b(2) by auto
qed

lemma machine_run:
  assumes "br_mapped rom (um_interface s)"
    and "on_rp2040 \<Longrightarrow> xip_code (map (\<lambda>i. flash_word (um_flash s) (4 * i)) [0..<XIP_ENTRY_SIZE])"
    and "upgrade_binary sdk (u, um_flash s) = Some fl"
  shows "\<exists>m. upgrade_machine_run on_rp2040 rom sdk u s =
    Some (s\<lparr>um_flash := fl, um_interface := m, um_last_command := 0, um_interrupts := False\<rparr>)"
proof -
  let ?xip = "if on_rp2040 then map (\<lambda>i. flash_word (um_flash s) (4 * i)) [0..<XIP_ENTRY_SIZE] else []"
  let ?s = "leave_xip rom (s\<lparr>um_last_command := 0, um_interrupts := False\<rparr>)"
  let ?is = "map of_nat [0..<unat (NUM_REGIONS sdk)]"
  obtain fl1 where fl: "upgrade_erase sdk u ?is (um_flash ?s) = Some fl1" "upgrade_program sdk u ?is fl1 = Some fl"
    using assms(3) by (auto simp: upgrade_binary_def leave_xip_def Let_def split: Option.bind_splits)
  have 1: "for_regions (erase_region rom sdk (m_regionErased u)) ?is ?s = Some (?s\<lparr>um_flash := fl1\<rparr>)"
    by (rule erase_regions [OF leave_xip_left fl(1)])
  have "left_xip (?s\<lparr>um_flash := fl1\<rparr>)" using leave_xip_left [of "s\<lparr>um_last_command := 0, um_interrupts := False\<rparr>"] by (simp add: left_xip_def)
  then obtain m where 2: "for_regions (program_region on_rp2040 rom sdk ?xip (m_regionErased u)) ?is (?s\<lparr>um_flash := fl1\<rparr>) =
      Some (?s\<lparr>um_flash := fl1, um_flash := fl, um_interface := m\<rparr>)"
    using program_regions [of ?xip "?s\<lparr>um_flash := fl1\<rparr>" u ?is fl] assms(2) fl(2) by auto
  have "upgrade_machine_run on_rp2040 rom sdk u s = Some (?s\<lparr>um_flash := fl1, um_flash := fl, um_interface := m\<rparr>)"
    using 1 2 assms(1) by (cases on_rp2040) (simp_all add: upgrade_machine_run_def read_xip_entry_def Let_def)
  then show ?thesis by (intro exI [of _ m]) (simp add: leave_xip_def)
qed

end

text \<open>The RP2040, whose boot code is told by its first word, and the RP2350. The interface is mapped or takes commands; that of the RP2350 is
  mapped always.\<close>

definition rp2040_rom :: "bool boot_rom" where
  "rp2040_rom = \<lparr> br_FLASH_BLOCK_SIZE = 65536, br_mapped = (\<lambda>m. m), br_takes_commands = Not, br_flush_cache = id, br_connect_internal = id,
     br_exit_xip = (\<lambda>m. False), br_call_xip = (\<lambda>code m. take 1 code = [0x4B32B500]), br_range_erase = (\<lambda>off n bs cmd. nor_erase off n),
     br_range_program = nor_program \<rparr>"

definition rp2350_rom :: "bool boot_rom" where
  "rp2350_rom = rp2040_rom\<lparr>br_mapped := (\<lambda>m. True), br_takes_commands := Not\<rparr>"

interpretation rp2040: upgrade_rom True rp2040_rom rp2040 "\<lambda>code. take 1 code = [0x4B32B500]"
  by unfold_locales (simp_all add: rp2040_rom_def rp2040_def)

interpretation rp2350: upgrade_rom False rp2350_rom rp2040 "\<lambda>code. False"
  by unfold_locales (simp_all add: rp2350_rom_def rp2040_rom_def rp2040_def)

section \<open>Properties\<close>

text \<open>C8. From the file to the running program, on either chip. However an upload of the UF2 file of an image (distinct, 256-byte aligned
  blocks within the program, in any order) is cut into segments, \<open>storeData\<close> accepts all of it and leaves everything outside the buffer
  half of the flash alone. The upgrade then never reads the flash while it takes commands nor commands it while it is mapped, also
  when the sectors it erases hold the code that maps the flash; every block ends up at its address, every sector no block lies in
  stays as it was, and the record of an old crash is cleared.\<close>

theorem ota_image_runs:
  assumes "reliable_flash sdk" and "address mod 32 = 0" and "image_ok img" and "concat segs = uf2_file sdk img"
    and "upgrade_rom on_rp2040 rom sdk xip_code"
    and "on_rp2040 \<longrightarrow> xip_code (map (\<lambda>i. flash_word fl0 (4 * i)) [0..<XIP_ENTRY_SIZE])"
  shows "\<exists>u fl. store_segments sdk segs (ota_create sdk address, fl0) = Some (True, (u, fl)) \<and> (\<forall>x < 0x100000. fl x = fl0 x) \<and>
    (\<forall>m c i. br_mapped rom m \<longrightarrow>
      (\<exists>s'. upgrade_machine_run on_rp2040 rom sdk u
          \<lparr> um_flash = fl, um_interface = m, um_last_command = c, um_interrupts = i \<rparr> = Some s' \<and> um_last_command s' = 0 \<and>
        (\<forall>(a, p) \<in> set img. \<forall>i < 256. um_flash s' (unat a + i) = p ! i) \<and>
        (\<forall>x. \<not> touched img (x div 4096) \<longrightarrow> um_flash s' x = fl x)))"
proof -
  obtain u fl fl' where u: "store_segments sdk segs (ota_create sdk address, fl0) = Some (True, (u, fl))" "fl = image_flash img 0x100000 fl0"
    "upgrade_binary sdk (u, fl) = Some fl'" "\<forall>(a, p) \<in> set img. \<forall>i < 256. fl' (unat a + i) = p ! i"
    "\<forall>x. \<not> touched img (x div 4096) \<longrightarrow> fl' x = fl x"
    using reliable_flash.image_installed [OF assms(1-4), of fl0] by blast
  have low: "fl x = fl0 x" if "x < 0x100000" for x using that by (simp add: u(2) image_flash_def)
  have w: "map (\<lambda>i. flash_word fl (4 * i)) [0..<XIP_ENTRY_SIZE] = map (\<lambda>i. flash_word fl0 (4 * i)) [0..<XIP_ENTRY_SIZE]"
    by (simp add: flash_word_def low XIP_ENTRY_SIZE_def)
  have code: "on_rp2040 \<Longrightarrow> xip_code (map (\<lambda>i. flash_word fl (4 * i)) [0..<XIP_ENTRY_SIZE])"
    using assms(6) unfolding w by blast
  have run: "\<exists>s'. upgrade_machine_run on_rp2040 rom sdk u
          \<lparr> um_flash = fl, um_interface = m, um_last_command = c, um_interrupts = i \<rparr> = Some s' \<and> um_last_command s' = 0 \<and>
        (\<forall>(a, p) \<in> set img. \<forall>i < 256. um_flash s' (unat a + i) = p ! i) \<and>
        (\<forall>x. \<not> touched img (x div 4096) \<longrightarrow> um_flash s' x = fl x)" if m: "br_mapped rom m" for m c i
  proof -
    let ?s = "\<lparr> um_flash = fl, um_interface = m, um_last_command = c, um_interrupts = i \<rparr>"
    obtain m' where "upgrade_machine_run on_rp2040 rom sdk u ?s =
        Some \<lparr> um_flash = fl', um_interface = m', um_last_command = 0, um_interrupts = False \<rparr>"
      using upgrade_rom.machine_run [OF assms(5), of ?s u fl'] code u(3) m by auto
    then show ?thesis using u(4,5) by simp
  qed
  show ?thesis by (rule exI [of _ u], rule exI [of _ fl]) (use u(1) low run in blast)
qed

text \<open>A flash that starts with boot code; the image replaces it.\<close>

definition boot_flash :: flash where
  "boot_flash x = (if x = 1 then 0xB5 else if x = 2 then 0x32 else if x = 3 then 0x4B else 0)"

theorem ota_image_runs_witness:
  "\<exists>u fl. store_segments rp2040 [take 700 (uf2_file rp2040 small_image), drop 700 (uf2_file rp2040 small_image)]
       (ota_create rp2040 0x20001000, boot_flash) = Some (True, (u, fl)) \<and> (\<forall>x < 0x100000. fl x = boot_flash x) \<and>
    (\<forall>m c i. br_mapped rp2040_rom m \<longrightarrow>
      (\<exists>s'. upgrade_machine_run True rp2040_rom rp2040 u
          \<lparr> um_flash = fl, um_interface = m, um_last_command = c, um_interrupts = i \<rparr> = Some s' \<and> um_last_command s' = 0 \<and>
        (\<forall>(a, p) \<in> set small_image. \<forall>i < 256. um_flash s' (unat a + i) = p ! i) \<and>
        (\<forall>x. \<not> touched small_image (x div 4096) \<longrightarrow> um_flash s' x = fl x)))"
proof (rule ota_image_runs [OF rp.reliable_flash_axioms _ _ _ rp2040.upgrade_rom_axioms])
  have "[0..<XIP_ENTRY_SIZE] = 0 # [1..<XIP_ENTRY_SIZE]" by (simp add: XIP_ENTRY_SIZE_def upt_conv_Cons)
  then show "True \<longrightarrow> take 1 (map (\<lambda>i. flash_word boot_flash (4 * i)) [0..<XIP_ENTRY_SIZE]) = [0x4B32B500]"
    by (simp add: flash_word_def boot_flash_def)
qed (simp_all add: small_image_def image_ok_def block_ok_def MAX_BINARY_SIZE_def)

end
