(* ===== verification/Cmb_Messages.thy ===== *)
theory Cmb_Messages
  imports C_Text
begin

text \<open>
  The messages of \<open>cm_backtrace\<close>: the enumeration of \<open>cm_backtrace.c\<close> and the English table of
  \<open>Languages/en-US/cmb_en_US.h\<close>, which the configuration of the repository selects, and the processors
  \<open>cmb_def.h\<close> tells apart.
\<close>

section \<open>Processors\<close>

datatype cpu_platform = CMB_CPU_ARM_CORTEX_M0 | CMB_CPU_ARM_CORTEX_M3 | CMB_CPU_ARM_CORTEX_M4 | CMB_CPU_ARM_CORTEX_M7
  | CMB_CPU_ARM_CORTEX_M33

text \<open>The setting of \<open>cmb_cfg.h\<close>, and the condition of the floating-point parts.\<close>

definition CMB_CPU_PLATFORM_TYPE :: cpu_platform where
  "CMB_CPU_PLATFORM_TYPE = CMB_CPU_ARM_CORTEX_M0"

definition lazy_fpu :: "cpu_platform \<Rightarrow> bool" where
  "lazy_fpu cpu \<longleftrightarrow> cpu = CMB_CPU_ARM_CORTEX_M4 \<or> cpu = CMB_CPU_ARM_CORTEX_M7 \<or> cpu = CMB_CPU_ARM_CORTEX_M33"

section \<open>Messages\<close>

datatype print_id =
    PRINT_MAIN_STACK_CFG_ERROR | PRINT_FIRMWARE_INFO | PRINT_ASSERT_ON_THREAD | PRINT_ASSERT_ON_HANDLER
  | PRINT_THREAD_STACK_INFO | PRINT_MAIN_STACK_INFO | PRINT_THREAD_STACK_OVERFLOW | PRINT_MAIN_STACK_OVERFLOW
  | PRINT_CALL_STACK_INFO | PRINT_CALL_STACK_ERR | PRINT_FAULT_ON_THREAD | PRINT_FAULT_ON_HANDLER
  | PRINT_REGS_TITLE | PRINT_HFSR_VECTBL | PRINT_MFSR_IACCVIOL | PRINT_MFSR_DACCVIOL
  | PRINT_MFSR_MUNSTKERR | PRINT_MFSR_MSTKERR | PRINT_MFSR_MLSPERR | PRINT_BFSR_IBUSERR
  | PRINT_BFSR_PRECISERR | PRINT_BFSR_IMPREISERR | PRINT_BFSR_UNSTKERR | PRINT_BFSR_STKERR
  | PRINT_BFSR_LSPERR | PRINT_UFSR_UNDEFINSTR | PRINT_UFSR_INVSTATE | PRINT_UFSR_INVPC
  | PRINT_UFSR_NOCP | PRINT_UFSR_STKOF | PRINT_UFSR_UNALIGNED | PRINT_UFSR_DIVBYZERO0
  | PRINT_DFSR_HALTED | PRINT_DFSR_BKPT | PRINT_DFSR_DWTTRAP | PRINT_DFSR_VCATCH
  | PRINT_DFSR_EXTERNAL | PRINT_MMAR | PRINT_BFAR

text \<open>The entry of the stack overflow is there for a Cortex-M33 only, as is its use.\<close>

fun print_info :: "print_id \<Rightarrow> string" where
  "print_info PRINT_MAIN_STACK_CFG_ERROR = ''ERROR: Unable to get the main stack information, please check the configuration of the main stack''"
| "print_info PRINT_FIRMWARE_INFO = ''Firmware name: %s, hardware version: %s, software version: %s''"
| "print_info PRINT_ASSERT_ON_THREAD = ''Assert on thread %s''"
| "print_info PRINT_ASSERT_ON_HANDLER = ''Assert on interrupt or bare metal(no OS) environment''"
| "print_info PRINT_THREAD_STACK_INFO = ''===== Thread stack information =====''"
| "print_info PRINT_MAIN_STACK_INFO = ''====== Main stack information ======''"
| "print_info PRINT_THREAD_STACK_OVERFLOW = ''Error: Thread stack(%08x) was overflow''"
| "print_info PRINT_MAIN_STACK_OVERFLOW = ''Error: Main stack(%08x) was overflow''"
| "print_info PRINT_CALL_STACK_INFO = ''Print call stack: addr2line -e %s%s -afpiC %.*s''"
| "print_info PRINT_CALL_STACK_ERR = ''Dump call stack has an error''"
| "print_info PRINT_FAULT_ON_THREAD = ''Fault on thread %s''"
| "print_info PRINT_FAULT_ON_HANDLER = ''Fault on interrupt or bare metal(no OS) environment''"
| "print_info PRINT_REGS_TITLE = ''=================== Registers information ====================''"
| "print_info PRINT_HFSR_VECTBL = ''Hard fault is caused by failed vector fetch''"
| "print_info PRINT_MFSR_IACCVIOL = ''Memory management fault is caused by instruction access violation''"
| "print_info PRINT_MFSR_DACCVIOL = ''Memory management fault is caused by data access violation''"
| "print_info PRINT_MFSR_MUNSTKERR = ''Memory management fault is caused by unstacking error''"
| "print_info PRINT_MFSR_MSTKERR = ''Memory management fault is caused by stacking error''"
| "print_info PRINT_MFSR_MLSPERR = ''Memory management fault is caused by floating-point lazy state preservation''"
| "print_info PRINT_BFSR_IBUSERR = ''Bus fault is caused by instruction access violation''"
| "print_info PRINT_BFSR_PRECISERR = ''Bus fault is caused by precise data access violation''"
| "print_info PRINT_BFSR_IMPREISERR = ''Bus fault is caused by imprecise data access violation''"
| "print_info PRINT_BFSR_UNSTKERR = ''Bus fault is caused by unstacking error''"
| "print_info PRINT_BFSR_STKERR = ''Bus fault is caused by stacking error''"
| "print_info PRINT_BFSR_LSPERR = ''Bus fault is caused by floating-point lazy state preservation''"
| "print_info PRINT_UFSR_UNDEFINSTR = ''Usage fault is caused by attempts to execute an undefined instruction''"
| "print_info PRINT_UFSR_INVSTATE = ''Usage fault is caused by attempts to switch to an invalid state (e.g., ARM)''"
| "print_info PRINT_UFSR_INVPC = ''Usage fault is caused by attempts to do an exception with a bad value in the EXC_RETURN number''"
| "print_info PRINT_UFSR_NOCP = ''Usage fault is caused by attempts to execute a coprocessor instruction''"
| "print_info PRINT_UFSR_STKOF = ''Usage fault is caused by indicates that a stack overflow (hardware check) has taken place''"
| "print_info PRINT_UFSR_UNALIGNED = ''Usage fault is caused by indicates that an unaligned access fault has taken place''"
| "print_info PRINT_UFSR_DIVBYZERO0 = ''Usage fault is caused by Indicates a divide by zero has taken place (can be set only if DIV_0_TRP is set)''"
| "print_info PRINT_DFSR_HALTED = ''Debug fault is caused by halt requested in NVIC''"
| "print_info PRINT_DFSR_BKPT = ''Debug fault is caused by BKPT instruction executed''"
| "print_info PRINT_DFSR_DWTTRAP = ''Debug fault is caused by DWT match occurred''"
| "print_info PRINT_DFSR_VCATCH = ''Debug fault is caused by Vector fetch occurred''"
| "print_info PRINT_DFSR_EXTERNAL = ''Debug fault is caused by EDBGRQ signal asserted''"
| "print_info PRINT_MMAR = ''The memory management fault occurred address is %08x''"
| "print_info PRINT_BFAR = ''The bus fault occurred address is %08x''"

definition cmb_println :: "print_id \<Rightarrow> fmt_arg list \<Rightarrow> bytes" where
  "cmb_println i args = c_format (print_info i) args"

lemma println_firmware_info:
  "cmb_println PRINT_FIRMWARE_INFO [Str a, Str b, Str c] =
     ascii ''Firmware name: '' @ a @ ascii '', hardware version: '' @ b @ ascii '', software version: '' @ c"
  by (simp add: cmb_println_def)

lemma println_call_stack:
  "cmb_println PRINT_CALL_STACK_INFO [Str a, Str b, Num n, Str c] =
     ascii ''Print call stack: addr2line -e '' @ a @ b @ ascii '' -afpiC '' @ take (nat n) c"
  by (simp add: cmb_println_def)

end
