(* ===== verification/Cmb_Registers.thy ===== *)
theory Cmb_Registers
  imports Cmb_Messages
begin

text \<open>
  The fault registers of a Cortex-M (\<open>struct cmb_hard_fault_regs\<close> and the register macros of
  \<open>cmb_def.h\<close>), and what \<open>cm_backtrace.c\<close> makes of them on the processors that have them. The memory of
  the device is a function of the address. A bit-field structure is the list of its fields with their widths; as
  the ABI of the processor lays it down, the first field holds the lowest bits.
\<close>

section \<open>Memory\<close>

type_synonym memory = "u32 \<Rightarrow> u8"

definition load16 :: "memory \<Rightarrow> u32 \<Rightarrow> u16" where
  "load16 mem a = ucast (mem a) OR push_bit 8 (ucast (mem (a + 1)))"

definition load32 :: "memory \<Rightarrow> u32 \<Rightarrow> u32" where
  "load32 mem a = ucast (mem a) OR push_bit 8 (ucast (mem (a + 1))) OR push_bit 16 (ucast (mem (a + 2)))
     OR push_bit 24 (ucast (mem (a + 3)))"

section \<open>Bit fields\<close>

type_synonym layout = "(string \<times> nat) list"

fun field_offset :: "layout \<Rightarrow> string \<Rightarrow> nat" where
  "field_offset [] f = 0"
| "field_offset ((g, w) # l) f = (if f = g then 0 else w + field_offset l f)"

fun field_width :: "layout \<Rightarrow> string \<Rightarrow> nat" where
  "field_width [] f = 0"
| "field_width ((g, w) # l) f = (if f = g then w else field_width l f)"

definition field :: "layout \<Rightarrow> string \<Rightarrow> 'a::len word \<Rightarrow> 'a word" where
  "field l f v = take_bit (field_width l f) (drop_bit (field_offset l f) v)"

lemma field_flag: "field_width l f = 1 \<Longrightarrow> field l f v \<noteq> 0 \<longleftrightarrow> bit v (field_offset l f)"
proof -
  assume w: "field_width l f = 1"
  have "bit (field l f v) n \<longleftrightarrow> n = 0 \<and> bit v (field_offset l f)" for n
    by (auto simp: field_def w bit_take_bit_iff bit_drop_bit_eq simp flip: bit_0)
  then show ?thesis by (auto simp: bit_eq_iff)
qed

text \<open>The unions of \<open>cmb_hard_fault_regs\<close>.\<close>

definition psr_bits :: "cpu_platform \<Rightarrow> layout" where
  "psr_bits cpu = (if cpu = CMB_CPU_ARM_CORTEX_M33 then [(''IPSR'', 9), (''EPSR'', 18), (''APSR'', 5)]
     else [(''IPSR'', 8), (''EPSR'', 19), (''APSR'', 5)])"

definition syshndctrl_bits :: "cpu_platform \<Rightarrow> layout" where
  "syshndctrl_bits cpu =
     [(''MEMFAULTACT'', 1), (''BUSFAULTACT'', 1)]
     @ (if cpu = CMB_CPU_ARM_CORTEX_M33 then [(''HARDFAULTACT'', 1)] else [(''UnusedBits1'', 1)])
     @ [(''USGFAULTACT'', 1)]
     @ (if cpu = CMB_CPU_ARM_CORTEX_M33 then [(''SECUREFAULTACT'', 1), (''NMIACT'', 1), (''UnusedBits2'', 1)]
        else [(''UnusedBits2'', 3)])
     @ [(''SVCALLACT'', 1), (''MONITORACT'', 1), (''UnusedBits3'', 1), (''PENDSVACT'', 1), (''SYSTICKACT'', 1),
        (''USGFAULTPENDED'', 1), (''MEMFAULTPENDED'', 1), (''BUSFAULTPENDED'', 1), (''SVCALLPENDED'', 1),
        (''MEMFAULTENA'', 1), (''BUSFAULTENA'', 1), (''USGFAULTENA'', 1)]
     @ (if cpu = CMB_CPU_ARM_CORTEX_M33
        then [(''SECUREFAULTENA'', 1), (''SECUREFAULTPENDED'', 1), (''HARDFAULTPENDED'', 1)] else [])"

definition mfsr_bits :: layout where
  "mfsr_bits = [(''IACCVIOL'', 1), (''DACCVIOL'', 1), (''UnusedBits'', 1), (''MUNSTKERR'', 1), (''MSTKERR'', 1),
     (''MLSPERR'', 1), (''UnusedBits2'', 1), (''MMARVALID'', 1)]"

definition bfsr_bits :: layout where
  "bfsr_bits = [(''IBUSERR'', 1), (''PRECISERR'', 1), (''IMPREISERR'', 1), (''UNSTKERR'', 1), (''STKERR'', 1),
     (''LSPERR'', 1), (''UnusedBits'', 1), (''BFARVALID'', 1)]"

definition ufsr_bits :: "cpu_platform \<Rightarrow> layout" where
  "ufsr_bits cpu = [(''UNDEFINSTR'', 1), (''INVSTATE'', 1), (''INVPC'', 1), (''NOCP'', 1)]
     @ (if cpu = CMB_CPU_ARM_CORTEX_M33 then [(''STKOF'', 1), (''UnusedBits'', 3)] else [(''UnusedBits'', 4)])
     @ [(''UNALIGNED'', 1), (''DIVBYZERO0'', 1)]"

definition hfsr_bits :: layout where
  "hfsr_bits = [(''UnusedBits'', 1), (''VECTBL'', 1), (''UnusedBits2'', 28), (''FORCED'', 1), (''DEBUGEVT'', 1)]"

definition dfsr_bits :: layout where
  "dfsr_bits = [(''HALTED'', 1), (''BKPT'', 1), (''DWTTRAP'', 1), (''VCATCH'', 1), (''EXTERNAL'', 1)]"

section \<open>Registers\<close>

text \<open>\<open>struct cmb_hard_fault_regs\<close>: the registers the processor saves when it enters a handler, and those that
  say what happened.\<close>

record saved_regs =
  sr_r0 :: u32
  sr_r1 :: u32
  sr_r2 :: u32
  sr_r3 :: u32
  sr_r12 :: u32
  sr_lr :: u32
  sr_pc :: u32
  sr_psr :: u32

record hard_fault_regs =
  hf_saved :: saved_regs
  hf_syshndctrl :: u32
  hf_mfsr :: u8
  hf_mmar :: u32
  hf_bfsr :: u8
  hf_bfar :: u32
  hf_ufsr :: u16
  hf_hfsr :: u32
  hf_dfsr :: u32
  hf_afsr :: u32

definition saved_registers :: "memory \<Rightarrow> u32 \<Rightarrow> saved_regs" where
  "saved_registers mem a = \<lparr> sr_r0 = load32 mem a, sr_r1 = load32 mem (a + 4), sr_r2 = load32 mem (a + 8),
     sr_r3 = load32 mem (a + 12), sr_r12 = load32 mem (a + 16), sr_lr = load32 mem (a + 20), sr_pc = load32 mem (a + 24),
     sr_psr = load32 mem (a + 28) \<rparr>"

text \<open>The macros for the registers of the processor, each read with the width of its pointer.\<close>

definition CMB_SYSHND_CTRL :: "memory \<Rightarrow> u32" where "CMB_SYSHND_CTRL mem = load32 mem 0xE000ED24"
definition CMB_NVIC_MFSR :: "memory \<Rightarrow> u8" where "CMB_NVIC_MFSR mem = mem 0xE000ED28"
definition CMB_NVIC_BFSR :: "memory \<Rightarrow> u8" where "CMB_NVIC_BFSR mem = mem 0xE000ED29"
definition CMB_NVIC_UFSR :: "memory \<Rightarrow> u16" where "CMB_NVIC_UFSR mem = load16 mem 0xE000ED2A"
definition CMB_NVIC_HFSR :: "memory \<Rightarrow> u32" where "CMB_NVIC_HFSR mem = load32 mem 0xE000ED2C"
definition CMB_NVIC_DFSR :: "memory \<Rightarrow> u16" where "CMB_NVIC_DFSR mem = load16 mem 0xE000ED30"
definition CMB_NVIC_MMAR :: "memory \<Rightarrow> u32" where "CMB_NVIC_MMAR mem = load32 mem 0xE000ED34"
definition CMB_NVIC_BFAR :: "memory \<Rightarrow> u32" where "CMB_NVIC_BFAR mem = load32 mem 0xE000ED38"
definition CMB_NVIC_AFSR :: "memory \<Rightarrow> u16" where "CMB_NVIC_AFSR mem = load16 mem 0xE000ED3C"

definition fault_registers :: "memory \<Rightarrow> hard_fault_regs \<Rightarrow> hard_fault_regs" where
  "fault_registers mem r = r\<lparr>hf_syshndctrl := CMB_SYSHND_CTRL mem, hf_mfsr := CMB_NVIC_MFSR mem,
     hf_mmar := CMB_NVIC_MMAR mem, hf_bfsr := CMB_NVIC_BFSR mem, hf_bfar := CMB_NVIC_BFAR mem,
     hf_ufsr := CMB_NVIC_UFSR mem, hf_hfsr := CMB_NVIC_HFSR mem, hf_dfsr := ucast (CMB_NVIC_DFSR mem),
     hf_afsr := ucast (CMB_NVIC_AFSR mem)\<rparr>"

section \<open>Fault diagnosis\<close>

definition print_if :: "bool \<Rightarrow> print_id \<Rightarrow> bytes list" where
  "print_if c i = (if c then [cmb_println i []] else [])"

definition fault_diagnosis :: "cpu_platform \<Rightarrow> hard_fault_regs \<Rightarrow> bytes list" where
  "fault_diagnosis cpu r =
     print_if (field hfsr_bits ''VECTBL'' (hf_hfsr r) \<noteq> 0) PRINT_HFSR_VECTBL
     @ (if field hfsr_bits ''FORCED'' (hf_hfsr r) \<noteq> 0 then
          (if hf_mfsr r \<noteq> 0 then
             print_if (field mfsr_bits ''IACCVIOL'' (hf_mfsr r) \<noteq> 0) PRINT_MFSR_IACCVIOL
             @ print_if (field mfsr_bits ''DACCVIOL'' (hf_mfsr r) \<noteq> 0) PRINT_MFSR_DACCVIOL
             @ print_if (field mfsr_bits ''MUNSTKERR'' (hf_mfsr r) \<noteq> 0) PRINT_MFSR_MUNSTKERR
             @ print_if (field mfsr_bits ''MSTKERR'' (hf_mfsr r) \<noteq> 0) PRINT_MFSR_MSTKERR
             @ (if lazy_fpu cpu then print_if (field mfsr_bits ''MLSPERR'' (hf_mfsr r) \<noteq> 0) PRINT_MFSR_MLSPERR else [])
             @ (if field mfsr_bits ''MMARVALID'' (hf_mfsr r) \<noteq> 0 then
                  (if field mfsr_bits ''IACCVIOL'' (hf_mfsr r) \<noteq> 0 \<or> field mfsr_bits ''DACCVIOL'' (hf_mfsr r) \<noteq> 0
                   then [cmb_println PRINT_MMAR [Word (hf_mmar r)]] else [])
                else [])
           else [])
          @ (if hf_bfsr r \<noteq> 0 then
             print_if (field bfsr_bits ''IBUSERR'' (hf_bfsr r) \<noteq> 0) PRINT_BFSR_IBUSERR
             @ print_if (field bfsr_bits ''PRECISERR'' (hf_bfsr r) \<noteq> 0) PRINT_BFSR_PRECISERR
             @ print_if (field bfsr_bits ''IMPREISERR'' (hf_bfsr r) \<noteq> 0) PRINT_BFSR_IMPREISERR
             @ print_if (field bfsr_bits ''UNSTKERR'' (hf_bfsr r) \<noteq> 0) PRINT_BFSR_UNSTKERR
             @ print_if (field bfsr_bits ''STKERR'' (hf_bfsr r) \<noteq> 0) PRINT_BFSR_STKERR
             @ (if lazy_fpu cpu then print_if (field bfsr_bits ''LSPERR'' (hf_bfsr r) \<noteq> 0) PRINT_BFSR_LSPERR else [])
             @ (if field bfsr_bits ''BFARVALID'' (hf_bfsr r) \<noteq> 0 then
                  (if field bfsr_bits ''PRECISERR'' (hf_bfsr r) \<noteq> 0
                   then [cmb_println PRINT_BFAR [Word (hf_bfar r)]] else [])
                else [])
           else [])
          @ (if hf_ufsr r \<noteq> 0 then
             print_if (field (ufsr_bits cpu) ''UNDEFINSTR'' (hf_ufsr r) \<noteq> 0) PRINT_UFSR_UNDEFINSTR
             @ print_if (field (ufsr_bits cpu) ''INVSTATE'' (hf_ufsr r) \<noteq> 0) PRINT_UFSR_INVSTATE
             @ print_if (field (ufsr_bits cpu) ''INVPC'' (hf_ufsr r) \<noteq> 0) PRINT_UFSR_INVPC
             @ print_if (field (ufsr_bits cpu) ''NOCP'' (hf_ufsr r) \<noteq> 0) PRINT_UFSR_NOCP
             @ (if cpu = CMB_CPU_ARM_CORTEX_M33
                then print_if (field (ufsr_bits cpu) ''STKOF'' (hf_ufsr r) \<noteq> 0) PRINT_UFSR_STKOF else [])
             @ print_if (field (ufsr_bits cpu) ''UNALIGNED'' (hf_ufsr r) \<noteq> 0) PRINT_UFSR_UNALIGNED
             @ print_if (field (ufsr_bits cpu) ''DIVBYZERO0'' (hf_ufsr r) \<noteq> 0) PRINT_UFSR_DIVBYZERO0
           else [])
        else [])
     @ (if field hfsr_bits ''DEBUGEVT'' (hf_hfsr r) \<noteq> 0 then
          (if hf_dfsr r \<noteq> 0 then
             print_if (field dfsr_bits ''HALTED'' (hf_dfsr r) \<noteq> 0) PRINT_DFSR_HALTED
             @ print_if (field dfsr_bits ''BKPT'' (hf_dfsr r) \<noteq> 0) PRINT_DFSR_BKPT
             @ print_if (field dfsr_bits ''DWTTRAP'' (hf_dfsr r) \<noteq> 0) PRINT_DFSR_DWTTRAP
             @ print_if (field dfsr_bits ''VCATCH'' (hf_dfsr r) \<noteq> 0) PRINT_DFSR_VCATCH
             @ print_if (field dfsr_bits ''EXTERNAL'' (hf_dfsr r) \<noteq> 0) PRINT_DFSR_EXTERNAL
           else [])
        else [])"

text \<open>\<open>statck_del_fpu_regs\<close>: whether the frame of the fault has floating-point registers, and the stack pointer
  behind them.\<close>

definition statck_del_fpu_regs :: "u32 \<Rightarrow> u32 \<Rightarrow> bool \<times> u32" where
  "statck_del_fpu_regs fault_handler_lr sp =
     (let fpu = (fault_handler_lr AND push_bit 4 1 = 0) in (fpu, if fpu then sp + 4 * 18 else sp))"

end
