(* ===== verification/Cm_Backtrace.thy ===== *)
theory Cm_Backtrace
  imports Cmb_Registers
begin

text \<open>
  The call-stack scanner of \<open>pico_logger/cm_backtrace\<close>, without an operating system and without a dump of
  the stack, as the repository configures it, for every processor: every word of the stack that could be a return
  address into the program, because the instruction before it is a call, is taken for one. \<^const>\<open>None\<close> as a result
  is an access outside an array (or a scan that does not end).
\<close>

section \<open>Data\<close>

definition CMB_CALL_STACK_MAX_DEPTH :: nat where "CMB_CALL_STACK_MAX_DEPTH = 50"

record backtrace =
  bt_fw_name :: bytes
  bt_hw_ver :: bytes
  bt_sw_ver :: bytes
  bt_main_stack_start :: u32
  bt_main_stack_size :: u32
  bt_code_start :: u32
  bt_code_size :: u32
  bt_init_ok :: bool
  bt_on_fault :: bool
  bt_stack_is_overflow :: bool
  bt_call_stack_info :: bytes
  bt_statck_has_fpu_regs :: bool
  bt_regs :: hard_fault_regs

text \<open>The addresses the linker provides.\<close>

record linker_map =
  lm_stack_start :: u32
  lm_stack_end :: u32
  lm_code_start :: u32
  lm_code_end :: u32

text \<open>\<open>buffer[i]\<close> and \<open>buffer[i] = v\<close> of an array of words.\<close>

definition words_read :: "u32 list \<Rightarrow> nat \<Rightarrow> u32 option" where
  "words_read ws i = (if i < length ws then Some (ws ! i) else None)"

definition words_write :: "u32 list \<Rightarrow> nat \<Rightarrow> u32 \<Rightarrow> u32 list option" where
  "words_write ws i v = (if i < length ws then Some (ws[i := v]) else None)"

section \<open>The messages\<close>

text \<open>Each operation returns the texts it prints, in order; \<open>cmb_println\<close> is \<open>trace\<close>.\<close>

definition firmware_info :: "backtrace \<Rightarrow> bytes" where
  "firmware_info b = cmb_println PRINT_FIRMWARE_INFO [Str (bt_fw_name b), Str (bt_hw_ver b), Str (bt_sw_ver b)]"

definition cm_backtrace_init ::
    "linker_map \<Rightarrow> bytes \<Rightarrow> bytes \<Rightarrow> bytes \<Rightarrow> backtrace \<Rightarrow> backtrace \<times> bytes list" where
  "cm_backtrace_init lm fw hw sw b =
     (let b = b\<lparr>bt_fw_name := fw, bt_hw_ver := hw, bt_sw_ver := sw,
        bt_main_stack_start := lm_stack_start lm, bt_main_stack_size := lm_stack_end lm - lm_stack_start lm,
        bt_code_start := lm_code_start lm, bt_code_size := lm_code_end lm - lm_code_start lm\<rparr> in
      if bt_main_stack_size b = 0
      then (b, [cmb_println PRINT_MAIN_STACK_CFG_ERROR []])
      else (b\<lparr>bt_init_ok := True\<rparr>, []))"

section \<open>Scanning the stack\<close>

definition disassembly_ins_is_bl_blx :: "memory \<Rightarrow> u32 \<Rightarrow> bool" where
  "disassembly_ins_is_bl_blx mem addr =
     (let ins1 = load16 mem addr; ins2 = load16 mem (addr + 2) in
      if ins2 AND 0xF800 = 0xF800 \<and> ins1 AND 0xF800 = 0xF000 then True
      else if ins2 AND 0xFF00 = 0x4700 then True
      else False)"

text \<open>The loop over the words from \<open>sp\<close> to \<open>stack_end\<close>, with the words found so far.\<close>

partial_function (option) scan_stack ::
    "backtrace \<Rightarrow> memory \<Rightarrow> nat \<Rightarrow> bool \<Rightarrow> u32 \<Rightarrow> u32 list \<Rightarrow> nat \<Rightarrow> u32 \<Rightarrow> (u32 list \<times> nat) option" where
  "scan_stack b mem bufsize lr_valid stack_end buffer depth sp =
     (if sp < stack_end then
        (if (load32 mem sp - 4) mod 2 = 0 then scan_stack b mem bufsize lr_valid stack_end buffer depth (sp + 4)
         else
           (let pc = load32 mem sp - 1 in
            if pc \<ge> bt_code_start b + 4 \<and> pc \<le> bt_code_start b + bt_code_size b \<and> depth < CMB_CALL_STACK_MAX_DEPTH
               \<and> disassembly_ins_is_bl_blx mem (pc - 4) \<and> depth < bufsize
            then
              (if depth = 2 \<and> lr_valid \<and> words_read buffer 1 = Some pc
               then scan_stack b mem bufsize lr_valid stack_end buffer depth (sp + 4)
               else Option.bind (words_write buffer depth pc) (\<lambda>buffer.
                 scan_stack b mem bufsize lr_valid stack_end buffer (depth + 1) (sp + 4)))
            else scan_stack b mem bufsize lr_valid stack_end buffer depth (sp + 4)))
      else Some (buffer, depth))"

declare scan_stack.simps [code]

definition cm_backtrace_call_stack_any ::
    "backtrace \<Rightarrow> memory \<Rightarrow> u32 list \<Rightarrow> nat \<Rightarrow> u32 \<Rightarrow> u32 \<Rightarrow> u32 \<Rightarrow> (u32 list \<times> nat) option" where
  "cm_backtrace_call_stack_any b mem buffer bufsize sp stack_start_addr stack_size =
     scan_stack b mem bufsize False (stack_start_addr + stack_size) buffer 0 sp"

definition cm_backtrace_call_stack ::
    "backtrace \<Rightarrow> memory \<Rightarrow> u32 list \<Rightarrow> nat \<Rightarrow> u32 \<Rightarrow> (u32 list \<times> nat) option" where
  "cm_backtrace_call_stack b mem buffer bufsize sp = do {
     (buffer, depth, lr_valid) \<leftarrow>
       (if bt_on_fault b \<and> \<not> bt_stack_is_overflow b then do {
          buffer \<leftarrow> words_write buffer 0 (sr_pc (hf_saved (bt_regs b)));
          let pc = sr_lr (hf_saved (bt_regs b)) - 1;
          if pc \<ge> bt_code_start b \<and> pc \<le> bt_code_start b + bt_code_size b \<and> 1 < CMB_CALL_STACK_MAX_DEPTH \<and> 1 < bufsize
          then do { buffer \<leftarrow> words_write buffer 1 pc; Some (buffer, 2, True) }
          else Some (buffer, 1, False)
        } else Some (buffer, 0, False));
     let sp = (if bt_stack_is_overflow b then bt_main_stack_start b else sp);
     scan_stack b mem bufsize lr_valid (bt_main_stack_start b + bt_main_stack_size b) buffer depth sp
   }"

section \<open>Printing\<close>

text \<open>The loop of \<open>cm_print_call_stack\<close>, from entry \<open>i\<close> on: eight digits and a blank for each address.\<close>

function print_addresses :: "u32 list \<Rightarrow> nat \<Rightarrow> nat \<Rightarrow> bytes \<Rightarrow> bytes option" where
  "print_addresses buf depth i info =
     (if i < depth then do {
        a \<leftarrow> words_read buf i;
        info \<leftarrow> mem_copy info (i * 9) (hex8 a @ [0]);
        info \<leftarrow> mem_write info (i * 9 + 8) 0x20;
        print_addresses buf depth (i + 1) info
      } else Some info)"
  by pat_completeness auto
termination by (relation "measure (\<lambda>(_, depth, i, _). depth - i)") auto

declare print_addresses.simps [simp del]

definition CMB_ELF_FILE_EXTENSION_NAME :: bytes where "CMB_ELF_FILE_EXTENSION_NAME = ascii ''.elf''"

definition cm_print_call_stack :: "u32 list \<Rightarrow> nat \<Rightarrow> backtrace \<Rightarrow> (backtrace \<times> bytes list) option" where
  "cm_print_call_stack buf depth b = do {
     info \<leftarrow> print_addresses buf depth 0 (bt_call_stack_info b);
     let b = b\<lparr>bt_call_stack_info := info\<rparr>;
     Some (b,
       if depth \<noteq> 0 then
         [cmb_println PRINT_CALL_STACK_INFO [Str (bt_fw_name b), Str CMB_ELF_FILE_EXTENSION_NAME, Num (int (depth * 9)),
            Str (c_string info 0)]]
       else [cmb_println PRINT_CALL_STACK_ERR []])
   }"

definition print_call_stack :: "memory \<Rightarrow> u32 \<Rightarrow> backtrace \<Rightarrow> (backtrace \<times> bytes list) option" where
  "print_call_stack mem sp b = do {
     (buf, depth) \<leftarrow> cm_backtrace_call_stack b mem (replicate CMB_CALL_STACK_MAX_DEPTH 0) CMB_CALL_STACK_MAX_DEPTH sp;
     cm_print_call_stack buf depth b
   }"

text \<open>\<open>CMB_ASSERT\<close> prints and goes on.\<close>

definition cmb_assert :: "bool \<Rightarrow> bytes \<Rightarrow> bytes \<Rightarrow> bytes list" where
  "cmb_assert ok expr fn_name =
     (if ok then [] else [ascii ''('' @ expr @ ascii '') has assert failed at '' @ fn_name @ ascii ''.''])"

definition cm_backtrace_assert :: "memory \<Rightarrow> u32 \<Rightarrow> backtrace \<Rightarrow> (backtrace \<times> bytes list) option" where
  "cm_backtrace_assert mem sp b = do {
     (b', ms) \<leftarrow> print_call_stack mem sp b;
     Some (b', cmb_assert (bt_init_ok b) (ascii ''init_ok'') (ascii ''cm_backtrace_assert'') @ [firmware_info b] @ ms)
   }"

text \<open>The lines of registers, four a line.\<close>

definition regs_line :: "(string \<times> u32) list \<Rightarrow> bytes" where
  "regs_line rs = c_format ''  %s: %08x  %s: %08x  %s: %08x  %s: %08x'' (concat (map (\<lambda>(n, v). [Str (ascii n), Word v]) rs))"

text \<open>\<open>cm_backtrace_fault\<close> behind its call of \<open>fault_init\<close>, up to the restart, on a processor.\<close>

definition cm_backtrace_fault :: "cpu_platform \<Rightarrow> memory \<Rightarrow> u32 \<Rightarrow> u32 \<Rightarrow> backtrace \<Rightarrow> (backtrace \<times> bytes list) option" where
  "cm_backtrace_fault cpu mem fault_handler_lr fault_handler_sp b =
     (let stack_pointer = fault_handler_sp;
          saved_regs_addr = stack_pointer;
          asserts = cmb_assert (bt_init_ok b) (ascii ''init_ok'') (ascii ''cm_backtrace_fault'')
            @ cmb_assert (\<not> bt_on_fault b) (ascii ''!on_fault'') (ascii ''cm_backtrace_fault'');
          b = b\<lparr>bt_on_fault := True\<rparr>;
          head = [[], firmware_info b, cmb_println PRINT_FAULT_ON_HANDLER []];
          stack_pointer = stack_pointer + 4 * 8;
          (b, stack_pointer) =
            (if lazy_fpu cpu then
               (case statck_del_fpu_regs fault_handler_lr stack_pointer of
                  (fpu, sp) \<Rightarrow> (b\<lparr>bt_statck_has_fpu_regs := fpu\<rparr>, sp))
             else (b, stack_pointer));
          r = saved_registers mem saved_regs_addr;
          b = b\<lparr>bt_regs := (bt_regs b)\<lparr>hf_saved := r\<rparr>\<rparr>;
          regs = [cmb_println PRINT_REGS_TITLE [],
            regs_line [(''R0 '', sr_r0 r), (''R1 '', sr_r1 r), (''R2 '', sr_r2 r), (''R3 '', sr_r3 r)],
            regs_line [(''R12'', sr_r12 r), (''LR '', sr_lr r), (''PC '', sr_pc r), (''PSR'', sr_psr r)],
            ascii ''==============================================================''];
          (b, diagnosis) =
            (if cpu \<noteq> CMB_CPU_ARM_CORTEX_M0 then
               (let b = b\<lparr>bt_regs := fault_registers mem (bt_regs b)\<rparr> in (b, fault_diagnosis cpu (bt_regs b)))
             else (b, []))
      in do {
        (b, ms) \<leftarrow> print_call_stack mem stack_pointer b;
        Some (b, asserts @ head @ regs @ diagnosis @ ms)
      })"

end
