(* ===== verification/Pico_Logger.thy ===== *)
theory Pico_Logger
  imports Cm_Backtrace Session_Interface
begin

text \<open>
  \<open>pico_logger/pico_logger.c\<close>: messages over UDP, and the call stack of a crash, which is kept in
  memory that a restart leaves alone and reported after it; and the watchdog, an alarm of the timer that does the
  same when it is not put off. The UDP layer of lwIP, the clock, the timer and the stack memory are parameters. Texts are complete, with their arguments formatted; \<^const>\<open>None\<close>
  is an access outside a buffer or through a null pointer.
\<close>

section \<open>Data\<close>

definition BUFFER_SIZE :: nat where "BUFFER_SIZE = 1500"
definition ADDRESS_SIZE :: nat where "ADDRESS_SIZE = 46"
definition MAGIC_CALLSTACK :: u32 where "MAGIC_CALLSTACK = 0xdeadbeef"

text \<open>The two upstream control blocks are told apart by a flag, true for the binary one.\<close>

record 'n udp =
  ud_server_ok :: bool
  ud_bind :: "bool \<Rightarrow> u16 \<Rightarrow> 'n \<Rightarrow> err \<times> 'n"
  ud_connect :: "bool \<Rightarrow> 'n \<Rightarrow> 'n"
  ud_alloc :: "nat \<Rightarrow> 'n \<Rightarrow> bool"
  ud_send :: "bool \<Rightarrow> bytes \<Rightarrow> 'n \<Rightarrow> err \<times> 'n"
  ud_address :: "'n \<Rightarrow> bytes"
  ud_time_us :: "'n \<Rightarrow> u64"
  ud_timer :: "'n \<Rightarrow> u32"
  ud_busy_wait_us :: "u64 \<Rightarrow> 'n \<Rightarrow> 'n"
  ud_watchdog :: "'n \<Rightarrow> int \<times> int"

text \<open>The variables in uninitialised RAM.\<close>

record retained =
  rt_last_command :: u32
  rt_cur_depth :: u32
  rt_call_stack_buf :: "u32 list"

datatype exception_number = HARDFAULT_EXCEPTION | SVCALL_EXCEPTION | PENDSV_EXCEPTION | NMI_EXCEPTION

text \<open>\<open>lg_handlers\<close> are the exceptions \<open>HardFault_Handler\<close> is set for; \<open>lg_intr\<close> and \<open>lg_inte\<close> are the bits of alarm 0
  in the registers of the timer, the latter together with the interrupt in the processor; \<open>lg_alarm\<close> is the alarm
  while it is armed.\<close>

record 'n logger =
  lg_buffer :: bytes
  lg_address :: bytes
  lg_count :: int
  lg_watchdog_timeout_us :: u32
  lg_handlers :: "exception_number list"
  lg_intr :: bool
  lg_inte :: bool
  lg_alarm :: "u32 option"
  lg_retained :: retained
  lg_backtrace :: backtrace
  lg_net :: 'n

text \<open>The processor after a write of the restart request to AIRCR.\<close>

datatype 'n device = Running "'n logger" | Restarting "'n logger"

definition get_logging_id :: "'n logger \<Rightarrow> bytes" where
  "get_logging_id lg = lg_address lg"

definition safestr :: "bytes option \<Rightarrow> bytes" where
  "safestr s = (case s of None \<Rightarrow> ascii ''null'' | Some s \<Rightarrow> s)"

section \<open>Messages\<close>

definition log_header :: "int \<Rightarrow> int \<Rightarrow> bytes \<Rightarrow> bytes \<Rightarrow> bytes" where
  "log_header n time address category =
     pad_left 3 (decimal n) @ [0x20] @ pad_left 8 (decimal time) @ [0x20] @ address @ [0x20] @ category @ [0x20]"

text \<open>\<open>int time = to_us_since_boot(...) / 1000\<close>: 32 bits with a sign.\<close>

definition boot_time_ms :: "u64 \<Rightarrow> int" where
  "boot_time_ms us = sint (ucast (us div 1000) :: u32)"

text \<open>The two corrections behind \<open>vsnprintf\<close>: the line ends in a newline where there is room for one, and
  a line that did not fit is cut.\<close>

definition end_line :: "bytes \<Rightarrow> nat \<Rightarrow> (bytes \<times> nat) option" where
  "end_line buf sz =
     (if sz < BUFFER_SIZE - 1 then do {
        final \<leftarrow> mem_read buf (sz - 1);
        if final \<noteq> 0x0A then do {
          buf \<leftarrow> mem_write buf sz 0x0A;
          buf \<leftarrow> mem_write buf (sz + 1) 0;
          Some (buf, sz + 1)
        } else Some (buf, sz)
      } else Some (buf, sz))"

definition cut_line :: "bytes \<Rightarrow> nat \<Rightarrow> (bytes \<times> nat) option" where
  "cut_line buf sz =
     (if sz > BUFFER_SIZE then do { buf \<leftarrow> mem_write buf (BUFFER_SIZE - 1) 0; Some (buf, BUFFER_SIZE) }
      else Some (buf, sz))"

definition send_message :: "'n udp \<Rightarrow> bytes \<Rightarrow> bytes \<Rightarrow> 'n logger \<Rightarrow> 'n logger option" where
  "send_message u category message lg = do {
     (buf, sz) \<leftarrow> snprintf (lg_buffer lg) 0 BUFFER_SIZE
       (log_header (lg_count lg) (boot_time_ms (ud_time_us u (lg_net lg))) (lg_address lg) category);
     (buf, sz, n) \<leftarrow>
       (if sz < BUFFER_SIZE - 1 then do {
          (buf, written) \<leftarrow> snprintf buf sz (BUFFER_SIZE - sz - 1) message;
          (buf, sz) \<leftarrow> end_line buf (sz + written);
          (buf, sz) \<leftarrow> cut_line buf sz;
          Some (buf, sz, (lg_count lg + 1) mod 999)
        } else Some (buf, sz, lg_count lg));
     let lg = lg\<lparr>lg_buffer := buf, lg_count := n\<rparr>;
     if ud_alloc u sz (lg_net lg) then do {
       packet \<leftarrow> mem_slice buf 0 sz;
       Some (lg\<lparr>lg_net := snd (ud_send u False packet (lg_net lg))\<rparr>)
     } else Some lg
   }"

definition trace :: "'n udp \<Rightarrow> bytes \<Rightarrow> 'n logger \<Rightarrow> 'n logger option" where
  "trace u message lg = send_message u (ascii ''trace'') message lg"

fun trace_all :: "'n udp \<Rightarrow> bytes list \<Rightarrow> 'n logger \<Rightarrow> 'n logger option" where
  "trace_all u [] lg = Some lg"
| "trace_all u (m # ms) lg = Option.bind (trace u m lg) (trace_all u ms)"

definition trace_bytes :: "'n udp \<Rightarrow> bytes \<Rightarrow> 'n logger \<Rightarrow> 'n logger option" where
  "trace_bytes u data lg =
     (if ud_alloc u (length data) (lg_net lg)
      then Some (lg\<lparr>lg_net := snd (ud_send u True data (lg_net lg))\<rparr>) else None)"

section \<open>Crashes\<close>

definition fault_init :: "memory \<Rightarrow> u32 \<Rightarrow> 'n logger \<Rightarrow> 'n logger option" where
  "fault_init mem fault_handler_sp lg = do {
     let rt = (lg_retained lg)\<lparr>rt_cur_depth := 0, rt_last_command := MAGIC_CALLSTACK\<rparr>;
     (buf, depth) \<leftarrow> cm_backtrace_call_stack (lg_backtrace lg) mem (rt_call_stack_buf rt)
       CMB_CALL_STACK_MAX_DEPTH fault_handler_sp;
     Some (lg\<lparr>lg_retained := rt\<lparr>rt_call_stack_buf := buf, rt_cur_depth := of_nat depth\<rparr>\<rparr>)
   }"

definition clear_saved_crash :: "'n logger \<Rightarrow> 'n logger" where
  "clear_saved_crash lg = lg\<lparr>lg_retained := (lg_retained lg)\<lparr>rt_last_command := 0\<rparr>\<rparr>"

text \<open>Print what \<open>cm_backtrace\<close> has to say.\<close>

definition backtrace_prints ::
    "'n udp \<Rightarrow> (backtrace \<Rightarrow> (backtrace \<times> bytes list) option) \<Rightarrow> 'n logger \<Rightarrow> 'n logger option" where
  "backtrace_prints u f lg = do {
     (b, ms) \<leftarrow> f (lg_backtrace lg);
     trace_all u ms (lg\<lparr>lg_backtrace := b\<rparr>)
   }"

definition last_boot_info :: "int \<times> int \<Rightarrow> retained \<Rightarrow> bytes" where
  "last_boot_info watchdog rt =
     ascii ''report_saved_crash: last boot info, watchdog: '' @ decimal (fst watchdog) @ ascii ''/'' @ decimal (snd watchdog)
     @ ascii '', last_command: 0x'' @ hex (rt_last_command rt) @ ascii '', cur_depth: '' @ decimal (sint (rt_cur_depth rt))"

definition report_saved_crash :: "'n udp \<Rightarrow> 'n logger \<Rightarrow> 'n logger option" where
  "report_saved_crash u lg =
     (let rt = lg_retained lg in
      if rt_last_command rt \<noteq> MAGIC_CALLSTACK then Some (lg\<lparr>lg_retained := rt\<lparr>rt_last_command := 0\<rparr>\<rparr>)
      else if unat (rt_cur_depth rt) > CMB_CALL_STACK_MAX_DEPTH \<or> rt_cur_depth rt = 0 then Some lg
      else do {
        lg \<leftarrow> trace u (last_boot_info (ud_watchdog u (lg_net lg)) rt) lg;
        backtrace_prints u (cm_print_call_stack (rt_call_stack_buf rt) (unat (rt_cur_depth rt))) lg
      })"

definition trace_stack :: "'n udp \<Rightarrow> memory \<Rightarrow> u32 \<Rightarrow> 'n logger \<Rightarrow> 'n logger option" where
  "trace_stack u mem sp lg = backtrace_prints u (cm_backtrace_assert mem sp) lg"

text \<open>\<open>force_restart\<close>: three seconds for the messages to leave, then the restart.\<close>

definition force_restart :: "'n udp \<Rightarrow> 'n logger \<Rightarrow> 'n device" where
  "force_restart u lg = Restarting (lg\<lparr>lg_net := (ud_busy_wait_us u 1000000 ^^ 3) (lg_net lg)\<rparr>)"

text \<open>What the fault handler runs.\<close>

definition fault_handler :: "'n udp \<Rightarrow> memory \<Rightarrow> u32 \<Rightarrow> u32 \<Rightarrow> 'n logger \<Rightarrow> 'n device option" where
  "fault_handler u mem lr sp lg = do {
     lg \<leftarrow> fault_init mem sp lg;
     lg \<leftarrow> backtrace_prints u (cm_backtrace_fault CMB_CPU_PLATFORM_TYPE mem lr sp) lg;
     Some (force_restart u lg)
   }"

text \<open>\<open>fail\<close> and \<open>pico_logger_panic\<close>; neither looks at its arguments.\<close>

definition fail :: "memory \<Rightarrow> u32 \<Rightarrow> 'n logger \<Rightarrow> 'n device option" where
  "fail mem sp lg = do { lg \<leftarrow> fault_init mem sp lg; Some (Restarting lg) }"

definition pico_logger_panic :: "memory \<Rightarrow> u32 \<Rightarrow> 'n logger \<Rightarrow> 'n device option" where
  "pico_logger_panic mem sp lg = do { lg \<leftarrow> fault_init mem sp lg; Some (Restarting lg) }"

text \<open>The handler of the alarm interrupt.\<close>

definition watchdog_timeout :: "memory \<Rightarrow> u32 \<Rightarrow> 'n logger \<Rightarrow> 'n device option" where
  "watchdog_timeout mem sp lg = do {
     let lg = lg\<lparr>lg_intr := False\<rparr>;
     lg \<leftarrow> fault_init mem sp lg;
     Some (Restarting lg)
   }"

section \<open>Starting\<close>

definition update_watchdog :: "'n udp \<Rightarrow> 'n logger \<Rightarrow> 'n logger" where
  "update_watchdog u lg = lg\<lparr>lg_alarm := Some (ud_timer u (lg_net lg) + lg_watchdog_timeout_us lg)\<rparr>"

definition start_logging_server ::
    "'n udp \<Rightarrow> linker_map \<Rightarrow> bytes \<Rightarrow> bytes \<Rightarrow> bytes \<Rightarrow> u32 \<Rightarrow> 'n logger \<Rightarrow> (int \<times> 'n logger) option" where
  "start_logging_server u lm binary_name hardware_name software_version watchdog_ms lg = do {
     lg \<leftarrow> backtrace_prints u (\<lambda>b. Some (cm_backtrace_init lm binary_name hardware_name software_version b)) lg;
     if \<not> ud_server_ok u then Some (0, lg)
     else
       (case ud_bind u False 5000 (lg_net lg) of
          (e, net) \<Rightarrow>
            if e \<noteq> ERR_OK then Some (0, lg\<lparr>lg_net := net\<rparr>)
            else
              (case ud_bind u True 5001 (ud_connect u False net) of
                 (e, net) \<Rightarrow>
                   if e \<noteq> ERR_OK then Some (0, lg\<lparr>lg_net := net\<rparr>)
                   else do {
                     let net = ud_connect u True net;
                     let lg = lg\<lparr>lg_handlers := [HARDFAULT_EXCEPTION, SVCALL_EXCEPTION, PENDSV_EXCEPTION, NMI_EXCEPTION], lg_net := net,
                       lg_address := take (ADDRESS_SIZE - 1) (ud_address u net)\<rparr>;
                     let lg = (if watchdog_ms \<noteq> 0
                       then (let lg = lg\<lparr>lg_watchdog_timeout_us := watchdog_ms * 1000, lg_inte := True\<rparr> in
                         lg\<lparr>lg_alarm := Some (ud_timer u (lg_net lg) + lg_watchdog_timeout_us lg)\<rparr>)
                       else lg);
                     lg \<leftarrow> report_saved_crash u lg;
                     Some (1, lg)
                   }))
   }"

end
