(* ===== verification/Cm_Backtrace_Spec.thy ===== *)
theory Cm_Backtrace_Spec
  imports Cm_Backtrace
begin

text \<open>
  What a scan finds on the stack, and how the addresses it found are printed.
\<close>

section \<open>The call stack\<close>

text \<open>The words of the stack, and those that are taken for return addresses.\<close>

definition stack_words :: "memory \<Rightarrow> u32 \<Rightarrow> u32 \<Rightarrow> u32 list" where
  "stack_words mem sp stack_end =
     map (\<lambda>k. load32 mem (sp + 4 * of_nat k)) [0..<(unat stack_end - unat sp + 3) div 4]"

definition is_return_address :: "backtrace \<Rightarrow> memory \<Rightarrow> u32 \<Rightarrow> bool" where
  "is_return_address b mem w \<longleftrightarrow> bit w 0 \<and> bt_code_start b + 4 \<le> w - 1 \<and>
     w - 1 \<le> bt_code_start b + bt_code_size b \<and> disassembly_ins_is_bl_blx mem (w - 1 - 4)"

definition return_addresses :: "backtrace \<Rightarrow> memory \<Rightarrow> u32 \<Rightarrow> u32 \<Rightarrow> u32 list" where
  "return_addresses b mem sp stack_end =
     map (\<lambda>w. w - 1) (filter (is_return_address b mem) (stack_words mem sp stack_end))"

lemma unat_plus_4:
  assumes "sp < stack_end" and "stack_end \<le> (0xFFFFFFFC :: u32)"
  shows "unat (sp + 4) = unat sp + 4"
proof -
  have "unat sp < 0xFFFFFFFC" using assms by (simp add: word_less_nat_alt word_le_nat_alt)
  then show ?thesis by (simp add: unat_word_ariths)
qed

lemma words_between: "a < b \<Longrightarrow> (b - a + 3) div 4 = Suc ((b - (a + 4) + 3) div 4)" for a b :: nat
proof -
  assume "a < b"
  then obtain d where d: "b = a + d" "0 < d" by (metis less_imp_add_positive)
  show ?thesis
  proof (cases "d \<le> 4")
    case True
    then have "d = 1 \<or> d = 2 \<or> d = 3 \<or> d = 4" using d by linarith
    then show ?thesis using d by auto
  next
    case False
    then obtain e where "d = e + 4" by (metis le_add_diff_inverse2 nat_le_linear)
    then show ?thesis using d by simp
  qed
qed

lemma stack_words_step:
  assumes "sp < stack_end" and "stack_end \<le> 0xFFFFFFFC"
  shows "stack_words mem sp stack_end = load32 mem sp # stack_words mem (sp + 4) stack_end"
proof -
  let ?n = "(unat stack_end - unat (sp + 4) + 3) div 4"
  have "unat sp < unat stack_end" using assms(1) by (simp add: word_less_nat_alt)
  then have "(unat stack_end - unat sp + 3) div 4 = Suc ?n" unfolding unat_plus_4 [OF assms] by (rule words_between)
  note e = this
  show ?thesis unfolding stack_words_def e map_upt_Suc by (simp add: algebra_simps)
qed

lemma minus_4_even: "((w :: u32) - 4) mod 2 = 0 \<longleftrightarrow> even w"
proof -
  have e: "x mod 2 = 0 \<longleftrightarrow> even x" for x :: u32
  proof -
    have "even x \<longleftrightarrow> even (unat x)" using bit_unsigned_iff [where ?'a = nat and ?'b = 32, of x 0] by (simp add: bit_0)
    moreover have "x mod 2 = 0 \<longleftrightarrow> unat (x mod 2) = 0" by (simp only: unat_eq_0)
    ultimately show ?thesis by (simp add: unat_mod even_iff_mod_2_eq_zero)
  qed
  show ?thesis unfolding e by simp
qed

lemma scan_stack_finds:
  assumes "stack_end \<le> 0xFFFFFFFC" and "length buf = 50" and "depth \<le> 50" and "lr_valid \<longrightarrow> 2 < depth"
  shows "\<exists>buf'. scan_stack b mem 50 lr_valid stack_end buf depth sp =
      Some (buf', min 50 (depth + length (return_addresses b mem sp stack_end))) \<and> length buf' = 50 \<and>
    take (min 50 (depth + length (return_addresses b mem sp stack_end))) buf' =
      take depth buf @ take (50 - depth) (return_addresses b mem sp stack_end)"
  using assms(2-4)
proof (induction "unat stack_end - unat sp" arbitrary: sp buf depth rule: less_induct)
  case less
  show ?case
  proof (cases "sp < stack_end")
    case False
    then have "return_addresses b mem sp stack_end = []"
      by (simp add: return_addresses_def stack_words_def not_less word_le_nat_alt)
    then show ?thesis using False less.prems by (subst scan_stack.simps) simp
  next
    case True
    let ?w = "load32 mem sp" and ?rs = "return_addresses b mem (sp + 4) stack_end"
    have dec: "unat stack_end - unat (sp + 4) < unat stack_end - unat sp"
      using True unat_plus_4 [OF True assms(1)] by (simp add: word_less_nat_alt)
    have rs: "return_addresses b mem sp stack_end = (if is_return_address b mem ?w then (?w - 1) # ?rs else ?rs)"
      by (simp add: return_addresses_def stack_words_step [OF True assms(1)])
    show ?thesis
    proof (cases "is_return_address b mem ?w \<and> depth < 50")
      case hit: True
      let ?buf = "buf[depth := ?w - 1]"
      have "scan_stack b mem 50 lr_valid stack_end buf depth sp = scan_stack b mem 50 lr_valid stack_end ?buf (depth + 1) (sp + 4)"
        using True hit less.prems
        by (subst scan_stack.simps)
          (auto simp: bit_0 minus_4_even is_return_address_def words_write_def CMB_CALL_STACK_MAX_DEPTH_def Let_def)
      moreover have "take (depth + 1) ?buf = take depth buf @ [?w - 1]"
        using hit less.prems by (simp add: take_Suc_conv_app_nth)
      moreover have "take (50 - depth) ((?w - 1) # ?rs) = (?w - 1) # take (50 - (depth + 1)) ?rs"
        using hit by (simp add: take_Cons')
      moreover have "lr_valid \<longrightarrow> 2 < depth + 1" using less.prems(3) by (cases lr_valid) auto
      ultimately show ?thesis using less.hyps [OF dec, of ?buf "depth + 1"] hit less.prems(1,2) by (simp add: rs)
    next
      case miss: False
      have "scan_stack b mem 50 lr_valid stack_end buf depth sp = scan_stack b mem 50 lr_valid stack_end buf depth (sp + 4)"
        using True miss
        by (subst scan_stack.simps) (auto simp: bit_0 minus_4_even is_return_address_def CMB_CALL_STACK_MAX_DEPTH_def Let_def)
      then show ?thesis using less.hyps [OF dec, of buf depth] miss less.prems
        by (cases "is_return_address b mem ?w") (auto simp: rs)
    qed
  qed
qed

text \<open>Behind a program counter and a valid link register: return addresses equal to the link register are left out
  as long as no other has been found.\<close>

lemma scan_stack_finds_lr:
  assumes "stack_end \<le> 0xFFFFFFFC" and "length buf = 50"
  shows "\<exists>buf'. scan_stack b mem 50 True stack_end buf 2 sp =
      Some (buf', min 50 (2 + length (dropWhile (\<lambda>a. a = buf ! 1) (return_addresses b mem sp stack_end)))) \<and> length buf' = 50 \<and>
    take (min 50 (2 + length (dropWhile (\<lambda>a. a = buf ! 1) (return_addresses b mem sp stack_end)))) buf' =
      take 2 buf @ take 48 (dropWhile (\<lambda>a. a = buf ! 1) (return_addresses b mem sp stack_end))"
  using assms(2)
proof (induction "unat stack_end - unat sp" arbitrary: sp rule: less_induct)
  case less
  show ?case
  proof (cases "sp < stack_end")
    case False
    then have "return_addresses b mem sp stack_end = []"
      by (simp add: return_addresses_def stack_words_def not_less word_le_nat_alt)
    then show ?thesis using False less.prems by (subst scan_stack.simps) simp
  next
    case True
    let ?w = "load32 mem sp" and ?rs = "return_addresses b mem (sp + 4) stack_end"
    have dec: "unat stack_end - unat (sp + 4) < unat stack_end - unat sp"
      using True unat_plus_4 [OF True assms(1)] by (simp add: word_less_nat_alt)
    have rs: "return_addresses b mem sp stack_end = (if is_return_address b mem ?w then (?w - 1) # ?rs else ?rs)"
      by (simp add: return_addresses_def stack_words_step [OF True assms(1)])
    show ?thesis
    proof (cases "is_return_address b mem ?w \<and> ?w - 1 \<noteq> buf ! 1")
      case hit: True
      let ?buf = "buf[2 := ?w - 1]"
      have "scan_stack b mem 50 True stack_end buf 2 sp = scan_stack b mem 50 True stack_end ?buf 3 (sp + 4)"
        using True hit less.prems
        by (subst scan_stack.simps)
          (auto simp: bit_0 minus_4_even is_return_address_def words_write_def words_read_def CMB_CALL_STACK_MAX_DEPTH_def Let_def)
      moreover have "take 3 ?buf = take 2 buf @ [?w - 1]"
        using less.prems take_Suc_conv_app_nth [of 2 ?buf] by simp
      then have "take 2 buf @ take 48 (dropWhile (\<lambda>a. a = buf ! 1) (return_addresses b mem sp stack_end)) = take 3 ?buf @ take 47 ?rs"
        using hit by (simp add: rs take_Cons')
      moreover have "min 50 (2 + length (dropWhile (\<lambda>a. a = buf ! 1) (return_addresses b mem sp stack_end))) = min 50 (3 + length ?rs)"
        using hit by (simp add: rs)
      ultimately show ?thesis using scan_stack_finds [OF assms(1), of ?buf 3 True b mem "sp + 4"] less.prems by simp
    next
      case miss: False
      have "scan_stack b mem 50 True stack_end buf 2 sp = scan_stack b mem 50 True stack_end buf 2 (sp + 4)"
        using True miss less.prems
        by (subst scan_stack.simps)
          (auto simp: bit_0 minus_4_even is_return_address_def words_read_def CMB_CALL_STACK_MAX_DEPTH_def Let_def)
      then show ?thesis using less.hyps [OF dec] miss less.prems by (auto simp: rs)
    qed
  qed
qed

section \<open>The report\<close>

definition address_text :: "u32 list \<Rightarrow> bytes" where
  "address_text as = concat (map (\<lambda>a. hex8 a @ [0x20]) as)"

lemma length_address_text [simp]: "length (address_text as) = 9 * length as"
  by (induction as) (simp_all add: address_text_def)

lemma hex_digit_nonzero: "d < 16 \<Longrightarrow> hex_digit d \<noteq> 0"
proof -
  assume "d < 16"
  then have "d \<in> set [0..<16]" by simp
  moreover have "list_all (\<lambda>d. hex_digit d \<noteq> 0) [0..<16]" by code_simp
  ultimately show ?thesis by (simp add: list_all_iff)
qed

lemma address_text_nonzero: "0 \<notin> set (address_text as)"
proof -
  have "unat (x AND 0xF :: u32) < 16" for x
    using word_and_le1 [of x 15] by (simp add: word_le_nat_alt)
  then have "(0 :: u8) \<notin> set (hex8 a)" for a using hex_digit_nonzero by (auto simp: hex8_def)
  then show ?thesis by (auto simp: address_text_def)
qed

lemma print_addresses_text:
  assumes "length info = 450" and "depth \<le> 50" and "depth \<le> length buf" and "i \<le> depth"
    and "take (9 * i) info = address_text (take i buf)"
  shows "\<exists>info'. print_addresses buf depth i info = Some info' \<and> length info' = 450 \<and>
    take (9 * depth) info' = address_text (take depth buf)"
  using assms(1,4,5)
proof (induction "depth - i" arbitrary: i info)
  case 0
  then show ?case by (subst print_addresses.simps) simp
next
  case (Suc n)
  then have i: "i < depth" "i < length buf" using assms(3) by simp_all
  let ?i1 = "blit info (i * 9) (hex8 (buf ! i) @ [0])"
  let ?i2 = "?i1[i * 9 + 8 := 0x20]"
  have l: "i * 9 + 9 \<le> 450" using i assms(2) by simp
  then have l1: "length ?i1 = 450" using Suc.prems(1) by simp
  have e: "?i1 = take (i * 9) info @ hex8 (buf ! i) @ [0] @ drop (i * 9 + 9) info"
    using l Suc.prems(1) by (simp add: blit_def)
  have "?i2 = take (i * 9) info @ hex8 (buf ! i) @ [0x20] @ drop (i * 9 + 9) info"
    unfolding e using l Suc.prems(1) by (simp add: list_update_append)
  then have "?i2 = (address_text (take i buf) @ hex8 (buf ! i) @ [0x20]) @ drop (i * 9 + 9) info"
    using Suc.prems(3) by (simp add: mult.commute)
  moreover have "address_text (take i buf) @ hex8 (buf ! i) @ [0x20] = address_text (take (Suc i) buf)"
    using i by (simp add: address_text_def take_Suc_conv_app_nth)
  moreover have "length (address_text (take (Suc i) buf)) = 9 * Suc i" using i by simp
  ultimately have t: "take (9 * Suc i) ?i2 = address_text (take (Suc i) buf)" by (metis append_eq_conv_conj)
  have "print_addresses buf depth i info = print_addresses buf depth (Suc i) ?i2"
    using i l Suc.prems(1) l1
    by (subst print_addresses.simps) (simp add: words_read_def mem_copy_def mem_write_def)
  then show ?case using Suc.hyps(1) [of "Suc i" ?i2] Suc.hyps(2) i l1 t by simp
qed

lemma takeWhile_take: "0 \<notin> set (take n m) \<Longrightarrow> take n (c_string m 0) = take n (m :: bytes)"
proof -
  assume z: "0 \<notin> set (take n m)"
  have "takeWhile (\<lambda>b. b \<noteq> 0) (take n m @ drop n m) = take n m @ takeWhile (\<lambda>b. b \<noteq> 0) (drop n m)"
    using z by (intro takeWhile_append2) auto
  then have "c_string m 0 = take n m @ takeWhile (\<lambda>b. b \<noteq> 0) (drop n m)" by (simp add: c_string_def)
  then show ?thesis by (cases "n \<le> length m") (auto simp: min_def)
qed

lemma cm_print_call_stack_text:
  assumes "length (bt_call_stack_info b) = 450" and "as = take depth buf" and "depth \<le> length buf" and "0 < depth" and "depth \<le> 50"
  shows "\<exists>info. cm_print_call_stack buf depth b = Some (b\<lparr>bt_call_stack_info := info\<rparr>,
      [ascii ''Print call stack: addr2line -e '' @ bt_fw_name b @ ascii ''.elf'' @ ascii '' -afpiC '' @ address_text as])
    \<and> length info = 450 \<and> take (9 * depth) info = address_text as"
proof -
  obtain info where i: "print_addresses buf depth 0 (bt_call_stack_info b) = Some info" "length info = 450"
    "take (9 * depth) info = address_text as"
    using print_addresses_text [OF assms(1,5,3), of 0] assms(2) by (auto simp: address_text_def)
  then have "take (depth * 9) (c_string info 0) = address_text as"
    using takeWhile_take [of "9 * depth" info] address_text_nonzero [of as] by (simp add: mult.commute)
  then show ?thesis using i assms(4) by (intro exI [of _ info]) (simp add: cm_print_call_stack_def Let_def println_call_stack CMB_ELF_FILE_EXTENSION_NAME_def nat_mult_distrib)
qed

end
