(* ===== verification/Cm_Fault_Spec.thy ===== *)
theory Cm_Fault_Spec
  imports Cm_Backtrace_Spec
begin

text \<open>
  The diagnosis of a fault against the numbering of the architecture manual: the three configurable fault status
  registers are one word, CFSR, at 0xE000ED28, and the messages are those of its bits. And the report of a fault as a whole.
\<close>

section \<open>Bits of the memory\<close>

lemma bit_mem_high: "8 \<le> n \<Longrightarrow> \<not> bit (b :: u8) n"
  by (auto dest: bit_imp_le_length)

lemma bit_load16: "j < 8 \<Longrightarrow> bit (load16 mem a) j \<longleftrightarrow> bit (mem a) j"
  "j < 8 \<Longrightarrow> bit (load16 mem a) (8 + j) \<longleftrightarrow> bit (mem (a + 1)) j"
  by (auto simp: load16_def bit_or_iff bit_push_bit_iff bit_ucast_iff bit_mem_high)

lemma bit_load32: "j < 8 \<Longrightarrow> bit (load32 mem a) j \<longleftrightarrow> bit (mem a) j"
  "j < 8 \<Longrightarrow> bit (load32 mem a) (8 + j) \<longleftrightarrow> bit (mem (a + 1)) j"
  "j < 8 \<Longrightarrow> bit (load32 mem a) (16 + j) \<longleftrightarrow> bit (mem (a + 2)) j"
  "j < 8 \<Longrightarrow> bit (load32 mem a) (24 + j) \<longleftrightarrow> bit (mem (a + 3)) j"
  by (auto simp: load32_def bit_or_iff bit_push_bit_iff bit_ucast_iff bit_mem_high)

text \<open>The registers as parts of the words the manual describes.\<close>

lemma register_bits:
  "j < 8 \<Longrightarrow> bit (CMB_NVIC_MFSR mem) j \<longleftrightarrow> bit (load32 mem 0xE000ED28) j"
  "j < 8 \<Longrightarrow> bit (CMB_NVIC_BFSR mem) j \<longleftrightarrow> bit (load32 mem 0xE000ED28) (8 + j)"
  "j < 8 \<Longrightarrow> bit (CMB_NVIC_UFSR mem) j \<longleftrightarrow> bit (load32 mem 0xE000ED28) (16 + j)"
  "j < 8 \<Longrightarrow> bit (CMB_NVIC_UFSR mem) (8 + j) \<longleftrightarrow> bit (load32 mem 0xE000ED28) (24 + j)"
  "j < 8 \<Longrightarrow> bit (CMB_NVIC_DFSR mem) j \<longleftrightarrow> bit (load32 mem 0xE000ED30) j"
  by (simp_all add: CMB_NVIC_MFSR_def CMB_NVIC_BFSR_def CMB_NVIC_UFSR_def CMB_NVIC_DFSR_def bit_load16 bit_load32)

section \<open>The reference\<close>

definition causes :: "u32 \<Rightarrow> (nat \<times> print_id) list \<Rightarrow> bytes list" where
  "causes w l = map (\<lambda>(n, i). cmb_println i []) (filter (\<lambda>(n, i). bit w n) l)"

lemma causes_simps [simp]:
  "causes w [] = []" "causes w ((n, i) # l) = print_if (bit w n) i @ causes w l" "causes w (l @ l') = causes w l @ causes w l'"
  by (simp_all add: causes_def print_if_def)

definition reported_faults :: "cpu_platform \<Rightarrow> memory \<Rightarrow> bytes list" where
  "reported_faults cpu mem =
     (let cfsr = load32 mem 0xE000ED28; hfsr = load32 mem 0xE000ED2C; dfsr = load32 mem 0xE000ED30 in
      causes hfsr [(1, PRINT_HFSR_VECTBL)]
      @ (if bit hfsr 30 then
           causes cfsr ([(0, PRINT_MFSR_IACCVIOL), (1, PRINT_MFSR_DACCVIOL), (3, PRINT_MFSR_MUNSTKERR), (4, PRINT_MFSR_MSTKERR)]
             @ (if lazy_fpu cpu then [(5, PRINT_MFSR_MLSPERR)] else []))
           @ (if bit cfsr 7 \<and> (bit cfsr 0 \<or> bit cfsr 1) then [cmb_println PRINT_MMAR [Word (load32 mem 0xE000ED34)]] else [])
           @ causes cfsr ([(8, PRINT_BFSR_IBUSERR), (9, PRINT_BFSR_PRECISERR), (10, PRINT_BFSR_IMPREISERR),
               (11, PRINT_BFSR_UNSTKERR), (12, PRINT_BFSR_STKERR)] @ (if lazy_fpu cpu then [(13, PRINT_BFSR_LSPERR)] else []))
           @ (if bit cfsr 15 \<and> bit cfsr 9 then [cmb_println PRINT_BFAR [Word (load32 mem 0xE000ED38)]] else [])
           @ causes cfsr ([(16, PRINT_UFSR_UNDEFINSTR), (17, PRINT_UFSR_INVSTATE), (18, PRINT_UFSR_INVPC), (19, PRINT_UFSR_NOCP)]
               @ (if cpu = CMB_CPU_ARM_CORTEX_M33 then [(20, PRINT_UFSR_STKOF)] else [])
               @ [(24, PRINT_UFSR_UNALIGNED), (25, PRINT_UFSR_DIVBYZERO0)])
         else [])
      @ (if bit hfsr 31 then causes dfsr [(0, PRINT_DFSR_HALTED), (1, PRINT_DFSR_BKPT), (2, PRINT_DFSR_DWTTRAP),
           (3, PRINT_DFSR_VCATCH), (4, PRINT_DFSR_EXTERNAL)] else []))"

section \<open>The fields\<close>

text \<open>Every field the diagnosis reads is one bit; where it lies follows from the layout.\<close>

lemma mfsr_flags:
  "field mfsr_bits ''IACCVIOL'' v \<noteq> 0 \<longleftrightarrow> bit v 0" "field mfsr_bits ''DACCVIOL'' v \<noteq> 0 \<longleftrightarrow> bit v 1"
  "field mfsr_bits ''MUNSTKERR'' v \<noteq> 0 \<longleftrightarrow> bit v 3" "field mfsr_bits ''MSTKERR'' v \<noteq> 0 \<longleftrightarrow> bit v 4"
  "field mfsr_bits ''MLSPERR'' v \<noteq> 0 \<longleftrightarrow> bit v 5" "field mfsr_bits ''MMARVALID'' v \<noteq> 0 \<longleftrightarrow> bit v 7"
  by (subst field_flag; simp add: mfsr_bits_def numeral_eq_Suc)+

lemma bfsr_flags:
  "field bfsr_bits ''IBUSERR'' v \<noteq> 0 \<longleftrightarrow> bit v 0" "field bfsr_bits ''PRECISERR'' v \<noteq> 0 \<longleftrightarrow> bit v 1"
  "field bfsr_bits ''IMPREISERR'' v \<noteq> 0 \<longleftrightarrow> bit v 2" "field bfsr_bits ''UNSTKERR'' v \<noteq> 0 \<longleftrightarrow> bit v 3"
  "field bfsr_bits ''STKERR'' v \<noteq> 0 \<longleftrightarrow> bit v 4" "field bfsr_bits ''LSPERR'' v \<noteq> 0 \<longleftrightarrow> bit v 5"
  "field bfsr_bits ''BFARVALID'' v \<noteq> 0 \<longleftrightarrow> bit v 7"
  by (subst field_flag; simp add: bfsr_bits_def numeral_eq_Suc)+

lemma ufsr_flags:
  "field (ufsr_bits cpu) ''UNDEFINSTR'' v \<noteq> 0 \<longleftrightarrow> bit v 0" "field (ufsr_bits cpu) ''INVSTATE'' v \<noteq> 0 \<longleftrightarrow> bit v 1"
  "field (ufsr_bits cpu) ''INVPC'' v \<noteq> 0 \<longleftrightarrow> bit v 2" "field (ufsr_bits cpu) ''NOCP'' v \<noteq> 0 \<longleftrightarrow> bit v 3"
  "field (ufsr_bits cpu) ''UNALIGNED'' v \<noteq> 0 \<longleftrightarrow> bit v 8" "field (ufsr_bits cpu) ''DIVBYZERO0'' v \<noteq> 0 \<longleftrightarrow> bit v 9"
  "field (ufsr_bits CMB_CPU_ARM_CORTEX_M33) ''STKOF'' v \<noteq> 0 \<longleftrightarrow> bit v 4"
  by (subst field_flag; simp add: ufsr_bits_def numeral_eq_Suc)+

lemma hfsr_flags:
  "field hfsr_bits ''VECTBL'' v \<noteq> 0 \<longleftrightarrow> bit v 1" "field hfsr_bits ''FORCED'' v \<noteq> 0 \<longleftrightarrow> bit v 30"
  "field hfsr_bits ''DEBUGEVT'' v \<noteq> 0 \<longleftrightarrow> bit v 31"
  by (subst field_flag; simp add: hfsr_bits_def)+

lemma dfsr_flags:
  "field dfsr_bits ''HALTED'' v \<noteq> 0 \<longleftrightarrow> bit v 0" "field dfsr_bits ''BKPT'' v \<noteq> 0 \<longleftrightarrow> bit v 1"
  "field dfsr_bits ''DWTTRAP'' v \<noteq> 0 \<longleftrightarrow> bit v 2" "field dfsr_bits ''VCATCH'' v \<noteq> 0 \<longleftrightarrow> bit v 3"
  "field dfsr_bits ''EXTERNAL'' v \<noteq> 0 \<longleftrightarrow> bit v 4"
  by (subst field_flag; simp add: dfsr_bits_def numeral_eq_Suc)+

lemmas fault_flags = mfsr_flags bfsr_flags ufsr_flags hfsr_flags dfsr_flags

text \<open>The tests whether a register is zero change nothing.\<close>

lemma zero_guard:
  "(v = 0 \<Longrightarrow> x = []) \<Longrightarrow> (if v \<noteq> 0 then x else []) = x"
  "(v = 0 \<Longrightarrow> x = []) \<Longrightarrow> (if v = 0 then [] else x) = x"
  by auto

lemma field_zero [simp]: "field l f 0 = 0"
  by (simp add: field_def)

lemma print_if_False [simp]: "print_if False i = []"
  by (simp add: print_if_def)

lemma causes_if: "causes w (if c then l else []) = (if c then causes w l else [])"
  by simp

lemma nested_if: "(if p then if q then x else [] else []) = (if p \<and> q then x else [])"
  by simp

lemma fault_registers_simps [simp]:
  "hf_mfsr (fault_registers mem r) = CMB_NVIC_MFSR mem" "hf_bfsr (fault_registers mem r) = CMB_NVIC_BFSR mem"
  "hf_ufsr (fault_registers mem r) = CMB_NVIC_UFSR mem" "hf_hfsr (fault_registers mem r) = CMB_NVIC_HFSR mem"
  "hf_dfsr (fault_registers mem r) = ucast (CMB_NVIC_DFSR mem)" "hf_mmar (fault_registers mem r) = CMB_NVIC_MMAR mem"
  "hf_bfar (fault_registers mem r) = CMB_NVIC_BFAR mem"
  by (simp_all add: fault_registers_def)

lemma fault_diagnosis_unguarded:
  "fault_diagnosis cpu r =
     print_if (bit (hf_hfsr r) 1) PRINT_HFSR_VECTBL
     @ (if bit (hf_hfsr r) 30 then
          (print_if (bit (hf_mfsr r) 0) PRINT_MFSR_IACCVIOL
           @ print_if (bit (hf_mfsr r) 1) PRINT_MFSR_DACCVIOL
           @ print_if (bit (hf_mfsr r) 3) PRINT_MFSR_MUNSTKERR
           @ print_if (bit (hf_mfsr r) 4) PRINT_MFSR_MSTKERR
           @ (if lazy_fpu cpu then print_if (bit (hf_mfsr r) 5) PRINT_MFSR_MLSPERR else [])
           @ (if bit (hf_mfsr r) 7 then if bit (hf_mfsr r) 0 \<or> bit (hf_mfsr r) 1
              then [cmb_println PRINT_MMAR [Word (hf_mmar r)]] else [] else []))
          @ (print_if (bit (hf_bfsr r) 0) PRINT_BFSR_IBUSERR
           @ print_if (bit (hf_bfsr r) 1) PRINT_BFSR_PRECISERR
           @ print_if (bit (hf_bfsr r) 2) PRINT_BFSR_IMPREISERR
           @ print_if (bit (hf_bfsr r) 3) PRINT_BFSR_UNSTKERR
           @ print_if (bit (hf_bfsr r) 4) PRINT_BFSR_STKERR
           @ (if lazy_fpu cpu then print_if (bit (hf_bfsr r) 5) PRINT_BFSR_LSPERR else [])
           @ (if bit (hf_bfsr r) 7 then if bit (hf_bfsr r) 1
              then [cmb_println PRINT_BFAR [Word (hf_bfar r)]] else [] else []))
          @ (print_if (bit (hf_ufsr r) 0) PRINT_UFSR_UNDEFINSTR
           @ print_if (bit (hf_ufsr r) 1) PRINT_UFSR_INVSTATE
           @ print_if (bit (hf_ufsr r) 2) PRINT_UFSR_INVPC
           @ print_if (bit (hf_ufsr r) 3) PRINT_UFSR_NOCP
           @ (if cpu = CMB_CPU_ARM_CORTEX_M33 then print_if (bit (hf_ufsr r) 4) PRINT_UFSR_STKOF else [])
           @ print_if (bit (hf_ufsr r) 8) PRINT_UFSR_UNALIGNED
           @ print_if (bit (hf_ufsr r) 9) PRINT_UFSR_DIVBYZERO0)
        else [])
     @ (if bit (hf_hfsr r) 31 then
          print_if (bit (hf_dfsr r) 0) PRINT_DFSR_HALTED
          @ print_if (bit (hf_dfsr r) 1) PRINT_DFSR_BKPT
          @ print_if (bit (hf_dfsr r) 2) PRINT_DFSR_DWTTRAP
          @ print_if (bit (hf_dfsr r) 3) PRINT_DFSR_VCATCH
          @ print_if (bit (hf_dfsr r) 4) PRINT_DFSR_EXTERNAL
        else [])"
  unfolding fault_diagnosis_def fault_flags
  by (subst zero_guard(1), simp)+ (simp only: ufsr_flags append_assoc cong: if_cong)

lemma diagnosis_is_reported:
  "fault_diagnosis cpu (fault_registers mem r) = reported_faults cpu mem"
proof -
  let ?m = "CMB_NVIC_MFSR mem" and ?b = "CMB_NVIC_BFSR mem" and ?u = "CMB_NVIC_UFSR mem" and ?d = "CMB_NVIC_DFSR mem"
  let ?cfsr = "load32 mem 0xE000ED28" and ?dfsr = "load32 mem 0xE000ED30"
  have m: "bit ?cfsr 0 = bit ?m 0" "bit ?cfsr 1 = bit ?m 1" "bit ?cfsr 3 = bit ?m 3" "bit ?cfsr 4 = bit ?m 4"
    "bit ?cfsr 5 = bit ?m 5" "bit ?cfsr 7 = bit ?m 7"
    by (simp_all add: register_bits)
  have b: "bit ?cfsr 8 = bit ?b 0" "bit ?cfsr 9 = bit ?b 1" "bit ?cfsr 10 = bit ?b 2" "bit ?cfsr 11 = bit ?b 3"
    "bit ?cfsr 12 = bit ?b 4" "bit ?cfsr 13 = bit ?b 5" "bit ?cfsr 15 = bit ?b 7"
    by (simp_all add: register_bits)
  have u: "bit ?cfsr 16 = bit ?u 0" "bit ?cfsr 17 = bit ?u 1" "bit ?cfsr 18 = bit ?u 2" "bit ?cfsr 19 = bit ?u 3"
    "bit ?cfsr 20 = bit ?u 4" "bit ?cfsr 24 = bit ?u 8" "bit ?cfsr 25 = bit ?u 9"
    using register_bits(4) [of 0 mem] register_bits(4) [of 1 mem] by (simp_all add: register_bits(3))
  have d: "bit ?dfsr 0 = bit ?d 0" "bit ?dfsr 1 = bit ?d 1" "bit ?dfsr 2 = bit ?d 2" "bit ?dfsr 3 = bit ?d 3" "bit ?dfsr 4 = bit ?d 4"
    by (simp_all add: register_bits)
  have d': "bit (ucast ?d :: u32) 0 = bit ?d 0" "bit (ucast ?d :: u32) 1 = bit ?d 1" "bit (ucast ?d :: u32) 2 = bit ?d 2"
    "bit (ucast ?d :: u32) 3 = bit ?d 3" "bit (ucast ?d :: u32) 4 = bit ?d 4"
    by (simp_all add: bit_ucast_iff)
  show ?thesis
    unfolding reported_faults_def fault_diagnosis_unguarded Let_def causes_simps causes_if nested_if fault_registers_simps
      m b u d d' CMB_NVIC_HFSR_def CMB_NVIC_MMAR_def CMB_NVIC_BFAR_def append_assoc append_Nil append_Nil2 ..
qed

section \<open>The state of the scanner\<close>

definition backtrace_ok :: "backtrace \<Rightarrow> bool" where
  "backtrace_ok b \<longleftrightarrow> length (bt_call_stack_info b) = 450 \<and> \<not> bt_stack_is_overflow b \<and>
     bt_main_stack_start b + bt_main_stack_size b \<le> 0xFFFFFFFC"

lemma cm_backtrace_init_ok:
  assumes "backtrace_ok b" and "lm_stack_end lm \<le> 0xFFFFFFFC"
  shows "backtrace_ok (fst (cm_backtrace_init lm fw hw sw b))"
  using assms by (auto simp: backtrace_ok_def cm_backtrace_init_def Let_def)

lemma cm_print_call_stack_ok:
  assumes "backtrace_ok b" and "length buf = 50" and "depth \<le> 50"
  shows "\<exists>info ms. cm_print_call_stack buf depth b = Some (b\<lparr>bt_call_stack_info := info\<rparr>, ms) \<and> length info = 450"
proof -
  obtain info where "print_addresses buf depth 0 (bt_call_stack_info b) = Some info" "length info = 450"
    using print_addresses_text [of "bt_call_stack_info b" depth buf 0] assms by (auto simp: backtrace_ok_def address_text_def)
  then show ?thesis by (intro exI [of _ info]) (simp add: cm_print_call_stack_def Let_def)
qed

section \<open>The call stack of a fault\<close>

text \<open>The program counter, the link register if it lies in the program, and the return addresses on the stack, of
  which those equal to the link register are left out as long as no other has been found.\<close>

definition fault_call_stack :: "backtrace \<Rightarrow> memory \<Rightarrow> u32 \<Rightarrow> u32 list" where
  "fault_call_stack b mem sp =
     (let rs = return_addresses b mem sp (bt_main_stack_start b + bt_main_stack_size b);
          lr = sr_lr (hf_saved (bt_regs b)) - 1 in
      take 50 (sr_pc (hf_saved (bt_regs b)) #
        (if bt_code_start b \<le> lr \<and> lr \<le> bt_code_start b + bt_code_size b then lr # dropWhile (\<lambda>a. a = lr) rs else rs)))"

lemma call_stack_of_fault:
  assumes "bt_on_fault b" and "\<not> bt_stack_is_overflow b" and "bt_main_stack_start b + bt_main_stack_size b \<le> 0xFFFFFFFC"
    and "length buf = 50"
  shows "\<exists>buf'. cm_backtrace_call_stack b mem buf 50 sp = Some (buf', length (fault_call_stack b mem sp)) \<and> length buf' = 50 \<and>
    take (length (fault_call_stack b mem sp)) buf' = fault_call_stack b mem sp"
proof -
  let ?e = "bt_main_stack_start b + bt_main_stack_size b" and ?pc = "sr_pc (hf_saved (bt_regs b))"
  let ?lr = "sr_lr (hf_saved (bt_regs b)) - 1" and ?rs = "return_addresses b mem sp (bt_main_stack_start b + bt_main_stack_size b)"
  show ?thesis
  proof (cases "bt_code_start b \<le> ?lr \<and> ?lr \<le> bt_code_start b + bt_code_size b")
    case True
    let ?b = "buf[0 := ?pc, 1 := ?lr]" and ?ds = "dropWhile (\<lambda>a. a = ?lr) ?rs"
    have "cm_backtrace_call_stack b mem buf 50 sp = scan_stack b mem 50 True ?e ?b 2 sp"
      using True assms by (simp add: cm_backtrace_call_stack_def words_write_def CMB_CALL_STACK_MAX_DEPTH_def Let_def)
    moreover have "?b ! 1 = ?lr" "take 2 ?b = [?pc, ?lr]"
      using assms(4) by (simp, cases buf, simp, cases "tl buf", auto)
    moreover have c: "fault_call_stack b mem sp = take 2 ?b @ take 48 ?ds" "length (fault_call_stack b mem sp) = min 50 (2 + length ?ds)"
      using True calculation(3) by (simp_all add: fault_call_stack_def Let_def take_Cons')
    ultimately show ?thesis using scan_stack_finds_lr [OF assms(3), of ?b b mem sp] assms(4) by simp
  next
    case False
    let ?b = "buf[0 := ?pc]"
    have "cm_backtrace_call_stack b mem buf 50 sp = scan_stack b mem 50 False ?e ?b 1 sp"
      using False assms by (auto simp: cm_backtrace_call_stack_def words_write_def CMB_CALL_STACK_MAX_DEPTH_def Let_def)
    moreover have "take 1 ?b = [?pc]" using assms(4) by (cases buf) auto
    moreover have c: "fault_call_stack b mem sp = take 1 ?b @ take (50 - 1) ?rs" "length (fault_call_stack b mem sp) = min 50 (1 + length ?rs)"
      using False calculation(2) by (auto simp: fault_call_stack_def Let_def take_Cons')
    ultimately show ?thesis using scan_stack_finds [OF assms(3), of ?b 1 False b mem sp] assms(4) by simp
  qed
qed

lemma print_call_stack_of_fault:
  assumes "bt_on_fault b" and "\<not> bt_stack_is_overflow b" and "bt_main_stack_start b + bt_main_stack_size b \<le> 0xFFFFFFFC"
    and "length (bt_call_stack_info b) = 450"
  shows "\<exists>info. length info = 450 \<and> take (9 * length (fault_call_stack b mem sp)) info = address_text (fault_call_stack b mem sp) \<and>
    print_call_stack mem sp b = Some (b\<lparr>bt_call_stack_info := info\<rparr>,
    [ascii ''Print call stack: addr2line -e '' @ bt_fw_name b @ ascii ''.elf'' @ ascii '' -afpiC ''
       @ address_text (fault_call_stack b mem sp)])"
proof -
  let ?cs = "fault_call_stack b mem sp"
  obtain buf where buf: "cm_backtrace_call_stack b mem (replicate 50 0) 50 sp = Some (buf, length ?cs)" "length buf = 50"
    "take (length ?cs) buf = ?cs"
    using call_stack_of_fault [OF assms(1-3), of "replicate 50 0" mem sp] by auto
  have l: "0 < length ?cs" "length ?cs \<le> 50" by (simp_all add: fault_call_stack_def Let_def)
  show ?thesis
    using cm_print_call_stack_text [OF assms(4) buf(3) [symmetric]] buf(1,2) l
    by (auto simp: print_call_stack_def CMB_CALL_STACK_MAX_DEPTH_def simp del: ascii_simps)
qed

text \<open>The stack pointer behind the frame of the fault, which holds the floating-point registers as well where the
  processor has them and bit 4 of the link register is clear.\<close>

definition behind_frame :: "cpu_platform \<Rightarrow> u32 \<Rightarrow> u32 \<Rightarrow> u32" where
  "behind_frame cpu lr sp = (if lazy_fpu cpu \<and> \<not> bit lr 4 then sp + 104 else sp + 32)"

lemma and_bit_4: "w AND 16 = 0 \<longleftrightarrow> \<not> bit w 4" for w :: u32
  using and_exp_eq_0_iff_not_bit [of w 4] by simp

lemma fault_call_stack_cong:
  "bt_main_stack_start b = bt_main_stack_start b' \<Longrightarrow> bt_main_stack_size b = bt_main_stack_size b' \<Longrightarrow>
   bt_code_start b = bt_code_start b' \<Longrightarrow> bt_code_size b = bt_code_size b' \<Longrightarrow>
   hf_saved (bt_regs b) = hf_saved (bt_regs b') \<Longrightarrow> fault_call_stack b mem sp = fault_call_stack b' mem sp"
  by (simp add: fault_call_stack_def return_addresses_def is_return_address_def [abs_def])

lemma fault_registers_saved [simp]: "hf_saved (fault_registers mem r) = hf_saved r"
  by (simp add: fault_registers_def)

text \<open>Whether or not there has been a fault, a scan stays inside its buffer.\<close>

lemma call_stack_ok:
  assumes "backtrace_ok b" and "length buf = 50"
  shows "\<exists>buf' depth. cm_backtrace_call_stack b mem buf 50 sp = Some (buf', depth) \<and> length buf' = 50 \<and> depth \<le> 50"
proof (cases "bt_on_fault b")
  case True
  then show ?thesis using call_stack_of_fault [of b buf mem sp] assms
    by (auto simp: backtrace_ok_def fault_call_stack_def Let_def)
next
  case False
  let ?e = "bt_main_stack_start b + bt_main_stack_size b"
  obtain buf' where "scan_stack b mem 50 False ?e buf 0 sp = Some (buf', min 50 (length (return_addresses b mem sp ?e)))"
    "length buf' = 50"
    using scan_stack_finds [of ?e buf 0 False b mem sp] assms by (auto simp: backtrace_ok_def)
  then show ?thesis using False assms(1) by (simp add: cm_backtrace_call_stack_def backtrace_ok_def Let_def)
qed

lemma print_call_stack_ok:
  assumes "backtrace_ok b"
  shows "\<exists>info ms. print_call_stack mem sp b = Some (b\<lparr>bt_call_stack_info := info\<rparr>, ms) \<and> length info = 450"
proof -
  obtain buf depth where "cm_backtrace_call_stack b mem (replicate 50 0) 50 sp = Some (buf, depth)" "length buf = 50" "depth \<le> 50"
    using call_stack_ok [OF assms, of "replicate 50 0" mem sp] by auto
  then show ?thesis using cm_print_call_stack_ok [OF assms, of buf depth] by (simp add: print_call_stack_def CMB_CALL_STACK_MAX_DEPTH_def)
qed

lemma cm_backtrace_assert_ok:
  "backtrace_ok b \<Longrightarrow> \<exists>info ms. cm_backtrace_assert mem sp b = Some (b\<lparr>bt_call_stack_info := info\<rparr>, ms) \<and> length info = 450"
  using print_call_stack_ok [of b mem sp] by (auto simp: cm_backtrace_assert_def)

section \<open>The report of a fault\<close>

text \<open>What is kept in the variables of \<open>cm_backtrace.c\<close>: the flags, the registers saved on the stack and, except on a Cortex-M0,
  the registers of the processor by their addresses in the manual, and the text of the call stack.\<close>

definition kept_registers :: "cpu_platform \<Rightarrow> memory \<Rightarrow> saved_regs \<Rightarrow> hard_fault_regs \<Rightarrow> hard_fault_regs" where
  "kept_registers cpu mem r old =
     (if cpu = CMB_CPU_ARM_CORTEX_M0 then old\<lparr>hf_saved := r\<rparr>
      else \<lparr> hf_saved = r, hf_syshndctrl = load32 mem 0xE000ED24, hf_mfsr = mem 0xE000ED28, hf_mmar = load32 mem 0xE000ED34,
        hf_bfsr = mem 0xE000ED29, hf_bfar = load32 mem 0xE000ED38, hf_ufsr = load16 mem 0xE000ED2A, hf_hfsr = load32 mem 0xE000ED2C,
        hf_dfsr = ucast (load16 mem 0xE000ED30), hf_afsr = ucast (load16 mem 0xE000ED3C) \<rparr>)"

definition kept_of_fault :: "cpu_platform \<Rightarrow> memory \<Rightarrow> u32 \<Rightarrow> saved_regs \<Rightarrow> bytes \<Rightarrow> backtrace \<Rightarrow> backtrace" where
  "kept_of_fault cpu mem lr r info b = b\<lparr>bt_on_fault := True,
     bt_statck_has_fpu_regs := (if lazy_fpu cpu then \<not> bit lr 4 else bt_statck_has_fpu_regs b),
     bt_regs := kept_registers cpu mem r (bt_regs b), bt_call_stack_info := info\<rparr>"

lemma kept_registers_registers:
  "kept_registers cpu mem r old =
     (if cpu = CMB_CPU_ARM_CORTEX_M0 then old\<lparr>hf_saved := r\<rparr> else fault_registers mem (old\<lparr>hf_saved := r\<rparr>))"
  by (simp add: kept_registers_def fault_registers_def CMB_SYSHND_CTRL_def CMB_NVIC_MFSR_def CMB_NVIC_BFSR_def CMB_NVIC_UFSR_def
      CMB_NVIC_HFSR_def CMB_NVIC_DFSR_def CMB_NVIC_MMAR_def CMB_NVIC_BFAR_def CMB_NVIC_AFSR_def)

lemma fault_reported:
  assumes ok: "backtrace_ok b"
    and "r = saved_registers mem sp" and "b0 = b\<lparr>bt_regs := (bt_regs b)\<lparr>hf_saved := r\<rparr>\<rparr>"
    and "cs = fault_call_stack b0 mem (behind_frame cpu lr sp)"
  shows "\<exists>info. cm_backtrace_fault cpu mem lr sp b = Some (kept_of_fault cpu mem lr r info b,
      cmb_assert (bt_init_ok b) (ascii ''init_ok'') (ascii ''cm_backtrace_fault'')
      @ cmb_assert (\<not> bt_on_fault b) (ascii ''!on_fault'') (ascii ''cm_backtrace_fault'')
      @ [[], firmware_info b, cmb_println PRINT_FAULT_ON_HANDLER [], cmb_println PRINT_REGS_TITLE [],
         regs_line [(''R0 '', sr_r0 r), (''R1 '', sr_r1 r), (''R2 '', sr_r2 r), (''R3 '', sr_r3 r)],
         regs_line [(''R12'', sr_r12 r), (''LR '', sr_lr r), (''PC '', sr_pc r), (''PSR'', sr_psr r)],
         ascii ''=============================================================='']
      @ (if cpu = CMB_CPU_ARM_CORTEX_M0 then [] else reported_faults cpu mem)
      @ [ascii ''Print call stack: addr2line -e '' @ bt_fw_name b @ ascii ''.elf'' @ ascii '' -afpiC ''
           @ concat (map (\<lambda>a. hex8 a @ [0x20]) cs)])
    \<and> length info = 450 \<and> take (9 * length cs) info = concat (map (\<lambda>a. hex8 a @ [0x20]) cs)"
proof -
  let ?sp = "behind_frame cpu lr sp"
  let ?b1 = "if lazy_fpu cpu then b\<lparr>bt_on_fault := True, bt_statck_has_fpu_regs := \<not> bit lr 4\<rparr> else b\<lparr>bt_on_fault := True\<rparr>"
  let ?b2 = "?b1\<lparr>bt_regs := (bt_regs b)\<lparr>hf_saved := r\<rparr>\<rparr>"
  let ?b3 = "if cpu = CMB_CPU_ARM_CORTEX_M0 then ?b2 else ?b2\<lparr>bt_regs := fault_registers mem (bt_regs ?b2)\<rparr>"
  have s: "bt_on_fault ?b3" "\<not> bt_stack_is_overflow ?b3" "bt_main_stack_start ?b3 + bt_main_stack_size ?b3 \<le> 0xFFFFFFFC"
    "length (bt_call_stack_info ?b3) = 450" "bt_fw_name ?b3 = bt_fw_name b"
    using ok by (simp_all add: backtrace_ok_def)
  have c: "fault_call_stack ?b3 mem ?sp = fault_call_stack b0 mem ?sp"
    by (rule fault_call_stack_cong) (simp_all add: assms(3))
  obtain info where len: "length info = 450" "take (9 * length cs) info = address_text cs" and info: "print_call_stack mem ?sp ?b3 = Some (?b3\<lparr>bt_call_stack_info := info\<rparr>,
      [ascii ''Print call stack: addr2line -e '' @ bt_fw_name b @ ascii ''.elf'' @ ascii '' -afpiC ''
       @ address_text (fault_call_stack b0 mem ?sp)])"
    using print_call_stack_of_fault [OF s(1-4), of mem ?sp] c s(5) assms(4) by auto
  let ?head = "cmb_assert (bt_init_ok b) (ascii ''init_ok'') (ascii ''cm_backtrace_fault'')
      @ cmb_assert (\<not> bt_on_fault b) (ascii ''!on_fault'') (ascii ''cm_backtrace_fault'')
      @ [[], firmware_info b, cmb_println PRINT_FAULT_ON_HANDLER [], cmb_println PRINT_REGS_TITLE [],
         regs_line [(''R0 '', sr_r0 r), (''R1 '', sr_r1 r), (''R2 '', sr_r2 r), (''R3 '', sr_r3 r)],
         regs_line [(''R12'', sr_r12 r), (''LR '', sr_lr r), (''PC '', sr_pc r), (''PSR'', sr_psr r)],
         ascii ''=============================================================='']
      @ (if cpu = CMB_CPU_ARM_CORTEX_M0 then [] else reported_faults cpu mem)"
  have f: "firmware_info (b\<lparr>bt_on_fault := True\<rparr>) = firmware_info b" by (simp add: firmware_info_def)
  have "cm_backtrace_fault cpu mem lr sp b = Option.bind (print_call_stack mem ?sp ?b3) (\<lambda>(b', ms). Some (b', ?head @ ms))"
    by (cases "lazy_fpu cpu"; cases "cpu = CMB_CPU_ARM_CORTEX_M0")
      (simp_all add: cm_backtrace_fault_def statck_del_fpu_regs_def and_bit_4 behind_frame_def diagnosis_is_reported Let_def f
        assms(2) [symmetric] case_prod_unfold add.assoc del: ascii_simps)
  moreover have "?b3\<lparr>bt_call_stack_info := info\<rparr> = kept_of_fault cpu mem lr r info b"
    by (simp add: kept_of_fault_def kept_registers_registers)
  ultimately show ?thesis
    using len unfolding info address_text_def by (intro exI [of _ info]) (simp add: assms(4) del: ascii_simps)
qed

lemma fault_keeps_ok:
  assumes "backtrace_ok b"
  shows "\<exists>b' ms. cm_backtrace_fault cpu mem lr sp b = Some (b', ms) \<and> backtrace_ok b'"
  using fault_reported [OF assms refl refl refl, of cpu mem lr sp] assms by (auto simp: kept_of_fault_def backtrace_ok_def)

section \<open>Properties\<close>

text \<open>C21. On every processor, what the fault handler prints as the cause of a fault is what the architecture manual says of the
  bits of CFSR, HFSR and DFSR: the bytes and half-words the handler reads and the bit fields it declares fall on
  those bits, an address is printed only when it is valid and belongs to the fault, and nothing is printed for a
  memory, bus or usage fault that did not escalate.\<close>

theorem fault_diagnosis_reads_manual: "fault_diagnosis cpu (fault_registers mem r) = reported_faults cpu mem"
  by (rule diagnosis_is_reported)

text \<open>C20. The report of a fault, on every processor: the firmware, the registers saved at the stack pointer of the handler, the
  causes, and the call stack, which starts with the program counter and the link register of the fault and goes on
  with the return addresses above its frame, 50 addresses at most. Kept in the variables are that there has been a fault, the saved registers,
  the fault registers of the processor (not on a Cortex-M0), whether the frame has floating-point registers, and the text of the call
  stack; nothing else is changed.\<close>

theorem fault_report:
  assumes ok: "backtrace_ok b"
    and "r = saved_registers mem sp" and "b0 = b\<lparr>bt_regs := (bt_regs b)\<lparr>hf_saved := r\<rparr>\<rparr>"
    and "cs = fault_call_stack b0 mem (behind_frame cpu lr sp)"
  shows "\<exists>info. cm_backtrace_fault cpu mem lr sp b = Some (kept_of_fault cpu mem lr r info b,
      cmb_assert (bt_init_ok b) (ascii ''init_ok'') (ascii ''cm_backtrace_fault'')
      @ cmb_assert (\<not> bt_on_fault b) (ascii ''!on_fault'') (ascii ''cm_backtrace_fault'')
      @ [[], firmware_info b, cmb_println PRINT_FAULT_ON_HANDLER [], cmb_println PRINT_REGS_TITLE [],
         regs_line [(''R0 '', sr_r0 r), (''R1 '', sr_r1 r), (''R2 '', sr_r2 r), (''R3 '', sr_r3 r)],
         regs_line [(''R12'', sr_r12 r), (''LR '', sr_lr r), (''PC '', sr_pc r), (''PSR'', sr_psr r)],
         ascii ''=============================================================='']
      @ (if cpu = CMB_CPU_ARM_CORTEX_M0 then [] else reported_faults cpu mem)
      @ [ascii ''Print call stack: addr2line -e '' @ bt_fw_name b @ ascii ''.elf'' @ ascii '' -afpiC ''
           @ concat (map (\<lambda>a. hex8 a @ [0x20]) cs)])
    \<and> length info = 450 \<and> take (9 * length cs) info = concat (map (\<lambda>a. hex8 a @ [0x20]) cs)"
  by (rule fault_reported [OF assms])

text \<open>A division by zero that escalated to a hard fault.\<close>

definition demo_fault :: memory where
  "demo_fault a = (if a = 0xE000ED2B then 2 else if a = 0xE000ED2F then 0x40 else 0)"

definition no_fault_regs :: hard_fault_regs where
  "no_fault_regs = \<lparr> hf_saved = \<lparr> sr_r0 = 0, sr_r1 = 0, sr_r2 = 0, sr_r3 = 0, sr_r12 = 0, sr_lr = 0, sr_pc = 0, sr_psr = 0 \<rparr>,
     hf_syshndctrl = 0, hf_mfsr = 0, hf_mmar = 0, hf_bfsr = 0, hf_bfar = 0, hf_ufsr = 0, hf_hfsr = 0, hf_dfsr = 0, hf_afsr = 0 \<rparr>"

definition demo_backtrace :: backtrace where
  "demo_backtrace = \<lparr> bt_fw_name = ascii ''demo'', bt_hw_ver = [], bt_sw_ver = [], bt_main_stack_start = 0x20000000,
     bt_main_stack_size = 8, bt_code_start = 0x10000000, bt_code_size = 0x1000, bt_init_ok = True, bt_on_fault = False,
     bt_stack_is_overflow = False, bt_call_stack_info = replicate 450 0, bt_statck_has_fpu_regs = False,
     bt_regs = no_fault_regs \<rparr>"

lemma demo_fault_reported:
  "reported_faults CMB_CPU_ARM_CORTEX_M33 demo_fault = [cmb_println PRINT_UFSR_DIVBYZERO0 []]"
proof -
  have "load32 demo_fault 0xE000ED28 = 0x02000000" "load32 demo_fault 0xE000ED2C = 0x40000000"
    by (simp_all add: load32_def demo_fault_def)
  then show ?thesis by (simp add: reported_faults_def print_if_def Let_def)
qed

lemma demo_fault_registers: "saved_registers demo_fault 0x20000000 = hf_saved no_fault_regs"
  by (simp add: saved_registers_def no_fault_regs_def load32_def demo_fault_def)

lemma demo_fault_call_stack:
  "fault_call_stack (demo_backtrace\<lparr>bt_regs := (bt_regs demo_backtrace)\<lparr>hf_saved := hf_saved no_fault_regs\<rparr>\<rparr>) demo_fault
     (behind_frame CMB_CPU_ARM_CORTEX_M33 0xFFFFFFF9 0x20000000) = [0]"
  by (simp add: fault_call_stack_def demo_backtrace_def no_fault_regs_def behind_frame_def return_addresses_def stack_words_def Let_def)
    code_simp

theorem fault_report_witness:
  "\<exists>info. cm_backtrace_fault CMB_CPU_ARM_CORTEX_M33 demo_fault 0xFFFFFFF9 0x20000000 demo_backtrace =
     Some (kept_of_fault CMB_CPU_ARM_CORTEX_M33 demo_fault 0xFFFFFFF9 (hf_saved no_fault_regs) info demo_backtrace,
      [[], firmware_info demo_backtrace, cmb_println PRINT_FAULT_ON_HANDLER [], cmb_println PRINT_REGS_TITLE [],
       regs_line [(''R0 '', 0), (''R1 '', 0), (''R2 '', 0), (''R3 '', 0)],
       regs_line [(''R12'', 0), (''LR '', 0), (''PC '', 0), (''PSR'', 0)],
       ascii ''=============================================================='',
       cmb_println PRINT_UFSR_DIVBYZERO0 [],
       ascii ''Print call stack: addr2line -e '' @ ascii ''demo'' @ ascii ''.elf'' @ ascii '' -afpiC '' @ hex8 0 @ [0x20]])
    \<and> length info = 450 \<and> take 9 info = hex8 0 @ [0x20]"
proof -
  have d: "bt_init_ok demo_backtrace" "\<not> bt_on_fault demo_backtrace" "bt_fw_name demo_backtrace = ascii ''demo''"
    "backtrace_ok demo_backtrace"
    by (simp_all add: demo_backtrace_def backtrace_ok_def)
  have r: "sr_r0 (hf_saved no_fault_regs) = 0" "sr_r1 (hf_saved no_fault_regs) = 0" "sr_r2 (hf_saved no_fault_regs) = 0"
    "sr_r3 (hf_saved no_fault_regs) = 0" "sr_r12 (hf_saved no_fault_regs) = 0" "sr_lr (hf_saved no_fault_regs) = 0"
    "sr_pc (hf_saved no_fault_regs) = 0" "sr_psr (hf_saved no_fault_regs) = 0"
    by (simp_all add: no_fault_regs_def)
  show ?thesis
    using fault_report [of demo_backtrace "hf_saved no_fault_regs" demo_fault "0x20000000", OF _ demo_fault_registers [symmetric] refl refl,
        of CMB_CPU_ARM_CORTEX_M33 "0xFFFFFFF9"]
    by (simp add: demo_fault_reported demo_fault_call_stack d r cmb_assert_def del: ascii_simps)
qed

end
