(* ===== verification/Pico_Logger_Spec.thy ===== *)
theory Pico_Logger_Spec
  imports Pico_Logger Cm_Fault_Spec
begin

text \<open>
  What a message looks like on the wire, and the way of a call stack from the crash over the restart to
  the log.
\<close>

section \<open>The state of the logger\<close>

text \<open>The invariant of the logger: the buffers have their sizes, the address fits its array, the counter prints in
  three digits, and the scanner is in order.\<close>

definition logger_ok :: "'n logger \<Rightarrow> bool" where
  "logger_ok lg \<longleftrightarrow> length (lg_buffer lg) = 1500 \<and> length (lg_address lg) \<le> 45 \<and> 0 \<le> lg_count lg \<and> lg_count lg < 999 \<and>
     backtrace_ok (lg_backtrace lg) \<and> length (rt_call_stack_buf (lg_retained lg)) = 50"

definition line_header :: "'n udp \<Rightarrow> 'n logger \<Rightarrow> bytes" where
  "line_header u lg = log_header (lg_count lg) (boot_time_ms (ud_time_us u (lg_net lg))) (lg_address lg) (ascii ''trace'')"

text \<open>The network behind one datagram, which is not sent when there is no memory for it, and the logger behind one
  message that was sent as \<open>d\<close>.\<close>

definition datagram :: "'n udp \<Rightarrow> bytes \<Rightarrow> 'n \<Rightarrow> 'n" where
  "datagram u d n = (if ud_alloc u (length d) n then snd (ud_send u False d n) else n)"

definition logged :: "'n udp \<Rightarrow> bytes \<Rightarrow> bytes \<Rightarrow> 'n logger \<Rightarrow> 'n logger" where
  "logged u buf d lg = lg\<lparr>lg_buffer := buf, lg_count := (lg_count lg + 1) mod 999, lg_net := datagram u d (lg_net lg)\<rparr>"

lemma nat_decimal_length: "n < 10 ^ k \<Longrightarrow> 0 < k \<Longrightarrow> length (nat_decimal n) \<le> k"
proof (induction k arbitrary: n)
  case (Suc k)
  show ?case
  proof (cases "n < 10")
    case True
    then show ?thesis by (subst nat_decimal.simps) simp
  next
    case False
    then have "n div 10 < 10 ^ k" "0 < k" using Suc.prems(1) by (auto simp: less_mult_imp_div_less mult.commute intro: gr0I)
    then show ?thesis using Suc.IH [of "n div 10"] False by (subst nat_decimal.simps) simp
  qed
qed simp

lemma decimal_length: "- (10 ^ k) < i \<Longrightarrow> i < 10 ^ k \<Longrightarrow> 0 < k \<Longrightarrow> length (decimal i) \<le> Suc k"
  using nat_decimal_length [of "nat i" k] nat_decimal_length [of "nat (- i)" k] by (auto simp: decimal_def nat_less_iff)

lemma boot_time_range: "- (10 ^ 10) < boot_time_ms us" "boot_time_ms us < 10 ^ 10"
  using sint_greater_eq [of "ucast (us div 1000) :: u32"] sint_less [of "ucast (us div 1000) :: u32"]
  by (simp_all add: boot_time_ms_def)

lemma line_header_length:
  assumes "logger_ok lg"
  shows "length (line_header u lg) \<le> 68" and "line_header u lg \<noteq> []"
proof -
  let ?time = "boot_time_ms (ud_time_us u (lg_net lg))"
  have "nat (lg_count lg) < 10 ^ 3" "0 \<le> lg_count lg" using assms by (auto simp: logger_ok_def nat_less_iff)
  then have "length (decimal (lg_count lg)) \<le> 3" using nat_decimal_length [of "nat (lg_count lg)" 3] by (simp add: decimal_def)
  moreover have "length (decimal ?time) \<le> 11" using decimal_length [OF boot_time_range] by simp
  ultimately have "max 3 (length (decimal (lg_count lg))) = 3" "max 8 (length (decimal ?time)) \<le> 11" by simp_all
  moreover have "length (line_header u lg) = max 3 (length (decimal (lg_count lg))) + max 8 (length (decimal ?time))
      + length (lg_address lg) + 9" by (auto simp: line_header_def log_header_def pad_left_def max_def)
  ultimately show "length (line_header u lg) \<le> 68" using assms unfolding logger_ok_def by linarith
  show "line_header u lg \<noteq> []" by (simp add: line_header_def log_header_def)
qed

lemma logged_ok: "logger_ok lg \<Longrightarrow> length buf = 1500 \<Longrightarrow> logger_ok (logged u buf d lg)"
  by (simp add: logger_ok_def logged_def)


lemma snprintf_take:
  assumes "at + n \<le> length m" and "0 < n"
  shows "\<exists>m'. snprintf m at n s = Some (m', length s) \<and> length m' = length m \<and>
    take (at + min (length s) (n - 1)) m' = take at m @ take (n - 1) s"
proof -
  have f: "snprintf m at n s = Some (blit m at (take (n - 1) s @ [0]), length s)"
    using assms by (simp add: snprintf_def mem_copy_def)
  moreover have "at + length (take (n - 1) s @ [0]) \<le> length m" using assms by simp
  ultimately show ?thesis by (auto simp: blit_def min_def)
qed

lemma line_end:
  assumes "length m = 1500" and "0 < n" and "n < 1499" and "take n m = line"
  shows "\<exists>m' k. end_line m n = Some (m', k) \<and> length m' = 1500 \<and> k \<le> 1499 \<and>
    take k m' = line @ (if last line = 0x0A then [] else [0x0A])"
proof -
  have l: "last line = m ! (n - 1)" using assms by (subst last_conv_nth) auto
  have "take (n + 1) (m[n := 0x0A, n + 1 := 0]) = line @ [0x0A]"
    using assms by (auto simp: take_Suc_conv_app_nth)
  then show ?thesis using assms l by (auto simp: end_line_def mem_read_def mem_write_def BUFFER_SIZE_def)
qed

text \<open>The end of \<open>send_message\<close>.\<close>

definition send_line :: "'n udp \<Rightarrow> bytes \<times> nat \<Rightarrow> 'n logger \<Rightarrow> 'n logger option" where
  "send_line u = (\<lambda>(buf, sz) lg.
     let lg = lg\<lparr>lg_buffer := buf, lg_count := (lg_count lg + 1) mod 999\<rparr> in
     if ud_alloc u sz (lg_net lg) then do {
       packet \<leftarrow> mem_slice buf 0 sz;
       Some (lg\<lparr>lg_net := snd (ud_send u False packet (lg_net lg))\<rparr>)
     } else Some lg)"

lemma send_line_logged: "sz \<le> length buf \<Longrightarrow> send_line u (buf, sz) lg = Some (logged u buf (take sz buf) lg)"
  by (simp add: send_line_def logged_def datagram_def mem_slice_def Let_def)

lemma trace_sends:
  assumes ok: "logger_ok lg"
  shows "\<exists>buf d. trace u m lg = Some (logged u buf d lg) \<and> length buf = 1500 \<and>
    (if length (line_header u lg @ m) < 1499
     then d = (line_header u lg @ m) @ (if last (line_header u lg @ m) = 0x0A then [] else [0x0A])
     else length d = min 1500 (length (line_header u lg @ m)) \<and> take 1498 d = take 1498 (line_header u lg @ m))"
proof -
  define h where "h = line_header u lg"
  let ?n = "length h" and ?k = "length h + length m"
  have h: "?n \<le> 68" "0 < ?n" "length (lg_buffer lg) = 1500"
    using line_header_length [OF ok] ok by (auto simp: logger_ok_def h_def)
  obtain b1 where b1: "snprintf (lg_buffer lg) 0 1500 h = Some (b1, ?n)" "length b1 = 1500" "take ?n b1 = h"
    using snprintf_take [of 0 1500 "lg_buffer lg" h] h by auto
  obtain b2 where b2: "snprintf b1 ?n (1500 - ?n - 1) m = Some (b2, length m)" "length b2 = 1500"
    "take (?n + min (length m) (1500 - ?n - 2)) b2 = h @ take (1500 - ?n - 2) m"
    using snprintf_take [of ?n "1500 - ?n - 1" b1 m] h b1 by (auto simp: numeral_2_eq_2)
  have "trace u m lg = (do {
      (buf, sz) \<leftarrow> end_line b2 ?k;
      (buf, sz) \<leftarrow> cut_line buf sz;
      send_line u (buf, sz) lg })"
    using h b1(1) b2(1)
    by (simp add: trace_def send_message_def send_line_def BUFFER_SIZE_def Let_def bind_assoc case_prod_unfold
        line_header_def [symmetric] h_def [symmetric] cong: if_cong del: ascii_simps)
  note sm = this
  show ?thesis
  proof (cases "?k < 1499")
    case True
    have "take ?k b2 = h @ m" using b2(3) True by (auto simp: min_def split: if_splits)
    from line_end [OF b2(2) _ True this] h obtain m' k where "end_line b2 ?k = Some (m', k)" "length m' = 1500" "k \<le> 1499"
      "take k m' = (h @ m) @ (if last (h @ m) = 0x0A then [] else [0x0A])" by auto
    then show ?thesis using True unfolding sm h_def [symmetric] by (auto simp: send_line_logged cut_line_def BUFFER_SIZE_def)
  next
    case False
    have t: "take 1498 b2 = take 1498 (h @ m)"
      using b2(3) False h by (simp add: min_def split: if_splits)
    have "end_line b2 ?k = Some (b2, ?k)" using False by (simp add: end_line_def BUFFER_SIZE_def)
    note e = this
    show ?thesis
    proof (cases "?k > 1500")
      case True
      then have "trace u m lg = Some (logged u (b2[1499 := 0]) (b2[1499 := 0]) lg)"
        using e b2(2) unfolding sm by (simp add: send_line_logged mem_write_def cut_line_def BUFFER_SIZE_def)
      then show ?thesis using False True t b2(2) unfolding h_def [symmetric]
        by (intro exI [of _ "b2[1499 := 0]"]) simp
    next
      case b: False
      then have "trace u m lg = Some (logged u b2 (take ?k b2) lg)"
        using e b2(2) unfolding sm by (simp add: send_line_logged cut_line_def BUFFER_SIZE_def)
      then show ?thesis using False b t b2(2) unfolding h_def [symmetric]
        by (intro exI [of _ b2] exI [of _ "take ?k b2"]) simp
    qed
  qed
qed

section \<open>A recording network\<close>

record log_net =
  ln_packets :: "(bool \<times> bytes) list"
  ln_time_us :: u64
  ln_watchdog :: "int \<times> int"

definition udp_log :: "log_net udp" where
  "udp_log = \<lparr> ud_server_ok = True, ud_bind = (\<lambda>b p n. (ERR_OK, n)), ud_connect = (\<lambda>b n. n), ud_alloc = (\<lambda>k n. True),
     ud_send = (\<lambda>b d n. (ERR_OK, n\<lparr>ln_packets := ln_packets n @ [(b, d)]\<rparr>)), ud_address = (\<lambda>n. ascii ''10.0.0.2''),
     ud_time_us = ln_time_us, ud_timer = (\<lambda>n. ucast (ln_time_us n)), ud_busy_wait_us = (\<lambda>us n. n\<lparr>ln_time_us := ln_time_us n + us\<rparr>),
     ud_watchdog = ln_watchdog \<rparr>"

lemma udp_log_simps [simp]:
  "ud_alloc udp_log k n" "ud_send udp_log b d n = (ERR_OK, n\<lparr>ln_packets := ln_packets n @ [(b, d)]\<rparr>)"
  "ud_time_us udp_log n = ln_time_us n" "ud_watchdog udp_log n = ln_watchdog n"
  "datagram udp_log d n = n\<lparr>ln_packets := ln_packets n @ [(False, d)]\<rparr>"
  by (simp_all add: udp_log_def datagram_def)

section \<open>Saving and reporting\<close>

definition crash_record :: "u32 list \<Rightarrow> nat \<Rightarrow> retained" where
  "crash_record buf depth = \<lparr> rt_last_command = MAGIC_CALLSTACK, rt_cur_depth = of_nat depth, rt_call_stack_buf = buf \<rparr>"

lemma fault_init_record:
  "fault_init mem sp lg = map_option (\<lambda>(buf, depth). lg\<lparr>lg_retained := crash_record buf depth\<rparr>)
     (cm_backtrace_call_stack (lg_backtrace lg) mem (rt_call_stack_buf (lg_retained lg)) 50 sp)"
proof -
  have "r\<lparr>rt_cur_depth := 0, rt_last_command := MAGIC_CALLSTACK, rt_call_stack_buf := buf, rt_cur_depth := of_nat depth\<rparr> =
      crash_record buf depth" for r buf depth
    by (cases r) (simp add: crash_record_def)
  then show ?thesis
    by (simp add: fault_init_def CMB_CALL_STACK_MAX_DEPTH_def map_conv_bind_option Let_def case_prod_unfold comp_def)
qed

lemma call_stack_without_fault:
  assumes "logger_ok lg" and "\<not> bt_on_fault (lg_backtrace lg)"
    and "stack_end = bt_main_stack_start (lg_backtrace lg) + bt_main_stack_size (lg_backtrace lg)"
    and "as = take 50 (return_addresses (lg_backtrace lg) mem sp stack_end)"
  shows "\<exists>buf. cm_backtrace_call_stack (lg_backtrace lg) mem (rt_call_stack_buf (lg_retained lg)) 50 sp = Some (buf, length as) \<and>
    length buf = 50 \<and> take (length as) buf = as"
proof -
  let ?rs = "return_addresses (lg_backtrace lg) mem sp stack_end" and ?buf = "rt_call_stack_buf (lg_retained lg)"
  have ok: "stack_end \<le> 0xFFFFFFFC" "length ?buf = 50" "\<not> bt_stack_is_overflow (lg_backtrace lg)"
    using assms(1,3) by (auto simp: logger_ok_def backtrace_ok_def)
  obtain buf where b: "scan_stack (lg_backtrace lg) mem 50 False stack_end ?buf 0 sp = Some (buf, min 50 (length ?rs))"
    "length buf = 50" "take (min 50 (length ?rs)) buf = take 50 ?rs"
    using scan_stack_finds [OF ok(1,2), of 0 False "lg_backtrace lg" mem sp] by auto
  have "length as = min 50 (length ?rs)" by (simp add: assms(4))
  then show ?thesis
    using b assms ok(3) by (intro exI [of _ buf]) (simp add: cm_backtrace_call_stack_def Let_def)
qed

text \<open>Printing leaves everything alone that the invariant does not speak of: only the line buffer, the counter, the network
  and the buffer of the scanner change.\<close>

lemma trace_all_ok:
  "logger_ok lg \<Longrightarrow> \<exists>buf c ds. trace_all u ms lg = Some (lg\<lparr>lg_buffer := buf, lg_count := c, lg_net := fold (datagram u) ds (lg_net lg)\<rparr>) \<and>
    logger_ok (lg\<lparr>lg_buffer := buf, lg_count := c, lg_net := fold (datagram u) ds (lg_net lg)\<rparr>)"
proof (induction ms arbitrary: lg)
  case Nil
  then show ?case by (intro exI [of _ "lg_buffer lg"] exI [of _ "lg_count lg"] exI [of _ "[]"]) simp
next
  case (Cons m ms)
  obtain buf d where t: "trace u m lg = Some (logged u buf d lg)" "length buf = 1500"
    using trace_sends [OF Cons.prems, of u m] by blast
  let ?lg = "logged u buf d lg"
  obtain buf' c' ds where
    "trace_all u ms ?lg = Some (?lg\<lparr>lg_buffer := buf', lg_count := c', lg_net := fold (datagram u) ds (lg_net ?lg)\<rparr>)"
    "logger_ok (?lg\<lparr>lg_buffer := buf', lg_count := c', lg_net := fold (datagram u) ds (lg_net ?lg)\<rparr>)"
    using Cons.IH [OF logged_ok [OF Cons.prems t(2)]] by blast
  then show ?case using t(1)
    by (intro exI [of _ buf'] exI [of _ c'] exI [of _ "d # ds"]) (simp add: logged_def)
qed

lemma backtrace_prints_ok:
  assumes "logger_ok lg" and "f (lg_backtrace lg) = Some (b, ms)" and "backtrace_ok b"
  shows "\<exists>buf c ds. backtrace_prints u f lg =
      Some (lg\<lparr>lg_backtrace := b, lg_buffer := buf, lg_count := c, lg_net := fold (datagram u) ds (lg_net lg)\<rparr>) \<and>
    logger_ok (lg\<lparr>lg_backtrace := b, lg_buffer := buf, lg_count := c, lg_net := fold (datagram u) ds (lg_net lg)\<rparr>)"
proof -
  have "logger_ok (lg\<lparr>lg_backtrace := b\<rparr>)" using assms(1,3) by (simp add: logger_ok_def)
  from trace_all_ok [OF this, of u ms] show ?thesis using assms(2) by (auto simp: backtrace_prints_def)
qed

text \<open>The four ways to crash.\<close>

definition crash_ways :: "'n udp \<Rightarrow> memory \<Rightarrow> u32 \<Rightarrow> u32 \<Rightarrow> ('n logger \<Rightarrow> 'n device option) list" where
  "crash_ways u mem lr sp = [fault_handler u mem lr sp, fail mem sp, pico_logger_panic mem sp, watchdog_timeout mem sp]"

lemma crash_saves:
  assumes ok: "logger_ok lg" and "crash \<in> set (crash_ways u mem lr sp)"
    and init: "cm_backtrace_call_stack (lg_backtrace lg) mem (rt_call_stack_buf (lg_retained lg)) 50 sp = Some (buf0, depth)"
      "length buf0 = 50"
  shows "\<exists>lg'. crash lg = Some (Restarting lg') \<and> logger_ok lg' \<and> lg_retained lg' = crash_record buf0 depth"
proof -
  let ?rt = "crash_record buf0 depth"
  have ok': "logger_ok (lg\<lparr>lg_retained := ?rt\<rparr>)" "logger_ok (lg\<lparr>lg_intr := False, lg_retained := ?rt\<rparr>)"
    using ok init(2) by (simp_all add: logger_ok_def crash_record_def)
  obtain b ms where f: "cm_backtrace_fault CMB_CPU_PLATFORM_TYPE mem lr sp (lg_backtrace lg) = Some (b, ms)" "backtrace_ok b"
    using fault_keeps_ok [of "lg_backtrace lg" CMB_CPU_PLATFORM_TYPE mem lr sp] ok by (auto simp: logger_ok_def)
  obtain buf c ds where p: "backtrace_prints u (cm_backtrace_fault CMB_CPU_PLATFORM_TYPE mem lr sp) (lg\<lparr>lg_retained := ?rt\<rparr>) =
      Some (lg\<lparr>lg_retained := ?rt, lg_backtrace := b, lg_buffer := buf, lg_count := c, lg_net := fold (datagram u) ds (lg_net lg)\<rparr>)"
    "logger_ok (lg\<lparr>lg_retained := ?rt, lg_backtrace := b, lg_buffer := buf, lg_count := c, lg_net := fold (datagram u) ds (lg_net lg)\<rparr>)"
    using backtrace_prints_ok [where f = "cm_backtrace_fault CMB_CPU_PLATFORM_TYPE mem lr sp" and u = u, OF ok'(1) _ f(2)] f(1) by force
  consider "crash = fault_handler u mem lr sp" | "crash = fail mem sp" | "crash = pico_logger_panic mem sp" | "crash = watchdog_timeout mem sp"
    using assms(2) by (auto simp: crash_ways_def)
  then show ?thesis
  proof cases
    case 1
    then show ?thesis using init p by (simp add: fault_init_record fault_handler_def force_restart_def) (simp add: logger_ok_def)
  next
    case 4
    then show ?thesis using init ok' by (simp add: fault_init_record watchdog_timeout_def)
  qed (use init ok' in \<open>simp_all add: fault_init_record fail_def pico_logger_panic_def\<close>)
qed

lemma crash_leaves:
  assumes "logger_ok lg" and "crash \<in> set (crash_ways u mem lr sp)" and "\<not> bt_on_fault (lg_backtrace lg)"
    and "stack_end = bt_main_stack_start (lg_backtrace lg) + bt_main_stack_size (lg_backtrace lg)"
    and "as = take 50 (return_addresses (lg_backtrace lg) mem sp stack_end)"
  shows "\<exists>lg' buf. crash lg = Some (Restarting lg') \<and> logger_ok lg' \<and> length buf = 50 \<and> take (length as) buf = as \<and>
    lg_retained lg' = \<lparr> rt_last_command = MAGIC_CALLSTACK, rt_cur_depth = of_nat (length as), rt_call_stack_buf = buf \<rparr>"
  using call_stack_without_fault [OF assms(1,3-5)] crash_saves [OF assms(1,2)] unfolding crash_record_def by blast

lemma trace_fits:
  assumes "logger_ok lg" and "length m < 1400" and "m \<noteq> []" and "last m \<noteq> 0x0A"
  shows "\<exists>buf. trace udp_log m lg = Some (logged udp_log buf (line_header udp_log lg @ m @ [0x0A]) lg) \<and> length buf = 1500"
proof -
  have "length (line_header udp_log lg @ m) < 1499" using line_header_length(1) [OF assms(1), of udp_log] assms(2) by simp
  moreover have "last (line_header udp_log lg @ m) = last m" using assms(3) by simp
  ultimately show ?thesis using trace_sends [OF assms(1), of udp_log m] assms(4) by auto
qed

lemma report_saved:
  assumes ok: "logger_ok lg" and fw: "length (bt_fw_name (lg_backtrace lg)) \<le> 500"
    and rt: "lg_retained lg = \<lparr> rt_last_command = MAGIC_CALLSTACK, rt_cur_depth = of_nat (length as), rt_call_stack_buf = buf \<rparr>"
    and as: "as \<noteq> []" "length as \<le> 50" "length buf = 50" "take (length as) buf = as"
    and wd: "length (last_boot_info (ln_watchdog (lg_net lg)) (lg_retained lg)) < 1400"
  shows "\<exists>lg'. report_saved_crash udp_log lg = Some lg' \<and> ln_packets (lg_net lg') = ln_packets (lg_net lg) @
      [(False, line_header udp_log lg @ last_boot_info (ln_watchdog (lg_net lg)) (lg_retained lg) @ [0x0A]),
       (False, line_header udp_log (lg\<lparr>lg_count := (lg_count lg + 1) mod 999\<rparr>) @ ascii ''Print call stack: addr2line -e ''
          @ bt_fw_name (lg_backtrace lg) @ ascii ''.elf'' @ ascii '' -afpiC '' @ address_text as @ [0x0A])]"
proof -
  let ?m1 = "last_boot_info (ln_watchdog (lg_net lg)) (lg_retained lg)"
  let ?m2 = "ascii ''Print call stack: addr2line -e '' @ bt_fw_name (lg_backtrace lg) @ ascii ''.elf''
    @ ascii '' -afpiC '' @ address_text as"
  have d: "unat (of_nat (length as) :: u32) = length as" "(of_nat (length as) :: u32) \<noteq> 0"
    using as by (auto simp: unat_of_nat word_unat_eq_iff)
  have l1: "last ?m1 \<noteq> 0x0A" "?m1 \<noteq> []"
  proof -
    have "is_decimal (decimal (sint (of_nat (length as) :: u32)))"
      using as(2) by (subst signed_of_nat) (simp add: signed_take_bit_int_eq_self decimal_def nat_decimal_digits)
    then have z: "decimal (sint (of_nat (length as) :: u32)) \<noteq> []" "0x0A \<notin> set (decimal (sint (of_nat (length as) :: u32)))"
      using decimal_not_special [of _ "0x0A"] by (auto simp: is_decimal_def)
    have "last ?m1 = last (decimal (sint (of_nat (length as) :: u32)))" using z(1) by (simp add: last_boot_info_def rt)
    then show "last ?m1 \<noteq> 0x0A" using z last_in_set by metis
    show "?m1 \<noteq> []" by (simp add: last_boot_info_def)
  qed
  obtain b1 where b1: "trace udp_log ?m1 lg = Some (logged udp_log b1 (line_header udp_log lg @ ?m1 @ [0x0A]) lg)" "length b1 = 1500"
    using trace_fits [OF ok wd l1(2,1)] by auto
  let ?lg1 = "logged udp_log b1 (line_header udp_log lg @ ?m1 @ [0x0A]) lg"
  have bt: "lg_backtrace ?lg1 = lg_backtrace lg" "lg_retained ?lg1 = lg_retained lg" by (simp_all add: logged_def)
  obtain info where info: "cm_print_call_stack buf (length as) (lg_backtrace lg) =
      Some ((lg_backtrace lg)\<lparr>bt_call_stack_info := info\<rparr>, [?m2])" "length info = 450"
    using cm_print_call_stack_text [of "lg_backtrace lg" as "length as" buf] ok as by (auto simp: logger_ok_def backtrace_ok_def)
  let ?lg2 = "?lg1\<lparr>lg_backtrace := (lg_backtrace lg)\<lparr>bt_call_stack_info := info\<rparr>\<rparr>"
  have ok2: "logger_ok ?lg2" using logged_ok [OF ok b1(2)] info(2) ok by (auto simp: logger_ok_def backtrace_ok_def)
  have l2: "length ?m2 < 1400" "?m2 \<noteq> []" "last ?m2 \<noteq> 0x0A"
  proof -
    obtain a as' where "as = as' @ [a]" using as(1) rev_exhaust by blast
    then show "last ?m2 \<noteq> 0x0A" by (simp add: address_text_def)
  qed (use fw as(2) in simp_all)
  obtain b2 where "trace udp_log ?m2 ?lg2 = Some (logged udp_log b2 (line_header udp_log ?lg2 @ ?m2 @ [0x0A]) ?lg2)"
    using trace_fits [OF ok2 l2] by auto
  moreover have "line_header udp_log ?lg2 = line_header udp_log (lg\<lparr>lg_count := (lg_count lg + 1) mod 999\<rparr>)"
    by (simp add: line_header_def logged_def)
  moreover have "\<not> unat (rt_cur_depth (lg_retained lg)) > CMB_CALL_STACK_MAX_DEPTH" "rt_cur_depth (lg_retained lg) \<noteq> 0"
    "rt_last_command (lg_retained lg) = MAGIC_CALLSTACK" "unat (rt_cur_depth (lg_retained lg)) = length as"
    "rt_call_stack_buf (lg_retained lg) = buf"
    using d as(2) by (simp_all add: rt CMB_CALL_STACK_MAX_DEPTH_def)
  ultimately show ?thesis
    using b1(1) info(1) bt
    by (simp add: report_saved_crash_def backtrace_prints_def Let_def del: ascii_simps) (simp add: logged_def)
qed


lemma length_hex: "length (hex x) \<le> 8"
proof -
  have "length (dropWhile (\<lambda>b. b = 0x30) (hex8 x)) \<le> 8"
    using length_dropWhile_le [of "\<lambda>b. b = 0x30" "hex8 x"] by simp
  then show ?thesis by (auto simp: hex_def split: list.split)
qed

lemma sint_small: "n \<le> 50 \<Longrightarrow> sint (of_nat n :: u32) = int n"
  by (subst signed_of_nat) (simp add: signed_take_bit_int_eq_self)

lemma last_boot_info_length:
  assumes "0 \<le> a" and "a < 2" and "0 \<le> b" and "b < 2" and "unat (rt_cur_depth rt) \<le> 50"
  shows "length (last_boot_info (a, b) rt) < 1400"
proof -
  have one: "length (decimal i) \<le> 1" if "0 \<le> i" "i < 2" for i
    using that nat_decimal_length [of "nat i" 1] by (simp add: decimal_def)
  have "sint (rt_cur_depth rt) = int (unat (rt_cur_depth rt))"
  proof -
    have "sint (of_nat (unat (rt_cur_depth rt)) :: u32) = int (unat (rt_cur_depth rt))"
      by (rule sint_small [OF assms(5)])
    then show ?thesis by simp
  qed
  then have "length (decimal (sint (rt_cur_depth rt))) \<le> 2"
    using assms(5) nat_decimal_length [of "unat (rt_cur_depth rt)" 2] by (simp add: decimal_def)
  then show ?thesis
    using one [OF assms(1,2)] one [OF assms(3,4)] length_hex [of "rt_last_command rt"]
    by (simp add: last_boot_info_def)
qed

section \<open>Properties\<close>

text \<open>C36. Every message becomes one datagram, and nothing is written outside the 1500-byte buffer, however
  long the message is: the header with the counter, the time, the address and the category, the message,
  and a newline if it does not end in one. A line of 1499 bytes or more is cut to 1500; its last two bytes are
  then not those of the message. The counter runs from 0 to 998. When there is no memory for the datagram it is lost.\<close>

theorem logger_datagram:
  assumes "logger_ok lg"
  shows "\<exists>lg' d. trace u m lg = Some lg' \<and> logger_ok lg' \<and>
    lg_net lg' = (if ud_alloc u (length d) (lg_net lg) then snd (ud_send u False d (lg_net lg)) else lg_net lg) \<and>
    lg_count lg' = (lg_count lg + 1) mod 999 \<and> length d \<le> 1500 \<and>
    (let line = log_header (lg_count lg) (boot_time_ms (ud_time_us u (lg_net lg))) (lg_address lg) (ascii ''trace'') @ m in
     if length line < 1499 then d = line @ (if last line = 0x0A then [] else [0x0A])
     else take 1498 d = take 1498 line)"
proof -
  obtain buf d where t: "trace u m lg = Some (logged u buf d lg)" "length buf = 1500"
    "if length (line_header u lg @ m) < 1499
     then d = (line_header u lg @ m) @ (if last (line_header u lg @ m) = 0x0A then [] else [0x0A])
     else length d = min 1500 (length (line_header u lg @ m)) \<and> take 1498 d = take 1498 (line_header u lg @ m)"
    using trace_sends [OF assms, of u m] by blast
  have "length d \<le> 1500" using t(3) by (auto split: if_splits)
  then show ?thesis
    using t logged_ok [OF assms t(2)] unfolding line_header_def
    by (intro exI [of _ "logged u buf d lg"] exI [of _ d]) (auto simp: logged_def datagram_def Let_def split: if_splits)
qed

definition demo_logger :: "log_net logger" where
  "demo_logger = \<lparr> lg_buffer = replicate 1500 0, lg_address = ascii ''10.0.0.2'', lg_count = 998,
     lg_watchdog_timeout_us = 0, lg_handlers = [], lg_intr = False, lg_inte = False, lg_alarm = None,
     lg_retained = \<lparr> rt_last_command = 7, rt_cur_depth = 9, rt_call_stack_buf = replicate 50 0 \<rparr>,
     lg_backtrace = demo_backtrace,
     lg_net = \<lparr> ln_packets = [], ln_time_us = 12000, ln_watchdog = (1, 0) \<rparr> \<rparr>"

lemma demo_logger_ok: "logger_ok demo_logger"
  by (simp add: logger_ok_def backtrace_ok_def demo_logger_def demo_backtrace_def)

theorem logger_datagram_witness:
  "\<exists>lg' d. trace udp_log [0x68, 0x69] demo_logger = Some lg' \<and> logger_ok lg' \<and>
    lg_net lg' = (if ud_alloc udp_log (length d) (lg_net demo_logger) then snd (ud_send udp_log False d (lg_net demo_logger))
      else lg_net demo_logger) \<and>
    lg_count lg' = (lg_count demo_logger + 1) mod 999 \<and> length d \<le> 1500 \<and>
    (let line = log_header (lg_count demo_logger) (boot_time_ms (ud_time_us udp_log (lg_net demo_logger))) (lg_address demo_logger)
          (ascii ''trace'') @ [0x68, 0x69] in
     if length line < 1499 then d = line @ (if last line = 0x0A then [] else [0x0A])
     else take 1498 d = take 1498 line)"
  by (rule logger_datagram) (rule demo_logger_ok)

text \<open>C19. The call stack of a crash survives the restart. What a hard fault, \<open>fail\<close>, \<open>pico_logger_panic\<close> or the watchdog leaves
  in the retained memory at a stack pointer, before it restarts, is, read back after the restart by \<open>report_saved_crash\<close> of a
  fresh logger, sent as two messages: the second lists, in the order of the stack, the first 50 words of it that follow a call
  instruction of the program, less one. A stack without such a word is not reported. (50 is the value of
  \<open>CMB_CALL_STACK_MAX_DEPTH\<close>; the comment above it says 32, the README 16.)\<close>

theorem crash_report_survives_restart:
  assumes "crash \<in> {fault_handler u mem lr sp, fail mem sp, pico_logger_panic mem sp, watchdog_timeout mem sp}"
    and "logger_ok crashed" and "\<not> bt_on_fault (lg_backtrace crashed)"
    and "stack_end = bt_main_stack_start (lg_backtrace crashed) + bt_main_stack_size (lg_backtrace crashed)"
    and "as = take 50 (return_addresses (lg_backtrace crashed) mem sp stack_end)"
    and "logger_ok lg" and "length (bt_fw_name (lg_backtrace lg)) \<le> 500"
    and "ln_watchdog (lg_net lg) = (a, b)" and "0 \<le> a" and "a < 2" and "0 \<le> b" and "b < 2"
  shows "\<exists>gone lg'. crash crashed = Some (Restarting gone) \<and>
    report_saved_crash udp_log (lg\<lparr>lg_retained := lg_retained gone\<rparr>) = Some lg' \<and>
    ln_packets (lg_net lg') = ln_packets (lg_net lg) @ (if as = [] then [] else
      [(False, line_header udp_log lg @ last_boot_info (a, b) (lg_retained gone) @ [0x0A]),
       (False, line_header udp_log (lg\<lparr>lg_count := (lg_count lg + 1) mod 999\<rparr>) @ ascii ''Print call stack: addr2line -e ''
          @ bt_fw_name (lg_backtrace lg) @ ascii ''.elf'' @ ascii '' -afpiC ''
          @ concat (map (\<lambda>a. hex8 a @ [0x20]) as) @ [0x0A])])"
proof -
  have l: "length as \<le> 50" by (simp add: assms(5))
  obtain gone buf where g: "crash crashed = Some (Restarting gone)" "length buf = 50" "take (length as) buf = as"
    "lg_retained gone = \<lparr> rt_last_command = MAGIC_CALLSTACK, rt_cur_depth = of_nat (length as), rt_call_stack_buf = buf \<rparr>"
    using crash_leaves [OF assms(2) _ assms(3-5), of crash u lr] assms(1) by (auto simp: crash_ways_def)
  let ?rt = "lg_retained gone"
  let ?lg = "lg\<lparr>lg_retained := ?rt\<rparr>"
  show ?thesis
  proof (cases "as = []")
    case True
    then have "report_saved_crash udp_log ?lg = Some ?lg" by (simp add: report_saved_crash_def g(4) Let_def)
    then show ?thesis using g(1) True by (intro exI [of _ gone] exI [of _ ?lg]) simp
  next
    case False
    have "logger_ok ?lg" using assms(6) g(2,4) by (simp add: logger_ok_def)
    moreover have "length (last_boot_info (a, b) ?rt) < 1400"
      using last_boot_info_length [OF assms(9-12), of ?rt] l by (simp add: unat_of_nat g(4))
    moreover have "line_header udp_log ?lg = line_header udp_log lg"
      "line_header udp_log (?lg\<lparr>lg_count := c\<rparr>) = line_header udp_log (lg\<lparr>lg_count := c\<rparr>)" for c
      by (simp_all add: line_header_def)
    ultimately obtain lg' where "report_saved_crash udp_log ?lg = Some lg'"
      "ln_packets (lg_net lg') = ln_packets (lg_net lg) @
        [(False, line_header udp_log lg @ last_boot_info (a, b) ?rt @ [0x0A]),
         (False, line_header udp_log (lg\<lparr>lg_count := (lg_count lg + 1) mod 999\<rparr>) @ ascii ''Print call stack: addr2line -e ''
          @ bt_fw_name (lg_backtrace lg) @ ascii ''.elf'' @ ascii '' -afpiC '' @ address_text as @ [0x0A])]"
      using report_saved [of ?lg as buf] assms(7,8) False l g(2-4) by (auto simp del: ascii_simps)
    then show ?thesis using g(1) False
      by (intro exI [of _ gone] exI [of _ lg']) (simp add: address_text_def del: ascii_simps)
  qed
qed

text \<open>A stack of two words, the first a return address behind a \<open>BL\<close>.\<close>

definition demo_stack :: memory where
  "demo_stack a = (if a = 0x10000101 then 0xF0 else if a = 0x10000103 then 0xF8
     else if a = 0x20000000 then 0x05 else if a = 0x20000001 then 0x01 else if a = 0x20000003 then 0x10 else 0)"

lemma demo_return_addresses: "return_addresses (lg_backtrace demo_logger) demo_stack 0x20000000 0x20000008 = [0x10000104]"
proof -
  have w: "load32 demo_stack 0x20000000 = 0x10000105" "load32 demo_stack 0x20000004 = 0"
    by (simp_all add: load32_def demo_stack_def)
  have i: "load16 demo_stack 0x10000100 = 0xF000" "load16 demo_stack 0x10000102 = 0xF800"
    by (simp_all add: load16_def demo_stack_def)
  have "is_return_address (lg_backtrace demo_logger) demo_stack 0x10000105" "\<not> is_return_address (lg_backtrace demo_logger) demo_stack 0"
    using i by (simp_all add: is_return_address_def demo_logger_def demo_backtrace_def disassembly_ins_is_bl_blx_def Let_def)
  then show ?thesis using w by (simp add: return_addresses_def stack_words_def upt_rec)
qed

theorem crash_report_survives_restart_witness:
  "\<exists>gone lg'. watchdog_timeout demo_stack 0x20000000 demo_logger = Some (Restarting gone) \<and>
    report_saved_crash udp_log (demo_logger\<lparr>lg_retained := lg_retained gone\<rparr>) = Some lg' \<and>
    ln_packets (lg_net lg') = ln_packets (lg_net demo_logger) @ (if [0x10000104 :: u32] = [] then [] else
      [(False, line_header udp_log demo_logger @ last_boot_info (1, 0) (lg_retained gone) @ [0x0A]),
       (False, line_header udp_log (demo_logger\<lparr>lg_count := (lg_count demo_logger + 1) mod 999\<rparr>)
          @ ascii ''Print call stack: addr2line -e '' @ bt_fw_name (lg_backtrace demo_logger) @ ascii ''.elf'' @ ascii '' -afpiC ''
          @ concat (map (\<lambda>a. hex8 a @ [0x20]) [0x10000104]) @ [0x0A])])"
  by (rule crash_report_survives_restart [where stack_end = "0x20000008" and u = udp_log and lr = 0 and mem = demo_stack and sp = "0x20000000"])
    (simp_all add: demo_logger_ok demo_return_addresses, simp_all add: demo_logger_def, simp_all add: demo_backtrace_def)

end
