(* ===== verification/Pico_Logger_Run.thy ===== *)
theory Pico_Logger_Run
  imports Pico_Logger_Spec
begin

text \<open>
  The logger in the course of time: calls of the application and ticks of the timer, in any order. The timer counts
  microseconds in 32 bits; when it reaches an armed alarm the alarm is disarmed and its interrupt pending, and a
  pending interrupt that is enabled runs \<open>watchdog_timeout\<close>. Every call keeps the invariant of the logger, or is \<open>trace_bytes\<close>
  without memory; a watchdog that is fed in time never fires, and one that is not fed any more does, with the call stack saved.
\<close>

section \<open>Runs\<close>

text \<open>The functions of \<open>pico_logger.h\<close>, a fault, and a tick of the timer.\<close>

datatype logger_event = Tick | Feed | Log bytes | Log_bytes bytes | Log_stack | Clear_crash | Report_crash | Fault u32 | Fail | Panic
  | Force_restart | Start linker_map bytes bytes bytes u32

definition alarm_tick :: "'n udp \<Rightarrow> ('n \<Rightarrow> 'n) \<Rightarrow> 'n logger \<Rightarrow> 'n logger" where
  "alarm_tick u tick lg =
     (let lg = lg\<lparr>lg_net := tick (lg_net lg)\<rparr> in
      if lg_alarm lg = Some (ud_timer u (lg_net lg)) then lg\<lparr>lg_intr := True, lg_alarm := None\<rparr> else lg)"

fun logger_call :: "'n udp \<Rightarrow> ('n \<Rightarrow> 'n) \<Rightarrow> memory \<Rightarrow> u32 \<Rightarrow> logger_event \<Rightarrow> 'n logger \<Rightarrow> 'n device option" where
  "logger_call u tick mem sp Tick lg = Some (Running (alarm_tick u tick lg))"
| "logger_call u tick mem sp Feed lg = Some (Running (update_watchdog u lg))"
| "logger_call u tick mem sp (Log m) lg = map_option Running (trace u m lg)"
| "logger_call u tick mem sp (Log_bytes data) lg = map_option Running (trace_bytes u data lg)"
| "logger_call u tick mem sp Log_stack lg = map_option Running (trace_stack u mem sp lg)"
| "logger_call u tick mem sp Clear_crash lg = Some (Running (clear_saved_crash lg))"
| "logger_call u tick mem sp Report_crash lg = map_option Running (report_saved_crash u lg)"
| "logger_call u tick mem sp (Fault lr) lg = fault_handler u mem lr sp lg"
| "logger_call u tick mem sp Fail lg = fail mem sp lg"
| "logger_call u tick mem sp Panic lg = pico_logger_panic mem sp lg"
| "logger_call u tick mem sp Force_restart lg = Some (force_restart u lg)"
| "logger_call u tick mem sp (Start lm fw hw sw ms) lg = map_option (\<lambda>(r, lg). Running lg) (start_logging_server u lm fw hw sw ms lg)"

text \<open>Behind a call the interrupt is taken if it is pending and enabled. Each event carries the memory and the stack pointer of
  its moment.\<close>

definition take_interrupt :: "memory \<Rightarrow> u32 \<Rightarrow> 'n device \<Rightarrow> 'n device option" where
  "take_interrupt mem sp d = (case d of Restarting lg \<Rightarrow> Some d
     | Running lg \<Rightarrow> if lg_intr lg \<and> lg_inte lg then watchdog_timeout mem sp lg else Some d)"

fun device_step :: "'n udp \<Rightarrow> ('n \<Rightarrow> 'n) \<Rightarrow> logger_event \<times> memory \<times> u32 \<Rightarrow> 'n device \<Rightarrow> 'n device option" where
  "device_step u tick (e, mem, sp) (Running lg) = Option.bind (logger_call u tick mem sp e lg) (take_interrupt mem sp)"
| "device_step u tick (e, mem, sp) (Restarting lg) = Some (Restarting lg)"

fun device_run :: "'n udp \<Rightarrow> ('n \<Rightarrow> 'n) \<Rightarrow> (logger_event \<times> memory \<times> u32) list \<Rightarrow> 'n device \<Rightarrow> 'n device option" where
  "device_run u tick [] d = Some d"
| "device_run u tick (e # es) d = Option.bind (device_step u tick e d) (device_run u tick es)"

fun device_ok :: "'n device \<Rightarrow> bool" where
  "device_ok (Running lg) = logger_ok lg"
| "device_ok (Restarting lg) = logger_ok lg"

section \<open>The calls that do not crash\<close>

definition same_program :: "backtrace \<Rightarrow> backtrace \<Rightarrow> bool" where
  "same_program b b' \<longleftrightarrow> bt_main_stack_start b' = bt_main_stack_start b \<and> bt_main_stack_size b' = bt_main_stack_size b \<and>
     bt_code_start b' = bt_code_start b \<and> bt_code_size b' = bt_code_size b \<and> bt_on_fault b' = bt_on_fault b"

lemma same_program_refl [simp]: "same_program b b"
  by (simp add: same_program_def)

lemma same_program_info [simp]: "same_program b (b\<lparr>bt_call_stack_info := info\<rparr>)"
  by (simp add: same_program_def)

text \<open>What such a call changes: never the alarm, the interrupt or the code and stack the scanner looks at.\<close>

definition unmoved :: "'n udp \<Rightarrow> 'n logger \<Rightarrow> 'n logger \<Rightarrow> bool" where
  "unmoved u lg lg' \<longleftrightarrow> logger_ok lg' \<and> lg_alarm lg' = lg_alarm lg \<and> lg_intr lg' = lg_intr lg \<and> lg_inte lg' = lg_inte lg \<and>
     lg_watchdog_timeout_us lg' = lg_watchdog_timeout_us lg \<and>
     same_program (lg_backtrace lg) (lg_backtrace lg') \<and> (\<exists>ds. lg_net lg' = fold (datagram u) ds (lg_net lg))"

lemma backtrace_prints_unmoved:
  assumes "logger_ok lg" and "f (lg_backtrace lg) = Some ((lg_backtrace lg)\<lparr>bt_call_stack_info := info\<rparr>, ms)" and "length info = 450"
  shows "\<exists>lg'. backtrace_prints u f lg = Some lg' \<and> unmoved u lg lg'"
proof -
  have "backtrace_ok ((lg_backtrace lg)\<lparr>bt_call_stack_info := info\<rparr>)" using assms(1,3) by (simp add: logger_ok_def backtrace_ok_def)
  from backtrace_prints_ok [where f = f and u = u, OF assms(1,2) this] show ?thesis by (auto simp: unmoved_def)
qed

lemma trace_unmoved:
  assumes "logger_ok lg"
  shows "\<exists>lg'. trace u m lg = Some lg' \<and> unmoved u lg lg'"
proof -
  obtain buf d where "trace u m lg = Some (logged u buf d lg)" "length buf = 1500" using trace_sends [OF assms] by blast
  then show ?thesis using logged_ok [OF assms]
    by (auto simp: unmoved_def logged_def intro!: exI [of _ "[d]"])
qed

lemma unmoved_trans: "unmoved u lg lg' \<Longrightarrow> unmoved u lg' lg'' \<Longrightarrow> unmoved u lg lg''"
  unfolding unmoved_def same_program_def by (metis fold_append comp_apply)

lemma unmoved_refl: "logger_ok lg \<Longrightarrow> unmoved u lg lg"
  by (auto simp: unmoved_def intro: exI [of _ "[]"])

lemma trace_stack_unmoved: "logger_ok lg \<Longrightarrow> \<exists>lg'. trace_stack u mem sp lg = Some lg' \<and> unmoved u lg lg'"
  using cm_backtrace_assert_ok [of "lg_backtrace lg" mem sp] backtrace_prints_unmoved [of lg "cm_backtrace_assert mem sp" _ _ u]
  by (auto simp: trace_stack_def logger_ok_def)

lemma report_saved_crash_unmoved:
  assumes "logger_ok lg"
  shows "\<exists>lg'. report_saved_crash u lg = Some lg' \<and> unmoved u lg lg'"
proof -
  let ?rt = "lg_retained lg"
  consider "rt_last_command ?rt \<noteq> MAGIC_CALLSTACK" | "unat (rt_cur_depth ?rt) > CMB_CALL_STACK_MAX_DEPTH \<or> rt_cur_depth ?rt = 0"
    | "rt_last_command ?rt = MAGIC_CALLSTACK" "unat (rt_cur_depth ?rt) \<le> CMB_CALL_STACK_MAX_DEPTH" "rt_cur_depth ?rt \<noteq> 0" by force
  then show ?thesis
  proof cases
    case 1
    then show ?thesis using assms unmoved_refl [OF assms] by (simp add: report_saved_crash_def Let_def unmoved_def logger_ok_def)
  next
    case 2
    then show ?thesis using assms unmoved_refl [OF assms] by (auto simp: report_saved_crash_def Let_def unmoved_def logger_ok_def)
  next
    case 3
    obtain lg1 where lg1: "trace u (last_boot_info (ud_watchdog u (lg_net lg)) ?rt) lg = Some lg1" "unmoved u lg lg1"
      using trace_unmoved [OF assms] by blast
    then have ok: "logger_ok lg1" "length (rt_call_stack_buf ?rt) = 50" using assms by (simp_all add: unmoved_def logger_ok_def)
    obtain info ms where "cm_print_call_stack (rt_call_stack_buf ?rt) (unat (rt_cur_depth ?rt)) (lg_backtrace lg1) =
        Some ((lg_backtrace lg1)\<lparr>bt_call_stack_info := info\<rparr>, ms)" "length info = 450"
      using cm_print_call_stack_ok [of "lg_backtrace lg1" "rt_call_stack_buf ?rt" "unat (rt_cur_depth ?rt)"] ok 3(2)
      by (auto simp: logger_ok_def CMB_CALL_STACK_MAX_DEPTH_def)
    from backtrace_prints_unmoved [where f = "cm_print_call_stack (rt_call_stack_buf ?rt) (unat (rt_cur_depth ?rt))", OF ok(1) this]
    show ?thesis using 3 lg1 unmoved_trans [OF lg1(2)] by (auto simp: report_saved_crash_def Let_def)
  qed
qed

section \<open>The start\<close>

lemma cm_backtrace_init_prints:
  assumes "logger_ok lg" and "lm_stack_end lm \<le> 0xFFFFFFFC"
  shows "\<exists>lg'. backtrace_prints u (\<lambda>b. Some (cm_backtrace_init lm fw hw sw b)) lg = Some lg' \<and> logger_ok lg' \<and>
    lg_intr lg' = lg_intr lg \<and> bt_on_fault (lg_backtrace lg') = bt_on_fault (lg_backtrace lg)"
proof -
  obtain b ms where b: "cm_backtrace_init lm fw hw sw (lg_backtrace lg) = (b, ms)" by fastforce
  have "backtrace_ok b" using cm_backtrace_init_ok [OF _ assms(2), of "lg_backtrace lg" fw hw sw] assms(1) b by (simp add: logger_ok_def)
  moreover have "bt_on_fault b = bt_on_fault (lg_backtrace lg)" using b by (auto simp: cm_backtrace_init_def Let_def split: if_splits)
  ultimately show ?thesis
    using backtrace_prints_ok [where f = "\<lambda>b. Some (cm_backtrace_init lm fw hw sw b)" and u = u, OF assms(1)] b by force
qed

lemma start_logging_server_ok:
  assumes "logger_ok lg" and "lm_stack_end lm \<le> 0xFFFFFFFC"
  shows "\<exists>r lg'. start_logging_server u lm fw hw sw ms lg = Some (r, lg') \<and> logger_ok lg'"
proof -
  obtain lg1 where lg1: "backtrace_prints u (\<lambda>b. Some (cm_backtrace_init lm fw hw sw b)) lg = Some lg1" "logger_ok lg1"
    using cm_backtrace_init_prints [OF assms, of u fw hw sw] by blast
  have net: "logger_ok (lg1\<lparr>lg_net := net\<rparr>)" for net using lg1(2) by (simp add: logger_ok_def)
  obtain e1 net1 where 1: "ud_bind u False 5000 (lg_net lg1) = (e1, net1)" by fastforce
  obtain e2 net2 where 2: "ud_bind u True 5001 (ud_connect u False net1) = (e2, net2)" by fastforce
  let ?net = "ud_connect u True net2"
  let ?lg2 = "lg1\<lparr>lg_handlers := [HARDFAULT_EXCEPTION, SVCALL_EXCEPTION, PENDSV_EXCEPTION, NMI_EXCEPTION], lg_net := ?net,
    lg_address := take (ADDRESS_SIZE - 1) (ud_address u ?net)\<rparr>"
  let ?lg3 = "if ms \<noteq> 0 then ?lg2\<lparr>lg_watchdog_timeout_us := ms * 1000, lg_inte := True, lg_alarm := Some (ud_timer u ?net + ms * 1000)\<rparr>
    else ?lg2"
  have "logger_ok ?lg3" using lg1(2) by (simp add: logger_ok_def ADDRESS_SIZE_def)
  then obtain lg4 where "report_saved_crash u ?lg3 = Some lg4" "logger_ok lg4"
    using report_saved_crash_unmoved [of ?lg3 u] by (auto simp: unmoved_def)
  then show ?thesis using lg1 net 1 2 by (auto simp: start_logging_server_def Let_def)
qed

section \<open>The calls that crash\<close>

lemma crash_ok:
  assumes "logger_ok lg" and "crash \<in> set (crash_ways u mem lr sp)"
  shows "\<exists>lg'. crash lg = Some (Restarting lg') \<and> logger_ok lg'"
  using call_stack_ok [of "lg_backtrace lg" "rt_call_stack_buf (lg_retained lg)" mem sp] crash_saves [OF assms] assms(1)
  by (fastforce simp: logger_ok_def)

lemma watchdog_timeout_ok: "logger_ok lg \<Longrightarrow> \<exists>lg'. watchdog_timeout mem sp lg = Some (Restarting lg') \<and> logger_ok lg'"
  by (erule crash_ok [where lr = 0 and sp = sp and mem = mem]) (simp add: crash_ways_def)

text \<open>An event that the device can go through: the stack of the program that is started ends in front of the last word of the
  memory, and there is memory for what \<open>trace_bytes\<close> sends, since it does not look whether it got any.\<close>

fun sound_event :: "'n udp \<Rightarrow> 'n logger \<Rightarrow> logger_event \<Rightarrow> bool" where
  "sound_event u lg (Log_bytes data) = ud_alloc u (length data) (lg_net lg)"
| "sound_event u lg e = True"

fun placed :: "logger_event \<Rightarrow> bool" where
  "placed (Start lm fw hw sw ms) \<longleftrightarrow> lm_stack_end lm \<le> 0xFFFFFFFC"
| "placed e \<longleftrightarrow> True"

lemma logger_call_ok:
  assumes "logger_ok lg" and "placed e"
  shows "if sound_event u lg e then \<exists>d. logger_call u tick mem sp e lg = Some d \<and> device_ok d
    else logger_call u tick mem sp e lg = None"
proof (cases e)
  case Tick
  then show ?thesis using assms by (simp add: alarm_tick_def logger_ok_def Let_def)
next
  case Feed
  then show ?thesis using assms by (simp add: update_watchdog_def logger_ok_def)
next
  case (Log m)
  then show ?thesis using trace_unmoved [OF assms(1), of u m] by (auto simp: unmoved_def)
next
  case (Log_bytes data)
  then show ?thesis using assms by (auto simp: trace_bytes_def logger_ok_def)
next
  case Log_stack
  then show ?thesis using trace_stack_unmoved [OF assms(1), of u mem sp] by (auto simp: unmoved_def)
next
  case Clear_crash
  then show ?thesis using assms by (simp add: clear_saved_crash_def logger_ok_def)
next
  case Report_crash
  then show ?thesis using report_saved_crash_unmoved [OF assms(1), of u] by (auto simp: unmoved_def)
next
  case (Fault lr)
  then show ?thesis using crash_ok [OF assms(1), of "fault_handler u mem lr sp" u mem lr sp] by (auto simp: crash_ways_def)
next
  case Fail
  then show ?thesis using crash_ok [OF assms(1), of "fail mem sp" u mem 0 sp] by (auto simp: crash_ways_def)
next
  case Panic
  then show ?thesis using crash_ok [OF assms(1), of "pico_logger_panic mem sp" u mem 0 sp] by (auto simp: crash_ways_def)
next
  case Force_restart
  then show ?thesis using assms by (simp add: force_restart_def logger_ok_def)
next
  case (Start lm fw hw sw ms)
  then show ?thesis using start_logging_server_ok [of lg lm u fw hw sw ms] assms by auto
qed

lemma device_step_ok:
  assumes "logger_ok lg" and "placed e"
  shows "if sound_event u lg e then \<exists>d. device_step u tick (e, mem, sp) (Running lg) = Some d \<and> device_ok d
    else device_step u tick (e, mem, sp) (Running lg) = None"
proof (cases "sound_event u lg e")
  case True
  then obtain d where d: "logger_call u tick mem sp e lg = Some d" "device_ok d" using logger_call_ok [OF assms, of u tick mem sp] by auto
  then show ?thesis using True watchdog_timeout_ok by (cases d) (force simp: take_interrupt_def)+
next
  case False
  then show ?thesis using logger_call_ok [OF assms, of u tick mem sp] by simp
qed

lemma device_run_restarting [simp]: "device_run u tick es (Restarting lg) = Some (Restarting lg)"
  by (induction es) auto

lemma device_run_append: "device_run u tick (es @ es') d = Option.bind (device_run u tick es d) (device_run u tick es')"
proof (induction es arbitrary: d)
  case (Cons e es)
  then show ?case by (cases "device_step u tick e d") simp_all
qed simp

text \<open>A run goes through, or to an event that is not sound.\<close>

lemma device_run_ok:
  "logger_ok lg \<Longrightarrow> list_all (placed \<circ> fst) es \<Longrightarrow>
   (\<exists>d. device_run u tick es (Running lg) = Some d \<and> device_ok d) \<or>
   (device_run u tick es (Running lg) = None \<and> (\<exists>before data mem sp after lg'. es = before @ (Log_bytes data, mem, sp) # after \<and>
      device_run u tick before (Running lg) = Some (Running lg') \<and> \<not> ud_alloc u (length data) (lg_net lg')))"
proof (induction es arbitrary: lg)
  case (Cons e es)
  obtain ev mem sp where e: "e = (ev, mem, sp)" by (cases e) auto
  have step: "if sound_event u lg ev then \<exists>d. device_step u tick e (Running lg) = Some d \<and> device_ok d
      else device_step u tick e (Running lg) = None"
    unfolding e by (rule device_step_ok [OF Cons.prems(1)]) (use Cons.prems(2) e in simp)
  show ?case
  proof (cases "sound_event u lg ev")
    case False
    then obtain data where "ev = Log_bytes data" "\<not> ud_alloc u (length data) (lg_net lg)" by (cases ev) auto
    then have "device_run u tick (e # es) (Running lg) = None" "e # es = [] @ (Log_bytes data, mem, sp) # es"
      "device_run u tick [] (Running lg) = Some (Running lg)" "\<not> ud_alloc u (length data) (lg_net lg)"
      using False step e by simp_all
    then show ?thesis by blast
  next
    case True
    with step obtain d where d: "device_step u tick e (Running lg) = Some d" "device_ok d" by auto
    show ?thesis
    proof (cases d)
      case (Restarting lg1)
      then show ?thesis using d by simp
    next
      case (Running lg1)
      then have "logger_ok lg1" "list_all (placed \<circ> fst) es" using d(2) Cons.prems(2) by (simp_all add: comp_def)
      from Cons.IH [OF this] consider "\<exists>d. device_run u tick es (Running lg1) = Some d \<and> device_ok d"
        | before data mem sp after lg' where "device_run u tick es (Running lg1) = None" "es = before @ (Log_bytes data, mem, sp) # after"
          "device_run u tick before (Running lg1) = Some (Running lg')" "\<not> ud_alloc u (length data) (lg_net lg')"
        by blast
      then show ?thesis
      proof cases
        case 1
        then show ?thesis using d(1) Running by simp
      next
        case 2
        then have "device_run u tick (e # es) (Running lg) = None" "e # es = (e # before) @ (Log_bytes data, mem, sp) # after"
          "device_run u tick (e # before) (Running lg) = Some (Running lg')"
          using d(1) Running by simp_all
        then show ?thesis using 2(4) by blast
      qed
    qed
  qed
qed simp

section \<open>The watchdog\<close>

text \<open>Events of a program that neither crashes nor starts the server anew, with memory for what \<open>trace_bytes\<close> sends. A watchdog is fed in time
  when between two feeds, and from the first event on, which comes \<open>k\<close> ticks behind the last feed, there are fewer than \<open>n\<close> ticks.\<close>

fun healthy :: "'n udp \<Rightarrow> logger_event \<Rightarrow> bool" where
  "healthy u (Fault lr) = False"
| "healthy u Fail = False"
| "healthy u Panic = False"
| "healthy u Force_restart = False"
| "healthy u (Start lm fw hw sw ms) = False"
| "healthy u (Log_bytes data) = (\<forall>n. ud_alloc u (length data) n)"
| "healthy u e = True"

fun fed_in_time :: "'n udp \<Rightarrow> nat \<Rightarrow> nat \<Rightarrow> logger_event list \<Rightarrow> bool" where
  "fed_in_time u n k [] \<longleftrightarrow> k < n"
| "fed_in_time u n k (e # es) \<longleftrightarrow> k < n \<and> healthy u e \<and> fed_in_time u n (if e = Tick then Suc k else if e = Feed then 0 else k) es"

lemma fed_in_time_append: "fed_in_time u n k (es @ es') \<Longrightarrow> fed_in_time u n k es"
  by (induction es arbitrary: k) (cases es', auto)

text \<open>An alarm \<open>k\<close> ticks after it was set.\<close>

definition armed :: "'n udp \<Rightarrow> nat \<Rightarrow> 'n logger \<Rightarrow> bool" where
  "armed u k lg \<longleftrightarrow> logger_ok lg \<and> lg_inte lg \<and> \<not> lg_intr lg \<and> k < unat (lg_watchdog_timeout_us lg) \<and>
     lg_alarm lg = Some (ud_timer u (lg_net lg) - of_nat k + lg_watchdog_timeout_us lg)"

text \<open>A clock that ticks, and a network that leaves it alone: time passes in ticks only.\<close>

lemma same_program_return_addresses:
  "same_program b b' \<Longrightarrow> return_addresses b' mem sp stack_end = return_addresses b mem sp stack_end"
  by (simp add: same_program_def return_addresses_def is_return_address_def [abs_def])

text \<open>What a crash at a stack pointer leaves behind.\<close>

definition crash_saved :: "backtrace \<Rightarrow> memory \<Rightarrow> u32 \<Rightarrow> retained \<Rightarrow> bool" where
  "crash_saved b mem sp rt \<longleftrightarrow>
     (let as = take 50 (return_addresses b mem sp (bt_main_stack_start b + bt_main_stack_size b)) in
      rt_last_command rt = MAGIC_CALLSTACK \<and> rt_cur_depth rt = of_nat (length as) \<and> length (rt_call_stack_buf rt) = 50 \<and>
      take (length as) (rt_call_stack_buf rt) = as)"

lemma crash_saved_same: "same_program b b' \<Longrightarrow> crash_saved b' mem sp rt = crash_saved b mem sp rt"
  unfolding crash_saved_def using same_program_return_addresses [of b b'] by (simp add: same_program_def)

lemma timeout_saves:
  assumes "logger_ok lg" and "\<not> bt_on_fault (lg_backtrace lg)"
  shows "\<exists>gone. watchdog_timeout mem sp lg = Some (Restarting gone) \<and> crash_saved (lg_backtrace lg) mem sp (lg_retained gone)"
  using crash_leaves [OF assms(1) _ assms(2) refl refl, of "watchdog_timeout mem sp" undefined mem 0 sp]
  by (auto simp: crash_saved_def crash_ways_def Let_def)

definition ticks :: "(logger_event \<times> memory \<times> u32) list \<Rightarrow> nat" where
  "ticks es = length (filter (\<lambda>e. fst e = Tick) es)"

lemma ticks_simps [simp]: "ticks [] = 0" "ticks (e # es) = (if fst e = Tick then Suc (ticks es) else ticks es)"
  "ticks (es @ es') = ticks es + ticks es'"
  by (simp_all add: ticks_def)

locale device_clock =
  fixes u :: "'n udp" and tick :: "'n \<Rightarrow> 'n"
  assumes timer_tick: "ud_timer u (tick n) = ud_timer u n + 1"
    and timer_send: "ud_timer u (snd (ud_send u b d n)) = ud_timer u n"
begin

lemma timer_datagrams: "ud_timer u (fold (datagram u) ds n) = ud_timer u n"
  by (induction ds arbitrary: n) (simp_all add: datagram_def timer_send)

lemma armed_unmoved: "armed u k lg \<Longrightarrow> unmoved u lg lg' \<Longrightarrow> armed u k lg'"
  by (auto simp: armed_def unmoved_def timer_datagrams)

lemma armed_feed: "armed u k lg \<Longrightarrow> armed u 0 (update_watchdog u lg)"
  by (auto simp: armed_def update_watchdog_def logger_ok_def)

lemma armed_tick:
  assumes "armed u k lg" and "Suc k < unat (lg_watchdog_timeout_us lg)"
  shows "armed u (Suc k) (alarm_tick u tick lg)"
proof -
  let ?t = "ud_timer u (lg_net lg)" and ?n = "lg_watchdog_timeout_us lg"
  have "?t - of_nat k + ?n \<noteq> ?t + 1"
  proof
    assume "?t - of_nat k + ?n = ?t + 1"
    then have "?n = of_nat (Suc k)" by (simp add: algebra_simps)
    moreover have "unat (of_nat (Suc k) :: u32) = Suc k"
      using assms(2) unsigned_less [of ?n, where ?'a = nat] by (simp add: unat_of_nat del: of_nat_Suc)
    ultimately show False using assms(2) by simp
  qed
  then show ?thesis using assms by (simp add: armed_def alarm_tick_def timer_tick logger_ok_def Let_def)
qed

lemma armed_fires:
  assumes "armed u k lg" and "Suc k = unat (lg_watchdog_timeout_us lg)"
  shows "alarm_tick u tick lg = lg\<lparr>lg_net := tick (lg_net lg), lg_intr := True, lg_alarm := None\<rparr>"
proof -
  have "lg_watchdog_timeout_us lg = of_nat (Suc k)" unfolding assms(2) by simp
  then show ?thesis using assms(1) by (simp add: armed_def alarm_tick_def timer_tick Let_def)
qed

lemma healthy_step:
  assumes "armed u k lg" and "healthy u e" and "e \<noteq> Tick"
  shows "\<exists>lg'. device_step u tick (e, mem, sp) (Running lg) = Some (Running lg') \<and> armed u (if e = Feed then 0 else k) lg' \<and>
    same_program (lg_backtrace lg) (lg_backtrace lg') \<and> lg_watchdog_timeout_us lg' = lg_watchdog_timeout_us lg"
proof -
  have ok: "logger_ok lg" using assms(1) by (simp add: armed_def)
  have quiet: "take_interrupt mem sp (Running lg') = Some (Running lg')" if "armed u j lg'" for j lg'
    using that by (simp add: take_interrupt_def armed_def)
  have step: ?thesis if "e \<noteq> Feed" "logger_call u tick mem sp e lg = Some (Running lg')" "unmoved u lg lg'" for lg'
    using that quiet armed_unmoved [OF assms(1) that(3)] by (auto simp: unmoved_def)
  show ?thesis
  proof (cases e)
    case Feed
    then show ?thesis using armed_feed [OF assms(1)] quiet by (auto simp: update_watchdog_def)
  next
    case (Log m)
    then show ?thesis using trace_unmoved [OF ok, of u m] step by auto
  next
    case Log_stack
    then show ?thesis using trace_stack_unmoved [OF ok, of u mem sp] step by auto
  next
    case Report_crash
    then show ?thesis using report_saved_crash_unmoved [OF ok, of u] step by auto
  next
    case Clear_crash
    have "unmoved u lg (clear_saved_crash lg)"
      using unmoved_refl [OF ok, of u] by (simp add: unmoved_def clear_saved_crash_def logger_ok_def)
    then show ?thesis using Clear_crash step by auto
  next
    case (Log_bytes data)
    let ?lg = "lg\<lparr>lg_net := snd (ud_send u True data (lg_net lg))\<rparr>"
    have "armed u k ?lg" using assms(1) by (simp add: armed_def timer_send logger_ok_def)
    then show ?thesis using Log_bytes assms(2) quiet [of k ?lg] by (simp add: trace_bytes_def)
  qed (use assms in auto)
qed

lemma tick_step:
  assumes "armed u k lg" and "Suc k < unat (lg_watchdog_timeout_us lg)"
  shows "device_step u tick (Tick, mem, sp) (Running lg) = Some (Running (alarm_tick u tick lg))"
  using armed_tick [OF assms] by (simp add: take_interrupt_def armed_def)

lemma alarm_tick_same [simp]:
  "lg_backtrace (alarm_tick u tick lg) = lg_backtrace lg" "lg_watchdog_timeout_us (alarm_tick u tick lg) = lg_watchdog_timeout_us lg"
  by (simp_all add: alarm_tick_def Let_def)

lemma fed_never_fires:
  "armed u k lg \<Longrightarrow> fed_in_time u (unat (lg_watchdog_timeout_us lg)) k (map fst es) \<Longrightarrow>
   \<exists>lg' k'. device_run u tick es (Running lg) = Some (Running lg') \<and> armed u k' lg' \<and>
     same_program (lg_backtrace lg) (lg_backtrace lg') \<and> lg_watchdog_timeout_us lg' = lg_watchdog_timeout_us lg"
proof (induction es arbitrary: lg k)
  case (Cons e es)
  obtain ev mem sp where e: "e = (ev, mem, sp)" by (cases e) auto
  let ?n = "unat (lg_watchdog_timeout_us lg)"
  show ?case
  proof (cases "ev = Tick")
    case True
    have k: "Suc k < ?n" using Cons.prems(2) True e by (cases es) auto
    then show ?thesis
      using Cons.IH [OF armed_tick [OF Cons.prems(1) k]] Cons.prems(2) tick_step [OF Cons.prems(1) k, of mem sp] True e by simp
  next
    case False
    obtain lg' where lg': "device_step u tick (ev, mem, sp) (Running lg) = Some (Running lg')" "armed u (if ev = Feed then 0 else k) lg'"
      "same_program (lg_backtrace lg) (lg_backtrace lg')" "lg_watchdog_timeout_us lg' = lg_watchdog_timeout_us lg"
      using healthy_step [OF Cons.prems(1) _ False] Cons.prems(2) e by auto
    have "fed_in_time u (unat (lg_watchdog_timeout_us lg')) (if ev = Feed then 0 else k) (map fst es)"
      using Cons.prems(2) e False lg'(4) by simp
    from Cons.IH [OF lg'(2) this] show ?thesis using lg' e by (auto simp: same_program_def)
  qed
qed auto

text \<open>After a feed the time starts anew.\<close>

lemma fed_last:
  assumes "armed u 0 lg" and "fed_in_time u (unat (lg_watchdog_timeout_us lg)) 0 (map fst es)" and "es = [] \<or> fst (last es) = Feed"
  shows "\<exists>lg'. device_run u tick es (Running lg) = Some (Running lg') \<and> armed u 0 lg' \<and>
     same_program (lg_backtrace lg) (lg_backtrace lg') \<and> lg_watchdog_timeout_us lg' = lg_watchdog_timeout_us lg"
proof (cases es rule: rev_cases)
  case (snoc fs f)
  obtain mem sp where f: "f = (Feed, mem, sp)" using assms(3) snoc by (cases f) auto
  have "fed_in_time u (unat (lg_watchdog_timeout_us lg)) 0 (map fst fs)"
    using fed_in_time_append [of u _ _ "map fst fs"] assms(2) snoc by simp
  from fed_never_fires [OF assms(1) this] obtain lg1 k where lg1: "device_run u tick fs (Running lg) = Some (Running lg1)" "armed u k lg1"
    "same_program (lg_backtrace lg) (lg_backtrace lg1)" "lg_watchdog_timeout_us lg1 = lg_watchdog_timeout_us lg" by blast
  obtain lg2 where "device_step u tick f (Running lg1) = Some (Running lg2)" "armed u 0 lg2"
    "same_program (lg_backtrace lg1) (lg_backtrace lg2)" "lg_watchdog_timeout_us lg2 = lg_watchdog_timeout_us lg1"
    using healthy_step [OF lg1(2), of Feed mem sp] f by auto
  then show ?thesis using lg1 snoc by (auto simp: device_run_append same_program_def)
qed (use assms in simp)

lemma unfed_fires:
  "armed u k lg \<Longrightarrow> \<not> bt_on_fault (lg_backtrace lg) \<Longrightarrow> \<forall>e\<in>set es. healthy u (fst e) \<and> fst e \<noteq> Feed \<Longrightarrow>
   unat (lg_watchdog_timeout_us lg) \<le> k + ticks es \<Longrightarrow>
   \<exists>before mem sp after gone. es = before @ (Tick, mem, sp) # after \<and> Suc (k + ticks before) = unat (lg_watchdog_timeout_us lg) \<and>
     device_run u tick es (Running lg) = Some (Restarting gone) \<and> crash_saved (lg_backtrace lg) mem sp (lg_retained gone)"
proof (induction es arbitrary: lg k)
  case Nil
  then show ?case by (simp add: armed_def)
next
  case (Cons e es)
  obtain ev mem sp where e: "e = (ev, mem, sp)" by (cases e) auto
  let ?n = "unat (lg_watchdog_timeout_us lg)"
  have go: ?case
    if step: "device_step u tick e (Running lg) = Some (Running lg')" and lg': "armed u k' lg'" "same_program (lg_backtrace lg) (lg_backtrace lg')"
      "lg_watchdog_timeout_us lg' = lg_watchdog_timeout_us lg" and k': "k' + ticks es = k + ticks (e # es)" for lg' k'
  proof -
    have "\<not> bt_on_fault (lg_backtrace lg')" using Cons.prems(2) lg'(2) by (simp add: same_program_def)
    then obtain before mem sp after gone where *: "es = before @ (Tick, mem, sp) # after" "Suc (k' + ticks before) = ?n"
      "device_run u tick es (Running lg') = Some (Restarting gone)" "crash_saved (lg_backtrace lg') mem sp (lg_retained gone)"
      using Cons.IH [OF lg'(1)] Cons.prems(3,4) lg'(3) k' by auto
    then have "Suc (k + ticks (e # before)) = ?n" using k' by (simp split: if_splits)
    then show ?case using * step crash_saved_same [OF lg'(2)]
      by (intro exI [of _ "e # before"] exI [of _ mem] exI [of _ sp] exI [of _ after] exI [of _ gone]) simp
  qed
  show ?case
  proof (cases "ev = Tick")
    case False
    then obtain lg' where "device_step u tick e (Running lg) = Some (Running lg')" "armed u k lg'"
      "same_program (lg_backtrace lg) (lg_backtrace lg')" "lg_watchdog_timeout_us lg' = lg_watchdog_timeout_us lg"
      using healthy_step [OF Cons.prems(1) _ False, of mem sp] Cons.prems(3) e by auto
    then show ?thesis by (rule go) (use False e in simp)
  next
    case True
    have "Suc k \<le> ?n" using Cons.prems(1) by (simp add: armed_def)
    then consider "Suc k < ?n" | "Suc k = ?n" by linarith
    then show ?thesis
    proof cases
      case 1
      then show ?thesis using go [OF _ armed_tick [OF Cons.prems(1) 1]] tick_step [OF Cons.prems(1) 1] True e by simp
    next
      case 2
      let ?lg = "lg\<lparr>lg_net := tick (lg_net lg), lg_intr := True, lg_alarm := None\<rparr>"
      have "logger_ok ?lg" "lg_inte ?lg" using Cons.prems(1) by (simp_all add: armed_def logger_ok_def)
      then obtain gone where "device_step u tick e (Running lg) = Some (Restarting gone)" "crash_saved (lg_backtrace lg) mem sp (lg_retained gone)"
        using timeout_saves [of ?lg mem sp] Cons.prems(2) armed_fires [OF Cons.prems(1) 2] True e by (auto simp: take_interrupt_def)
      then show ?thesis using 2 True e
        by (intro exI [of _ "[]"] exI [of _ mem] exI [of _ sp] exI [of _ es] exI [of _ gone]) simp
    qed
  qed
qed

end

text \<open>The recording network ticks.\<close>

definition log_tick :: "log_net \<Rightarrow> log_net" where
  "log_tick n = n\<lparr>ln_time_us := ln_time_us n + 1\<rparr>"

lemma ucast_plus_1: "(ucast (x + 1 :: u64) :: u32) = ucast x + 1"
proof -
  have "(y mod 18446744073709551616 + 1) mod 4294967296 = (y + 1) mod 4294967296" for y :: int
    using mod_add_left_eq [of "y mod 18446744073709551616" 4294967296 1] mod_add_left_eq [of y 4294967296 1]
      mod_mod_cancel [of 4294967296 18446744073709551616 y] by simp
  then show ?thesis by (transfer, simp add: take_bit_take_bit) (simp add: take_bit_eq_mod)
qed

interpretation log_clock: device_clock udp_log log_tick
proof
  show "ud_timer udp_log (log_tick n) = ud_timer udp_log n + 1" for n
    by (simp add: udp_log_def log_tick_def ucast_plus_1)
  show "ud_timer udp_log (snd (ud_send udp_log b d n)) = ud_timer udp_log n" for b d n
    by (simp add: udp_log_def)
qed

section \<open>Starting\<close>

context device_clock
begin

lemma started_armed:
  assumes start: "start_logging_server u lm fw hw sw ms lg0 = Some (1, lg)" and ok: "logger_ok lg0" "lm_stack_end lm \<le> 0xFFFFFFFC"
    and ms: "ms \<noteq> 0" "ms * 1000 \<noteq> 0" and quiet: "\<not> lg_intr lg0" "\<not> bt_on_fault (lg_backtrace lg0)"
  shows "armed u 0 lg \<and> lg_watchdog_timeout_us lg = ms * 1000 \<and> \<not> bt_on_fault (lg_backtrace lg)"
proof -
  obtain lg1 where lg1: "backtrace_prints u (\<lambda>b. Some (cm_backtrace_init lm fw hw sw b)) lg0 = Some lg1" "logger_ok lg1"
    "\<not> lg_intr lg1" "\<not> bt_on_fault (lg_backtrace lg1)"
    using cm_backtrace_init_prints [OF ok] quiet by metis
  obtain n where n: "report_saved_crash u (lg1\<lparr>lg_handlers := [HARDFAULT_EXCEPTION, SVCALL_EXCEPTION, PENDSV_EXCEPTION, NMI_EXCEPTION],
      lg_net := n, lg_address := take (ADDRESS_SIZE - 1) (ud_address u n), lg_watchdog_timeout_us := ms * 1000, lg_inte := True,
      lg_alarm := Some (ud_timer u n + ms * 1000)\<rparr>) = Some lg" (is "report_saved_crash u ?lg = _")
    using start lg1(1) ms(1)
    by (auto simp: start_logging_server_def Let_def split: if_splits prod.splits Option.bind_splits)
  have "armed u 0 ?lg" using lg1(2,3) ms by (simp add: armed_def logger_ok_def ADDRESS_SIZE_def word_gt_0 unat_gt_0)
  moreover have "unmoved u ?lg lg" using report_saved_crash_unmoved [of ?lg u] n calculation by (auto simp: armed_def)
  ultimately show ?thesis using armed_unmoved lg1(4) by (auto simp: unmoved_def same_program_def)
qed

end

section \<open>Properties\<close>



text \<open>C24. A program that hangs is restarted, and what it was doing is saved: the server has been started with a watchdog, which is
  fed in time for a while, and then, from the last feed on (or from the start, where it was never fed), it is not fed any more. At
  the tick at which the time since then is up the interrupt runs, the return addresses above its stack pointer are in
  the retained memory, and the device restarts. The time is the 32-bit product of the milliseconds and 1000 in microseconds.\<close>

theorem watchdog_restarts_hung_program:
  assumes "device_clock u tick" and "start_logging_server u lm fw hw sw ms lg0 = Some (1, lg)" and "logger_ok lg0"
    and "lm_stack_end lm \<le> 0xFFFFFFFC" and "ms \<noteq> 0" and "ms * 1000 \<noteq> 0" and "\<not> lg_intr lg0" and "\<not> bt_on_fault (lg_backtrace lg0)"
    and "fed_in_time u (unat (ms * 1000)) 0 (map fst fed)" and "fed = [] \<or> fst (last fed) = Feed"
    and "\<forall>e\<in>set es. healthy u (fst e) \<and> fst e \<noteq> Feed" and "unat (ms * 1000) \<le> ticks es"
  shows "\<exists>before mem sp after gone. es = before @ (Tick, mem, sp) # after \<and> Suc (ticks before) = unat (ms * 1000) \<and>
    device_run u tick (fed @ es) (Running lg) = Some (Restarting gone) \<and> crash_saved (lg_backtrace lg) mem sp (lg_retained gone)"
proof -
  have a: "armed u 0 lg" "lg_watchdog_timeout_us lg = ms * 1000" "\<not> bt_on_fault (lg_backtrace lg)"
    using device_clock.started_armed [OF assms(1-8)] by simp_all
  obtain lg1 where lg1: "device_run u tick fed (Running lg) = Some (Running lg1)" "armed u 0 lg1"
    "same_program (lg_backtrace lg) (lg_backtrace lg1)" "lg_watchdog_timeout_us lg1 = ms * 1000"
    using device_clock.fed_last [OF assms(1) a(1) _ assms(10)] assms(9) a(2) by auto
  have "\<not> bt_on_fault (lg_backtrace lg1)" using a(3) lg1(3) by (simp add: same_program_def)
  from device_clock.unfed_fires [OF assms(1) lg1(2) this assms(11)] assms(12) lg1
  show ?thesis by (simp add: device_run_append crash_saved_same [OF lg1(3)])
qed

definition demo_map :: linker_map where
  "demo_map = \<lparr> lm_stack_start = 0x20000000, lm_stack_end = 0x20000008, lm_code_start = 0x10000000, lm_code_end = 0x10001000 \<rparr>"

lemma demo_start:
  "\<exists>lg. start_logging_server udp_log demo_map (ascii ''demo'') [] [] 1 demo_logger = Some (1, lg)"
  by (simp add: start_logging_server_def backtrace_prints_def cm_backtrace_init_def demo_map_def demo_logger_def demo_backtrace_def
      udp_log_def report_saved_crash_def MAGIC_CALLSTACK_def ERR_OK_def Let_def del: ascii_simps)

lemma ticks_replicate [simp]: "ticks (replicate n (Tick, m, sp)) = n"
  by (induction n) simp_all

theorem watchdog_restarts_hung_program_witness:
  "\<exists>lg before mem sp after gone. start_logging_server udp_log demo_map (ascii ''demo'') [] [] 1 demo_logger = Some (1, lg) \<and>
    replicate 1000 (Tick, demo_stack, 0x20000000) = before @ (Tick, mem, sp) # after \<and> Suc (ticks before) = 1000 \<and>
    device_run udp_log log_tick ([(Tick, demo_stack, 0), (Feed, demo_stack, 0)] @ replicate 1000 (Tick, demo_stack, 0x20000000)) (Running lg) = Some (Restarting gone) \<and>
    crash_saved (lg_backtrace lg) mem sp (lg_retained gone)"
proof -
  obtain lg where lg: "start_logging_server udp_log demo_map (ascii ''demo'') [] [] 1 demo_logger = Some (1, lg)"
    using demo_start by blast
  have "\<not> lg_intr demo_logger" "\<not> bt_on_fault (lg_backtrace demo_logger)" "lm_stack_end demo_map \<le> 0xFFFFFFFC"
    by (simp_all add: demo_logger_def demo_backtrace_def demo_map_def)
  from watchdog_restarts_hung_program [OF log_clock.device_clock_axioms lg demo_logger_ok this(3) _ _ this(1,2),
      of "[(Tick, demo_stack, 0), (Feed, demo_stack, 0)]" "replicate 1000 (Tick, demo_stack, 0x20000000)"]
  show ?thesis using lg by auto
qed

text \<open>C25. A watchdog that is fed in time, before as many ticks as it allows have passed since it was started or fed, never fires: the
  program, which logs, prints and reports what it likes meanwhile, is still running at the end. (It sends with \<open>trace_bytes\<close> only what
  there is memory for, and does not start the server anew.)\<close>

theorem watchdog_fed_in_time:
  assumes "device_clock u tick" and "start_logging_server u lm fw hw sw ms lg0 = Some (1, lg)" and "logger_ok lg0"
    and "lm_stack_end lm \<le> 0xFFFFFFFC" and "ms \<noteq> 0" and "ms * 1000 \<noteq> 0" and "\<not> lg_intr lg0" and "\<not> bt_on_fault (lg_backtrace lg0)"
    and "fed_in_time u (unat (ms * 1000)) 0 (map fst es)"
  shows "\<exists>lg'. device_run u tick es (Running lg) = Some (Running lg')"
proof -
  have "armed u 0 lg" "lg_watchdog_timeout_us lg = ms * 1000"
    using device_clock.started_armed [OF assms(1-8)] by simp_all
  then show ?thesis using device_clock.fed_never_fires [OF assms(1), of 0 lg es] assms(9) by auto
qed

theorem watchdog_fed_in_time_witness:
  "\<exists>lg lg'. start_logging_server udp_log demo_map (ascii ''demo'') [] [] 1 demo_logger = Some (1, lg) \<and>
    device_run udp_log log_tick [(Tick, demo_stack, 0), (Log [0x68], demo_stack, 0), (Feed, demo_stack, 0), (Tick, demo_stack, 0)] (Running lg) =
      Some (Running lg')"
proof -
  obtain lg where lg: "start_logging_server udp_log demo_map (ascii ''demo'') [] [] 1 demo_logger = Some (1, lg)"
    using demo_start by blast
  have "\<not> lg_intr demo_logger" "\<not> bt_on_fault (lg_backtrace demo_logger)" "lm_stack_end demo_map \<le> 0xFFFFFFFC"
    by (simp_all add: demo_logger_def demo_backtrace_def demo_map_def)
  from watchdog_fed_in_time [OF log_clock.device_clock_axioms lg demo_logger_ok this(3) _ _ this(1,2),
      of "[(Tick, demo_stack, 0), (Log [0x68], demo_stack, 0), (Feed, demo_stack, 0), (Tick, demo_stack, 0)]"]
  show ?thesis using lg by auto
qed

text \<open>The product wraps around: a watchdog of 4294968 milliseconds, more than 71 minutes, allows 704 microseconds.\<close>

theorem watchdog_period_wraps:
  assumes "device_clock u tick" and "start_logging_server u lm fw hw sw 4294968 lg0 = Some (1, lg)" and "logger_ok lg0"
    and "lm_stack_end lm \<le> 0xFFFFFFFC" and "\<not> lg_intr lg0" and "\<not> bt_on_fault (lg_backtrace lg0)"
  shows "lg_watchdog_timeout_us lg = 704"
  using device_clock.started_armed [OF assms(1-4) _ _ assms(5,6)] by simp

end
