(* ===== verification/Pico_Sleep.thy ===== *)
theory Pico_Sleep
  imports Prelude
begin

text \<open>
  \<open>pico_sleep/pico_sleep.c\<close>: deep sleep on the RP2350 with a wake-up by the alarm of the power manager or by pins, and
  the functions that take its place on the RP2040. The registers the code accesses itself are fields of the chip; the functions
  and constants of the SDK are a record of parameters.
\<close>

section \<open>The chip and its SDK\<close>

record 'n chip =
  ch_timer_intr :: u32
  ch_vreg_ctrl :: u32
  ch_usb_phy_direct :: u32
  ch_usb_phy_direct_override :: u32
  ch_boot :: "u32 list"
  ch_last_swcore_pwrup :: u32
  ch_rest :: 'n

datatype power_domain = POWMAN_POWER_DOMAIN_SWITCHED_CORE | POWMAN_POWER_DOMAIN_XIP_CACHE

record 'n power_sdk =
  ps_const :: "string \<Rightarrow> u32"
  ps_hw_clear_bits :: "u32 \<Rightarrow> u32 \<Rightarrow> u32"
  ps_hw_set_bits :: "u32 \<Rightarrow> u32 \<Rightarrow> u32"
  ps_set_sys_clock_48mhz :: "'n chip \<Rightarrow> 'n chip"
  ps_cyw43_arch_deinit :: "'n chip \<Rightarrow> 'n chip"
  ps_watchdog_disable :: "'n chip \<Rightarrow> 'n chip"
  ps_timer_start :: "'n chip \<Rightarrow> 'n chip"
  ps_timer_set_ms :: "u64 \<Rightarrow> 'n chip \<Rightarrow> 'n chip"
  ps_timer_get_ms :: "'n chip \<Rightarrow> u64"
  ps_set_debug_power_request_ignored :: "bool \<Rightarrow> 'n chip \<Rightarrow> 'n chip"
  ps_enable_alarm_wakeup_at_ms :: "u64 \<Rightarrow> 'n chip \<Rightarrow> 'n chip"
  ps_enable_gpio_wakeup :: "int \<Rightarrow> u8 \<Rightarrow> bool \<Rightarrow> bool \<Rightarrow> 'n chip \<Rightarrow> 'n chip"
  ps_stdio_flush :: "'n chip \<Rightarrow> 'n chip"
  ps_POWER_STATE_NONE :: u32
  ps_state_with_domain_on :: "u32 \<Rightarrow> power_domain \<Rightarrow> u32"
  ps_configure_wakeup_state :: "u32 \<Rightarrow> u32 \<Rightarrow> 'n chip \<Rightarrow> bool \<times> 'n chip"
  ps_set_power_state :: "u32 \<Rightarrow> 'n chip \<Rightarrow> int \<times> 'n chip"
  ps_trace :: "string \<Rightarrow> int list \<Rightarrow> 'n chip \<Rightarrow> 'n chip"
  ps_wfi :: "'n chip \<Rightarrow> 'n chip"

definition PICO_OK :: int where "PICO_OK = 0"

text \<open>Constants joined with \<open>|\<close>.\<close>

definition bits_of :: "'n power_sdk \<Rightarrow> string list \<Rightarrow> u32" where
  "bits_of sdk names = fold (\<lambda>n w. w OR ps_const sdk n) names 0"

section \<open>Going to sleep\<close>

text \<open>\<open>rp2040\<close> is \<open>PICO_RP2040\<close>.\<close>

definition pico_deepsleep_init :: "bool \<Rightarrow> 'n power_sdk \<Rightarrow> u64 \<Rightarrow> 'n chip \<Rightarrow> bool \<times> 'n chip" where
  "pico_deepsleep_init rp2040 sdk sleep_time_ms c =
     (if rp2040 then (False, c)
      else
        (let c = ps_set_sys_clock_48mhz sdk c;
             c = ps_cyw43_arch_deinit sdk c;
             c = c\<lparr>ch_timer_intr := ps_hw_clear_bits sdk (ch_timer_intr c) (push_bit 0 1)\<rparr>;
             c = ps_watchdog_disable sdk c;
             c = c\<lparr>ch_vreg_ctrl := ps_hw_set_bits sdk (ch_vreg_ctrl c)
               (bits_of sdk [''POWMAN_PASSWORD_BITS'', ''POWMAN_VREG_CTRL_UNLOCK_BITS''])\<rparr>;
             c = c\<lparr>ch_usb_phy_direct := bits_of sdk [''USB_USBPHY_DIRECT_TX_PD_BITS'', ''USB_USBPHY_DIRECT_RX_PD_BITS'',
               ''USB_USBPHY_DIRECT_DM_PULLDN_EN_BITS'', ''USB_USBPHY_DIRECT_DP_PULLDN_EN_BITS'']\<rparr>;
             c = c\<lparr>ch_usb_phy_direct_override := bits_of sdk [''USB_USBPHY_DIRECT_RX_DM_BITS'', ''USB_USBPHY_DIRECT_RX_DP_BITS'',
               ''USB_USBPHY_DIRECT_RX_DD_BITS'', ''USB_USBPHY_DIRECT_OVERRIDE_TX_DIFFMODE_OVERRIDE_EN_BITS'',
               ''USB_USBPHY_DIRECT_OVERRIDE_DM_PULLUP_OVERRIDE_EN_BITS'', ''USB_USBPHY_DIRECT_OVERRIDE_TX_FSSLEW_OVERRIDE_EN_BITS'',
               ''USB_USBPHY_DIRECT_OVERRIDE_TX_PD_OVERRIDE_EN_BITS'', ''USB_USBPHY_DIRECT_OVERRIDE_RX_PD_OVERRIDE_EN_BITS'',
               ''USB_USBPHY_DIRECT_OVERRIDE_TX_DM_OVERRIDE_EN_BITS'', ''USB_USBPHY_DIRECT_OVERRIDE_TX_DP_OVERRIDE_EN_BITS'',
               ''USB_USBPHY_DIRECT_OVERRIDE_TX_DM_OE_OVERRIDE_EN_BITS'', ''USB_USBPHY_DIRECT_OVERRIDE_TX_DP_OE_OVERRIDE_EN_BITS'',
               ''USB_USBPHY_DIRECT_OVERRIDE_DM_PULLDN_EN_OVERRIDE_EN_BITS'', ''USB_USBPHY_DIRECT_OVERRIDE_DP_PULLDN_EN_OVERRIDE_EN_BITS'',
               ''USB_USBPHY_DIRECT_OVERRIDE_DP_PULLUP_EN_OVERRIDE_EN_BITS'', ''USB_USBPHY_DIRECT_OVERRIDE_DM_PULLUP_HISEL_OVERRIDE_EN_BITS'',
               ''USB_USBPHY_DIRECT_OVERRIDE_DP_PULLUP_HISEL_OVERRIDE_EN_BITS'']\<rparr>;
             abs_time_ms = 1704067200000;
             c = ps_timer_start sdk c;
             c = ps_timer_set_ms sdk abs_time_ms c;
             c = ps_set_debug_power_request_ignored sdk True c;
             ms = ps_timer_get_ms sdk c;
             abs_time_wake_ms = ms + sleep_time_ms;
             c = ps_enable_alarm_wakeup_at_ms sdk abs_time_wake_ms c;
             c = ps_stdio_flush sdk c
         in (True, c)))"

text \<open>\<open>while (true) __wfi();\<close> does not return: the processor is switched off, or goes on waiting.\<close>

partial_function (option) wfi_forever :: "'n power_sdk \<Rightarrow> 'n chip \<Rightarrow> (bool \<times> 'n chip) option" where
  "wfi_forever sdk c = wfi_forever sdk (ps_wfi sdk c)"

text \<open>\<open>pico_deepsleep_execute\<close> up to that loop: \<^const>\<open>Inl\<close> is a return, \<^const>\<open>Inr\<close> the chip that goes to sleep.\<close>

definition deepsleep_enter :: "'n power_sdk \<Rightarrow> 'n chip \<Rightarrow> (bool \<times> 'n chip) + 'n chip" where
  "deepsleep_enter sdk c =
     (let P1_7 = ps_POWER_STATE_NONE sdk;
          P0_3 = ps_POWER_STATE_NONE sdk;
          P0_3 = ps_state_with_domain_on sdk P0_3 POWMAN_POWER_DOMAIN_SWITCHED_CORE;
          P0_3 = ps_state_with_domain_on sdk P0_3 POWMAN_POWER_DOMAIN_XIP_CACHE;
          off_state = P1_7;
          on_state = P0_3;
          (valid_state, c) = ps_configure_wakeup_state sdk off_state on_state c in
      if \<not> valid_state then Inl (False, ps_trace sdk ''sleep: powman_configure_wakeup_state failed, invalid state'' [] c)
      else
        (let c = c\<lparr>ch_boot := [0, 0, 0, 0]\<rparr>;
             (rc, c) = ps_set_power_state sdk off_state c in
         if rc \<noteq> PICO_OK then Inl (False, ps_trace sdk ''sleep: powman_set_power_state failed, rc: %d'' [rc] c)
         else Inr c))"

definition pico_deepsleep_execute :: "bool \<Rightarrow> 'n power_sdk \<Rightarrow> 'n chip \<Rightarrow> (bool \<times> 'n chip) option" where
  "pico_deepsleep_execute rp2040 sdk c =
     (if rp2040 then Some (False, c)
      else (case deepsleep_enter sdk c of Inl r \<Rightarrow> Some r | Inr c \<Rightarrow> wfi_forever sdk c))"

definition pico_deepsleep :: "bool \<Rightarrow> 'n power_sdk \<Rightarrow> u64 \<Rightarrow> 'n chip \<Rightarrow> (bool \<times> 'n chip) option" where
  "pico_deepsleep rp2040 sdk sleep_time_ms c =
     (if rp2040 then Some (False, c)
      else
        (case pico_deepsleep_init rp2040 sdk sleep_time_ms c of
           (ok, c) \<Rightarrow> if \<not> ok then Some (False, c) else pico_deepsleep_execute rp2040 sdk c))"

definition pico_deepsleep_set_gpio :: "bool \<Rightarrow> 'n power_sdk \<Rightarrow> int \<Rightarrow> u8 \<Rightarrow> bool \<Rightarrow> bool \<Rightarrow> 'n chip \<Rightarrow> 'n chip" where
  "pico_deepsleep_set_gpio rp2040 sdk hw_instance gpio edge high c =
     (if rp2040 then c else ps_enable_gpio_wakeup sdk hw_instance gpio edge high c)"

section \<open>Waking up\<close>

text \<open>A shift that loses the bit of an \<open>int\<close> is undefined.\<close>

definition pico_deepsleep_wake_reason_gpio :: "bool \<Rightarrow> u8 \<Rightarrow> 'n chip \<Rightarrow> bool option" where
  "pico_deepsleep_wake_reason_gpio rp2040 hw_instance c =
     (if rp2040 then Some False
      else if unat hw_instance < 30 then Some (ch_last_swcore_pwrup c AND push_bit (unat hw_instance) 2 \<noteq> 0)
      else None)"

text \<open>There is none on the RP2040.\<close>

definition pico_deepsleep_wake_reason :: "bool \<Rightarrow> 'n chip \<Rightarrow> u8 option" where
  "pico_deepsleep_wake_reason rp2040 c =
     (if rp2040 then None else Some (ucast (ch_last_swcore_pwrup c AND 0x7f)))"

section \<open>The end of the call\<close>

lemma wfi_forever_None [simp]: "wfi_forever sdk c = None"
proof -
  have "\<And>r. wfi_forever sdk c = Some r \<Longrightarrow> False"
    by (rule wfi_forever.raw_induct [where P = "\<lambda>_ _ _. False"]) auto
  then show ?thesis by (metis not_Some_eq)
qed

lemma deepsleep_enter_false: "deepsleep_enter sdk c = Inl (r, c') \<Longrightarrow> \<not> r"
  by (auto simp: deepsleep_enter_def Let_def split: prod.splits if_splits)

section \<open>The power manager\<close>

text \<open>What is relied on: the timer does not run backwards, and the alarm and the boot vector stay as they were set until the
  processor is switched off.\<close>

locale power_manager =
  fixes sdk :: "'n power_sdk" and alarm :: "'n chip \<Rightarrow> u64 option"
  assumes timer_set: "t \<le> ps_timer_get_ms sdk (ps_set_debug_power_request_ignored sdk b (ps_timer_set_ms sdk t c))"
    and alarm_set: "alarm (ps_enable_alarm_wakeup_at_ms sdk t c) = Some t"
    and alarm_flush: "alarm (ps_stdio_flush sdk c) = alarm c"
    and alarm_configure: "alarm (snd (ps_configure_wakeup_state sdk p q c)) = alarm c"
    and alarm_boot: "alarm (c\<lparr>ch_boot := v\<rparr>) = alarm c"
    and alarm_power: "alarm (snd (ps_set_power_state sdk p c)) = alarm c"
    and boot_power: "ch_boot (snd (ps_set_power_state sdk p c)) = ch_boot c"
begin

lemma init_arms:
  assumes "pico_deepsleep_init False sdk ms c = (ok, c1)"
  shows "ok \<and> (\<exists>now. 1704067200000 \<le> now \<and> alarm c1 = Some (now + ms))"
  using assms timer_set [of 1704067200000 True]
  by (auto simp: pico_deepsleep_init_def Let_def alarm_flush alarm_set)

lemma enter_keeps:
  assumes "deepsleep_enter sdk c1 = Inr c2"
  shows "alarm c2 = alarm c1 \<and> ch_boot c2 = [0, 0, 0, 0]"
proof -
  let ?on = "ps_state_with_domain_on sdk (ps_state_with_domain_on sdk (ps_POWER_STATE_NONE sdk) POWMAN_POWER_DOMAIN_SWITCHED_CORE)
    POWMAN_POWER_DOMAIN_XIP_CACHE"
  let ?c = "snd (ps_configure_wakeup_state sdk (ps_POWER_STATE_NONE sdk) ?on c1)"
  have "c2 = snd (ps_set_power_state sdk (ps_POWER_STATE_NONE sdk) (?c\<lparr>ch_boot := [0, 0, 0, 0]\<rparr>))"
    using assms by (simp add: deepsleep_enter_def Let_def case_prod_unfold split: if_splits)
  then show ?thesis by (simp add: alarm_power alarm_boot alarm_configure boot_power)
qed

end

text \<open>A chip that keeps the time, the alarm and the power state; it accepts every wake-up state but refuses to switch to a power
  state while an error code is set.\<close>

record demo_rest =
  dr_time :: u64
  dr_alarm :: "u64 option"
  dr_error :: int

definition demo_sdk :: "demo_rest power_sdk" where
  "demo_sdk = \<lparr> ps_const = (\<lambda>s. 1), ps_hw_clear_bits = (\<lambda>r m. r AND NOT m), ps_hw_set_bits = (\<lambda>r m. r OR m),
     ps_set_sys_clock_48mhz = id, ps_cyw43_arch_deinit = id, ps_watchdog_disable = id, ps_timer_start = id,
     ps_timer_set_ms = (\<lambda>t c. c\<lparr>ch_rest := (ch_rest c)\<lparr>dr_time := t\<rparr>\<rparr>), ps_timer_get_ms = (\<lambda>c. dr_time (ch_rest c)),
     ps_set_debug_power_request_ignored = (\<lambda>b. id),
     ps_enable_alarm_wakeup_at_ms = (\<lambda>t c. c\<lparr>ch_rest := (ch_rest c)\<lparr>dr_alarm := Some t\<rparr>\<rparr>),
     ps_enable_gpio_wakeup = (\<lambda>i g e h. id), ps_stdio_flush = id, ps_POWER_STATE_NONE = 0,
     ps_state_with_domain_on = (\<lambda>s d. s OR (case d of POWMAN_POWER_DOMAIN_SWITCHED_CORE \<Rightarrow> 8 | POWMAN_POWER_DOMAIN_XIP_CACHE \<Rightarrow> 4)),
     ps_configure_wakeup_state = (\<lambda>p q c. (True, c)), ps_set_power_state = (\<lambda>p c. (dr_error (ch_rest c), c)),
     ps_trace = (\<lambda>s a. id), ps_wfi = id \<rparr>"

interpretation demo_power: power_manager demo_sdk "\<lambda>c. dr_alarm (ch_rest c)"
  by unfold_locales (simp_all add: demo_sdk_def)

section \<open>Properties\<close>

text \<open>C27. Deep sleep on the RP2350 either fails, and then returns false, or does not return: the processor then sleeps with the boot vector
  cleared, so that it starts with \<open>main\<close>, and with the alarm set to the time of the timer, which counts from 2024 on, plus
  the sleeping time (modulo 2 to the 64).\<close>

theorem deepsleep_sleeps_or_fails:
  assumes "power_manager sdk alarm"
  shows "case pico_deepsleep_init False sdk ms c of (ok, c1) \<Rightarrow> ok \<and>
    (case deepsleep_enter sdk c1 of
       Inl (r, c2) \<Rightarrow> \<not> r \<and> pico_deepsleep False sdk ms c = Some (False, c2)
     | Inr c2 \<Rightarrow> pico_deepsleep False sdk ms c = None \<and> ch_boot c2 = [0, 0, 0, 0] \<and>
         (\<exists>now. 1704067200000 \<le> now \<and> alarm c2 = Some (now + ms)))"
proof -
  obtain ok c1 where i: "pico_deepsleep_init False sdk ms c = (ok, c1)" by fastforce
  note a = power_manager.init_arms [OF assms i]
  show ?thesis
  proof (cases "deepsleep_enter sdk c1")
    case (Inl r)
    then show ?thesis using i a deepsleep_enter_false [of sdk c1 "fst r" "snd r"]
      by (cases r) (simp add: pico_deepsleep_def pico_deepsleep_execute_def)
  next
    case (Inr c2)
    then show ?thesis using i a power_manager.enter_keeps [OF assms Inr]
      by (simp add: pico_deepsleep_def pico_deepsleep_execute_def)
  qed
qed

definition demo_chip :: "demo_rest chip" where
  "demo_chip = \<lparr> ch_timer_intr = 1, ch_vreg_ctrl = 0, ch_usb_phy_direct = 0, ch_usb_phy_direct_override = 0, ch_boot = [1, 2, 3, 4],
     ch_last_swcore_pwrup = 0, ch_rest = \<lparr> dr_time = 0, dr_alarm = None, dr_error = 0 \<rparr> \<rparr>"

theorem deepsleep_sleeps_or_fails_witness:
  "case pico_deepsleep_init False demo_sdk 5000 demo_chip of (ok, c1) \<Rightarrow> ok \<and>
    (case deepsleep_enter demo_sdk c1 of
       Inl (r, c2) \<Rightarrow> \<not> r \<and> pico_deepsleep False demo_sdk 5000 demo_chip = Some (False, c2)
     | Inr c2 \<Rightarrow> pico_deepsleep False demo_sdk 5000 demo_chip = None \<and> ch_boot c2 = [0, 0, 0, 0] \<and>
         (\<exists>now. 1704067200000 \<le> now \<and> dr_alarm (ch_rest c2) = Some (now + 5000)))"
  by (rule deepsleep_sleeps_or_fails) (rule demo_power.power_manager_axioms)

text \<open>The demonstration does go to sleep, for five seconds.\<close>

theorem deepsleep_example:
  "\<exists>c. deepsleep_enter demo_sdk (snd (pico_deepsleep_init False demo_sdk 5000 demo_chip)) = Inr c \<and>
    dr_alarm (ch_rest c) = Some 1704067205000 \<and> ch_boot c = [0, 0, 0, 0]"
  by (simp add: deepsleep_enter_def pico_deepsleep_init_def demo_sdk_def demo_chip_def PICO_OK_def Let_def)

text \<open>The reasons of a wake-up agree: pin \<open>i\<close> of the four of the power manager woke the processor exactly when bit \<open>i + 1\<close> of
  \<open>pico_deepsleep_wake_reason\<close> is set.\<close>

theorem wake_reason_of_pin:
  assumes "i < 4"
  shows "\<exists>w. pico_deepsleep_wake_reason False c = Some w \<and> w < 0x80 \<and>
    pico_deepsleep_wake_reason_gpio False (of_nat i) c = Some (bit w (i + 1))"
proof -
  let ?r = "ch_last_swcore_pwrup c" and ?w = "ucast (ch_last_swcore_pwrup c AND 0x7f) :: u8"
  have i: "unat (of_nat i :: u8) = i" using assms by (simp add: unat_of_nat)
  have "?r AND push_bit i 2 \<noteq> 0 \<longleftrightarrow> bit ?r (i + 1)"
  proof -
    have "push_bit i 2 = (push_bit (i + 1) 1 :: u32)" by (simp add: push_bit_eq_mult mult.commute)
    then show ?thesis using and_exp_eq_0_iff_not_bit [of ?r "i + 1"] by (simp add: push_bit_eq_mult)
  qed
  moreover have "bit ?w (i + 1) \<longleftrightarrow> bit ?r (i + 1)"
  proof -
    have "bit (0x7f :: u32) (i + 1)"
      using assms by (auto simp: less_Suc_eq numeral_eq_Suc)
    then show ?thesis using assms by (simp add: bit_ucast_iff bit_and_iff del: bit_numeral_rec)
  qed
  moreover have "?w < 0x80"
  proof -
    have "?w = ucast ?r AND 0x7f" by (rule bit_word_eqI) (auto simp: bit_ucast_iff bit_and_iff bit_numeral_rec)
    then have "?w \<le> 0x7f" by (simp add: word_and_le1)
    then show ?thesis by (simp add: word_le_nat_alt word_less_nat_alt)
  qed
  ultimately show ?thesis using i assms by (simp add: pico_deepsleep_wake_reason_def pico_deepsleep_wake_reason_gpio_def)
qed

end
