(* ===== verification/Cm_Dump.thy ===== *)
theory Cm_Dump
  imports Cm_Fault_Spec
begin

text \<open>
  The dump of the stack of \<open>cm_backtrace.c\<close> (\<open>CMB_USING_DUMP_STACK_INFO\<close>), which the configuration of the repository leaves
  out, without an operating system: the check of the stack pointer in \<open>cm_backtrace_fault\<close> and \<open>dump_stack\<close>. The variable
  \<open>on_thread_before_fault\<close>, whose declaration is commented out in the source, is an argument.
\<close>

section \<open>The dump\<close>

definition CMB_DUMP_STACK_DEPTH_SIZE :: nat where "CMB_DUMP_STACK_DEPTH_SIZE = 16"

text \<open>The loop, with \<open>deep\<close> words left to print.\<close>

fun dump_words :: "memory \<Rightarrow> u32 \<Rightarrow> nat \<Rightarrow> u32 \<Rightarrow> bytes list" where
  "dump_words mem stack_end 0 sp = []"
| "dump_words mem stack_end (Suc deep) sp =
     (if sp < stack_end
      then c_format ''  addr: %08x    data: %08x'' [Word sp, Word (load32 mem sp)] # dump_words mem stack_end deep (sp + 4)
      else [])"

definition dump_stack :: "memory \<Rightarrow> bool \<Rightarrow> u32 \<Rightarrow> u32 \<Rightarrow> u32 \<Rightarrow> backtrace \<Rightarrow> bytes list" where
  "dump_stack mem on_thread_before_fault stack_start_addr stack_size stack_pointer b =
     (let (stack_pointer, overflow) =
        (if bt_stack_is_overflow b then
           (if stack_pointer < stack_start_addr then stack_start_addr
            else if stack_pointer > stack_start_addr + stack_size then stack_start_addr + stack_size
            else stack_pointer,
            [if on_thread_before_fault then cmb_println PRINT_THREAD_STACK_OVERFLOW [Word stack_pointer]
             else cmb_println PRINT_MAIN_STACK_OVERFLOW [Word stack_pointer]])
         else (stack_pointer, []))
      in overflow @ [cmb_println PRINT_THREAD_STACK_INFO []]
        @ dump_words mem (stack_start_addr + stack_size) CMB_DUMP_STACK_DEPTH_SIZE stack_pointer
        @ [ascii ''====================================''])"

text \<open>What \<open>cm_backtrace_fault\<close> does with its stack pointer between the frame and the registers.\<close>

definition fault_dump :: "memory \<Rightarrow> bool \<Rightarrow> u32 \<Rightarrow> backtrace \<Rightarrow> backtrace \<times> bytes list" where
  "fault_dump mem on_thread_before_fault stack_pointer b =
     (let stack_start_addr = bt_main_stack_start b; stack_size = bt_main_stack_size b;
          (b, outside) =
            (if stack_pointer < stack_start_addr \<or> stack_pointer > stack_start_addr + stack_size
             then (b\<lparr>bt_stack_is_overflow := True\<rparr>,
               [c_format ''stack_pointer: 0x%08x, stack_start_addr: 0x%08x, stack_end_addr: 0x%08x''
                  [Word stack_pointer, Word stack_start_addr, Word (stack_start_addr + stack_size)]])
             else (b, []))
      in (b, outside @ dump_stack mem on_thread_before_fault stack_start_addr stack_size stack_pointer b))"

section \<open>What is dumped\<close>

definition dump_line :: "memory \<Rightarrow> u32 \<Rightarrow> bytes" where
  "dump_line mem a = ascii ''  addr: '' @ hex8 a @ ascii ''    data: '' @ hex8 (load32 mem a)"

text \<open>The addresses of the words from \<open>sp\<close> on, up to the end of the stack and at most \<open>deep\<close>.\<close>

definition dumped :: "nat \<Rightarrow> u32 \<Rightarrow> u32 \<Rightarrow> u32 list" where
  "dumped deep sp stack_end = map (\<lambda>k. sp + 4 * of_nat k) [0..<min deep ((unat stack_end - unat sp + 3) div 4)]"

lemma dumped_step:
  assumes "sp < stack_end" and "stack_end \<le> 0xFFFFFFFC"
  shows "dumped (Suc deep) sp stack_end = sp # dumped deep (sp + 4) stack_end"
proof -
  let ?n = "(unat stack_end - unat (sp + 4) + 3) div 4"
  have "unat sp < unat stack_end" using assms(1) by (simp add: word_less_nat_alt)
  then have "(unat stack_end - unat sp + 3) div 4 = Suc ?n" unfolding unat_plus_4 [OF assms] by (rule words_between)
  then have "min (Suc deep) ((unat stack_end - unat sp + 3) div 4) = Suc (min deep ?n)" by (simp only: min_Suc_Suc)
  note e = this
  show ?thesis unfolding dumped_def e map_upt_Suc by (simp add: algebra_simps)
qed

lemma dump_words_lines:
  "stack_end \<le> 0xFFFFFFFC \<Longrightarrow> dump_words mem stack_end deep sp = map (dump_line mem) (dumped deep sp stack_end)"
proof (induction deep arbitrary: sp)
  case 0
  then show ?case by (simp add: dumped_def)
next
  case (Suc deep)
  show ?case
  proof (cases "sp < stack_end")
    case True
    then show ?thesis using Suc by (simp add: dumped_step dump_line_def)
  next
    case False
    then show ?thesis by (simp add: dumped_def not_less word_le_nat_alt)
  qed
qed

lemma dumped_inside:
  assumes "a \<in> set (dumped deep sp stack_end)"
  shows "sp \<le> a \<and> a < stack_end"
proof -
  obtain k where k: "a = sp + 4 * of_nat k" "k < (unat stack_end - unat sp + 3) div 4"
    using assms by (auto simp: dumped_def)
  then have l: "unat sp + 4 * k < unat stack_end" by linarith
  then have s: "unat sp + 4 * k < 2 ^ 32" using unsigned_less [of stack_end, where ?'a = nat] by simp
  have "unat a = unat sp + 4 * k"
  proof -
    have "a = of_nat (unat sp + 4 * k)" by (simp add: k(1))
    then show ?thesis using s by (simp only: unat_of_nat) (simp add: take_bit_nat_eq_self)
  qed
  then show ?thesis using l by (simp add: word_less_nat_alt word_le_nat_alt)
qed

definition clamped :: "u32 \<Rightarrow> u32 \<Rightarrow> u32 \<Rightarrow> u32" where
  "clamped low high sp = max low (min high sp)"

text \<open>The lines about a stack pointer outside the stack from \<open>low\<close> to \<open>high\<close>.\<close>

definition overflow_lines :: "bool \<Rightarrow> u32 \<Rightarrow> u32 \<Rightarrow> u32 \<Rightarrow> bytes list" where
  "overflow_lines on_thread low high sp =
     [ascii ''stack_pointer: 0x'' @ hex8 sp @ ascii '', stack_start_addr: 0x'' @ hex8 low @ ascii '', stack_end_addr: 0x'' @ hex8 high,
      if on_thread then ascii ''Error: Thread stack('' @ hex8 sp @ ascii '') was overflow''
      else ascii ''Error: Main stack('' @ hex8 sp @ ascii '') was overflow'']"

lemma clamped_cases:
  "low \<le> high \<Longrightarrow> clamped low high sp = (if sp < low then low else if high < sp then high else sp)"
  by (auto simp: clamped_def)

lemma fault_dump_lines:
  assumes "low = bt_main_stack_start b" and "high = low + bt_main_stack_size b" and "low \<le> high" and "high \<le> 0xFFFFFFFC"
    and "\<not> bt_stack_is_overflow b"
  shows "fault_dump mem on_thread sp b =
    (if sp < low \<or> high < sp then b\<lparr>bt_stack_is_overflow := True\<rparr> else b,
     (if sp < low \<or> high < sp then overflow_lines on_thread low high sp else []) @ [ascii ''===== Thread stack information =====''] @
       map (dump_line mem) (dumped 16 (clamped low high sp) high) @ [ascii ''====================================''])"
proof -
  have d: "dump_words mem high CMB_DUMP_STACK_DEPTH_SIZE sp' = map (dump_line mem) (dumped 16 sp' high)" for sp'
    using dump_words_lines [OF assms(4)] by (simp add: CMB_DUMP_STACK_DEPTH_SIZE_def)
  show ?thesis
  proof (cases "sp < low \<or> high < sp")
    case True
    then show ?thesis
      unfolding fault_dump_def dump_stack_def Let_def assms(1) [symmetric] assms(2) [symmetric] clamped_cases [OF assms(3)] d [symmetric]
      by (simp add: cmb_println_def overflow_lines_def)
  next
    case False
    then show ?thesis
      unfolding fault_dump_def dump_stack_def Let_def assms(1) [symmetric] assms(2) [symmetric] clamped_cases [OF assms(3)] d [symmetric]
      using assms(5) by (simp add: cmb_println_def)
  qed
qed

section \<open>Properties\<close>

text \<open>C22. Wherever the stack pointer of a fault points, every word that is dumped lies in the stack, at most 16 of them in
  ascending order, from the stack pointer on, or from the near end of the stack if it points outside; and then the overflow is
  reported and remembered.\<close>

theorem dump_stays_in_stack:
  assumes "low = bt_main_stack_start b" and "high = low + bt_main_stack_size b" and "low \<le> high" and "high \<le> 0xFFFFFFFC"
    and "\<not> bt_stack_is_overflow b"
  shows "\<exists>b' addrs. fault_dump mem on_thread sp b =
      (b', (if sp < low \<or> high < sp then overflow_lines on_thread low high sp else []) @
        [ascii ''===== Thread stack information =====''] @ map (dump_line mem) addrs @ [ascii ''====================================''])
    \<and> addrs = dumped 16 (clamped low high sp) high \<and> (\<forall>a\<in>set addrs. low \<le> a \<and> a < high) \<and> length addrs \<le> 16
    \<and> bt_stack_is_overflow b' = (sp < low \<or> high < sp)"
proof -
  have "low \<le> clamped low high sp" by (simp add: clamped_def)
  then have "\<forall>a\<in>set (dumped 16 (clamped low high sp) high). low \<le> a \<and> a < high"
    using dumped_inside by (meson order_trans)
  moreover have "length (dumped 16 (clamped low high sp) high) \<le> 16" by (simp add: dumped_def)
  ultimately show ?thesis using assms(5) fault_dump_lines [OF assms, of mem on_thread sp] by auto
qed

theorem dump_stays_in_stack_witness:
  "\<exists>b' addrs. fault_dump (\<lambda>a. 0) False 0x10 (demo_backtrace\<lparr>bt_main_stack_start := 0x20, bt_main_stack_size := 8\<rparr>) =
      (b', overflow_lines False 0x20 0x28 0x10 @
        [ascii ''===== Thread stack information =====''] @ map (dump_line (\<lambda>a. 0)) addrs @ [ascii ''====================================''])
    \<and> addrs = [0x20, 0x24] \<and> (\<forall>a\<in>set addrs. 0x20 \<le> a \<and> a < 0x28) \<and> length addrs \<le> 16 \<and> bt_stack_is_overflow b'"
proof -
  have "dumped 16 (clamped 0x20 0x28 0x10) 0x28 = [0x20, 0x24]" by code_simp
  then show ?thesis
    using dump_stays_in_stack [of "0x20" "demo_backtrace\<lparr>bt_main_stack_start := 0x20, bt_main_stack_size := 8\<rparr>" "0x28" "\<lambda>a. 0" False "0x10"]
    by (simp add: demo_backtrace_def del: ascii_simps)
qed

end
