(* ===== verification/Cmb_Languages.thy ===== *)
theory Cmb_Languages
  imports Cmb_Messages
begin

text \<open>
  The messages of \<open>cm_backtrace\<close> in the other languages it comes with: \<open>Languages/zh-CN/cmb_zh_CN.h\<close>, whose encoding is
  GBK, and \<open>cmb_zh_CN_UTF8.h\<close>, byte for byte; and what a translation owes to the calls of \<open>cmb_println\<close>, whose
  arguments do not depend on the language: the same conversions in the same order.
\<close>

section \<open>The tables\<close>

datatype print_language = CMB_PRINT_LANGUAGE_ENGLISH | CMB_PRINT_LANGUAGE_CHINESE | CMB_PRINT_LANGUAGE_CHINESE_UTF8
  | CMB_PRINT_LANGUAGE_CUSTOM

text \<open>The default of \<open>cmb_def.h\<close>, which \<open>cmb_cfg.h\<close> leaves alone.\<close>

definition CMB_PRINT_LANGUAGE :: print_language where
  "CMB_PRINT_LANGUAGE = CMB_PRINT_LANGUAGE_ENGLISH"

primrec print_info_zh_CN :: "print_id \<Rightarrow> string" where
  "print_info_zh_CN PRINT_MAIN_STACK_CFG_ERROR =
    [CHR 0xB4, CHR 0xED, CHR 0xCE, CHR 0xF3, CHR 0xA3, CHR 0xBA, CHR 0xCE, CHR 0xDE, CHR 0xB7, CHR 0xA8, CHR 0xBB, CHR 0xF1,
     CHR 0xC8, CHR 0xA1, CHR 0xD6, CHR 0xF7, CHR 0xD5, CHR 0xBB, CHR 0xD0, CHR 0xC5, CHR 0xCF, CHR 0xA2, CHR 0xA3, CHR 0xAC,
     CHR 0xC7, CHR 0xEB, CHR 0xBC, CHR 0xEC, CHR 0xB2, CHR 0xE9, CHR 0xD6, CHR 0xF7, CHR 0xD5, CHR 0xBB, CHR 0xB5, CHR 0xC4,
     CHR 0xCF, CHR 0xE0, CHR 0xB9, CHR 0xD8, CHR 0xC5, CHR 0xE4, CHR 0xD6, CHR 0xC3]"
| "print_info_zh_CN PRINT_FIRMWARE_INFO =
    [CHR 0xB9, CHR 0xCC, CHR 0xBC, CHR 0xFE, CHR 0xC3, CHR 0xFB, CHR 0xB3, CHR 0xC6, CHR 0xA3, CHR 0xBA] @ ''%s'' @ [CHR 0xA3,
     CHR 0xAC, CHR 0xD3, CHR 0xB2, CHR 0xBC, CHR 0xFE, CHR 0xB0, CHR 0xE6, CHR 0xB1, CHR 0xBE, CHR 0xBA, CHR 0xC5, CHR 0xA3,
     CHR 0xBA] @ ''%s'' @ [CHR 0xA3, CHR 0xAC, CHR 0xC8, CHR 0xED, CHR 0xBC, CHR 0xFE, CHR 0xB0, CHR 0xE6, CHR 0xB1, CHR 0xBE,
     CHR 0xBA, CHR 0xC5, CHR 0xA3, CHR 0xBA] @ ''%s''"
| "print_info_zh_CN PRINT_ASSERT_ON_THREAD =
    [CHR 0xD4, CHR 0xDA, CHR 0xCF, CHR 0xDF, CHR 0xB3, CHR 0xCC] @ ''(%s)'' @ [CHR 0xD6, CHR 0xD0, CHR 0xB7, CHR 0xA2,
     CHR 0xC9, CHR 0xFA, CHR 0xB6, CHR 0xCF, CHR 0xD1, CHR 0xD4]"
| "print_info_zh_CN PRINT_ASSERT_ON_HANDLER =
    [CHR 0xD4, CHR 0xDA, CHR 0xD6, CHR 0xD0, CHR 0xB6, CHR 0xCF, CHR 0xBB, CHR 0xF2, CHR 0xC2, CHR 0xE3, CHR 0xBB, CHR 0xFA,
     CHR 0xBB, CHR 0xB7, CHR 0xBE, CHR 0xB3, CHR 0xCF, CHR 0xC2, CHR 0xB7, CHR 0xA2, CHR 0xC9, CHR 0xFA, CHR 0xB6, CHR 0xCF,
     CHR 0xD1, CHR 0xD4]"
| "print_info_zh_CN PRINT_THREAD_STACK_INFO =
    ''=========== '' @ [CHR 0xCF, CHR 0xDF, CHR 0xB3, CHR 0xCC, CHR 0xB6, CHR 0xD1, CHR 0xD5, CHR 0xBB, CHR 0xD0, CHR 0xC5,
     CHR 0xCF, CHR 0xA2] @ '' ===========''"
| "print_info_zh_CN PRINT_MAIN_STACK_INFO =
    ''============ '' @ [CHR 0xD6, CHR 0xF7, CHR 0xB6, CHR 0xD1, CHR 0xD5, CHR 0xBB, CHR 0xD0, CHR 0xC5, CHR 0xCF, CHR 0xA2]
     @ '' ============''"
| "print_info_zh_CN PRINT_THREAD_STACK_OVERFLOW =
    [CHR 0xB4, CHR 0xED, CHR 0xCE, CHR 0xF3, CHR 0xA3, CHR 0xBA, CHR 0xCF, CHR 0xDF, CHR 0xB3, CHR 0xCC, CHR 0xD5, CHR 0xBB]
     @ ''(%08x)'' @ [CHR 0xB7, CHR 0xA2, CHR 0xC9, CHR 0xFA, CHR 0xD2, CHR 0xE7, CHR 0xB3, CHR 0xF6]"
| "print_info_zh_CN PRINT_MAIN_STACK_OVERFLOW =
    [CHR 0xB4, CHR 0xED, CHR 0xCE, CHR 0xF3, CHR 0xA3, CHR 0xBA, CHR 0xD6, CHR 0xF7, CHR 0xD5, CHR 0xBB] @ ''(%08x)''
     @ [CHR 0xB7, CHR 0xA2, CHR 0xC9, CHR 0xFA, CHR 0xD2, CHR 0xE7, CHR 0xB3, CHR 0xF6]"
| "print_info_zh_CN PRINT_CALL_STACK_INFO =
    [CHR 0xB2, CHR 0xE9, CHR 0xBF, CHR 0xB4, CHR 0xB8, CHR 0xFC, CHR 0xB6, CHR 0xE0, CHR 0xBA, CHR 0xAF, CHR 0xCA, CHR 0xFD,
     CHR 0xB5, CHR 0xF7, CHR 0xD3, CHR 0xC3, CHR 0xD5, CHR 0xBB, CHR 0xD0, CHR 0xC5, CHR 0xCF, CHR 0xA2, CHR 0xA3, CHR 0xAC,
     CHR 0xC7, CHR 0xEB, CHR 0xD4, CHR 0xCB, CHR 0xD0, CHR 0xD0, CHR 0xA3, CHR 0xBA] @ ''addr2line -e %s%s -afpiC %.*s''"
| "print_info_zh_CN PRINT_CALL_STACK_ERR =
    [CHR 0xBB, CHR 0xF1, CHR 0xC8, CHR 0xA1, CHR 0xBA, CHR 0xAF, CHR 0xCA, CHR 0xFD, CHR 0xB5, CHR 0xF7, CHR 0xD3, CHR 0xC3,
     CHR 0xD5, CHR 0xBB, CHR 0xCA, CHR 0xA7, CHR 0xB0, CHR 0xDC]"
| "print_info_zh_CN PRINT_FAULT_ON_THREAD =
    [CHR 0xD4, CHR 0xDA, CHR 0xCF, CHR 0xDF, CHR 0xB3, CHR 0xCC] @ ''(%s)'' @ [CHR 0xD6, CHR 0xD0, CHR 0xB7, CHR 0xA2,
     CHR 0xC9, CHR 0xFA, CHR 0xB4, CHR 0xED, CHR 0xCE, CHR 0xF3, CHR 0xD2, CHR 0xEC, CHR 0xB3, CHR 0xA3]"
| "print_info_zh_CN PRINT_FAULT_ON_HANDLER =
    [CHR 0xD4, CHR 0xDA, CHR 0xD6, CHR 0xD0, CHR 0xB6, CHR 0xCF, CHR 0xBB, CHR 0xF2, CHR 0xC2, CHR 0xE3, CHR 0xBB, CHR 0xFA,
     CHR 0xBB, CHR 0xB7, CHR 0xBE, CHR 0xB3, CHR 0xCF, CHR 0xC2, CHR 0xB7, CHR 0xA2, CHR 0xC9, CHR 0xFA, CHR 0xB4, CHR 0xED,
     CHR 0xCE, CHR 0xF3, CHR 0xD2, CHR 0xEC, CHR 0xB3, CHR 0xA3]"
| "print_info_zh_CN PRINT_REGS_TITLE =
    ''========================= '' @ [CHR 0xBC, CHR 0xC4, CHR 0xB4, CHR 0xE6, CHR 0xC6, CHR 0xF7, CHR 0xD0, CHR 0xC5, CHR 0xCF,
     CHR 0xA2] @ '' =========================''"
| "print_info_zh_CN PRINT_HFSR_VECTBL =
    [CHR 0xB7, CHR 0xA2, CHR 0xC9, CHR 0xFA, CHR 0xD3, CHR 0xB2, CHR 0xB4, CHR 0xED, CHR 0xCE, CHR 0xF3, CHR 0xA3, CHR 0xAC,
     CHR 0xD4, CHR 0xAD, CHR 0xD2, CHR 0xF2, CHR 0xA3, CHR 0xBA, CHR 0xC8, CHR 0xA1, CHR 0xD6, CHR 0xD0, CHR 0xB6, CHR 0xCF,
     CHR 0xCF, CHR 0xF2, CHR 0xC1, CHR 0xBF, CHR 0xCA, CHR 0xB1, CHR 0xB3, CHR 0xF6, CHR 0xB4, CHR 0xED]"
| "print_info_zh_CN PRINT_MFSR_IACCVIOL =
    [CHR 0xB7, CHR 0xA2, CHR 0xC9, CHR 0xFA, CHR 0xB4, CHR 0xE6, CHR 0xB4, CHR 0xA2, CHR 0xC6, CHR 0xF7, CHR 0xB9, CHR 0xDC,
     CHR 0xC0, CHR 0xED, CHR 0xB4, CHR 0xED, CHR 0xCE, CHR 0xF3, CHR 0xA3, CHR 0xAC, CHR 0xD4, CHR 0xAD, CHR 0xD2, CHR 0xF2,
     CHR 0xA3, CHR 0xBA, CHR 0xC6, CHR 0xF3, CHR 0xCD, CHR 0xBC, CHR 0xB4, CHR 0xD3, CHR 0xB2, CHR 0xBB, CHR 0xD4, CHR 0xCA,
     CHR 0xD0, CHR 0xED, CHR 0xB7, CHR 0xC3, CHR 0xCE, CHR 0xCA, CHR 0xB5, CHR 0xC4, CHR 0xC7, CHR 0xF8, CHR 0xD3, CHR 0xF2,
     CHR 0xC8, CHR 0xA1, CHR 0xD6, CHR 0xB8, CHR 0xC1, CHR 0xEE]"
| "print_info_zh_CN PRINT_MFSR_DACCVIOL =
    [CHR 0xB7, CHR 0xA2, CHR 0xC9, CHR 0xFA, CHR 0xB4, CHR 0xE6, CHR 0xB4, CHR 0xA2, CHR 0xC6, CHR 0xF7, CHR 0xB9, CHR 0xDC,
     CHR 0xC0, CHR 0xED, CHR 0xB4, CHR 0xED, CHR 0xCE, CHR 0xF3, CHR 0xA3, CHR 0xAC, CHR 0xD4, CHR 0xAD, CHR 0xD2, CHR 0xF2,
     CHR 0xA3, CHR 0xBA, CHR 0xC6, CHR 0xF3, CHR 0xCD, CHR 0xBC, CHR 0xB4, CHR 0xD3, CHR 0xB2, CHR 0xBB, CHR 0xD4, CHR 0xCA,
     CHR 0xD0, CHR 0xED, CHR 0xB7, CHR 0xC3, CHR 0xCE, CHR 0xCA, CHR 0xB5, CHR 0xC4, CHR 0xC7, CHR 0xF8, CHR 0xD3, CHR 0xF2,
     CHR 0xB6, CHR 0xC1, CHR 0xA1, CHR 0xA2, CHR 0xD0, CHR 0xB4, CHR 0xCA, CHR 0xFD, CHR 0xBE, CHR 0xDD]"
| "print_info_zh_CN PRINT_MFSR_MUNSTKERR =
    [CHR 0xB7, CHR 0xA2, CHR 0xC9, CHR 0xFA, CHR 0xB4, CHR 0xE6, CHR 0xB4, CHR 0xA2, CHR 0xC6, CHR 0xF7, CHR 0xB9, CHR 0xDC,
     CHR 0xC0, CHR 0xED, CHR 0xB4, CHR 0xED, CHR 0xCE, CHR 0xF3, CHR 0xA3, CHR 0xAC, CHR 0xD4, CHR 0xAD, CHR 0xD2, CHR 0xF2,
     CHR 0xA3, CHR 0xBA, CHR 0xB3, CHR 0xF6, CHR 0xD5, CHR 0xBB, CHR 0xCA, CHR 0xB1, CHR 0xC6, CHR 0xF3, CHR 0xCD, CHR 0xBC,
     CHR 0xB7, CHR 0xC3, CHR 0xCE, CHR 0xCA, CHR 0xB2, CHR 0xBB, CHR 0xB1, CHR 0xBB, CHR 0xD4, CHR 0xCA, CHR 0xD0, CHR 0xED,
     CHR 0xB5, CHR 0xC4, CHR 0xC7, CHR 0xF8, CHR 0xD3, CHR 0xF2]"
| "print_info_zh_CN PRINT_MFSR_MSTKERR =
    [CHR 0xB7, CHR 0xA2, CHR 0xC9, CHR 0xFA, CHR 0xB4, CHR 0xE6, CHR 0xB4, CHR 0xA2, CHR 0xC6, CHR 0xF7, CHR 0xB9, CHR 0xDC,
     CHR 0xC0, CHR 0xED, CHR 0xB4, CHR 0xED, CHR 0xCE, CHR 0xF3, CHR 0xA3, CHR 0xAC, CHR 0xD4, CHR 0xAD, CHR 0xD2, CHR 0xF2,
     CHR 0xA3, CHR 0xBA, CHR 0xC8, CHR 0xEB, CHR 0xD5, CHR 0xBB, CHR 0xCA, CHR 0xB1, CHR 0xC6, CHR 0xF3, CHR 0xCD, CHR 0xBC,
     CHR 0xB7, CHR 0xC3, CHR 0xCE, CHR 0xCA, CHR 0xB2, CHR 0xBB, CHR 0xB1, CHR 0xBB, CHR 0xD4, CHR 0xCA, CHR 0xD0, CHR 0xED,
     CHR 0xB5, CHR 0xC4, CHR 0xC7, CHR 0xF8, CHR 0xD3, CHR 0xF2]"
| "print_info_zh_CN PRINT_MFSR_MLSPERR =
    [CHR 0xB7, CHR 0xA2, CHR 0xC9, CHR 0xFA, CHR 0xB4, CHR 0xE6, CHR 0xB4, CHR 0xA2, CHR 0xC6, CHR 0xF7, CHR 0xB9, CHR 0xDC,
     CHR 0xC0, CHR 0xED, CHR 0xB4, CHR 0xED, CHR 0xCE, CHR 0xF3, CHR 0xA3, CHR 0xAC, CHR 0xD4, CHR 0xAD, CHR 0xD2, CHR 0xF2,
     CHR 0xA3, CHR 0xBA, CHR 0xB6, CHR 0xE8, CHR 0xD0, CHR 0xD4, CHR 0xB1, CHR 0xA3, CHR 0xB4, CHR 0xE6, CHR 0xB8, CHR 0xA1,
     CHR 0xB5, CHR 0xE3, CHR 0xD7, CHR 0xB4, CHR 0xCC, CHR 0xAC, CHR 0xCA, CHR 0xB1, CHR 0xB7, CHR 0xA2, CHR 0xC9, CHR 0xFA,
     CHR 0xB4, CHR 0xED, CHR 0xCE, CHR 0xF3]"
| "print_info_zh_CN PRINT_BFSR_IBUSERR =
    [CHR 0xB7, CHR 0xA2, CHR 0xC9, CHR 0xFA, CHR 0xD7, CHR 0xDC, CHR 0xCF, CHR 0xDF, CHR 0xB4, CHR 0xED, CHR 0xCE, CHR 0xF3,
     CHR 0xA3, CHR 0xAC, CHR 0xD4, CHR 0xAD, CHR 0xD2, CHR 0xF2, CHR 0xA3, CHR 0xBA, CHR 0xD6, CHR 0xB8, CHR 0xC1, CHR 0xEE,
     CHR 0xD7, CHR 0xDC, CHR 0xCF, CHR 0xDF, CHR 0xB4, CHR 0xED, CHR 0xCE, CHR 0xF3]"
| "print_info_zh_CN PRINT_BFSR_PRECISERR =
    [CHR 0xB7, CHR 0xA2, CHR 0xC9, CHR 0xFA, CHR 0xD7, CHR 0xDC, CHR 0xCF, CHR 0xDF, CHR 0xB4, CHR 0xED, CHR 0xCE, CHR 0xF3,
     CHR 0xA3, CHR 0xAC, CHR 0xD4, CHR 0xAD, CHR 0xD2, CHR 0xF2, CHR 0xA3, CHR 0xBA, CHR 0xBE, CHR 0xAB, CHR 0xC8, CHR 0xB7,
     CHR 0xB5, CHR 0xC4, CHR 0xCA, CHR 0xFD, CHR 0xBE, CHR 0xDD, CHR 0xD7, CHR 0xDC, CHR 0xCF, CHR 0xDF, CHR 0xB4, CHR 0xED,
     CHR 0xCE, CHR 0xF3]"
| "print_info_zh_CN PRINT_BFSR_IMPREISERR =
    [CHR 0xB7, CHR 0xA2, CHR 0xC9, CHR 0xFA, CHR 0xD7, CHR 0xDC, CHR 0xCF, CHR 0xDF, CHR 0xB4, CHR 0xED, CHR 0xCE, CHR 0xF3,
     CHR 0xA3, CHR 0xAC, CHR 0xD4, CHR 0xAD, CHR 0xD2, CHR 0xF2, CHR 0xA3, CHR 0xBA, CHR 0xB2, CHR 0xBB, CHR 0xBE, CHR 0xAB,
     CHR 0xC8, CHR 0xB7, CHR 0xB5, CHR 0xC4, CHR 0xCA, CHR 0xFD, CHR 0xBE, CHR 0xDD, CHR 0xD7, CHR 0xDC, CHR 0xCF, CHR 0xDF,
     CHR 0xB4, CHR 0xED, CHR 0xCE, CHR 0xF3]"
| "print_info_zh_CN PRINT_BFSR_UNSTKERR =
    [CHR 0xB7, CHR 0xA2, CHR 0xC9, CHR 0xFA, CHR 0xD7, CHR 0xDC, CHR 0xCF, CHR 0xDF, CHR 0xB4, CHR 0xED, CHR 0xCE, CHR 0xF3,
     CHR 0xA3, CHR 0xAC, CHR 0xD4, CHR 0xAD, CHR 0xD2, CHR 0xF2, CHR 0xA3, CHR 0xBA, CHR 0xB3, CHR 0xF6, CHR 0xD5, CHR 0xBB,
     CHR 0xCA, CHR 0xB1, CHR 0xB7, CHR 0xA2, CHR 0xC9, CHR 0xFA, CHR 0xB4, CHR 0xED, CHR 0xCE, CHR 0xF3]"
| "print_info_zh_CN PRINT_BFSR_STKERR =
    [CHR 0xB7, CHR 0xA2, CHR 0xC9, CHR 0xFA, CHR 0xD7, CHR 0xDC, CHR 0xCF, CHR 0xDF, CHR 0xB4, CHR 0xED, CHR 0xCE, CHR 0xF3,
     CHR 0xA3, CHR 0xAC, CHR 0xD4, CHR 0xAD, CHR 0xD2, CHR 0xF2, CHR 0xA3, CHR 0xBA, CHR 0xC8, CHR 0xEB, CHR 0xD5, CHR 0xBB,
     CHR 0xCA, CHR 0xB1, CHR 0xB7, CHR 0xA2, CHR 0xC9, CHR 0xFA, CHR 0xB4, CHR 0xED, CHR 0xCE, CHR 0xF3]"
| "print_info_zh_CN PRINT_BFSR_LSPERR =
    [CHR 0xB7, CHR 0xA2, CHR 0xC9, CHR 0xFA, CHR 0xD7, CHR 0xDC, CHR 0xCF, CHR 0xDF, CHR 0xB4, CHR 0xED, CHR 0xCE, CHR 0xF3,
     CHR 0xA3, CHR 0xAC, CHR 0xD4, CHR 0xAD, CHR 0xD2, CHR 0xF2, CHR 0xA3, CHR 0xBA, CHR 0xB6, CHR 0xE8, CHR 0xD0, CHR 0xD4,
     CHR 0xB1, CHR 0xA3, CHR 0xB4, CHR 0xE6, CHR 0xB8, CHR 0xA1, CHR 0xB5, CHR 0xE3, CHR 0xD7, CHR 0xB4, CHR 0xCC, CHR 0xAC,
     CHR 0xCA, CHR 0xB1, CHR 0xB7, CHR 0xA2, CHR 0xC9, CHR 0xFA, CHR 0xB4, CHR 0xED, CHR 0xCE, CHR 0xF3]"
| "print_info_zh_CN PRINT_UFSR_UNDEFINSTR =
    [CHR 0xB7, CHR 0xA2, CHR 0xC9, CHR 0xFA, CHR 0xD3, CHR 0xC3, CHR 0xB7, CHR 0xA8, CHR 0xB4, CHR 0xED, CHR 0xCE, CHR 0xF3,
     CHR 0xA3, CHR 0xAC, CHR 0xD4, CHR 0xAD, CHR 0xD2, CHR 0xF2, CHR 0xA3, CHR 0xBA, CHR 0xC6, CHR 0xF3, CHR 0xCD, CHR 0xBC,
     CHR 0xD6, CHR 0xB4, CHR 0xD0, CHR 0xD0, CHR 0xCE, CHR 0xB4, CHR 0xB6, CHR 0xA8, CHR 0xD2, CHR 0xE5, CHR 0xD6, CHR 0xB8,
     CHR 0xC1, CHR 0xEE]"
| "print_info_zh_CN PRINT_UFSR_INVSTATE =
    [CHR 0xB7, CHR 0xA2, CHR 0xC9, CHR 0xFA, CHR 0xD3, CHR 0xC3, CHR 0xB7, CHR 0xA8, CHR 0xB4, CHR 0xED, CHR 0xCE, CHR 0xF3,
     CHR 0xA3, CHR 0xAC, CHR 0xD4, CHR 0xAD, CHR 0xD2, CHR 0xF2, CHR 0xA3, CHR 0xBA, CHR 0xCA, CHR 0xD4, CHR 0xCD, CHR 0xBC,
     CHR 0xC7, CHR 0xD0, CHR 0xBB, CHR 0xBB, CHR 0xB5, CHR 0xBD] @ '' ARM '' @ [CHR 0xD7, CHR 0xB4, CHR 0xCC, CHR 0xAC]"
| "print_info_zh_CN PRINT_UFSR_INVPC =
    [CHR 0xB7, CHR 0xA2, CHR 0xC9, CHR 0xFA, CHR 0xD3, CHR 0xC3, CHR 0xB7, CHR 0xA8, CHR 0xB4, CHR 0xED, CHR 0xCE, CHR 0xF3,
     CHR 0xA3, CHR 0xAC, CHR 0xD4, CHR 0xAD, CHR 0xD2, CHR 0xF2, CHR 0xA3, CHR 0xBA, CHR 0xCE, CHR 0xDE, CHR 0xD0, CHR 0xA7,
     CHR 0xB5, CHR 0xC4, CHR 0xD2, CHR 0xEC, CHR 0xB3, CHR 0xA3, CHR 0xB7, CHR 0xB5, CHR 0xBB, CHR 0xD8, CHR 0xC2, CHR 0xEB]"
| "print_info_zh_CN PRINT_UFSR_NOCP =
    [CHR 0xB7, CHR 0xA2, CHR 0xC9, CHR 0xFA, CHR 0xD3, CHR 0xC3, CHR 0xB7, CHR 0xA8, CHR 0xB4, CHR 0xED, CHR 0xCE, CHR 0xF3,
     CHR 0xA3, CHR 0xAC, CHR 0xD4, CHR 0xAD, CHR 0xD2, CHR 0xF2, CHR 0xA3, CHR 0xBA, CHR 0xC6, CHR 0xF3, CHR 0xCD, CHR 0xBC,
     CHR 0xD6, CHR 0xB4, CHR 0xD0, CHR 0xD0, CHR 0xD0, CHR 0xAD, CHR 0xB4, CHR 0xA6, CHR 0xC0, CHR 0xED, CHR 0xC6, CHR 0xF7,
     CHR 0xD6, CHR 0xB8, CHR 0xC1, CHR 0xEE]"
| "print_info_zh_CN PRINT_UFSR_STKOF =
    [CHR 0xB7, CHR 0xA2, CHR 0xC9, CHR 0xFA, CHR 0xD3, CHR 0xC3, CHR 0xB7, CHR 0xA8, CHR 0xB4, CHR 0xED, CHR 0xCE, CHR 0xF3,
     CHR 0xA3, CHR 0xAC, CHR 0xD4, CHR 0xAD, CHR 0xD2, CHR 0xF2, CHR 0xA3, CHR 0xBA, CHR 0xD3, CHR 0xB2, CHR 0xBC, CHR 0xFE,
     CHR 0xBC, CHR 0xEC, CHR 0xB2, CHR 0xE2, CHR 0xB5, CHR 0xBD, CHR 0xD5, CHR 0xBB, CHR 0xD2, CHR 0xE7, CHR 0xB3, CHR 0xF6]"
| "print_info_zh_CN PRINT_UFSR_UNALIGNED =
    [CHR 0xB7, CHR 0xA2, CHR 0xC9, CHR 0xFA, CHR 0xD3, CHR 0xC3, CHR 0xB7, CHR 0xA8, CHR 0xB4, CHR 0xED, CHR 0xCE, CHR 0xF3,
     CHR 0xA3, CHR 0xAC, CHR 0xD4, CHR 0xAD, CHR 0xD2, CHR 0xF2, CHR 0xA3, CHR 0xBA, CHR 0xC6, CHR 0xF3, CHR 0xCD, CHR 0xBC,
     CHR 0xD6, CHR 0xB4, CHR 0xD0, CHR 0xD0, CHR 0xB7, CHR 0xC7, CHR 0xB6, CHR 0xD4, CHR 0xC6, CHR 0xEB, CHR 0xB7, CHR 0xC3,
     CHR 0xCE, CHR 0xCA]"
| "print_info_zh_CN PRINT_UFSR_DIVBYZERO0 =
    [CHR 0xB7, CHR 0xA2, CHR 0xC9, CHR 0xFA, CHR 0xD3, CHR 0xC3, CHR 0xB7, CHR 0xA8, CHR 0xB4, CHR 0xED, CHR 0xCE, CHR 0xF3,
     CHR 0xA3, CHR 0xAC, CHR 0xD4, CHR 0xAD, CHR 0xD2, CHR 0xF2, CHR 0xA3, CHR 0xBA, CHR 0xC6, CHR 0xF3, CHR 0xCD, CHR 0xBC,
     CHR 0xD6, CHR 0xB4, CHR 0xD0, CHR 0xD0, CHR 0xB3, CHR 0xFD] @ '' 0 '' @ [CHR 0xB2, CHR 0xD9, CHR 0xD7, CHR 0xF7]"
| "print_info_zh_CN PRINT_DFSR_HALTED =
    [CHR 0xB7, CHR 0xA2, CHR 0xC9, CHR 0xFA, CHR 0xB5, CHR 0xF7, CHR 0xCA, CHR 0xD4, CHR 0xB4, CHR 0xED, CHR 0xCE, CHR 0xF3,
     CHR 0xA3, CHR 0xAC, CHR 0xD4, CHR 0xAD, CHR 0xD2, CHR 0xF2, CHR 0xA3, CHR 0xBA] @ ''NVIC '' @ [CHR 0xCD, CHR 0xA3,
     CHR 0xBB, CHR 0xFA, CHR 0xC7, CHR 0xEB, CHR 0xC7, CHR 0xF3]"
| "print_info_zh_CN PRINT_DFSR_BKPT =
    [CHR 0xB7, CHR 0xA2, CHR 0xC9, CHR 0xFA, CHR 0xB5, CHR 0xF7, CHR 0xCA, CHR 0xD4, CHR 0xB4, CHR 0xED, CHR 0xCE, CHR 0xF3,
     CHR 0xA3, CHR 0xAC, CHR 0xD4, CHR 0xAD, CHR 0xD2, CHR 0xF2, CHR 0xA3, CHR 0xBA, CHR 0xD6, CHR 0xB4, CHR 0xD0, CHR 0xD0]
     @ '' BKPT '' @ [CHR 0xD6, CHR 0xB8, CHR 0xC1, CHR 0xEE]"
| "print_info_zh_CN PRINT_DFSR_DWTTRAP =
    [CHR 0xB7, CHR 0xA2, CHR 0xC9, CHR 0xFA, CHR 0xB5, CHR 0xF7, CHR 0xCA, CHR 0xD4, CHR 0xB4, CHR 0xED, CHR 0xCE, CHR 0xF3,
     CHR 0xA3, CHR 0xAC, CHR 0xD4, CHR 0xAD, CHR 0xD2, CHR 0xF2, CHR 0xA3, CHR 0xBA, CHR 0xCA, CHR 0xFD, CHR 0xBE, CHR 0xDD,
     CHR 0xBC, CHR 0xE0, CHR 0xB2, CHR 0xE2, CHR 0xB5, CHR 0xE3, CHR 0xC6, CHR 0xA5, CHR 0xC5, CHR 0xE4]"
| "print_info_zh_CN PRINT_DFSR_VCATCH =
    [CHR 0xB7, CHR 0xA2, CHR 0xC9, CHR 0xFA, CHR 0xB5, CHR 0xF7, CHR 0xCA, CHR 0xD4, CHR 0xB4, CHR 0xED, CHR 0xCE, CHR 0xF3,
     CHR 0xA3, CHR 0xAC, CHR 0xD4, CHR 0xAD, CHR 0xD2, CHR 0xF2, CHR 0xA3, CHR 0xBA, CHR 0xB7, CHR 0xA2, CHR 0xC9, CHR 0xFA,
     CHR 0xCF, CHR 0xF2, CHR 0xC1, CHR 0xBF, CHR 0xB2, CHR 0xB6, CHR 0xBB, CHR 0xF1]"
| "print_info_zh_CN PRINT_DFSR_EXTERNAL =
    [CHR 0xB7, CHR 0xA2, CHR 0xC9, CHR 0xFA, CHR 0xB5, CHR 0xF7, CHR 0xCA, CHR 0xD4, CHR 0xB4, CHR 0xED, CHR 0xCE, CHR 0xF3,
     CHR 0xA3, CHR 0xAC, CHR 0xD4, CHR 0xAD, CHR 0xD2, CHR 0xF2, CHR 0xA3, CHR 0xBA, CHR 0xCD, CHR 0xE2, CHR 0xB2, CHR 0xBF,
     CHR 0xB5, CHR 0xF7, CHR 0xCA, CHR 0xD4, CHR 0xC7, CHR 0xEB, CHR 0xC7, CHR 0xF3]"
| "print_info_zh_CN PRINT_MMAR =
    [CHR 0xB7, CHR 0xA2, CHR 0xC9, CHR 0xFA, CHR 0xB4, CHR 0xE6, CHR 0xB4, CHR 0xA2, CHR 0xC6, CHR 0xF7, CHR 0xB9, CHR 0xDC,
     CHR 0xC0, CHR 0xED, CHR 0xB4, CHR 0xED, CHR 0xCE, CHR 0xF3, CHR 0xB5, CHR 0xC4, CHR 0xB5, CHR 0xD8, CHR 0xD6, CHR 0xB7,
     CHR 0xA3, CHR 0xBA] @ ''%08x''"
| "print_info_zh_CN PRINT_BFAR =
    [CHR 0xB7, CHR 0xA2, CHR 0xC9, CHR 0xFA, CHR 0xD7, CHR 0xDC, CHR 0xCF, CHR 0xDF, CHR 0xB4, CHR 0xED, CHR 0xCE, CHR 0xF3,
     CHR 0xB5, CHR 0xC4, CHR 0xB5, CHR 0xD8, CHR 0xD6, CHR 0xB7, CHR 0xA3, CHR 0xBA] @ ''%08x''"

primrec print_info_zh_CN_UTF8 :: "print_id \<Rightarrow> string" where
  "print_info_zh_CN_UTF8 PRINT_MAIN_STACK_CFG_ERROR =
    [CHR 0xE9, CHR 0x94, CHR 0x99, CHR 0xE8, CHR 0xAF, CHR 0xAF, CHR 0xEF, CHR 0xBC, CHR 0x9A, CHR 0xE6, CHR 0x97, CHR 0xA0,
     CHR 0xE6, CHR 0xB3, CHR 0x95, CHR 0xE8, CHR 0x8E, CHR 0xB7, CHR 0xE5, CHR 0x8F, CHR 0x96, CHR 0xE4, CHR 0xB8, CHR 0xBB,
     CHR 0xE6, CHR 0xA0, CHR 0x88, CHR 0xE4, CHR 0xBF, CHR 0xA1, CHR 0xE6, CHR 0x81, CHR 0xAF, CHR 0xEF, CHR 0xBC, CHR 0x8C,
     CHR 0xE8, CHR 0xAF, CHR 0xB7, CHR 0xE6, CHR 0xA3, CHR 0x80, CHR 0xE6, CHR 0x9F, CHR 0xA5, CHR 0xE4, CHR 0xB8, CHR 0xBB,
     CHR 0xE6, CHR 0xA0, CHR 0x88, CHR 0xE7, CHR 0x9A, CHR 0x84, CHR 0xE7, CHR 0x9B, CHR 0xB8, CHR 0xE5, CHR 0x85, CHR 0xB3,
     CHR 0xE9, CHR 0x85, CHR 0x8D, CHR 0xE7, CHR 0xBD, CHR 0xAE]"
| "print_info_zh_CN_UTF8 PRINT_FIRMWARE_INFO =
    [CHR 0xE5, CHR 0x9B, CHR 0xBA, CHR 0xE4, CHR 0xBB, CHR 0xB6, CHR 0xE5, CHR 0x90, CHR 0x8D, CHR 0xE7, CHR 0xA7, CHR 0xB0,
     CHR 0xEF, CHR 0xBC, CHR 0x9A] @ ''%s'' @ [CHR 0xEF, CHR 0xBC, CHR 0x8C, CHR 0xE7, CHR 0xA1, CHR 0xAC, CHR 0xE4, CHR 0xBB,
     CHR 0xB6, CHR 0xE7, CHR 0x89, CHR 0x88, CHR 0xE6, CHR 0x9C, CHR 0xAC, CHR 0xE5, CHR 0x8F, CHR 0xB7, CHR 0xEF, CHR 0xBC,
     CHR 0x9A] @ ''%s'' @ [CHR 0xEF, CHR 0xBC, CHR 0x8C, CHR 0xE8, CHR 0xBD, CHR 0xAF, CHR 0xE4, CHR 0xBB, CHR 0xB6, CHR 0xE7,
     CHR 0x89, CHR 0x88, CHR 0xE6, CHR 0x9C, CHR 0xAC, CHR 0xE5, CHR 0x8F, CHR 0xB7, CHR 0xEF, CHR 0xBC, CHR 0x9A] @ ''%s''"
| "print_info_zh_CN_UTF8 PRINT_ASSERT_ON_THREAD =
    [CHR 0xE5, CHR 0x9C, CHR 0xA8, CHR 0xE7, CHR 0xBA, CHR 0xBF, CHR 0xE7, CHR 0xA8, CHR 0x8B] @ ''(%s)'' @ [CHR 0xE4,
     CHR 0xB8, CHR 0xAD, CHR 0xE5, CHR 0x8F, CHR 0x91, CHR 0xE7, CHR 0x94, CHR 0x9F, CHR 0xE6, CHR 0x96, CHR 0xAD, CHR 0xE8,
     CHR 0xA8, CHR 0x80]"
| "print_info_zh_CN_UTF8 PRINT_ASSERT_ON_HANDLER =
    [CHR 0xE5, CHR 0x9C, CHR 0xA8, CHR 0xE4, CHR 0xB8, CHR 0xAD, CHR 0xE6, CHR 0x96, CHR 0xAD, CHR 0xE6, CHR 0x88, CHR 0x96,
     CHR 0xE8, CHR 0xA3, CHR 0xB8, CHR 0xE6, CHR 0x9C, CHR 0xBA, CHR 0xE7, CHR 0x8E, CHR 0xAF, CHR 0xE5, CHR 0xA2, CHR 0x83,
     CHR 0xE4, CHR 0xB8, CHR 0x8B, CHR 0xE5, CHR 0x8F, CHR 0x91, CHR 0xE7, CHR 0x94, CHR 0x9F, CHR 0xE6, CHR 0x96, CHR 0xAD,
     CHR 0xE8, CHR 0xA8, CHR 0x80]"
| "print_info_zh_CN_UTF8 PRINT_THREAD_STACK_INFO =
    ''=========== '' @ [CHR 0xE7, CHR 0xBA, CHR 0xBF, CHR 0xE7, CHR 0xA8, CHR 0x8B, CHR 0xE5, CHR 0xA0, CHR 0x86, CHR 0xE6,
     CHR 0xA0, CHR 0x88, CHR 0xE4, CHR 0xBF, CHR 0xA1, CHR 0xE6, CHR 0x81, CHR 0xAF] @ '' ===========''"
| "print_info_zh_CN_UTF8 PRINT_MAIN_STACK_INFO =
    ''============ '' @ [CHR 0xE4, CHR 0xB8, CHR 0xBB, CHR 0xE5, CHR 0xA0, CHR 0x86, CHR 0xE6, CHR 0xA0, CHR 0x88, CHR 0xE4,
     CHR 0xBF, CHR 0xA1, CHR 0xE6, CHR 0x81, CHR 0xAF] @ '' ============''"
| "print_info_zh_CN_UTF8 PRINT_THREAD_STACK_OVERFLOW =
    [CHR 0xE9, CHR 0x94, CHR 0x99, CHR 0xE8, CHR 0xAF, CHR 0xAF, CHR 0xEF, CHR 0xBC, CHR 0x9A, CHR 0xE7, CHR 0xBA, CHR 0xBF,
     CHR 0xE7, CHR 0xA8, CHR 0x8B, CHR 0xE6, CHR 0xA0, CHR 0x88] @ ''(%08x)'' @ [CHR 0xE5, CHR 0x8F, CHR 0x91, CHR 0xE7,
     CHR 0x94, CHR 0x9F, CHR 0xE6, CHR 0xBA, CHR 0xA2, CHR 0xE5, CHR 0x87, CHR 0xBA]"
| "print_info_zh_CN_UTF8 PRINT_MAIN_STACK_OVERFLOW =
    [CHR 0xE9, CHR 0x94, CHR 0x99, CHR 0xE8, CHR 0xAF, CHR 0xAF, CHR 0xEF, CHR 0xBC, CHR 0x9A, CHR 0xE4, CHR 0xB8, CHR 0xBB,
     CHR 0xE6, CHR 0xA0, CHR 0x88] @ ''(%08x)'' @ [CHR 0xE5, CHR 0x8F, CHR 0x91, CHR 0xE7, CHR 0x94, CHR 0x9F, CHR 0xE6,
     CHR 0xBA, CHR 0xA2, CHR 0xE5, CHR 0x87, CHR 0xBA]"
| "print_info_zh_CN_UTF8 PRINT_CALL_STACK_INFO =
    [CHR 0xE6, CHR 0x9F, CHR 0xA5, CHR 0xE7, CHR 0x9C, CHR 0x8B, CHR 0xE6, CHR 0x9B, CHR 0xB4, CHR 0xE5, CHR 0xA4, CHR 0x9A,
     CHR 0xE5, CHR 0x87, CHR 0xBD, CHR 0xE6, CHR 0x95, CHR 0xB0, CHR 0xE8, CHR 0xB0, CHR 0x83, CHR 0xE7, CHR 0x94, CHR 0xA8,
     CHR 0xE6, CHR 0xA0, CHR 0x88, CHR 0xE4, CHR 0xBF, CHR 0xA1, CHR 0xE6, CHR 0x81, CHR 0xAF, CHR 0xEF, CHR 0xBC, CHR 0x8C,
     CHR 0xE8, CHR 0xAF, CHR 0xB7, CHR 0xE8, CHR 0xBF, CHR 0x90, CHR 0xE8, CHR 0xA1, CHR 0x8C, CHR 0xEF, CHR 0xBC, CHR 0x9A]
     @ ''addr2line -e %s%s -afpiC %.*s''"
| "print_info_zh_CN_UTF8 PRINT_CALL_STACK_ERR =
    [CHR 0xE8, CHR 0x8E, CHR 0xB7, CHR 0xE5, CHR 0x8F, CHR 0x96, CHR 0xE5, CHR 0x87, CHR 0xBD, CHR 0xE6, CHR 0x95, CHR 0xB0,
     CHR 0xE8, CHR 0xB0, CHR 0x83, CHR 0xE7, CHR 0x94, CHR 0xA8, CHR 0xE6, CHR 0xA0, CHR 0x88, CHR 0xE5, CHR 0xA4, CHR 0xB1,
     CHR 0xE8, CHR 0xB4, CHR 0xA5]"
| "print_info_zh_CN_UTF8 PRINT_FAULT_ON_THREAD =
    [CHR 0xE5, CHR 0x9C, CHR 0xA8, CHR 0xE7, CHR 0xBA, CHR 0xBF, CHR 0xE7, CHR 0xA8, CHR 0x8B] @ ''(%s)'' @ [CHR 0xE4,
     CHR 0xB8, CHR 0xAD, CHR 0xE5, CHR 0x8F, CHR 0x91, CHR 0xE7, CHR 0x94, CHR 0x9F, CHR 0xE9, CHR 0x94, CHR 0x99, CHR 0xE8,
     CHR 0xAF, CHR 0xAF, CHR 0xE5, CHR 0xBC, CHR 0x82, CHR 0xE5, CHR 0xB8, CHR 0xB8]"
| "print_info_zh_CN_UTF8 PRINT_FAULT_ON_HANDLER =
    [CHR 0xE5, CHR 0x9C, CHR 0xA8, CHR 0xE4, CHR 0xB8, CHR 0xAD, CHR 0xE6, CHR 0x96, CHR 0xAD, CHR 0xE6, CHR 0x88, CHR 0x96,
     CHR 0xE8, CHR 0xA3, CHR 0xB8, CHR 0xE6, CHR 0x9C, CHR 0xBA, CHR 0xE7, CHR 0x8E, CHR 0xAF, CHR 0xE5, CHR 0xA2, CHR 0x83,
     CHR 0xE4, CHR 0xB8, CHR 0x8B, CHR 0xE5, CHR 0x8F, CHR 0x91, CHR 0xE7, CHR 0x94, CHR 0x9F, CHR 0xE9, CHR 0x94, CHR 0x99,
     CHR 0xE8, CHR 0xAF, CHR 0xAF, CHR 0xE5, CHR 0xBC, CHR 0x82, CHR 0xE5, CHR 0xB8, CHR 0xB8]"
| "print_info_zh_CN_UTF8 PRINT_REGS_TITLE =
    ''========================= '' @ [CHR 0xE5, CHR 0xAF, CHR 0x84, CHR 0xE5, CHR 0xAD, CHR 0x98, CHR 0xE5, CHR 0x99, CHR 0xA8,
     CHR 0xE4, CHR 0xBF, CHR 0xA1, CHR 0xE6, CHR 0x81, CHR 0xAF] @ '' =========================''"
| "print_info_zh_CN_UTF8 PRINT_HFSR_VECTBL =
    [CHR 0xE5, CHR 0x8F, CHR 0x91, CHR 0xE7, CHR 0x94, CHR 0x9F, CHR 0xE7, CHR 0xA1, CHR 0xAC, CHR 0xE9, CHR 0x94, CHR 0x99,
     CHR 0xE8, CHR 0xAF, CHR 0xAF, CHR 0xEF, CHR 0xBC, CHR 0x8C, CHR 0xE5, CHR 0x8E, CHR 0x9F, CHR 0xE5, CHR 0x9B, CHR 0xA0,
     CHR 0xEF, CHR 0xBC, CHR 0x9A, CHR 0xE5, CHR 0x8F, CHR 0x96, CHR 0xE4, CHR 0xB8, CHR 0xAD, CHR 0xE6, CHR 0x96, CHR 0xAD,
     CHR 0xE5, CHR 0x90, CHR 0x91, CHR 0xE9, CHR 0x87, CHR 0x8F, CHR 0xE6, CHR 0x97, CHR 0xB6, CHR 0xE5, CHR 0x87, CHR 0xBA,
     CHR 0xE9, CHR 0x94, CHR 0x99]"
| "print_info_zh_CN_UTF8 PRINT_MFSR_IACCVIOL =
    [CHR 0xE5, CHR 0x8F, CHR 0x91, CHR 0xE7, CHR 0x94, CHR 0x9F, CHR 0xE5, CHR 0xAD, CHR 0x98, CHR 0xE5, CHR 0x82, CHR 0xA8,
     CHR 0xE5, CHR 0x99, CHR 0xA8, CHR 0xE7, CHR 0xAE, CHR 0xA1, CHR 0xE7, CHR 0x90, CHR 0x86, CHR 0xE9, CHR 0x94, CHR 0x99,
     CHR 0xE8, CHR 0xAF, CHR 0xAF, CHR 0xEF, CHR 0xBC, CHR 0x8C, CHR 0xE5, CHR 0x8E, CHR 0x9F, CHR 0xE5, CHR 0x9B, CHR 0xA0,
     CHR 0xEF, CHR 0xBC, CHR 0x9A, CHR 0xE4, CHR 0xBC, CHR 0x81, CHR 0xE5, CHR 0x9B, CHR 0xBE, CHR 0xE4, CHR 0xBB, CHR 0x8E,
     CHR 0xE4, CHR 0xB8, CHR 0x8D, CHR 0xE5, CHR 0x85, CHR 0x81, CHR 0xE8, CHR 0xAE, CHR 0xB8, CHR 0xE8, CHR 0xAE, CHR 0xBF,
     CHR 0xE9, CHR 0x97, CHR 0xAE, CHR 0xE7, CHR 0x9A, CHR 0x84, CHR 0xE5, CHR 0x8C, CHR 0xBA, CHR 0xE5, CHR 0x9F, CHR 0x9F,
     CHR 0xE5, CHR 0x8F, CHR 0x96, CHR 0xE6, CHR 0x8C, CHR 0x87, CHR 0xE4, CHR 0xBB, CHR 0xA4]"
| "print_info_zh_CN_UTF8 PRINT_MFSR_DACCVIOL =
    [CHR 0xE5, CHR 0x8F, CHR 0x91, CHR 0xE7, CHR 0x94, CHR 0x9F, CHR 0xE5, CHR 0xAD, CHR 0x98, CHR 0xE5, CHR 0x82, CHR 0xA8,
     CHR 0xE5, CHR 0x99, CHR 0xA8, CHR 0xE7, CHR 0xAE, CHR 0xA1, CHR 0xE7, CHR 0x90, CHR 0x86, CHR 0xE9, CHR 0x94, CHR 0x99,
     CHR 0xE8, CHR 0xAF, CHR 0xAF, CHR 0xEF, CHR 0xBC, CHR 0x8C, CHR 0xE5, CHR 0x8E, CHR 0x9F, CHR 0xE5, CHR 0x9B, CHR 0xA0,
     CHR 0xEF, CHR 0xBC, CHR 0x9A, CHR 0xE4, CHR 0xBC, CHR 0x81, CHR 0xE5, CHR 0x9B, CHR 0xBE, CHR 0xE4, CHR 0xBB, CHR 0x8E,
     CHR 0xE4, CHR 0xB8, CHR 0x8D, CHR 0xE5, CHR 0x85, CHR 0x81, CHR 0xE8, CHR 0xAE, CHR 0xB8, CHR 0xE8, CHR 0xAE, CHR 0xBF,
     CHR 0xE9, CHR 0x97, CHR 0xAE, CHR 0xE7, CHR 0x9A, CHR 0x84, CHR 0xE5, CHR 0x8C, CHR 0xBA, CHR 0xE5, CHR 0x9F, CHR 0x9F,
     CHR 0xE8, CHR 0xAF, CHR 0xBB, CHR 0xE3, CHR 0x80, CHR 0x81, CHR 0xE5, CHR 0x86, CHR 0x99, CHR 0xE6, CHR 0x95, CHR 0xB0,
     CHR 0xE6, CHR 0x8D, CHR 0xAE]"
| "print_info_zh_CN_UTF8 PRINT_MFSR_MUNSTKERR =
    [CHR 0xE5, CHR 0x8F, CHR 0x91, CHR 0xE7, CHR 0x94, CHR 0x9F, CHR 0xE5, CHR 0xAD, CHR 0x98, CHR 0xE5, CHR 0x82, CHR 0xA8,
     CHR 0xE5, CHR 0x99, CHR 0xA8, CHR 0xE7, CHR 0xAE, CHR 0xA1, CHR 0xE7, CHR 0x90, CHR 0x86, CHR 0xE9, CHR 0x94, CHR 0x99,
     CHR 0xE8, CHR 0xAF, CHR 0xAF, CHR 0xEF, CHR 0xBC, CHR 0x8C, CHR 0xE5, CHR 0x8E, CHR 0x9F, CHR 0xE5, CHR 0x9B, CHR 0xA0,
     CHR 0xEF, CHR 0xBC, CHR 0x9A, CHR 0xE5, CHR 0x87, CHR 0xBA, CHR 0xE6, CHR 0xA0, CHR 0x88, CHR 0xE6, CHR 0x97, CHR 0xB6,
     CHR 0xE4, CHR 0xBC, CHR 0x81, CHR 0xE5, CHR 0x9B, CHR 0xBE, CHR 0xE8, CHR 0xAE, CHR 0xBF, CHR 0xE9, CHR 0x97, CHR 0xAE,
     CHR 0xE4, CHR 0xB8, CHR 0x8D, CHR 0xE8, CHR 0xA2, CHR 0xAB, CHR 0xE5, CHR 0x85, CHR 0x81, CHR 0xE8, CHR 0xAE, CHR 0xB8,
     CHR 0xE7, CHR 0x9A, CHR 0x84, CHR 0xE5, CHR 0x8C, CHR 0xBA, CHR 0xE5, CHR 0x9F, CHR 0x9F]"
| "print_info_zh_CN_UTF8 PRINT_MFSR_MSTKERR =
    [CHR 0xE5, CHR 0x8F, CHR 0x91, CHR 0xE7, CHR 0x94, CHR 0x9F, CHR 0xE5, CHR 0xAD, CHR 0x98, CHR 0xE5, CHR 0x82, CHR 0xA8,
     CHR 0xE5, CHR 0x99, CHR 0xA8, CHR 0xE7, CHR 0xAE, CHR 0xA1, CHR 0xE7, CHR 0x90, CHR 0x86, CHR 0xE9, CHR 0x94, CHR 0x99,
     CHR 0xE8, CHR 0xAF, CHR 0xAF, CHR 0xEF, CHR 0xBC, CHR 0x8C, CHR 0xE5, CHR 0x8E, CHR 0x9F, CHR 0xE5, CHR 0x9B, CHR 0xA0,
     CHR 0xEF, CHR 0xBC, CHR 0x9A, CHR 0xE5, CHR 0x85, CHR 0xA5, CHR 0xE6, CHR 0xA0, CHR 0x88, CHR 0xE6, CHR 0x97, CHR 0xB6,
     CHR 0xE4, CHR 0xBC, CHR 0x81, CHR 0xE5, CHR 0x9B, CHR 0xBE, CHR 0xE8, CHR 0xAE, CHR 0xBF, CHR 0xE9, CHR 0x97, CHR 0xAE,
     CHR 0xE4, CHR 0xB8, CHR 0x8D, CHR 0xE8, CHR 0xA2, CHR 0xAB, CHR 0xE5, CHR 0x85, CHR 0x81, CHR 0xE8, CHR 0xAE, CHR 0xB8,
     CHR 0xE7, CHR 0x9A, CHR 0x84, CHR 0xE5, CHR 0x8C, CHR 0xBA, CHR 0xE5, CHR 0x9F, CHR 0x9F]"
| "print_info_zh_CN_UTF8 PRINT_MFSR_MLSPERR =
    [CHR 0xE5, CHR 0x8F, CHR 0x91, CHR 0xE7, CHR 0x94, CHR 0x9F, CHR 0xE5, CHR 0xAD, CHR 0x98, CHR 0xE5, CHR 0x82, CHR 0xA8,
     CHR 0xE5, CHR 0x99, CHR 0xA8, CHR 0xE7, CHR 0xAE, CHR 0xA1, CHR 0xE7, CHR 0x90, CHR 0x86, CHR 0xE9, CHR 0x94, CHR 0x99,
     CHR 0xE8, CHR 0xAF, CHR 0xAF, CHR 0xEF, CHR 0xBC, CHR 0x8C, CHR 0xE5, CHR 0x8E, CHR 0x9F, CHR 0xE5, CHR 0x9B, CHR 0xA0,
     CHR 0xEF, CHR 0xBC, CHR 0x9A, CHR 0xE6, CHR 0x83, CHR 0xB0, CHR 0xE6, CHR 0x80, CHR 0xA7, CHR 0xE4, CHR 0xBF, CHR 0x9D,
     CHR 0xE5, CHR 0xAD, CHR 0x98, CHR 0xE6, CHR 0xB5, CHR 0xAE, CHR 0xE7, CHR 0x82, CHR 0xB9, CHR 0xE7, CHR 0x8A, CHR 0xB6,
     CHR 0xE6, CHR 0x80, CHR 0x81, CHR 0xE6, CHR 0x97, CHR 0xB6, CHR 0xE5, CHR 0x8F, CHR 0x91, CHR 0xE7, CHR 0x94, CHR 0x9F,
     CHR 0xE9, CHR 0x94, CHR 0x99, CHR 0xE8, CHR 0xAF, CHR 0xAF]"
| "print_info_zh_CN_UTF8 PRINT_BFSR_IBUSERR =
    [CHR 0xE5, CHR 0x8F, CHR 0x91, CHR 0xE7, CHR 0x94, CHR 0x9F, CHR 0xE6, CHR 0x80, CHR 0xBB, CHR 0xE7, CHR 0xBA, CHR 0xBF,
     CHR 0xE9, CHR 0x94, CHR 0x99, CHR 0xE8, CHR 0xAF, CHR 0xAF, CHR 0xEF, CHR 0xBC, CHR 0x8C, CHR 0xE5, CHR 0x8E, CHR 0x9F,
     CHR 0xE5, CHR 0x9B, CHR 0xA0, CHR 0xEF, CHR 0xBC, CHR 0x9A, CHR 0xE6, CHR 0x8C, CHR 0x87, CHR 0xE4, CHR 0xBB, CHR 0xA4,
     CHR 0xE6, CHR 0x80, CHR 0xBB, CHR 0xE7, CHR 0xBA, CHR 0xBF, CHR 0xE9, CHR 0x94, CHR 0x99, CHR 0xE8, CHR 0xAF, CHR 0xAF]"
| "print_info_zh_CN_UTF8 PRINT_BFSR_PRECISERR =
    [CHR 0xE5, CHR 0x8F, CHR 0x91, CHR 0xE7, CHR 0x94, CHR 0x9F, CHR 0xE6, CHR 0x80, CHR 0xBB, CHR 0xE7, CHR 0xBA, CHR 0xBF,
     CHR 0xE9, CHR 0x94, CHR 0x99, CHR 0xE8, CHR 0xAF, CHR 0xAF, CHR 0xEF, CHR 0xBC, CHR 0x8C, CHR 0xE5, CHR 0x8E, CHR 0x9F,
     CHR 0xE5, CHR 0x9B, CHR 0xA0, CHR 0xEF, CHR 0xBC, CHR 0x9A, CHR 0xE7, CHR 0xB2, CHR 0xBE, CHR 0xE7, CHR 0xA1, CHR 0xAE,
     CHR 0xE7, CHR 0x9A, CHR 0x84, CHR 0xE6, CHR 0x95, CHR 0xB0, CHR 0xE6, CHR 0x8D, CHR 0xAE, CHR 0xE6, CHR 0x80, CHR 0xBB,
     CHR 0xE7, CHR 0xBA, CHR 0xBF, CHR 0xE9, CHR 0x94, CHR 0x99, CHR 0xE8, CHR 0xAF, CHR 0xAF]"
| "print_info_zh_CN_UTF8 PRINT_BFSR_IMPREISERR =
    [CHR 0xE5, CHR 0x8F, CHR 0x91, CHR 0xE7, CHR 0x94, CHR 0x9F, CHR 0xE6, CHR 0x80, CHR 0xBB, CHR 0xE7, CHR 0xBA, CHR 0xBF,
     CHR 0xE9, CHR 0x94, CHR 0x99, CHR 0xE8, CHR 0xAF, CHR 0xAF, CHR 0xEF, CHR 0xBC, CHR 0x8C, CHR 0xE5, CHR 0x8E, CHR 0x9F,
     CHR 0xE5, CHR 0x9B, CHR 0xA0, CHR 0xEF, CHR 0xBC, CHR 0x9A, CHR 0xE4, CHR 0xB8, CHR 0x8D, CHR 0xE7, CHR 0xB2, CHR 0xBE,
     CHR 0xE7, CHR 0xA1, CHR 0xAE, CHR 0xE7, CHR 0x9A, CHR 0x84, CHR 0xE6, CHR 0x95, CHR 0xB0, CHR 0xE6, CHR 0x8D, CHR 0xAE,
     CHR 0xE6, CHR 0x80, CHR 0xBB, CHR 0xE7, CHR 0xBA, CHR 0xBF, CHR 0xE9, CHR 0x94, CHR 0x99, CHR 0xE8, CHR 0xAF, CHR 0xAF]"
| "print_info_zh_CN_UTF8 PRINT_BFSR_UNSTKERR =
    [CHR 0xE5, CHR 0x8F, CHR 0x91, CHR 0xE7, CHR 0x94, CHR 0x9F, CHR 0xE6, CHR 0x80, CHR 0xBB, CHR 0xE7, CHR 0xBA, CHR 0xBF,
     CHR 0xE9, CHR 0x94, CHR 0x99, CHR 0xE8, CHR 0xAF, CHR 0xAF, CHR 0xEF, CHR 0xBC, CHR 0x8C, CHR 0xE5, CHR 0x8E, CHR 0x9F,
     CHR 0xE5, CHR 0x9B, CHR 0xA0, CHR 0xEF, CHR 0xBC, CHR 0x9A, CHR 0xE5, CHR 0x87, CHR 0xBA, CHR 0xE6, CHR 0xA0, CHR 0x88,
     CHR 0xE6, CHR 0x97, CHR 0xB6, CHR 0xE5, CHR 0x8F, CHR 0x91, CHR 0xE7, CHR 0x94, CHR 0x9F, CHR 0xE9, CHR 0x94, CHR 0x99,
     CHR 0xE8, CHR 0xAF, CHR 0xAF]"
| "print_info_zh_CN_UTF8 PRINT_BFSR_STKERR =
    [CHR 0xE5, CHR 0x8F, CHR 0x91, CHR 0xE7, CHR 0x94, CHR 0x9F, CHR 0xE6, CHR 0x80, CHR 0xBB, CHR 0xE7, CHR 0xBA, CHR 0xBF,
     CHR 0xE9, CHR 0x94, CHR 0x99, CHR 0xE8, CHR 0xAF, CHR 0xAF, CHR 0xEF, CHR 0xBC, CHR 0x8C, CHR 0xE5, CHR 0x8E, CHR 0x9F,
     CHR 0xE5, CHR 0x9B, CHR 0xA0, CHR 0xEF, CHR 0xBC, CHR 0x9A, CHR 0xE5, CHR 0x85, CHR 0xA5, CHR 0xE6, CHR 0xA0, CHR 0x88,
     CHR 0xE6, CHR 0x97, CHR 0xB6, CHR 0xE5, CHR 0x8F, CHR 0x91, CHR 0xE7, CHR 0x94, CHR 0x9F, CHR 0xE9, CHR 0x94, CHR 0x99,
     CHR 0xE8, CHR 0xAF, CHR 0xAF]"
| "print_info_zh_CN_UTF8 PRINT_BFSR_LSPERR =
    [CHR 0xE5, CHR 0x8F, CHR 0x91, CHR 0xE7, CHR 0x94, CHR 0x9F, CHR 0xE6, CHR 0x80, CHR 0xBB, CHR 0xE7, CHR 0xBA, CHR 0xBF,
     CHR 0xE9, CHR 0x94, CHR 0x99, CHR 0xE8, CHR 0xAF, CHR 0xAF, CHR 0xEF, CHR 0xBC, CHR 0x8C, CHR 0xE5, CHR 0x8E, CHR 0x9F,
     CHR 0xE5, CHR 0x9B, CHR 0xA0, CHR 0xEF, CHR 0xBC, CHR 0x9A, CHR 0xE6, CHR 0x83, CHR 0xB0, CHR 0xE6, CHR 0x80, CHR 0xA7,
     CHR 0xE4, CHR 0xBF, CHR 0x9D, CHR 0xE5, CHR 0xAD, CHR 0x98, CHR 0xE6, CHR 0xB5, CHR 0xAE, CHR 0xE7, CHR 0x82, CHR 0xB9,
     CHR 0xE7, CHR 0x8A, CHR 0xB6, CHR 0xE6, CHR 0x80, CHR 0x81, CHR 0xE6, CHR 0x97, CHR 0xB6, CHR 0xE5, CHR 0x8F, CHR 0x91,
     CHR 0xE7, CHR 0x94, CHR 0x9F, CHR 0xE9, CHR 0x94, CHR 0x99, CHR 0xE8, CHR 0xAF, CHR 0xAF]"
| "print_info_zh_CN_UTF8 PRINT_UFSR_UNDEFINSTR =
    [CHR 0xE5, CHR 0x8F, CHR 0x91, CHR 0xE7, CHR 0x94, CHR 0x9F, CHR 0xE7, CHR 0x94, CHR 0xA8, CHR 0xE6, CHR 0xB3, CHR 0x95,
     CHR 0xE9, CHR 0x94, CHR 0x99, CHR 0xE8, CHR 0xAF, CHR 0xAF, CHR 0xEF, CHR 0xBC, CHR 0x8C, CHR 0xE5, CHR 0x8E, CHR 0x9F,
     CHR 0xE5, CHR 0x9B, CHR 0xA0, CHR 0xEF, CHR 0xBC, CHR 0x9A, CHR 0xE4, CHR 0xBC, CHR 0x81, CHR 0xE5, CHR 0x9B, CHR 0xBE,
     CHR 0xE6, CHR 0x89, CHR 0xA7, CHR 0xE8, CHR 0xA1, CHR 0x8C, CHR 0xE6, CHR 0x9C, CHR 0xAA, CHR 0xE5, CHR 0xAE, CHR 0x9A,
     CHR 0xE4, CHR 0xB9, CHR 0x89, CHR 0xE6, CHR 0x8C, CHR 0x87, CHR 0xE4, CHR 0xBB, CHR 0xA4]"
| "print_info_zh_CN_UTF8 PRINT_UFSR_INVSTATE =
    [CHR 0xE5, CHR 0x8F, CHR 0x91, CHR 0xE7, CHR 0x94, CHR 0x9F, CHR 0xE7, CHR 0x94, CHR 0xA8, CHR 0xE6, CHR 0xB3, CHR 0x95,
     CHR 0xE9, CHR 0x94, CHR 0x99, CHR 0xE8, CHR 0xAF, CHR 0xAF, CHR 0xEF, CHR 0xBC, CHR 0x8C, CHR 0xE5, CHR 0x8E, CHR 0x9F,
     CHR 0xE5, CHR 0x9B, CHR 0xA0, CHR 0xEF, CHR 0xBC, CHR 0x9A, CHR 0xE8, CHR 0xAF, CHR 0x95, CHR 0xE5, CHR 0x9B, CHR 0xBE,
     CHR 0xE5, CHR 0x88, CHR 0x87, CHR 0xE6, CHR 0x8D, CHR 0xA2, CHR 0xE5, CHR 0x88, CHR 0xB0] @ '' ARM '' @ [CHR 0xE7,
     CHR 0x8A, CHR 0xB6, CHR 0xE6, CHR 0x80, CHR 0x81]"
| "print_info_zh_CN_UTF8 PRINT_UFSR_INVPC =
    [CHR 0xE5, CHR 0x8F, CHR 0x91, CHR 0xE7, CHR 0x94, CHR 0x9F, CHR 0xE7, CHR 0x94, CHR 0xA8, CHR 0xE6, CHR 0xB3, CHR 0x95,
     CHR 0xE9, CHR 0x94, CHR 0x99, CHR 0xE8, CHR 0xAF, CHR 0xAF, CHR 0xEF, CHR 0xBC, CHR 0x8C, CHR 0xE5, CHR 0x8E, CHR 0x9F,
     CHR 0xE5, CHR 0x9B, CHR 0xA0, CHR 0xEF, CHR 0xBC, CHR 0x9A, CHR 0xE6, CHR 0x97, CHR 0xA0, CHR 0xE6, CHR 0x95, CHR 0x88,
     CHR 0xE7, CHR 0x9A, CHR 0x84, CHR 0xE5, CHR 0xBC, CHR 0x82, CHR 0xE5, CHR 0xB8, CHR 0xB8, CHR 0xE8, CHR 0xBF, CHR 0x94,
     CHR 0xE5, CHR 0x9B, CHR 0x9E, CHR 0xE7, CHR 0xA0, CHR 0x81]"
| "print_info_zh_CN_UTF8 PRINT_UFSR_NOCP =
    [CHR 0xE5, CHR 0x8F, CHR 0x91, CHR 0xE7, CHR 0x94, CHR 0x9F, CHR 0xE7, CHR 0x94, CHR 0xA8, CHR 0xE6, CHR 0xB3, CHR 0x95,
     CHR 0xE9, CHR 0x94, CHR 0x99, CHR 0xE8, CHR 0xAF, CHR 0xAF, CHR 0xEF, CHR 0xBC, CHR 0x8C, CHR 0xE5, CHR 0x8E, CHR 0x9F,
     CHR 0xE5, CHR 0x9B, CHR 0xA0, CHR 0xEF, CHR 0xBC, CHR 0x9A, CHR 0xE4, CHR 0xBC, CHR 0x81, CHR 0xE5, CHR 0x9B, CHR 0xBE,
     CHR 0xE6, CHR 0x89, CHR 0xA7, CHR 0xE8, CHR 0xA1, CHR 0x8C, CHR 0xE5, CHR 0x8D, CHR 0x8F, CHR 0xE5, CHR 0xA4, CHR 0x84,
     CHR 0xE7, CHR 0x90, CHR 0x86, CHR 0xE5, CHR 0x99, CHR 0xA8, CHR 0xE6, CHR 0x8C, CHR 0x87, CHR 0xE4, CHR 0xBB, CHR 0xA4]"
| "print_info_zh_CN_UTF8 PRINT_UFSR_STKOF =
    [CHR 0xE5, CHR 0x8F, CHR 0x91, CHR 0xE7, CHR 0x94, CHR 0x9F, CHR 0xE7, CHR 0x94, CHR 0xA8, CHR 0xE6, CHR 0xB3, CHR 0x95,
     CHR 0xE9, CHR 0x94, CHR 0x99, CHR 0xE8, CHR 0xAF, CHR 0xAF, CHR 0xEF, CHR 0xBC, CHR 0x8C, CHR 0xE5, CHR 0x8E, CHR 0x9F,
     CHR 0xE5, CHR 0x9B, CHR 0xA0, CHR 0xEF, CHR 0xBC, CHR 0x9A, CHR 0xE7, CHR 0xA1, CHR 0xAC, CHR 0xE4, CHR 0xBB, CHR 0xB6,
     CHR 0xE6, CHR 0xA3, CHR 0x80, CHR 0xE6, CHR 0xB5, CHR 0x8B, CHR 0xE5, CHR 0x88, CHR 0xB0, CHR 0xE6, CHR 0xA0, CHR 0x88,
     CHR 0xE6, CHR 0xBA, CHR 0xA2, CHR 0xE5, CHR 0x87, CHR 0xBA]"
| "print_info_zh_CN_UTF8 PRINT_UFSR_UNALIGNED =
    [CHR 0xE5, CHR 0x8F, CHR 0x91, CHR 0xE7, CHR 0x94, CHR 0x9F, CHR 0xE7, CHR 0x94, CHR 0xA8, CHR 0xE6, CHR 0xB3, CHR 0x95,
     CHR 0xE9, CHR 0x94, CHR 0x99, CHR 0xE8, CHR 0xAF, CHR 0xAF, CHR 0xEF, CHR 0xBC, CHR 0x8C, CHR 0xE5, CHR 0x8E, CHR 0x9F,
     CHR 0xE5, CHR 0x9B, CHR 0xA0, CHR 0xEF, CHR 0xBC, CHR 0x9A, CHR 0xE4, CHR 0xBC, CHR 0x81, CHR 0xE5, CHR 0x9B, CHR 0xBE,
     CHR 0xE6, CHR 0x89, CHR 0xA7, CHR 0xE8, CHR 0xA1, CHR 0x8C, CHR 0xE9, CHR 0x9D, CHR 0x9E, CHR 0xE5, CHR 0xAF, CHR 0xB9,
     CHR 0xE9, CHR 0xBD, CHR 0x90, CHR 0xE8, CHR 0xAE, CHR 0xBF, CHR 0xE9, CHR 0x97, CHR 0xAE]"
| "print_info_zh_CN_UTF8 PRINT_UFSR_DIVBYZERO0 =
    [CHR 0xE5, CHR 0x8F, CHR 0x91, CHR 0xE7, CHR 0x94, CHR 0x9F, CHR 0xE7, CHR 0x94, CHR 0xA8, CHR 0xE6, CHR 0xB3, CHR 0x95,
     CHR 0xE9, CHR 0x94, CHR 0x99, CHR 0xE8, CHR 0xAF, CHR 0xAF, CHR 0xEF, CHR 0xBC, CHR 0x8C, CHR 0xE5, CHR 0x8E, CHR 0x9F,
     CHR 0xE5, CHR 0x9B, CHR 0xA0, CHR 0xEF, CHR 0xBC, CHR 0x9A, CHR 0xE4, CHR 0xBC, CHR 0x81, CHR 0xE5, CHR 0x9B, CHR 0xBE,
     CHR 0xE6, CHR 0x89, CHR 0xA7, CHR 0xE8, CHR 0xA1, CHR 0x8C, CHR 0xE9, CHR 0x99, CHR 0xA4] @ '' 0 '' @ [CHR 0xE6, CHR 0x93,
     CHR 0x8D, CHR 0xE4, CHR 0xBD, CHR 0x9C]"
| "print_info_zh_CN_UTF8 PRINT_DFSR_HALTED =
    [CHR 0xE5, CHR 0x8F, CHR 0x91, CHR 0xE7, CHR 0x94, CHR 0x9F, CHR 0xE8, CHR 0xB0, CHR 0x83, CHR 0xE8, CHR 0xAF, CHR 0x95,
     CHR 0xE9, CHR 0x94, CHR 0x99, CHR 0xE8, CHR 0xAF, CHR 0xAF, CHR 0xEF, CHR 0xBC, CHR 0x8C, CHR 0xE5, CHR 0x8E, CHR 0x9F,
     CHR 0xE5, CHR 0x9B, CHR 0xA0, CHR 0xEF, CHR 0xBC, CHR 0x9A] @ ''NVIC '' @ [CHR 0xE5, CHR 0x81, CHR 0x9C, CHR 0xE6,
     CHR 0x9C, CHR 0xBA, CHR 0xE8, CHR 0xAF, CHR 0xB7, CHR 0xE6, CHR 0xB1, CHR 0x82]"
| "print_info_zh_CN_UTF8 PRINT_DFSR_BKPT =
    [CHR 0xE5, CHR 0x8F, CHR 0x91, CHR 0xE7, CHR 0x94, CHR 0x9F, CHR 0xE8, CHR 0xB0, CHR 0x83, CHR 0xE8, CHR 0xAF, CHR 0x95,
     CHR 0xE9, CHR 0x94, CHR 0x99, CHR 0xE8, CHR 0xAF, CHR 0xAF, CHR 0xEF, CHR 0xBC, CHR 0x8C, CHR 0xE5, CHR 0x8E, CHR 0x9F,
     CHR 0xE5, CHR 0x9B, CHR 0xA0, CHR 0xEF, CHR 0xBC, CHR 0x9A, CHR 0xE6, CHR 0x89, CHR 0xA7, CHR 0xE8, CHR 0xA1, CHR 0x8C]
     @ '' BKPT '' @ [CHR 0xE6, CHR 0x8C, CHR 0x87, CHR 0xE4, CHR 0xBB, CHR 0xA4]"
| "print_info_zh_CN_UTF8 PRINT_DFSR_DWTTRAP =
    [CHR 0xE5, CHR 0x8F, CHR 0x91, CHR 0xE7, CHR 0x94, CHR 0x9F, CHR 0xE8, CHR 0xB0, CHR 0x83, CHR 0xE8, CHR 0xAF, CHR 0x95,
     CHR 0xE9, CHR 0x94, CHR 0x99, CHR 0xE8, CHR 0xAF, CHR 0xAF, CHR 0xEF, CHR 0xBC, CHR 0x8C, CHR 0xE5, CHR 0x8E, CHR 0x9F,
     CHR 0xE5, CHR 0x9B, CHR 0xA0, CHR 0xEF, CHR 0xBC, CHR 0x9A, CHR 0xE6, CHR 0x95, CHR 0xB0, CHR 0xE6, CHR 0x8D, CHR 0xAE,
     CHR 0xE7, CHR 0x9B, CHR 0x91, CHR 0xE6, CHR 0xB5, CHR 0x8B, CHR 0xE7, CHR 0x82, CHR 0xB9, CHR 0xE5, CHR 0x8C, CHR 0xB9,
     CHR 0xE9, CHR 0x85, CHR 0x8D]"
| "print_info_zh_CN_UTF8 PRINT_DFSR_VCATCH =
    [CHR 0xE5, CHR 0x8F, CHR 0x91, CHR 0xE7, CHR 0x94, CHR 0x9F, CHR 0xE8, CHR 0xB0, CHR 0x83, CHR 0xE8, CHR 0xAF, CHR 0x95,
     CHR 0xE9, CHR 0x94, CHR 0x99, CHR 0xE8, CHR 0xAF, CHR 0xAF, CHR 0xEF, CHR 0xBC, CHR 0x8C, CHR 0xE5, CHR 0x8E, CHR 0x9F,
     CHR 0xE5, CHR 0x9B, CHR 0xA0, CHR 0xEF, CHR 0xBC, CHR 0x9A, CHR 0xE5, CHR 0x8F, CHR 0x91, CHR 0xE7, CHR 0x94, CHR 0x9F,
     CHR 0xE5, CHR 0x90, CHR 0x91, CHR 0xE9, CHR 0x87, CHR 0x8F, CHR 0xE6, CHR 0x8D, CHR 0x95, CHR 0xE8, CHR 0x8E, CHR 0xB7]"
| "print_info_zh_CN_UTF8 PRINT_DFSR_EXTERNAL =
    [CHR 0xE5, CHR 0x8F, CHR 0x91, CHR 0xE7, CHR 0x94, CHR 0x9F, CHR 0xE8, CHR 0xB0, CHR 0x83, CHR 0xE8, CHR 0xAF, CHR 0x95,
     CHR 0xE9, CHR 0x94, CHR 0x99, CHR 0xE8, CHR 0xAF, CHR 0xAF, CHR 0xEF, CHR 0xBC, CHR 0x8C, CHR 0xE5, CHR 0x8E, CHR 0x9F,
     CHR 0xE5, CHR 0x9B, CHR 0xA0, CHR 0xEF, CHR 0xBC, CHR 0x9A, CHR 0xE5, CHR 0xA4, CHR 0x96, CHR 0xE9, CHR 0x83, CHR 0xA8,
     CHR 0xE8, CHR 0xB0, CHR 0x83, CHR 0xE8, CHR 0xAF, CHR 0x95, CHR 0xE8, CHR 0xAF, CHR 0xB7, CHR 0xE6, CHR 0xB1, CHR 0x82]"
| "print_info_zh_CN_UTF8 PRINT_MMAR =
    [CHR 0xE5, CHR 0x8F, CHR 0x91, CHR 0xE7, CHR 0x94, CHR 0x9F, CHR 0xE5, CHR 0xAD, CHR 0x98, CHR 0xE5, CHR 0x82, CHR 0xA8,
     CHR 0xE5, CHR 0x99, CHR 0xA8, CHR 0xE7, CHR 0xAE, CHR 0xA1, CHR 0xE7, CHR 0x90, CHR 0x86, CHR 0xE9, CHR 0x94, CHR 0x99,
     CHR 0xE8, CHR 0xAF, CHR 0xAF, CHR 0xE7, CHR 0x9A, CHR 0x84, CHR 0xE5, CHR 0x9C, CHR 0xB0, CHR 0xE5, CHR 0x9D, CHR 0x80,
     CHR 0xEF, CHR 0xBC, CHR 0x9A] @ ''%08x''"
| "print_info_zh_CN_UTF8 PRINT_BFAR =
    [CHR 0xE5, CHR 0x8F, CHR 0x91, CHR 0xE7, CHR 0x94, CHR 0x9F, CHR 0xE6, CHR 0x80, CHR 0xBB, CHR 0xE7, CHR 0xBA, CHR 0xBF,
     CHR 0xE9, CHR 0x94, CHR 0x99, CHR 0xE8, CHR 0xAF, CHR 0xAF, CHR 0xE7, CHR 0x9A, CHR 0x84, CHR 0xE5, CHR 0x9C, CHR 0xB0,
     CHR 0xE5, CHR 0x9D, CHR 0x80, CHR 0xEF, CHR 0xBC, CHR 0x9A] @ ''%08x''"

text \<open>The table that is compiled in; \<open>cmb_language_custom.h\<close> is the user's.\<close>

fun print_info_in :: "(print_id \<Rightarrow> string) \<Rightarrow> print_language \<Rightarrow> print_id \<Rightarrow> string" where
  "print_info_in custom CMB_PRINT_LANGUAGE_ENGLISH = print_info"
| "print_info_in custom CMB_PRINT_LANGUAGE_CHINESE = print_info_zh_CN"
| "print_info_in custom CMB_PRINT_LANGUAGE_CHINESE_UTF8 = print_info_zh_CN_UTF8"
| "print_info_in custom CMB_PRINT_LANGUAGE_CUSTOM = custom"

section \<open>Formats\<close>

text \<open>A format as the sequence of its bytes and conversions.\<close>

datatype conversion = Conv_s | Conv_prec_s | Conv_d | Conv_08x

datatype piece = Plain u8 | Conv conversion | Unknown

fun format_pieces :: "string \<Rightarrow> piece list" where
  "format_pieces [] = []"
| "format_pieces (c # cs) =
     (if c \<noteq> CHR 0x25 then Plain (of_char c) # format_pieces cs
      else if take 1 cs = ''s'' then Conv Conv_s # format_pieces (drop 1 cs)
      else if take 3 cs = ''.*s'' then Conv Conv_prec_s # format_pieces (drop 3 cs)
      else if take 1 cs = ''d'' then Conv Conv_d # format_pieces (drop 1 cs)
      else if take 3 cs = ''08x'' then Conv Conv_08x # format_pieces (drop 3 cs)
      else [Unknown])"

fun conversions :: "piece list \<Rightarrow> conversion list" where
  "conversions [] = []"
| "conversions (Conv c # ps) = c # conversions ps"
| "conversions (_ # ps) = conversions ps"

text \<open>Arguments that fit conversions, and their texts.\<close>

fun arg_texts :: "conversion list \<Rightarrow> fmt_arg list \<Rightarrow> bytes list option" where
  "arg_texts [] [] = Some []"
| "arg_texts (Conv_s # cs) (Str s # args) = map_option ((#) s) (arg_texts cs args)"
| "arg_texts (Conv_prec_s # cs) (Num n # Str s # args) = map_option ((#) (take (nat n) s)) (arg_texts cs args)"
| "arg_texts (Conv_d # cs) (Num n # args) = map_option ((#) (decimal n)) (arg_texts cs args)"
| "arg_texts (Conv_08x # cs) (Word w # args) = map_option ((#) (hex8 w)) (arg_texts cs args)"
| "arg_texts _ _ = None"

fun fill :: "piece list \<Rightarrow> bytes list \<Rightarrow> bytes" where
  "fill (Plain b # ps) ts = b # fill ps ts"
| "fill (Conv c # ps) (t # ts) = t @ fill ps ts"
| "fill _ ts = []"

fun_cases arg_texts_cases: "arg_texts (Conv_s # cs) args = Some ts" "arg_texts (Conv_prec_s # cs) args = Some ts"
  "arg_texts (Conv_d # cs) args = Some ts" "arg_texts (Conv_08x # cs) args = Some ts"

lemma c_format_fill:
  "Unknown \<notin> set (format_pieces s) \<Longrightarrow> arg_texts (conversions (format_pieces s)) args = Some ts \<Longrightarrow>
   c_format s args = fill (format_pieces s) ts"
proof (induction s arbitrary: args ts rule: format_pieces.induct)
  case (2 c cs)
  then show ?case by (auto simp: map_option_eq_Some split: if_splits elim!: arg_texts_cases dest!: sym [of "Some _" "map_option _ _"])
qed simp

section \<open>Encodings\<close>

text \<open>A text as the sequence of its ASCII characters and of places with a Chinese one; no text where it is ill-formed.\<close>

datatype glyph = Ascii char | Wide

definition code_of :: "char \<Rightarrow> nat" where
  "code_of c = of_char c"

fun gbk_glyphs :: "string \<Rightarrow> glyph list option" where
  "gbk_glyphs [] = Some []"
| "gbk_glyphs (c # cs) =
     (if code_of c < 0x80 then map_option ((#) (Ascii c)) (gbk_glyphs cs)
      else (case cs of
          [] \<Rightarrow> None
        | d # ds \<Rightarrow>
            if 0x81 \<le> code_of c \<and> code_of c \<le> 0xFE \<and> 0x40 \<le> code_of d \<and> code_of d \<le> 0xFE \<and> code_of d \<noteq> 0x7F
            then map_option ((#) Wide) (gbk_glyphs ds) else None))"

definition second_byte_ok :: "nat \<Rightarrow> nat \<Rightarrow> bool" where
  "second_byte_ok a b \<longleftrightarrow> (if a = 0xE0 then 0xA0 else 0x80) \<le> b \<and> b \<le> (if a = 0xED then 0x9F else 0xBF)"

fun utf8_glyphs :: "string \<Rightarrow> glyph list option" where
  "utf8_glyphs [] = Some []"
| "utf8_glyphs (c # cs) =
     (if code_of c < 0x80 then map_option ((#) (Ascii c)) (utf8_glyphs cs)
      else (case cs of
          d # e # ds \<Rightarrow>
            if 0xE0 \<le> code_of c \<and> code_of c \<le> 0xEF \<and> second_byte_ok (code_of c) (code_of d) \<and> 0x80 \<le> code_of e \<and> code_of e \<le> 0xBF
            then map_option ((#) Wide) (utf8_glyphs ds) else None
        | _ \<Rightarrow> None))"

section \<open>The translations\<close>

definition same_layout :: "print_id \<Rightarrow> bool" where
  "same_layout i \<longleftrightarrow> (\<exists>gs. gbk_glyphs (print_info_zh_CN i) = Some gs \<and> utf8_glyphs (print_info_zh_CN_UTF8 i) = Some gs)"

definition same_conversions :: "(print_id \<Rightarrow> string) \<Rightarrow> print_id \<Rightarrow> bool" where
  "same_conversions table i \<longleftrightarrow> Unknown \<notin> set (format_pieces (table i)) \<and>
     conversions (format_pieces (table i)) = conversions (format_pieces (print_info i))"

lemma all_same_layout: "same_layout i"
  by (cases i) (simp_all add: same_layout_def code_of_def second_byte_ok_def)

lemma same_conversions_UTF8: "same_conversions print_info_zh_CN_UTF8 i"
  by (cases i) (simp_all add: same_conversions_def)

lemma same_conversions_GBK: "same_conversions print_info_zh_CN i"
  by (cases i) (simp_all add: same_conversions_def)

lemma same_conversions_English: "same_conversions print_info i"
  by (cases i) (simp_all add: same_conversions_def)

lemma all_same_conversions: "lang \<noteq> CMB_PRINT_LANGUAGE_CUSTOM \<Longrightarrow> same_conversions (print_info_in custom lang) i"
  using same_conversions_UTF8 same_conversions_GBK same_conversions_English by (cases lang) simp_all

section \<open>Properties\<close>

text \<open>C23. The messages in every language \<open>cm_backtrace\<close> comes with. Arguments that fit the English text of a message fit the others:
  each is printed, once and in the same order, and nothing of the text is lost; and the two Chinese tables are well-formed and
  say the same, character by character, as far as the ASCII characters and the places of the Chinese ones go.\<close>

theorem messages_agree_in_every_language:
  assumes "lang \<noteq> CMB_PRINT_LANGUAGE_CUSTOM" and "arg_texts (conversions (format_pieces (print_info i))) args = Some ts"
  shows "c_format (print_info_in custom lang i) args = fill (format_pieces (print_info_in custom lang i)) ts \<and>
    conversions (format_pieces (print_info_in custom lang i)) = conversions (format_pieces (print_info i)) \<and>
    (\<exists>gs. gbk_glyphs (print_info_zh_CN i) = Some gs \<and> utf8_glyphs (print_info_zh_CN_UTF8 i) = Some gs)"
  using all_same_conversions [OF assms(1), of custom i] all_same_layout [of i] assms(2) c_format_fill
  by (auto simp: same_conversions_def same_layout_def)

theorem messages_agree_in_every_language_witness:
  "c_format (print_info_in print_info CMB_PRINT_LANGUAGE_CHINESE PRINT_CALL_STACK_INFO) [Str [1], Str [2], Num 1, Str [3, 4]] =
     fill (format_pieces (print_info_in print_info CMB_PRINT_LANGUAGE_CHINESE PRINT_CALL_STACK_INFO)) [[1], [2], [3]] \<and>
   conversions (format_pieces (print_info_in print_info CMB_PRINT_LANGUAGE_CHINESE PRINT_CALL_STACK_INFO)) =
     conversions (format_pieces (print_info PRINT_CALL_STACK_INFO)) \<and>
   (\<exists>gs. gbk_glyphs (print_info_zh_CN PRINT_CALL_STACK_INFO) = Some gs \<and>
     utf8_glyphs (print_info_zh_CN_UTF8 PRINT_CALL_STACK_INFO) = Some gs)"
  by (rule messages_agree_in_every_language) simp_all

end
