(* ===== verification/Spec2Isabelle.thy ===== *)
theory Spec2Isabelle
  imports Web_Socket_Spec Mqtt_Limits Session_Blocks Mqtt_Client Http_Cut Ota_Xip Pico_Logger_Run Pico_Sleep Cm_Dump Cmb_Languages
begin

text \<open>
  A model of \<open>pico_https\<close>, the TLS, HTTP, WebSocket, MQTT, firmware-update and logging libraries for the
  Raspberry Pi Pico, and the theorems that make it correct.

  \<^bold>\<open>The program.\<close> A \<open>Listener\<close> or \<open>TLSListener\<close> (\<open>pico_tls\<close>) accepts clients and hands them to a
  factory, which builds an \<open>HTTPSession\<close> (\<open>pico_http\<close>) over a \<open>Session\<close>. A \<open>Session\<close> wraps a lwIP
  connection, plain or TLS: it splits what is sent into pieces mbedTLS can encrypt, delivers what is received
  segment by segment through \<open>ISessionCallback\<close>, and aborts its connection when it is closed. \<open>HTTPSession\<close> parses a request in
  place with \<open>HTTPHeader\<close>, may accept a WebSocket and then decodes frames with \<open>WebSocketHandler\<close>;
  \<open>HTTPRequest\<close> is the client. \<open>MQTTSocketHandler\<close> (\<open>pico_simple_mqtt\<close>) decodes and encodes MQTT 3.1.1 over any
  \<open>ISessionSender\<close>. \<open>UpgradeHelper\<close> (\<open>pico_simple_ota\<close>) stores a UF2 file in the upper half of the flash and
  copies it over the program. \<open>pico_logger\<close> sends messages over UDP, diagnoses faults, restarts a program that hangs, and
  reports the call stack of a crash after the restart. \<open>pico_sleep\<close> switches the processor off until an alarm or a pin
  wakes it up.

  \<^bold>\<open>How it is modelled.\<close> One record per object, one definition per method, in the order of the code. Machine
  integers keep their width (\<^typ>\<open>8 word\<close> to \<^typ>\<open>64 word\<close>) where they can wrap; buffers are byte lists with checked access,
  so that \<^const>\<open>None\<close> as a result is an access out of bounds, a null pointer or a deleted object. Loops that may
  not end are \<open>partial_function (option)\<close> without fuel, so that \<^const>\<open>None\<close> is also a loop that does not
  return, and every theorem that says \<^const>\<open>Some\<close> proves termination; where a theorem says that a loop never ends, the rounds of
  the loop are a relation, so that it is not mistaken for an access out of bounds. The code below and above (lwIP, mbedTLS, the
  flash of the SDK, the application's callbacks) is a record of functions the definitions take as an argument, over a
  state of its own; calls of \<open>trace\<close> are left out except in the logger.

  \<^bold>\<open>The theories\<close>, each a model and, in a theory of its own, what holds of it:

  \<^item> \<open>Prelude\<close>: byte memories and words. \<open>C_Text\<close>: \<open>snprintf\<close> and the number formats. \<open>Stream_Decoder\<close>: what a
    decoder of a byte stream owes to its specification under every segmentation, a locale. \<open>Session_Interface\<close>:
    \<open>ISessionSender\<close>, and the contract of a connection that takes what it is sent, a locale.
  \<^item> \<open>Web_Socket\<close> (\<open>websocket_handler.h/.cpp\<close>). \<open>Web_Socket_Spec\<close>: the byte-wise frame automaton, the refinement of it by
    \<open>decodeData\<close>, round trips with RFC 6455 frames and with \<open>encodeData\<close>, memory safety.
  \<^item> \<open>Mqtt\<close> (\<open>mqtt_handler.cpp\<close>, receiving). \<open>Mqtt_Spec\<close>: the packet grammar as an automaton and the refinement.
    \<open>Mqtt_Messages\<close>: broker messages and their round trip. \<open>Mqtt_Limits\<close>: memory safety of one round, and the inputs that
    make the loop hang or wait for ever.
  \<^item> \<open>Mqtt_Send\<close> (\<open>mqtt_handler.cpp\<close>, sending). \<open>Mqtt_Send_Spec\<close>: the packets byte for byte, the round trip with the
    receiver, the keep-alive, memory safety.
  \<^item> \<open>Http_Header\<close> (\<open>http_header.h/.cpp\<close>). \<open>Http_Header_Spec\<close>: memory safety of the in-place parser and the round trip with
    rendered requests.
  \<^item> \<open>Mbedtls_Wrapper\<close>, \<open>Http_Session\<close> (\<open>http_session.h/.cpp\<close>). \<open>Http_Session_Spec\<close>: the handshake and the frames behind it,
    replies, and the session as a client of any connection that keeps the contract.
  \<^item> \<open>Http_Request\<close> (\<open>http_request.h/.cpp\<close>). \<open>Http_Request_Spec\<close>: the 1002-byte buffer stays inside its bounds, the bytes on
    the wire, and the round trip with \<open>HTTPHeader\<close>.
  \<^item> \<open>Session\<close> (\<open>session.h/.cpp\<close>). \<open>Session_Spec\<close>: the locale of a lwIP and an application that leave the session's invariant alone,
    the step relation of a session and its invariant, which only a connection opened on a closed session breaks (a late answer of
    the resolver, which the code does not expect). \<open>Session_Trace\<close>: a recording lwIP, interpretations, and what is
    sent, received and closed. \<open>Session_Blocks\<close>: the locale of a lwIP whose control blocks have a life time and of an application
    that keeps to the session's, closed under applications built of calls of the session; no block is used after its end, except
    where the application connects the session anew while it receives. \<open>Session_Wire\<close>: \<open>Session\<close> keeps the contract of
    \<open>Session_Interface\<close>, and a locale of users of a session that take what arrives, however it is cut into pbufs and chains.
  \<^item> \<open>Http_Over_Session\<close>: the composition. An \<open>HTTPRequest\<close> reaches lwIP through
    its session, and WebSocket messages of a server reach the peer's decoder. \<open>Web_Server\<close>: the server as a whole, an \<open>HTTPSession\<close>
    as the callback of its session, from the pbuf chains of lwIP to the application and to the reply on the wire. \<open>Server_Life\<close>: its
    connections from the listener that accepts them to their deletion. \<open>Http_Exchange\<close>: client and server together, a request with a
    body and its reply from the caller of one side to the application of the other and back. \<open>Http_Cut\<close>: what the parser accepts, and
    that a header in two pieces ends the connection. \<open>Mqtt_Client\<close>: the MQTT client as a whole, a
    \<open>MQTTSocketHandler\<close> as the callback of its session and over it, with a locale of applications that react on what they are told.
  \<^item> \<open>Listener\<close> (\<open>listener.cpp\<close>, \<open>tls_listener.cpp\<close>).
  \<^item> \<open>Ota\<close> (\<open>upgrade_helper.h/.cpp\<close>, \<open>uf2.h\<close>). \<open>Ota_Flash\<close>: locales of a flash device and of one that works, the RP2040 as their
    instance, byte-wise storing and confinement. \<open>Ota_Image\<close>: images and UF2 files. \<open>Ota_Return\<close>: uploads for which \<open>storeData\<close>
    returns. \<open>Ota_Upgrade\<close>: what an upload and the two loops
    of the upgrade do to the flash. \<open>Ota_Xip\<close>: \<open>upgrade_binary\<close> with the interface of the flash and the boot ROM, a locale
    interpreted on both chips: an upload followed by an upgrade installs the image.
  \<^item> \<open>Cmb_Messages\<close> (\<open>cmb_en_US.h\<close>, the processors), \<open>Cmb_Registers\<close> (\<open>cmb_def.h\<close> and the fault diagnosis) and \<open>Cm_Backtrace\<close>
    (\<open>cm_backtrace.c\<close>). \<open>Cm_Backtrace_Spec\<close>: the return addresses a scan of the stack finds, and how they are printed.
    \<open>Cm_Fault_Spec\<close>: the diagnosis against the registers of the ARM manual, and the report of a fault. \<open>Cm_Dump\<close>: the dump of the
    stack and its bounds. \<open>Cmb_Languages\<close>: the Chinese tables (\<open>cmb_zh_CN.h\<close>, \<open>cmb_zh_CN_UTF8.h\<close>), and what a translation owes to the
    calls of \<open>cmb_println\<close>.
  \<^item> \<open>Pico_Logger\<close> (\<open>pico_logger.c\<close>). \<open>Pico_Logger_Spec\<close>: the datagrams, and the way of a call stack from the crash over the
    restart to the log. \<open>Pico_Logger_Run\<close>: runs of all calls, timer ticks and interrupts; the logger stays in order, and the
    watchdog fires exactly when it is not fed any more.
  \<^item> \<open>Pico_Sleep\<close> (\<open>pico_sleep.c\<close>): deep sleep, and what it owes to the power manager, a locale.

  \<^bold>\<open>Bounds.\<close> No fuel is used. Lengths of received data are bounded by 2 to the 32 where the code computes with \<open>size_t\<close>; the stack
  that is scanned ends at least four bytes below the end of the address space, or the loop over it would not end.
  Headers stay below 64 KiB where the 16-bit header size is read. The length of a logged text is a natural number, so that texts of
  2 GiB or more, for which \<open>snprintf\<close> has no result, are outside the model. \<open>HTTPSession\<close> has the \<open>onFinishedPacket\<close> of its base
  class, and \<open>HTTPRequest\<close> starts in state \<open>INIT\<close> where a theorem says so, since its constructor does not set one.

  \<^bold>\<open>Not modelled.\<close> Trace output outside the logger, the allocator (an allocation succeeds, except for a pbuf of the logger), the
  assembly fault handlers, which only pass two registers on, and the thread stacks of \<open>cm_backtrace\<close> under an operating system, which read kernel
  structures that are not in the repository and do not compile: their variables are commented out in \<open>cm_backtrace.c\<close>. One of
  them, \<open>on_thread_before_fault\<close>, is an argument of the dump of the stack, which is modelled. SHA-1, Base64, lwIP, the
  flash, the boot ROM and the power manager are parameters; the hypotheses on them are their documented behaviour and are shown to
  be satisfiable by the witnesses.
\<close>

end
